(* ===== verification/Prelude.thy ===== *)
theory Prelude
  imports Main "HOL-Library.Word" "HOL-Library.List_Lexorder" "HOL-Library.Product_Lexorder"
begin

section \<open>Prelude: Rust integers, results, slices and iterators\<close>

text \<open>
  The vocabulary every component shares. Fixed-width integers are words, whose \<open>+\<close>,
  \<open>-\<close> and \<open>*\<close> wrap as the release profile of the crates does (their \<open>Cargo.toml\<close> does
  not enable overflow checks); \<open>usize\<close> is \<open>nat\<close>. A \<open>Result\<close> is a sum with the error
  on the left. The operations of the Rust standard library that the crates call
  (\<open>saturating_add\<close>, \<open>to_be_bytes\<close>, \<open>min_by_key\<close>, \<open>position\<close>, \<open>chunks\<close>, \<open>div_ceil\<close>)
  are defined once here, with the lemmas the component theories use.

  Two locales state the contracts that recur: a machine whose steps keep an
  invariant, and a codec whose decoder inverts its encoder.
\<close>

unbundle bit_operations_syntax

type_synonym u8 = "8 word"
type_synonym u16 = "16 word"
type_synonym u32 = "32 word"
type_synonym u64 = "64 word"
type_synonym bytes = "u8 list"
type_synonym time = u64

named_theorems codec_simps \<open>equations that evaluate the byte codecs\<close>
named_theorems inv_defs \<open>definitions of component invariants\<close>

subsection \<open>Saturating arithmetic\<close>

definition sat_add :: "'a::len word \<Rightarrow> 'a word \<Rightarrow> 'a word" where
  "sat_add a b = (if a \<le> a + b then a + b else - 1)"

definition sat_sub :: "'a::len word \<Rightarrow> 'a word \<Rightarrow> 'a word" where
  "sat_sub a b = (if b \<le> a then a - b else 0)"

definition u64_MAX :: u64 where
  "u64_MAX = - 1"

lemma unat_sat_sub: "unat (sat_sub a b) = unat a - unat b"
  by (auto simp: sat_sub_def word_le_nat_alt unat_sub)

lemma sat_sub_self [simp]: "sat_sub a a = 0"
  by (simp add: sat_sub_def)

lemma sat_sub_zero_right [simp]: "sat_sub a 0 = a"
  by (simp add: sat_sub_def)

lemma no_wrap_iff: "a \<le> a + b \<longleftrightarrow> unat a + unat b < 2 ^ LENGTH('a)"
  for a b :: "'a::len word"
  by (metis word_le_nat_alt no_olen_add_nat word_le_def)

lemma unat_sat_add: "unat (sat_add a b) = min (unat a + unat b) (2 ^ LENGTH('a) - 1)"
  for a b :: "'a::len word"
proof (cases "a \<le> a + b")
  case True
  then have "unat a + unat b < 2 ^ LENGTH('a)" by (simp add: no_wrap_iff)
  with True show ?thesis by (simp add: sat_add_def unat_add_lem [THEN iffD1])
next
  case False
  then have "\<not> unat a + unat b < 2 ^ LENGTH('a)" by (simp add: no_wrap_iff)
  with False show ?thesis 
    by (simp add: sat_add_def unsigned_minus_1_eq_mask mask_eq_exp_minus_1)
qed

lemma sat_add_ge: "a \<le> sat_add a b"
  by (simp add: sat_add_def)

lemma sat_add_one_gt_zero [simp]: "sat_add a 1 \<noteq> 0"
  for a :: "'a::len word"
proof -
  have "1 < (2::nat) ^ LENGTH('a)" by (rule one_less_power) simp_all
  then have "0 < unat (sat_add a 1)" by (simp add: unat_sat_add)
  then show ?thesis by auto
qed

lemma sat_add_0_right [simp]: "sat_add a 0 = a"
  by (simp add: sat_add_def)

subsection \<open>Results\<close>

definition res_bind :: "'e + 'a \<Rightarrow> ('a \<Rightarrow> 'e + 'b) \<Rightarrow> 'e + 'b" where
  "res_bind r f = (case r of Inl e \<Rightarrow> Inl e | Inr x \<Rightarrow> f x)"

definition is_ok :: "'e + 'a \<Rightarrow> bool" where
  "is_ok r = (case r of Inl _ \<Rightarrow> False | Inr _ \<Rightarrow> True)"

definition ok_or :: "'a option \<Rightarrow> 'e \<Rightarrow> 'e + 'a" where
  "ok_or x e = (case x of None \<Rightarrow> Inl e | Some y \<Rightarrow> Inr y)"

lemma res_bind_simps [simp]:
  "res_bind (Inl e) f = Inl e" "res_bind (Inr x) f = f x"
  by (simp_all add: res_bind_def)

lemma is_ok_simps [simp]: "\<not> is_ok (Inl e)" "is_ok (Inr x)"
  by (simp_all add: is_ok_def)

lemma ok_or_simps [simp]: "ok_or None e = Inl e" "ok_or (Some x) e = Inr x"
  by (simp_all add: ok_or_def)

lemma res_bind_Inr_iff: "res_bind r f = Inr y \<longleftrightarrow> (\<exists>x. r = Inr x \<and> f x = Inr y)"
  by (cases r) auto

text \<open>
  A method that takes \<open>&mut self\<close> and returns a \<open>Result\<close> is a function from the state to
  the state and the result; an early return keeps the changes made so far.
\<close>

type_synonym ('s, 'e, 'a) meth = "'s \<Rightarrow> 's \<times> ('e + 'a)"

definition m_bind ::
  "('s, 'e, 'a) meth \<Rightarrow> ('a \<Rightarrow> ('s, 'e, 'b) meth) \<Rightarrow> ('s, 'e, 'b) meth" where
  "m_bind m f s = (case m s of (s', Inl e) \<Rightarrow> (s', Inl e) | (s', Inr x) \<Rightarrow> f x s')"

definition m_ok :: "'a \<Rightarrow> ('s, 'e, 'a) meth" where
  "m_ok x s = (s, Inr x)"

definition m_err :: "'e \<Rightarrow> ('s, 'e, 'a) meth" where
  "m_err e s = (s, Inl e)"

definition m_lift :: "'e + 'a \<Rightarrow> ('s, 'e, 'a) meth" where
  "m_lift r s = (s, r)"

definition m_gets :: "('s \<Rightarrow> 'a) \<Rightarrow> ('s, 'e, 'a) meth" where
  "m_gets f s = (s, Inr (f s))"

definition m_modify :: "('s \<Rightarrow> 's) \<Rightarrow> ('s, 'e, unit) meth" where
  "m_modify f s = (f s, Inr ())"

definition m_when :: "bool \<Rightarrow> 'e \<Rightarrow> ('s, 'e, unit) meth" where
  "m_when bad e = (if bad then m_err e else m_ok ())"

lemma m_bind_Inr: "m s = (s', Inr x) \<Longrightarrow> m_bind m f s = f x s'"
  by (simp add: m_bind_def)

lemma m_bind_Inl: "m s = (s', Inl e) \<Longrightarrow> m_bind m f s = (s', Inl e)"
  by (simp add: m_bind_def)

lemma m_simps [simp]:
  "m_bind (m_ok x) f s = f x s" "m_bind (m_err e) f' s = (s, Inl e)"
  "m_bind (m_lift (Inr x)) f s = f x s" "m_bind (m_lift (Inl e)) f s = (s, Inl e)"
  "m_bind (m_gets g) f'' s = f'' (g s) s" "m_bind (m_modify h) k s = k () (h s)"
  "m_bind (m_when False e) k s = k () s" "m_bind (m_when True e) k s = (s, Inl e)"
  "m_ok x s = (s, Inr x)" "m_err e s = (s, Inl e)" "m_lift r s = (s, r)" "m_gets g s = (s, Inr (g s))"
  "m_modify h s = (h s, Inr ())"
  by (simp_all add: m_bind_def m_ok_def m_err_def m_lift_def m_gets_def m_modify_def m_when_def)

lemma m_bind_assoc: "m_bind (m_bind m f) g = m_bind m (\<lambda>x. m_bind (f x) g)"
  by (auto simp: m_bind_def fun_eq_iff split: prod.split sum.split)

lemma m_bind_ResE:
  assumes "m_bind m f s = (s', Inr y)"
  obtains s1 x where "m s = (s1, Inr x)" "f x s1 = (s', Inr y)"
  using assms by (auto simp: m_bind_def split: prod.splits sum.splits)

lemma m_when_Inr: "m_when b e s = (s', Inr u) \<longleftrightarrow> \<not> b \<and> s' = s"
  by (auto simp: m_when_def m_err_def m_ok_def)

text \<open>
  Weakest preconditions: \<open>wp m Q E s\<close> holds when \<open>m\<close> run from \<open>s\<close> either returns a value
  and a state in \<open>Q\<close> or returns an error and leaves a state in \<open>E\<close>.
\<close>

definition wp :: "('s, 'e, 'a) meth \<Rightarrow> ('a \<Rightarrow> 's \<Rightarrow> bool) \<Rightarrow> ('s \<Rightarrow> bool) \<Rightarrow> 's \<Rightarrow> bool" where
  "wp m Q E s = (case m s of (s', Inr x) \<Rightarrow> Q x s' | (s', Inl e) \<Rightarrow> E s')"

lemma wp_simps:
  "wp (m_bind m f) Q E s = wp m (\<lambda>x. wp (f x) Q E) E s"
  "wp (m_ok x) Q E s = Q x s" "wp (m_err e) Q E s = E s" "wp (m_gets g) Q E s = Q (g s) s"
  "wp (m_lift r) Q E s = (case r of Inl e \<Rightarrow> E s | Inr x \<Rightarrow> Q x s)"
  "wp (m_modify h) Q' E s = Q' () (h s)" "wp (m_when b e) Q' E s = (if b then E s else Q' () s)"
  by (auto simp: wp_def m_bind_def m_ok_def m_err_def m_gets_def m_lift_def m_modify_def m_when_def
      split: prod.split sum.split)

lemma wp_state: "wp m (\<lambda>_. P) P s = P (fst (m s))"
  by (auto simp: wp_def split: prod.split sum.split)

subsection \<open>Big-endian byte strings\<close>

definition be16 :: "u16 \<Rightarrow> bytes" where
  "be16 w = [ucast (drop_bit 8 w), ucast w]"

definition from_be16 :: "u8 \<Rightarrow> u8 \<Rightarrow> u16" where
  "from_be16 a b = push_bit 8 (ucast a) OR ucast b"

definition be32 :: "u32 \<Rightarrow> bytes" where
  "be32 w = [ucast (drop_bit 24 w), ucast (drop_bit 16 w), ucast (drop_bit 8 w), ucast w]"

definition from_be32 :: "u8 \<Rightarrow> u8 \<Rightarrow> u8 \<Rightarrow> u8 \<Rightarrow> u32" where
  "from_be32 a b c d =
     push_bit 24 (ucast a) OR push_bit 16 (ucast b) OR push_bit 8 (ucast c) OR ucast d"

definition be64 :: "u64 \<Rightarrow> bytes" where
  "be64 w = be32 (ucast (drop_bit 32 w)) @ be32 (ucast w)"

definition from_be64 :: "bytes \<Rightarrow> u64" where
  "from_be64 b =
     push_bit 32 (ucast (from_be32 (b ! 0) (b ! 1) (b ! 2) (b ! 3)))
     OR ucast (from_be32 (b ! 4) (b ! 5) (b ! 6) (b ! 7))"

definition le64 :: "u64 \<Rightarrow> bytes" where
  "le64 w = rev (be64 w)"

lemma length_be16 [simp]: "length (be16 w) = 2"
  by (simp add: be16_def)

lemma length_be32 [simp]: "length (be32 w) = 4"
  by (simp add: be32_def)

lemma from_be16_be16 [simp]: "from_be16 (ucast (drop_bit 8 w)) (ucast w) = w"
  unfolding from_be16_def
  by (rule bit_word_eqI) (auto simp: bit_simps)

lemma bit_u8_high: "8 \<le> n \<Longrightarrow> \<not> bit (b :: 8 word) n"
  by (auto dest: bit_imp_le_length)

lemma be16_from_be16 [simp]: "be16 (from_be16 a b) = [a, b]"
  unfolding be16_def from_be16_def
  by (auto intro!: bit_word_eqI simp: bit_simps bit_u8_high)

lemma from_be32_be32 [simp]:
  "from_be32 (ucast (drop_bit 24 w)) (ucast (drop_bit 16 w)) (ucast (drop_bit 8 w)) (ucast w) = w"
proof (rule bit_word_eqI)
  fix n
  assume "n < LENGTH(32)"
  then have "n < 32" by simp
  consider "n < 8" | "8 \<le> n" "n < 16" | "16 \<le> n" "n < 24" | "24 \<le> n" by linarith
  then show "bit (from_be32 (ucast (drop_bit 24 w)) (ucast (drop_bit 16 w))
      (ucast (drop_bit 8 w)) (ucast w)) n = bit w n"
    using \<open>n < 32\<close> unfolding from_be32_def by cases (auto simp: bit_simps)
qed

lemma be32_from_be32 [simp]: "be32 (from_be32 a b c d) = [a, b, c, d]"
  unfolding be32_def from_be32_def
  by (auto intro!: bit_word_eqI simp: bit_simps bit_u8_high)

lemma length_be64 [simp]: "length (be64 w) = 8"
  by (simp add: be64_def)

lemma from_be64_be64 [simp]: "from_be64 (be64 w) = w"
proof -
  have "push_bit 32 (ucast (ucast (drop_bit 32 w) :: u32)) OR ucast (ucast w :: u32) = w"
    by (rule bit_word_eqI) (auto simp: bit_simps)
  then show ?thesis
    by (simp add: be64_def be32_def from_be64_def)
qed

lemma be64_inject [simp]: "be64 v = be64 w \<longleftrightarrow> v = w"
  by (metis from_be64_be64)

lemma from_be64_halves:
  "be64 (push_bit 32 (ucast (x :: u32)) OR ucast (y :: u32)) = be32 x @ be32 y"
proof -
  have "ucast (drop_bit 32 (push_bit 32 (ucast x) OR ucast y :: u64)) = x"
    by (rule bit_word_eqI) (auto simp: bit_simps dest: bit_imp_le_length)
  moreover have "ucast (push_bit 32 (ucast x) OR ucast y :: u64) = y"
    by (rule bit_word_eqI) (auto simp: bit_simps)
  ultimately show ?thesis by (simp add: be64_def)
qed

lemma be64_from_be64 [simp]: "be64 (from_be64 [a, b, c, d, e, f, g, h]) = [a, b, c, d, e, f, g, h]"
  by (simp add: from_be64_def from_be64_halves)

lemma be16_inject [simp]: "be16 v = be16 w \<longleftrightarrow> v = w"
  unfolding be16_def by (metis from_be16_be16 list.inject)

lemma be32_inject [simp]: "be32 v = be32 w \<longleftrightarrow> v = w"
  unfolding be32_def by (metis from_be32_be32 list.inject)

subsection \<open>Iterators and slices\<close>

text \<open>
  \<open>Iterator::min_by_key\<close> returns the first of several equal minima,
  \<open>Iterator::max_by_key\<close> the last of several equal maxima.
\<close>

fun min_by_key :: "('a \<Rightarrow> 'k::linorder) \<Rightarrow> 'a list \<Rightarrow> 'a option" where
  "min_by_key f [] = None"
| "min_by_key f (x # xs) =
     (case min_by_key f xs of None \<Rightarrow> Some x | Some y \<Rightarrow> if f x \<le> f y then Some x else Some y)"

fun max_by_key :: "('a \<Rightarrow> 'k::linorder) \<Rightarrow> 'a list \<Rightarrow> 'a option" where
  "max_by_key f [] = None"
| "max_by_key f (x # xs) =
     (case max_by_key f xs of None \<Rightarrow> Some x | Some y \<Rightarrow> if f y < f x then Some x else Some y)"

definition list_min :: "'k::linorder list \<Rightarrow> 'k option" where
  "list_min xs = min_by_key id xs"

definition list_max :: "'k::linorder list \<Rightarrow> 'k option" where
  "list_max xs = max_by_key id xs"

fun position :: "('a \<Rightarrow> bool) \<Rightarrow> 'a list \<Rightarrow> nat option" where
  "position p [] = None"
| "position p (x # xs) = (if p x then Some 0 else map_option Suc (position p xs))"

text \<open>The first element that satisfies \<open>p\<close> is replaced by its image (\<open>iter_mut().find\<close>).\<close>

fun update_first :: "('a \<Rightarrow> bool) \<Rightarrow> ('a \<Rightarrow> 'a) \<Rightarrow> 'a list \<Rightarrow> 'a list" where
  "update_first p f [] = []"
| "update_first p f (x # xs) = (if p x then f x # xs else x # update_first p f xs)"

definition remove_at :: "nat \<Rightarrow> 'a list \<Rightarrow> 'a list" where
  "remove_at i xs = take i xs @ drop (Suc i) xs"

definition div_ceil :: "nat \<Rightarrow> nat \<Rightarrow> nat" where
  "div_ceil a b = a div b + (if a mod b = 0 then 0 else 1)"

function chunks :: "nat \<Rightarrow> 'a list \<Rightarrow> 'a list list" where
  "chunks n xs = (if xs = [] \<or> n = 0 then [] else take n xs # chunks n (drop n xs))"
  by pat_completeness auto
termination
  by (relation "measure (\<lambda>(n, xs). length xs)") auto

declare chunks.simps [simp del]

lemma chunks_Nil [simp]: "chunks n [] = []"
  by (simp add: chunks.simps)

lemma min_by_key_None [simp]: "min_by_key f xs = None \<longleftrightarrow> xs = []"
  by (cases xs) (auto split: option.splits)

lemma max_by_key_None [simp]: "max_by_key f xs = None \<longleftrightarrow> xs = []"
  by (cases xs) (auto split: option.splits)

lemma min_by_key_mem: "min_by_key f xs = Some x \<Longrightarrow> x \<in> set xs"
  by (induction xs arbitrary: x) (auto split: option.splits if_splits)

lemma max_by_key_mem: "max_by_key f xs = Some x \<Longrightarrow> x \<in> set xs"
  by (induction xs arbitrary: x) (auto split: option.splits if_splits)

lemma min_by_key_le: "min_by_key f xs = Some x \<Longrightarrow> y \<in> set xs \<Longrightarrow> f x \<le> f y"
  by (induction xs arbitrary: x) (fastforce split: option.splits if_splits)+

lemma max_by_key_ge: "max_by_key f xs = Some x \<Longrightarrow> y \<in> set xs \<Longrightarrow> f y \<le> f x"
  by (induction xs arbitrary: x) (fastforce split: option.splits if_splits)+

lemma position_Some:
  "position p xs = Some i \<longleftrightarrow> i < length xs \<and> p (xs ! i) \<and> (\<forall>j < i. \<not> p (xs ! j))"
proof (induction xs arbitrary: i)
  case Nil
  then show ?case by simp
next
  case (Cons x xs)
  show ?case
  proof (cases i)
    case 0
    then show ?thesis by simp
  next
    case (Suc k)
    then show ?thesis
      using Cons.IH [of k] by (auto simp: less_Suc_eq_0_disj)
  qed
qed

lemma position_None: "position p xs = None \<longleftrightarrow> (\<forall>x \<in> set xs. \<not> p x)"
  by (induction xs) auto

lemma position_Some_lt: "position p xs = Some i \<Longrightarrow> i < length xs"
  by (simp add: position_Some)

lemma position_Some_sat: "position p xs = Some i \<Longrightarrow> p (xs ! i)"
  by (simp add: position_Some)

lemma length_update_first [simp]: "length (update_first p f xs) = length xs"
  by (induction xs) auto

lemma update_first_set: "y \<in> set (update_first p f xs) \<Longrightarrow> y \<in> set xs \<or> (\<exists>x \<in> set xs. p x \<and> y = f x)"
  by (induction xs) (auto split: if_splits)

lemma map_update_first [simp]: "(\<And>x. g (f x) = g x) \<Longrightarrow> map g (update_first p f xs) = map g xs"
  by (induction xs) auto

lemma update_first_id: "(\<forall>x \<in> set xs. \<not> p x) \<Longrightarrow> update_first p f xs = xs"
  by (induction xs) auto

lemma length_remove_at [simp]: "i < length xs \<Longrightarrow> length (remove_at i xs) = length xs - 1"
  by (simp add: remove_at_def)

lemma set_remove_at: "set (remove_at i xs) \<subseteq> set xs"
  by (auto simp: remove_at_def dest: in_set_takeD in_set_dropD)

lemma sum_list_remove_at:
  "i < length xs \<Longrightarrow> sum_list (map f xs) = f (xs ! i) + sum_list (map f (remove_at i xs))"
  for f :: "'a \<Rightarrow> nat"
  by (subst id_take_nth_drop [of i xs]) (simp_all add: remove_at_def)

lemma map_remove_at: "map f (remove_at i xs) = remove_at i (map f xs)"
  by (simp add: remove_at_def take_map drop_map)

lemma distinct_remove_at: "distinct xs \<Longrightarrow> distinct (remove_at i xs)"
  unfolding remove_at_def
  by (auto simp: distinct_append set_take_disj_set_drop_if_distinct)

lemma concat_chunks [simp]: "0 < n \<Longrightarrow> concat (chunks n xs) = xs"
proof (induction n xs rule: chunks.induct)
  case (1 n xs)
  then show ?case by (cases "xs = []") (simp_all add: chunks.simps [of n xs])
qed

lemma chunks_bound: "c \<in> set (chunks n xs) \<Longrightarrow> 0 < length c \<and> length c \<le> n"
proof (induction n xs rule: chunks.induct)
  case (1 n xs)
  show ?case
  proof (cases "xs = [] \<or> n = 0")
    case True
    with "1.prems" show ?thesis by (simp add: chunks.simps [of n xs])
  next
    case False
    with 1 show ?thesis by (auto simp: chunks.simps [of n xs])
  qed
qed

lemma div_ceil_drop:
  assumes "0 < b" and "b \<le> a"
  shows "div_ceil a b = Suc (div_ceil (a - b) b)"
  using assms by (simp add: div_ceil_def le_div_geq le_mod_geq)

lemma length_chunks: "0 < n \<Longrightarrow> length (chunks n xs) = div_ceil (length xs) n"
proof (induction n xs rule: chunks.induct)
  case (1 n xs)
  consider "xs = []" | "xs \<noteq> []" "length xs < n" | "xs \<noteq> []" "n \<le> length xs" by force
  then show ?case
  proof cases
    case 1
    then show ?thesis by (simp add: chunks.simps [of n xs] div_ceil_def)
  next
    case 2
    then show ?thesis by (simp add: chunks.simps [of n xs] chunks.simps [of n "[]"] div_ceil_def)
  next
    case 3
    with 1 have "length (chunks n (drop n xs)) = div_ceil (length xs - n) n" by auto
    with 3 1 show ?thesis by (simp add: chunks.simps [of n xs] div_ceil_drop)
  qed
qed

subsection \<open>Contracts\<close>

text \<open>
  A component whose operations all keep an invariant keeps it over every sequence of
  operations: the clients of a component rely on this run lemma and not on the
  individual operations.
\<close>

locale invariant_machine =
  fixes step :: "'op \<Rightarrow> 's \<Rightarrow> 's" and inv :: "'s \<Rightarrow> bool"
  assumes step_inv: "inv s \<Longrightarrow> inv (step a s)"
begin

lemma run_inv: "inv s \<Longrightarrow> inv (fold step ops s)"
  by (induction ops arbitrary: s) (auto intro: step_inv)

end

text \<open>
  A wire codec: on well-formed values the decoder returns what was encoded, and what it
  accepts is well-formed. The encoding of well-formed values is then injective, and a
  frame decodes to at most one value.
\<close>

locale codec =
  fixes enc :: "'a \<Rightarrow> bytes" and dec :: "bytes \<Rightarrow> 'e + 'a" and wf :: "'a \<Rightarrow> bool"
  assumes dec_enc: "wf x \<Longrightarrow> dec (enc x) = Inr x"
    and dec_wf: "dec b = Inr x \<Longrightarrow> wf x"
begin

lemma enc_inj: "wf x \<Longrightarrow> wf y \<Longrightarrow> enc x = enc y \<Longrightarrow> x = y"
  by (metis dec_enc sum.inject(2))

lemma dec_image: "dec b = Inr x \<Longrightarrow> dec (enc x) = Inr x"
  by (intro dec_enc dec_wf)

end

text \<open>A codec is canonical when the decoder accepts nothing but encodings.\<close>

locale canonical_codec = codec +
  assumes enc_dec: "dec b = Inr x \<Longrightarrow> enc x = b"
begin

lemma dec_unique: "dec b = Inr x \<Longrightarrow> dec b' = Inr x \<Longrightarrow> b = b'"
  using enc_dec by metis

lemma dec_iff: "dec b = Inr x \<longleftrightarrow> wf x \<and> b = enc x"
  using dec_enc dec_wf enc_dec by metis

end

subsection \<open>Loops\<close>

text \<open>Loops over lists whose body may not return.\<close>

fun ofold :: "('a \<Rightarrow> 's \<Rightarrow> 's option) \<Rightarrow> 'a list \<Rightarrow> 's \<Rightarrow> 's option" where
  "ofold f [] s = Some s"
| "ofold f (x # xs) s = Option.bind (f x s) (\<lambda>s. ofold f xs s)"

end
