(* ===== verification/Protocol.thy ===== *)
theory Protocol
  imports Prelude
begin

section \<open>Protocol constants, enumerations and errors (\<open>protocol/mod.rs\<close>)\<close>

text \<open>
  The numbers and enumerations that appear on the air. Each enumeration is a datatype
  with the constructors of the source, its \<open>repr(u8)\<close> value is \<open>*_to_u8\<close>, and
  \<open>*_from_u8\<close> is the parser of the source.
\<close>

definition PROTOCOL_VERSION :: u8 where "PROTOCOL_VERSION = 1"
definition MAX_FRAME :: nat where "MAX_FRAME = 255"
definition MAX_TTL :: u8 where "MAX_TTL = 255"
definition DEFAULT_TTL :: u8 where "DEFAULT_TTL = 32"
definition DISCOVERY_TTL_STEPS :: "u8 list" where "DISCOVERY_TTL_STEPS = [4, 12, 32]"
definition ADDRESS_LEN :: nat where "ADDRESS_LEN = 8"
definition TAG_LEN :: nat where "TAG_LEN = 16"
definition NET_TAG_LEN :: nat where "NET_TAG_LEN = 4"

datatype packet_type =
    Beacon | Data | Ack | RouteRequest | RouteReply | RouteError | Store | Fetch | Handshake | Control

fun PacketType_to_u8 :: "packet_type \<Rightarrow> u8" where
  "PacketType_to_u8 Beacon = 0"
| "PacketType_to_u8 Data = 1"
| "PacketType_to_u8 Ack = 2"
| "PacketType_to_u8 RouteRequest = 3"
| "PacketType_to_u8 RouteReply = 4"
| "PacketType_to_u8 RouteError = 5"
| "PacketType_to_u8 Store = 6"
| "PacketType_to_u8 Fetch = 7"
| "PacketType_to_u8 Handshake = 8"
| "PacketType_to_u8 Control = 9"

definition PacketType_from_u8 :: "u8 \<Rightarrow> packet_type option" where
  "PacketType_from_u8 v = (let n = v AND 0x0F in
     if n = 0 then Some Beacon
     else if n = 1 then Some Data
     else if n = 2 then Some Ack
     else if n = 3 then Some RouteRequest
     else if n = 4 then Some RouteReply
     else if n = 5 then Some RouteError
     else if n = 6 then Some Store
     else if n = 7 then Some Fetch
     else if n = 8 then Some Handshake
     else if n = 9 then Some Control
     else None)"

fun PacketType_name :: "packet_type \<Rightarrow> string" where
  "PacketType_name Beacon = ''BEACON''"
| "PacketType_name Data = ''DATA''"
| "PacketType_name Ack = ''ACK''"
| "PacketType_name RouteRequest = ''ROUTE_REQUEST''"
| "PacketType_name RouteReply = ''ROUTE_REPLY''"
| "PacketType_name RouteError = ''ROUTE_ERROR''"
| "PacketType_name Store = ''STORE''"
| "PacketType_name Fetch = ''FETCH''"
| "PacketType_name Handshake = ''HANDSHAKE''"
| "PacketType_name Control = ''CONTROL''"

definition PacketType_is_link_local :: "packet_type \<Rightarrow> bool" where
  "PacketType_is_link_local t = (t = Beacon)"

definition ACK_REQUEST :: u8 where "ACK_REQUEST = 1"
definition FRAGMENTED :: u8 where "FRAGMENTED = 2"
definition ENCRYPTED :: u8 where "ENCRYPTED = 4"
definition ENVELOPE :: u8 where "ENVELOPE = 8"
definition STORE_FORWARD :: u8 where "STORE_FORWARD = 16"
definition LEAF_SOURCE :: u8 where "LEAF_SOURCE = 32"
definition GROUP_ENCRYPTED :: u8 where "GROUP_ENCRYPTED = 64"
definition NET_AUTH :: u8 where "NET_AUTH = 128"

lemmas flag_defs = ACK_REQUEST_def FRAGMENTED_def ENCRYPTED_def ENVELOPE_def STORE_FORWARD_def
  LEAF_SOURCE_def GROUP_ENCRYPTED_def NET_AUTH_def

datatype role = Normal | Leaf | Anchor

fun Role_to_u8 :: "role \<Rightarrow> u8" where
  "Role_to_u8 Normal = 0"
| "Role_to_u8 Leaf = 1"
| "Role_to_u8 Anchor = 2"

definition Role_from_u8 :: "u8 \<Rightarrow> role option" where
  "Role_from_u8 v =
     (if v = 0 then Some Normal else if v = 1 then Some Leaf
      else if v = 2 then Some Anchor else None)"

definition Role_relays :: "role \<Rightarrow> bool" where
  "Role_relays r = (r \<noteq> Leaf)"

fun Role_name :: "role \<Rightarrow> string" where
  "Role_name Normal = ''NORMAL''"
| "Role_name Leaf = ''LEAF''"
| "Role_name Anchor = ''ANCHOR''"

datatype reliability = Unreliable | Acknowledged | StoreAndForward

definition SESSION_CLOSE :: u8 where "SESSION_CLOSE = 1"
definition REKEY_REQUEST :: u8 where "REKEY_REQUEST = 2"
definition STORE_ACCEPTED :: u8 where "STORE_ACCEPTED = 3"
definition STORE_REJECTED :: u8 where "STORE_REJECTED = 4"
definition PING :: u8 where "PING = 5"
definition PONG :: u8 where "PONG = 6"
definition MAILBOX_ACK :: u8 where "MAILBOX_ACK = 7"
definition LINK_ACK :: u8 where "LINK_ACK = 8"
definition NO_SESSION :: u8 where "NO_SESSION = 9"
definition TRACE_REQ :: u8 where "TRACE_REQ = 10"
definition TRACE_REP :: u8 where "TRACE_REP = 11"
definition TRACE_MAX_HOPS :: nat where "TRACE_MAX_HOPS = 24"

datatype error =
    Truncated | BadVersion | BadType | BadField | BadTtl | Duplicate | AuthFailed | Replay
  | NoSession | HandshakeState | TooLarge | NoRoute | Full | RoleViolation | Expired | NotFound

type_synonym 'a result = "error + 'a"

subsection \<open>Facts\<close>

lemma PacketType_from_to_u8 [simp]: "PacketType_from_u8 (PacketType_to_u8 t) = Some t"
  by (cases t) (simp_all add: PacketType_from_u8_def Let_def)

lemma PacketType_to_u8_inject [simp]: "PacketType_to_u8 t = PacketType_to_u8 t' \<longleftrightarrow> t = t'"
  by (metis PacketType_from_to_u8 option.inject)

lemma PacketType_to_u8_nibble [simp]: "PacketType_to_u8 t AND 0x0F = PacketType_to_u8 t"
  by (cases t) simp_all

lemma PacketType_from_u8_Some:
  "PacketType_from_u8 v = Some t \<Longrightarrow> PacketType_to_u8 t = v AND 0x0F"
  by (auto simp: PacketType_from_u8_def Let_def split: if_splits)

lemma PacketType_to_u8_le: "PacketType_to_u8 t \<le> 9"
  by (cases t) simp_all

lemma Role_from_to_u8 [simp]: "Role_from_u8 (Role_to_u8 r) = Some r"
  by (cases r) (simp_all add: Role_from_u8_def)

lemma Role_from_u8_Some: "Role_from_u8 v = Some r \<longleftrightarrow> v = Role_to_u8 r"
  by (cases r) (auto simp: Role_from_u8_def)

end
