(* ===== verification/Primitives.thy ===== *)
theory Primitives
  imports Protocol
begin

section \<open>Cryptographic primitives as parameters\<close>

text \<open>
  The hash, MAC, AEAD, Diffie-Hellman and signature functions come from third-party
  crates (\<open>sha2\<close>, \<open>hmac\<close>, \<open>chacha20poly1305\<close>, \<open>x25519-dalek\<close>, \<open>ed25519-dalek\<close>). They
  are the fields of the record \<open>crypto\<close>, which every definition that calls one takes as
  an argument. The predicates below name what the code relies on; each is documented
  behaviour of those crates. \<open>demo_crypto\<close> is a concrete instance on which the
  predicates hold; it is used where a statement that assumes them is evaluated.
\<close>

record crypto =
  sha256 :: "bytes \<Rightarrow> bytes"
  hmac_sha256 :: "bytes \<Rightarrow> bytes \<Rightarrow> bytes"
  aead_encrypt :: "bytes \<Rightarrow> bytes \<Rightarrow> bytes \<Rightarrow> bytes \<Rightarrow> bytes"
  aead_decrypt :: "bytes \<Rightarrow> bytes \<Rightarrow> bytes \<Rightarrow> bytes \<Rightarrow> bytes option"
  x25519_dh :: "bytes \<Rightarrow> bytes \<Rightarrow> bytes"
  x25519_public :: "bytes \<Rightarrow> bytes"
  x25519_contributory :: "bytes \<Rightarrow> bool"
  ed_public :: "bytes \<Rightarrow> bytes"
  ed_scalar :: "bytes \<Rightarrow> bytes"
  ed_valid :: "bytes \<Rightarrow> bool"
  ed_weak :: "bytes \<Rightarrow> bool"
  ed_montgomery :: "bytes \<Rightarrow> bytes"
  ed_sign :: "bytes \<Rightarrow> bytes \<Rightarrow> bytes"
  ed_verify_strict :: "bytes \<Rightarrow> bytes \<Rightarrow> bytes \<Rightarrow> bool"

text \<open>Arguments of the AEAD: key, nonce, associated data, then text. The tag is 16 bytes.\<close>

definition aead_law :: "crypto \<Rightarrow> bool" where
  "aead_law c \<longleftrightarrow>
     (\<forall>k n ad p. aead_decrypt c k n ad (aead_encrypt c k n ad p) = Some p) \<and>
     (\<forall>k n ad p. length (aead_encrypt c k n ad p) = length p + TAG_LEN)"

definition hash_law :: "crypto \<Rightarrow> bool" where
  "hash_law c \<longleftrightarrow> (\<forall>m. length (sha256 c m) = 32) \<and> (\<forall>k m. length (hmac_sha256 c k m) = 32)"

text \<open>Both sides derive the same contributory secret from each other's public keys.\<close>

definition dh_law :: "crypto \<Rightarrow> bool" where
  "dh_law c \<longleftrightarrow>
     (\<forall>a b. x25519_dh c a (x25519_public c b) = x25519_dh c b (x25519_public c a)) \<and>
     (\<forall>a b. x25519_contributory c (x25519_dh c a (x25519_public c b))) \<and>
     (\<forall>a. length (x25519_public c a) = 32)"

text \<open>
  A key derived from a seed is a valid point that is not weak, its signatures verify,
  and the Montgomery form of its public key is the X25519 public key of its scalar.
\<close>

definition sign_law :: "crypto \<Rightarrow> bool" where
  "sign_law c \<longleftrightarrow>
     (\<forall>s. ed_valid c (ed_public c s) \<and> \<not> ed_weak c (ed_public c s)) \<and>
     (\<forall>s. length (ed_public c s) = 32) \<and>
     (\<forall>s m. ed_verify_strict c (ed_public c s) m (ed_sign c s m)) \<and>
     (\<forall>s m. length (ed_sign c s m) = 64) \<and>
     (\<forall>s. ed_montgomery c (ed_public c s) = x25519_public c (ed_scalar c s))"

lemma aead_open_seal: "aead_law c \<Longrightarrow> aead_decrypt c k n ad (aead_encrypt c k n ad p) = Some p"
  by (simp add: aead_law_def)

lemma aead_length: "aead_law c \<Longrightarrow> length (aead_encrypt c k n ad p) = length p + 16"
  by (simp add: aead_law_def TAG_LEN_def)

subsection \<open>A concrete instance\<close>

text \<open>
  Byte strings are folded to a checksum and padded; the AEAD appends a checksum of all
  its inputs, and the Diffie-Hellman of \<open>a\<close> and \<open>b\<close> is their bytewise sum.
\<close>

definition pad_to :: "nat \<Rightarrow> bytes \<Rightarrow> bytes" where
  "pad_to n b = take n b @ replicate (n - length b) 0"

definition checksum :: "bytes \<Rightarrow> u8" where
  "checksum b = fold (\<lambda>x acc. 31 * acc + x + 1) b 7"

definition demo_tag :: "nat \<Rightarrow> bytes list \<Rightarrow> bytes" where
  "demo_tag n bs = replicate n (checksum (concat bs))"

definition demo_crypto :: crypto where
  "demo_crypto = \<lparr>
     sha256 = (\<lambda>m. demo_tag 32 [m]),
     hmac_sha256 = (\<lambda>k m. demo_tag 32 [k, m]),
     aead_encrypt = (\<lambda>k n ad p. p @ demo_tag 16 [k, n, ad, p]),
     aead_decrypt = (\<lambda>k n ad ct.
       if length ct < 16 then None
       else let p = take (length ct - 16) ct
            in if drop (length ct - 16) ct = demo_tag 16 [k, n, ad, p] then Some p else None),
     x25519_dh = (\<lambda>a b. map2 (+) (pad_to 32 a) (pad_to 32 b)),
     x25519_public = pad_to 32,
     x25519_contributory = (\<lambda>s. True),
     ed_public = pad_to 32,
     ed_scalar = pad_to 32,
     ed_valid = (\<lambda>pk. True),
     ed_weak = (\<lambda>pk. False),
     ed_montgomery = pad_to 32,
     ed_sign = (\<lambda>s m. demo_tag 64 [pad_to 32 s, m]),
     ed_verify_strict = (\<lambda>pk m sig. sig = demo_tag 64 [pk, m])\<rparr>"

lemma length_pad_to [simp]: "length (pad_to n b) = n"
  by (simp add: pad_to_def)

lemma pad_to_pad_to [simp]: "pad_to n (pad_to n b) = pad_to n b"
  by (simp add: pad_to_def)

lemma map2_add_commute: "map2 (+) (xs :: 'a::ab_semigroup_add list) ys = map2 (+) ys xs"
  by (induction xs ys rule: list_induct2') (auto simp: add.commute)

lemma demo_crypto_laws:
  "aead_law demo_crypto" "hash_law demo_crypto" "dh_law demo_crypto" "sign_law demo_crypto"
  by (simp_all add: aead_law_def hash_law_def dh_law_def sign_law_def demo_crypto_def demo_tag_def
      TAG_LEN_def Let_def map2_add_commute)

end
