(* ===== verification/Identity.thy ===== *)
theory Identity
  imports Primitives
begin

section \<open>Addresses and identities (\<open>identity/mod.rs\<close>)\<close>

text \<open>
  The 64-bit address with its order, byte and text forms, and the public and full
  identity built from an Ed25519 key. A \<open>VerifyingKey\<close> and a \<open>SigningKey\<close> are their 32
  byte encodings; text is a list of Unicode code points, and \<open>as_bytes\<close> its UTF-8 form.
\<close>

subsection \<open>Addresses\<close>

datatype address = Address u8 u8 u8 u8 u8 u8 u8 u8

fun Address_as_bytes :: "address \<Rightarrow> bytes" where
  "Address_as_bytes (Address a b c d e f g h) = [a, b, c, d, e, f, g, h]"

definition addr_of :: "bytes \<Rightarrow> address" where
  "addr_of b = Address (b ! 0) (b ! 1) (b ! 2) (b ! 3) (b ! 4) (b ! 5) (b ! 6) (b ! 7)"

lemma length_Address_as_bytes [simp]: "length (Address_as_bytes a) = 8"
  by (cases a) simp

lemma addr_of_as_bytes [simp]: "addr_of (Address_as_bytes a) = a"
  by (cases a) (simp add: addr_of_def)

lemma list8_eq: "length b = 8 \<Longrightarrow> b = [b ! 0, b ! 1, b ! 2, b ! 3, b ! 4, b ! 5, b ! 6, b ! 7]"
  by (simp add: list_eq_iff_nth_eq less_Suc_eq numeral_nat all_conj_distrib)

lemma as_bytes_addr_of: "length b = 8 \<Longrightarrow> Address_as_bytes (addr_of b) = b"
  using list8_eq [of b] by (simp add: addr_of_def)

lemma Address_as_bytes_inject [simp]: "Address_as_bytes a = Address_as_bytes b \<longleftrightarrow> a = b"
  by (metis addr_of_as_bytes)

text \<open>The derived order of \<open>[u8; 8]\<close> is lexicographic on the bytes.\<close>

instantiation address :: linorder
begin

definition less_eq_address :: "address \<Rightarrow> address \<Rightarrow> bool" where
  "less_eq_address a b = (Address_as_bytes a \<le> Address_as_bytes b)"

definition less_address :: "address \<Rightarrow> address \<Rightarrow> bool" where
  "less_address a b = (Address_as_bytes a < Address_as_bytes b)"

instance
  by standard (auto simp: less_eq_address_def less_address_def intro: le_neq_trans)

end

definition BROADCAST :: address where
  "BROADCAST = Address 0xFF 0xFF 0xFF 0xFF 0xFF 0xFF 0xFF 0xFF"

definition NULL :: address where
  "NULL = Address 0 0 0 0 0 0 0 0"

definition str_bytes :: "string \<Rightarrow> bytes" where
  "str_bytes s = map of_char s"

definition ADDR_DOMAIN :: bytes where
  "ADDR_DOMAIN = str_bytes ''MeshStar/addr/v1''"

definition Address_from_public_key :: "crypto \<Rightarrow> bytes \<Rightarrow> address" where
  "Address_from_public_key c pk = addr_of (take ADDRESS_LEN (sha256 c (ADDR_DOMAIN @ pk)))"

definition Address_from_bytes :: "bytes \<Rightarrow> address result" where
  "Address_from_bytes b =
     (if length b < ADDRESS_LEN then Inl Truncated else Inr (addr_of (take ADDRESS_LEN b)))"

definition Address_is_broadcast :: "address \<Rightarrow> bool" where
  "Address_is_broadcast a = (a = BROADCAST)"

definition Address_is_null :: "address \<Rightarrow> bool" where
  "Address_is_null a = (a = NULL)"

definition Address_short :: "address \<Rightarrow> u16" where
  "Address_short a = from_be16 (Address_as_bytes a ! 6) (Address_as_bytes a ! 7)"

definition Address_to_u64 :: "address \<Rightarrow> u64" where
  "Address_to_u64 a = from_be64 (Address_as_bytes a)"

definition Address_from_u64 :: "u64 \<Rightarrow> address" where
  "Address_from_u64 v = addr_of (be64 v)"

subsection \<open>Text form\<close>

type_synonym ustring = "u32 list"

definition str_chars :: "string \<Rightarrow> ustring" where
  "str_chars s = map of_char s"

definition is_whitespace :: "u32 \<Rightarrow> bool" where
  "is_whitespace c \<longleftrightarrow>
     (9 \<le> c \<and> c \<le> 13) \<or> c = 0x20 \<or> c = 0x85 \<or> c = 0xA0 \<or> c = 0x1680 \<or> (0x2000 \<le> c \<and> c \<le> 0x200A)
     \<or> c = 0x2028 \<or> c = 0x2029 \<or> c = 0x202F \<or> c = 0x205F \<or> c = 0x3000"

definition trim :: "ustring \<Rightarrow> ustring" where
  "trim s = rev (dropWhile is_whitespace (rev (dropWhile is_whitespace s)))"

definition strip_prefix :: "ustring \<Rightarrow> ustring \<Rightarrow> ustring option" where
  "strip_prefix p s = (if take (length p) s = p then Some (drop (length p) s) else None)"

definition utf8 :: "u32 \<Rightarrow> bytes" where
  "utf8 c =
     (if c < 0x80 then [ucast c]
      else if c < 0x800 then
        [0xC0 OR ucast (drop_bit 6 c), 0x80 OR (ucast c AND 0x3F)]
      else if c < 0x10000 then
        [0xE0 OR ucast (drop_bit 12 c), 0x80 OR (ucast (drop_bit 6 c) AND 0x3F),
         0x80 OR (ucast c AND 0x3F)]
      else
        [0xF0 OR ucast (drop_bit 18 c), 0x80 OR (ucast (drop_bit 12 c) AND 0x3F),
         0x80 OR (ucast (drop_bit 6 c) AND 0x3F), 0x80 OR (ucast c AND 0x3F)])"

definition utf8_bytes :: "ustring \<Rightarrow> bytes" where
  "utf8_bytes s = concat (map utf8 s)"

definition hex_val :: "u8 \<Rightarrow> u8 option" where
  "hex_val c =
     (if 0x30 \<le> c \<and> c \<le> 0x39 then Some (c - 0x30)
      else if 0x61 \<le> c \<and> c \<le> 0x66 then Some (c - 0x61 + 10)
      else if 0x41 \<le> c \<and> c \<le> 0x46 then Some (c - 0x41 + 10)
      else None)"

text \<open>
  The loop over \<open>chunks(2)\<close>. The caller has checked that the text is 16 bytes long, so
  every chunk has two bytes and the one-byte case does not occur.
\<close>

fun hex_pairs :: "bytes \<Rightarrow> bytes result" where
  "hex_pairs [] = Inr []"
| "hex_pairs [_] = Inl BadField"
| "hex_pairs (x # y # rest) =
     res_bind (ok_or (hex_val x) BadField) (\<lambda>hi.
     res_bind (ok_or (hex_val y) BadField) (\<lambda>lo.
     res_bind (hex_pairs rest) (\<lambda>bs. Inr ((push_bit 4 hi OR lo) # bs))))"

definition Address_parse :: "ustring \<Rightarrow> address result" where
  "Address_parse s0 =
     (let s = trim s0;
          hex_part = (case strip_prefix (str_chars ''MS-'') s of Some r \<Rightarrow> r
                      | None \<Rightarrow> (case strip_prefix (str_chars ''ms-'') s of Some r \<Rightarrow> r | None \<Rightarrow> s))
      in if length (utf8_bytes hex_part) \<noteq> ADDRESS_LEN * 2 then Inl BadField
         else res_bind (hex_pairs (utf8_bytes hex_part)) (\<lambda>a. Inr (addr_of a)))"

definition hex_digit :: "u8 \<Rightarrow> u32" where
  "hex_digit n = (if n < 10 then 0x30 + ucast n else 0x61 + (ucast n - 10))"

definition hex_byte :: "u8 \<Rightarrow> ustring" where
  "hex_byte b = [hex_digit (drop_bit 4 b), hex_digit (b AND 0x0F)]"

definition Address_fmt :: "address \<Rightarrow> ustring" where
  "Address_fmt a =
     (if Address_is_broadcast a then str_chars ''MS-BROADCAST''
      else str_chars ''MS-'' @ concat (map hex_byte (Address_as_bytes a)))"

subsection \<open>Identities\<close>

record public_identity =
  pid_verifying :: bytes
  pid_address :: address
  pid_x25519 :: bytes

definition PublicIdentity_from_bytes :: "crypto \<Rightarrow> bytes \<Rightarrow> public_identity result" where
  "PublicIdentity_from_bytes c pk =
     (if \<not> ed_valid c pk then Inl BadField
      else if ed_weak c pk then Inl BadField
      else Inr \<lparr>pid_verifying = pk, pid_address = Address_from_public_key c pk,
                pid_x25519 = ed_montgomery c pk\<rparr>)"

definition PublicIdentity_verify ::
  "crypto \<Rightarrow> public_identity \<Rightarrow> bytes \<Rightarrow> bytes \<Rightarrow> unit result" where
  "PublicIdentity_verify c p msg sig =
     (if ed_verify_strict c (pid_verifying p) msg sig then Inr () else Inl AuthFailed)"

record identity =
  id_signing :: bytes
  id_public :: public_identity
  id_x25519_secret :: bytes

text \<open>\<open>None\<close> is the panic of \<open>expect(''own key is valid'')\<close>.\<close>

definition Identity_from_seed :: "crypto \<Rightarrow> bytes \<Rightarrow> identity option" where
  "Identity_from_seed c seed =
     (let pk = ed_public c seed
      in case PublicIdentity_from_bytes c pk of
           Inl _ \<Rightarrow> None
         | Inr public \<Rightarrow> Some \<lparr>id_signing = seed, id_public = public,
                              id_x25519_secret = ed_scalar c seed\<rparr>)"

definition Identity_address :: "identity \<Rightarrow> address" where
  "Identity_address i = pid_address (id_public i)"

definition Identity_sign :: "crypto \<Rightarrow> identity \<Rightarrow> bytes \<Rightarrow> bytes" where
  "Identity_sign c i msg = ed_sign c (id_signing i) msg"

subsection \<open>Facts\<close>

lemma Address_from_bytes_as_bytes [simp]: "Address_from_bytes (Address_as_bytes a @ rest) = Inr a"
  by (simp add: Address_from_bytes_def ADDRESS_LEN_def)

lemma Address_from_u64_to_u64 [simp]: "Address_from_u64 (Address_to_u64 a) = a"
  by (cases a) (simp add: Address_from_u64_def Address_to_u64_def addr_of_def)

lemma Address_to_u64_from_u64 [simp]: "Address_to_u64 (Address_from_u64 v) = v"
  by (simp add: Address_from_u64_def Address_to_u64_def as_bytes_addr_of)

lemma u8_nibble_cases:
  fixes n :: u8
  assumes "n < 16"
  shows "n \<in> set (map of_nat [0..<16])"
proof -
  have "unat n < 16" using assms by (simp add: word_less_nat_alt)
  then show ?thesis unfolding set_map by (intro image_eqI [of _ _ "unat n"]) simp_all
qed

lemma hex_digit_all:
  "list_all (\<lambda>n. hex_val (ucast (hex_digit n)) = Some n \<and> utf8 (hex_digit n) = [ucast (hex_digit n)]
    \<and> \<not> is_whitespace (hex_digit n)) (map of_nat [0..<16])"
  by code_simp

lemma hex_digit_facts:
  assumes "n < 16"
  shows "hex_val (ucast (hex_digit n)) = Some n \<and> utf8 (hex_digit n) = [ucast (hex_digit n)]
    \<and> \<not> is_whitespace (hex_digit n)"
  using u8_nibble_cases [OF assms] hex_digit_all unfolding list_all_iff by blast

lemma u8_nibbles [simp]: "push_bit 4 (drop_bit 4 b) OR (b AND 0x0F) = b" for b :: u8
proof (rule bit_word_eqI)
  fix i
  assume "i < LENGTH(8)"
  have "(0x0F :: u8) = mask 4" by (simp add: mask_eq_exp_minus_1)
  then show "bit (push_bit 4 (drop_bit 4 b) OR b AND 0x0F) i = bit b i"
    using \<open>i < LENGTH(8)\<close> by (cases "4 \<le> i") (simp_all only: bit_simps, auto)
qed

lemma u8_high_nibble_lt: "drop_bit 4 b < 16" for b :: u8
proof -
  have "unat b < 256" using unsigned_less [of b] by simp
  then show ?thesis by (simp add: word_less_nat_alt drop_bit_eq_div unat_div)
qed

lemma u8_low_nibble_lt: "b AND 0x0F < 16" for b :: u8
  by (rule le_less_trans [of _ "0x0F"]) (simp_all add: word_and_le1)

lemmas nibble_hex = hex_digit_facts [OF u8_high_nibble_lt] hex_digit_facts [OF u8_low_nibble_lt]

lemma utf8_hex_bytes:
  "utf8_bytes (concat (map hex_byte bs)) =
     concat (map (\<lambda>b. [ucast (hex_digit (drop_bit 4 b)), ucast (hex_digit (b AND 0x0F))]) bs)"
  by (induction bs) (simp_all add: utf8_bytes_def hex_byte_def nibble_hex)

lemma hex_pairs_hex_bytes: "hex_pairs (utf8_bytes (concat (map hex_byte bs))) = Inr bs"
  unfolding utf8_hex_bytes by (induction bs) (simp_all add: nibble_hex)

lemma trim_id:
  "s \<noteq> [] \<Longrightarrow> \<not> is_whitespace (hd s) \<Longrightarrow> \<not> is_whitespace (last s) \<Longrightarrow> trim s = s"
  by (simp add: trim_def dropWhile_eq_self_iff [THEN iffD2] hd_rev)

lemma length_utf8_hex: "length (utf8_bytes (concat (map hex_byte bs))) = 2 * length bs"
  unfolding utf8_hex_bytes by (induction bs) simp_all

lemma Address_parse_fmt:
  assumes "a \<noteq> BROADCAST"
  shows "Address_parse (Address_fmt a) = Inr a"
proof -
  let ?hex = "concat (map hex_byte (Address_as_bytes a))"
  have last: "last ?hex = hex_digit ((Address_as_bytes a ! 7) AND 0x0F)" and ne: "?hex \<noteq> []"
    by (cases a; simp add: hex_byte_def)+
  have "trim (str_chars ''MS-'' @ ?hex) = str_chars ''MS-'' @ ?hex"
  proof (rule trim_id)
    show "\<not> is_whitespace (hd (str_chars ''MS-'' @ ?hex))"
      by (simp add: str_chars_def is_whitespace_def)
    show "\<not> is_whitespace (last (str_chars ''MS-'' @ ?hex))"
      unfolding last_appendR [OF ne] last by (simp add: nibble_hex)
  qed (simp add: str_chars_def)
  then show ?thesis
    using assms
    by (simp add: Address_parse_def Address_fmt_def Address_is_broadcast_def strip_prefix_def
        length_utf8_hex hex_pairs_hex_bytes ADDRESS_LEN_def)
qed

lemma Identity_from_seed_ok:
  assumes "sign_law c"
  obtains i where "Identity_from_seed c seed = Some i" "id_signing i = seed"
    "pid_verifying (id_public i) = ed_public c seed"
    "pid_address (id_public i) = Address_from_public_key c (ed_public c seed)"
    "pid_x25519 (id_public i) = x25519_public c (id_x25519_secret i)"
  using assms by (auto simp: sign_law_def Identity_from_seed_def PublicIdentity_from_bytes_def Let_def)

end
