(* ===== verification/Packet.thy ===== *)
theory Packet
  imports Identity
begin

section \<open>The packet format (\<open>packet/mod.rs\<close>)\<close>

text \<open>
  The 31 byte header, the fragment sub-header and the frame codec with its optional
  network access tag. A \<open>NetworkKey\<close> is its 32 bytes. The decoder is shown to be a
  canonical codec for the validated packets of a keyed network, and the associated data
  of a header to bind exactly the fields that relays do not rewrite.
\<close>

definition HEADER_LEN :: nat where "HEADER_LEN = 31"
definition FRAG_HEADER_LEN :: nat where "FRAG_HEADER_LEN = 4"
definition NEXT_HOP_ANY :: u16 where "NEXT_HOP_ANY = 0xFFFF"

definition max_payload :: "bool \<Rightarrow> nat" where
  "max_payload net_auth = MAX_FRAME - HEADER_LEN - (if net_auth then NET_TAG_LEN else 0)"

subsection \<open>Network key\<close>

type_synonym network_key = bytes

definition NetworkKey_from_passphrase :: "crypto \<Rightarrow> bytes \<Rightarrow> bytes \<Rightarrow> network_key" where
  "NetworkKey_from_passphrase c name passphrase =
     sha256 c (str_bytes ''MeshStar/netkey/v1'' @ name @ [0] @ passphrase)"

definition NetworkKey_tag :: "crypto \<Rightarrow> network_key \<Rightarrow> bytes \<Rightarrow> bytes \<Rightarrow> bytes" where
  "NetworkKey_tag c k aad payload =
     (let out = hmac_sha256 c k (aad @ payload) in [out ! 0, out ! 1, out ! 2, out ! 3])"

definition NetworkKey_group_key :: "crypto \<Rightarrow> network_key \<Rightarrow> bytes" where
  "NetworkKey_group_key c k = sha256 c (str_bytes ''MeshStar/groupkey/v1'' @ k)"

subsection \<open>Header\<close>

record header =
  h_ptype :: packet_type
  h_flags :: u8
  h_ttl :: u8
  h_hops :: u8
  h_src :: address
  h_dst :: address
  h_packet_id :: u32
  h_seq :: u16
  h_next_hop :: u16
  h_relay :: u16

record packet_key =
  pk_src :: address
  pk_id :: u32

text \<open>The derived order of packet keys: source first, then id.\<close>

instantiation packet_key_ext :: (linorder) linorder
begin

definition less_eq_packet_key_ext :: "'a packet_key_scheme \<Rightarrow> 'a packet_key_scheme \<Rightarrow> bool" where
  "less_eq_packet_key_ext x y =
     ((pk_src x, pk_id x, packet_key.more x) \<le> (pk_src y, pk_id y, packet_key.more y))"

definition less_packet_key_ext :: "'a packet_key_scheme \<Rightarrow> 'a packet_key_scheme \<Rightarrow> bool" where
  "less_packet_key_ext x y =
     ((pk_src x, pk_id x, packet_key.more x) < (pk_src y, pk_id y, packet_key.more y))"

instance
proof
  fix x y z :: "'a packet_key_scheme"
  let ?k = "\<lambda>x :: 'a packet_key_scheme. (pk_src x, pk_id x, packet_key.more x)"
  note defs = less_eq_packet_key_ext_def less_packet_key_ext_def
  show "x \<le> x" by (simp add: defs)
  show "x < y \<longleftrightarrow> x \<le> y \<and> \<not> y \<le> x" unfolding defs by (rule less_le_not_le)
  show "x \<le> y \<Longrightarrow> y \<le> z \<Longrightarrow> x \<le> z" unfolding defs by (rule order_trans)
  show "x \<le> y \<or> y \<le> x" unfolding defs by (rule linear)
  assume "x \<le> y" "y \<le> x"
  then have "?k x = ?k y" unfolding defs by (rule order.antisym)
  then show "x = y" by (simp add: packet_key.equality)
qed

end

definition Header_new ::
  "packet_type \<Rightarrow> address \<Rightarrow> address \<Rightarrow> u32 \<Rightarrow> u16 \<Rightarrow> u8 \<Rightarrow> header" where
  "Header_new ptype src dst packet_id seq ttl =
     \<lparr>h_ptype = ptype, h_flags = 0, h_ttl = ttl, h_hops = 0, h_src = src, h_dst = dst,
      h_packet_id = packet_id, h_seq = seq, h_next_hop = NEXT_HOP_ANY,
      h_relay = Address_short src\<rparr>"

definition Header_has :: "header \<Rightarrow> u8 \<Rightarrow> bool" where
  "Header_has h flag = (h_flags h AND flag \<noteq> 0)"

definition Header_set :: "header \<Rightarrow> u8 \<Rightarrow> bool \<Rightarrow> header" where
  "Header_set h flag on =
     (if on then h\<lparr>h_flags := h_flags h OR flag\<rparr> else h\<lparr>h_flags := h_flags h AND NOT flag\<rparr>)"

definition Header_key :: "header \<Rightarrow> packet_key" where
  "Header_key h = \<lparr>pk_src = h_src h, pk_id = h_packet_id h\<rparr>"

definition Header_write :: "header \<Rightarrow> u8 \<Rightarrow> bytes" where
  "Header_write h payload_len =
     [push_bit 4 PROTOCOL_VERSION OR PacketType_to_u8 (h_ptype h), h_flags h, h_ttl h, h_hops h]
     @ Address_as_bytes (h_src h) @ Address_as_bytes (h_dst h)
     @ be32 (h_packet_id h) @ be16 (h_seq h) @ be16 (h_next_hop h) @ be16 (h_relay h)
     @ [payload_len]"

definition Header_aad :: "header \<Rightarrow> u8 \<Rightarrow> bytes" where
  "Header_aad h payload_len =
     Header_write (h\<lparr>h_ttl := 0, h_hops := 0, h_next_hop := 0, h_relay := 0\<rparr>) payload_len"

definition Header_parse :: "bytes \<Rightarrow> u8 \<Rightarrow> (header \<times> nat) result" where
  "Header_parse b max_ttl =
     (if length b < HEADER_LEN then Inl Truncated
      else if drop_bit 4 (b ! 0) \<noteq> PROTOCOL_VERSION then Inl BadVersion
      else res_bind (ok_or (PacketType_from_u8 (b ! 0)) BadType) (\<lambda>ptype.
        let ttl = b ! 2; hops = b ! 3
        in if ttl = 0 \<or> ttl > max_ttl then Inl BadTtl
           else if (ucast hops + ucast ttl :: u16) > ucast MAX_TTL then Inl BadTtl
           else res_bind (Address_from_bytes (take 8 (drop 4 b))) (\<lambda>src.
             res_bind (Address_from_bytes (take 8 (drop 12 b))) (\<lambda>dst.
             if Address_is_null src \<or> Address_is_broadcast src \<or> Address_is_null dst
             then Inl BadField
             else Inr (\<lparr>h_ptype = ptype, h_flags = b ! 1, h_ttl = ttl, h_hops = hops,
                        h_src = src, h_dst = dst,
                        h_packet_id = from_be32 (b ! 20) (b ! 21) (b ! 22) (b ! 23),
                        h_seq = from_be16 (b ! 24) (b ! 25),
                        h_next_hop = from_be16 (b ! 26) (b ! 27),
                        h_relay = from_be16 (b ! 28) (b ! 29)\<rparr>, unat (b ! 30))))))"

subsection \<open>Fragment sub-header\<close>

record frag_header =
  fh_frag_id :: u16
  fh_index :: u8
  fh_total :: u8

definition FragHeader_write :: "frag_header \<Rightarrow> bytes" where
  "FragHeader_write h = be16 (fh_frag_id h) @ [fh_index h, fh_total h]"

definition FragHeader_parse :: "bytes \<Rightarrow> frag_header result" where
  "FragHeader_parse b =
     (if length b < FRAG_HEADER_LEN then Inl Truncated
      else let h = \<lparr>fh_frag_id = from_be16 (b ! 0) (b ! 1), fh_index = b ! 2, fh_total = b ! 3\<rparr>
           in if fh_total h = 0 \<or> fh_index h \<ge> fh_total h then Inl BadField else Inr h)"

subsection \<open>Packets\<close>

record packet =
  p_header :: header
  p_payload :: bytes

definition Packet_wire_len :: "packet \<Rightarrow> nat" where
  "Packet_wire_len p = HEADER_LEN + length (p_payload p)
     + (if Header_has (p_header p) NET_AUTH then NET_TAG_LEN else 0)"

definition ct_eq :: "bytes \<Rightarrow> bytes \<Rightarrow> bool" where
  "ct_eq a b =
     (if length a \<noteq> length b then False
      else fold (\<lambda>(x, y) d. d OR (x XOR y)) (zip a b) 0 = 0)"

definition Packet_encode :: "crypto \<Rightarrow> packet \<Rightarrow> network_key option \<Rightarrow> bytes result" where
  "Packet_encode c p net_key =
     (let net_auth = Header_has (p_header p) NET_AUTH;
          plen = (of_nat (length (p_payload p)) :: u8)
      in if net_auth \<and> net_key = None then Inl BadField
         else if length (p_payload p) > max_payload net_auth then Inl TooLarge
         else Inr (Header_write (p_header p) plen @ p_payload p
                   @ (if net_auth
                      then NetworkKey_tag c (the net_key) (Header_aad (p_header p) plen) (p_payload p)
                      else [])))"

definition Packet_decode ::
  "crypto \<Rightarrow> bytes \<Rightarrow> network_key option \<Rightarrow> u8 \<Rightarrow> packet result" where
  "Packet_decode c frame net_key max_ttl =
     (if length frame > MAX_FRAME then Inl TooLarge
      else res_bind (Header_parse frame max_ttl) (\<lambda>(header, plen).
        let net_auth = Header_has header NET_AUTH;
            expected = HEADER_LEN + plen + (if net_auth then NET_TAG_LEN else 0)
        in if length frame \<noteq> expected then Inl Truncated
           else let payload = take plen (drop HEADER_LEN frame)
           in res_bind
                (case net_key of
                   None \<Rightarrow> Inr ()
                 | Some k \<Rightarrow>
                     if \<not> net_auth then Inl AuthFailed
                     else if \<not> ct_eq (NetworkKey_tag c k (Header_aad header (of_nat plen)) payload)
                                     (drop (HEADER_LEN + plen) frame)
                     then Inl AuthFailed else Inr ())
                (\<lambda>_. res_bind
                   (if Header_has header FRAGMENTED
                    then res_bind (FragHeader_parse payload) (\<lambda>_. Inr ()) else Inr ())
                   (\<lambda>_. if PacketType_is_link_local (h_ptype header)
                           \<and> \<not> Address_is_broadcast (h_dst header)
                        then Inl BadField
                        else Inr \<lparr>p_header = header, p_payload = payload\<rparr>))))"

definition Packet_frag_header :: "packet \<Rightarrow> frag_header option" where
  "Packet_frag_header p =
     (if Header_has (p_header p) FRAGMENTED
      then (case FragHeader_parse (p_payload p) of Inr h \<Rightarrow> Some h | Inl _ \<Rightarrow> None)
      else None)"

definition Packet_body :: "packet \<Rightarrow> bytes" where
  "Packet_body p =
     (if Header_has (p_header p) FRAGMENTED
      then drop (min FRAG_HEADER_LEN (length (p_payload p))) (p_payload p)
      else p_payload p)"

subsection \<open>What a decoded packet satisfies\<close>

definition Header_ok :: "u8 \<Rightarrow> header \<Rightarrow> bool" where
  "Header_ok max_ttl h \<longleftrightarrow>
     h_ttl h \<noteq> 0 \<and> h_ttl h \<le> max_ttl \<and> unat (h_hops h) + unat (h_ttl h) \<le> 255 \<and>
     h_src h \<noteq> NULL \<and> h_src h \<noteq> BROADCAST \<and> h_dst h \<noteq> NULL"

definition FragHeader_ok :: "frag_header \<Rightarrow> bool" where
  "FragHeader_ok h \<longleftrightarrow> fh_total h \<noteq> 0 \<and> fh_index h < fh_total h"

definition Packet_ok :: "u8 \<Rightarrow> packet \<Rightarrow> bool" where
  "Packet_ok max_ttl p \<longleftrightarrow>
     Header_ok max_ttl (p_header p) \<and>
     length (p_payload p) \<le> max_payload (Header_has (p_header p) NET_AUTH) \<and>
     (Header_has (p_header p) FRAGMENTED \<longrightarrow> is_ok (FragHeader_parse (p_payload p))) \<and>
     (h_ptype (p_header p) = Beacon \<longrightarrow> h_dst (p_header p) = BROADCAST)"

lemmas packet_len_defs = HEADER_LEN_def FRAG_HEADER_LEN_def MAX_FRAME_def NET_TAG_LEN_def
  ADDRESS_LEN_def max_payload_def

subsection \<open>Header lemmas\<close>

lemma length_Header_write [simp]: "length (Header_write h l) = 31"
  by (simp add: Header_write_def)

lemma length_NetworkKey_tag [simp]: "length (NetworkKey_tag c k a p) = 4"
  by (simp add: NetworkKey_tag_def Let_def)

lemma hops_ttl_u16:
  "(ucast hops + ucast ttl :: u16) > ucast MAX_TTL \<longleftrightarrow> unat hops + unat ttl > 255"
  for hops ttl :: u8
proof -
  have "unat hops < 256" "unat ttl < 256" using unsigned_less [of hops] unsigned_less [of ttl] by simp_all
  then have "unat (ucast hops + ucast ttl :: u16) = unat hops + unat ttl"
    by (simp add: unat_word_ariths unsigned_ucast_eq take_bit_nat_eq_self)
  then show ?thesis by (simp add: word_less_nat_alt MAX_TTL_def)
qed

lemma first_byte:
  "drop_bit 4 (push_bit 4 PROTOCOL_VERSION OR PacketType_to_u8 t) = PROTOCOL_VERSION"
  "PacketType_from_u8 (push_bit 4 PROTOCOL_VERSION OR PacketType_to_u8 t) = Some t"
  by (cases t; simp add: PROTOCOL_VERSION_def PacketType_from_u8_def Let_def)+

lemma first_byte_parts [simp]:
  "drop_bit 4 (PacketType_to_u8 t) = 0" "drop_bit 4 (push_bit 4 PROTOCOL_VERSION) = PROTOCOL_VERSION"
  by (cases t; simp) (simp add: PROTOCOL_VERSION_def)

lemma Header_parse_write:
  assumes "Header_ok max_ttl h"
  shows "Header_parse (Header_write h l @ rest) max_ttl = Inr (h, unat l)"
  using assms
  by (cases "h_src h"; cases "h_dst h")
    (simp add: Header_parse_def Header_write_def Header_ok_def HEADER_LEN_def first_byte be32_def be16_def
      hops_ttl_u16 Address_from_bytes_def ADDRESS_LEN_def addr_of_def Address_is_null_def
      Address_is_broadcast_def Let_def not_less)

lemma take_nth_map: "n \<le> length b \<Longrightarrow> take n b = map ((!) b) [0..<n]"
  by (simp add: list_eq_iff_nth_eq)

lemma Header_parse_Inr:
  assumes "Header_parse b max_ttl = Inr (h, plen)"
  shows "Header_ok max_ttl h" "Header_write h (of_nat plen) = take 31 b" "31 \<le> length b"
    "plen = unat (b ! 30)"
proof -
  from assms have len: "31 \<le> length b" and ver: "drop_bit 4 (b ! 0) = PROTOCOL_VERSION"
    by (auto simp: Header_parse_def HEADER_LEN_def split: if_splits)
  from assms obtain t where t: "PacketType_from_u8 (b ! 0) = Some t"
    by (cases "PacketType_from_u8 (b ! 0)") (auto simp: Header_parse_def split: if_splits)
  have b0: "push_bit 4 PROTOCOL_VERSION OR PacketType_to_u8 t = b ! 0"
    using PacketType_from_u8_Some [OF t] ver u8_nibbles [of "b ! 0"] by metis
  have addr: "Address_from_bytes (take 8 (drop n b)) = Inr (addr_of (take 8 (drop n b)))"
    "Address_as_bytes (addr_of (take 8 (drop n b)))
       = [b ! n, b ! (n+1), b ! (n+2), b ! (n+3), b ! (n+4), b ! (n+5), b ! (n+6), b ! (n+7)]"
    if "n + 8 \<le> 31" for n
    using that len by (simp_all add: Address_from_bytes_def ADDRESS_LEN_def addr_of_def)
  show "31 \<le> length b" by (fact len)
  show "plen = unat (b ! 30)" "Header_ok max_ttl h"
    using assms len ver
    by (auto simp: Header_parse_def Header_ok_def HEADER_LEN_def t addr hops_ttl_u16 Let_def
        Address_is_null_def Address_is_broadcast_def not_less split: if_splits)
  have h: "h = \<lparr>h_ptype = t, h_flags = b ! 1, h_ttl = b ! 2, h_hops = b ! 3,
      h_src = addr_of (take 8 (drop 4 b)), h_dst = addr_of (take 8 (drop 12 b)),
      h_packet_id = from_be32 (b ! 20) (b ! 21) (b ! 22) (b ! 23),
      h_seq = from_be16 (b ! 24) (b ! 25), h_next_hop = from_be16 (b ! 26) (b ! 27),
      h_relay = from_be16 (b ! 28) (b ! 29)\<rparr>"
    using assms len ver
    by (auto simp: Header_parse_def HEADER_LEN_def t addr Let_def split: if_splits)
  show "Header_write h (of_nat plen) = take 31 b"
    unfolding h \<open>plen = unat (b ! 30)\<close>
    by (simp add: Header_write_def b0 addr take_nth_map len upt_rec, simp add: eval_nat_numeral)
qed

lemma Header_aad_hop_fields [simp]:
  "Header_aad (h\<lparr>h_ttl := t\<rparr>) l = Header_aad h l" "Header_aad (h\<lparr>h_hops := n\<rparr>) l = Header_aad h l"
  "Header_aad (h\<lparr>h_next_hop := x\<rparr>) l = Header_aad h l" "Header_aad (h\<lparr>h_relay := r\<rparr>) l = Header_aad h l"
  by (simp_all add: Header_aad_def Header_write_def)

lemma PacketType_byte_inject:
  "push_bit 4 PROTOCOL_VERSION OR PacketType_to_u8 t = push_bit 4 PROTOCOL_VERSION OR PacketType_to_u8 t'
     \<longleftrightarrow> t = t'"
  by (metis first_byte(2) option.inject)

subsection \<open>Fragment sub-header lemmas\<close>

lemma length_FragHeader_write [simp]: "length (FragHeader_write h) = 4"
  by (simp add: FragHeader_write_def)

lemma FragHeader_parse_write:
  "FragHeader_ok h \<Longrightarrow> FragHeader_parse (FragHeader_write h @ rest) = Inr h"
  by (simp add: FragHeader_ok_def FragHeader_parse_def FragHeader_write_def FRAG_HEADER_LEN_def
      be16_def not_le)

lemma FragHeader_parse_Inr:
  "FragHeader_parse b = Inr h \<Longrightarrow> FragHeader_ok h \<and> FragHeader_write h = take 4 b \<and> 4 \<le> length b"
  by (auto simp: FragHeader_ok_def FragHeader_parse_def FragHeader_write_def FRAG_HEADER_LEN_def
      Let_def take_nth_map upt_rec not_le eval_nat_numeral split: if_splits)

interpretation fragh: codec FragHeader_write FragHeader_parse FragHeader_ok
  using FragHeader_parse_write [where rest = "[]"] FragHeader_parse_Inr
  by unfold_locales auto

subsection \<open>The frame codec\<close>

lemma ct_eq_fold: "length a = length b \<Longrightarrow>
    fold (\<lambda>(x, y) d. d OR (x XOR y)) (zip a b) acc = 0 \<longleftrightarrow> acc = 0 \<and> a = b"
  for acc :: u8
proof (induction a b arbitrary: acc rule: list_induct2)
  case (Cons x xs y ys)
  have or0: "u OR v = 0 \<longleftrightarrow> u = 0 \<and> v = 0" for u v :: u8
    by (auto simp: bit_eq_iff bit_simps)
  have "x XOR y = 0 \<longleftrightarrow> x = y" by (metis xor_self_eq xor.assoc xor.left_neutral)
  then show ?case using Cons.IH by (auto simp: or0)
qed simp

lemma ct_eq_iff [simp]: "ct_eq a b \<longleftrightarrow> a = b"
  by (auto simp: ct_eq_def ct_eq_fold)

lemma unat_of_nat_u8: "n < 256 \<Longrightarrow> unat (of_nat n :: u8) = n"
  by (simp add: unat_of_nat take_bit_nat_eq_self)

lemma Packet_decode_encode:
  assumes ok: "Packet_ok max_ttl p"
    and enc: "Packet_encode c p net_key = Inr frame"
    and key: "net_key \<noteq> None \<Longrightarrow> Header_has (p_header p) NET_AUTH"
  shows "Packet_decode c frame net_key max_ttl = Inr p"
proof -
  let ?h = "p_header p" and ?l = "length (p_payload p)"
  have len: "?l \<le> max_payload (Header_has ?h NET_AUTH)" using ok by (simp add: Packet_ok_def)
  then have l: "?l < 256" by (simp add: packet_len_defs split: if_splits)
  from enc have frame: "frame = Header_write ?h (of_nat ?l) @ p_payload p
      @ (if Header_has ?h NET_AUTH
         then NetworkKey_tag c (the net_key) (Header_aad ?h (of_nat ?l)) (p_payload p) else [])"
    by (auto simp: Packet_encode_def Let_def split: if_splits)
  have parse: "Header_parse frame max_ttl = Inr (?h, ?l)"
    unfolding frame using ok l by (simp add: Packet_ok_def Header_parse_write unat_of_nat_u8)
  have "length frame \<le> MAX_FRAME" using len by (simp add: frame packet_len_defs split: if_splits)
  moreover have "drop (HEADER_LEN + ?l) frame = NetworkKey_tag c (the net_key) (Header_aad ?h (of_nat ?l)) (p_payload p)"
    if "Header_has ?h NET_AUTH" using that by (simp add: frame packet_len_defs)
  moreover have "take ?l (drop HEADER_LEN frame) = p_payload p" by (simp add: frame packet_len_defs)
  moreover have "length frame = HEADER_LEN + ?l + (if Header_has ?h NET_AUTH then NET_TAG_LEN else 0)"
    by (simp add: frame packet_len_defs)
  ultimately show ?thesis
    using ok key
    by (auto simp: Packet_decode_def parse Let_def Packet_ok_def PacketType_is_link_local_def
        Address_is_broadcast_def is_ok_def split: option.splits sum.splits)
qed

lemma Packet_decode_Inr:
  assumes "Packet_decode c frame net_key max_ttl = Inr p"
  shows "Packet_ok max_ttl p" "net_key \<noteq> None \<Longrightarrow> Header_has (p_header p) NET_AUTH"
    "net_key \<noteq> None \<or> \<not> Header_has (p_header p) NET_AUTH \<Longrightarrow> Packet_encode c p net_key = Inr frame"
proof -
  have flen: "length frame \<le> MAX_FRAME"
    using assms by (simp add: Packet_decode_def split: if_split_asm)
  with assms obtain h plen where parse0: "Header_parse frame max_ttl = Inr (h, plen)"
    by (cases "Header_parse frame max_ttl") (auto simp: Packet_decode_def)
  let ?pl = "take plen (drop HEADER_LEN frame)"
  let ?tag_ok = "\<lambda>k. Header_has h NET_AUTH \<and> NetworkKey_tag c k (Header_aad h (of_nat plen)) ?pl
      = drop (HEADER_LEN + plen) frame"
  have *: "length frame = HEADER_LEN + plen + (if Header_has h NET_AUTH then NET_TAG_LEN else 0)
     \<and> (\<forall>k. net_key = Some k \<longrightarrow> ?tag_ok k)
     \<and> (Header_has h FRAGMENTED \<longrightarrow> is_ok (FragHeader_parse ?pl))
     \<and> (h_ptype h = Beacon \<longrightarrow> h_dst h = BROADCAST) \<and> p = \<lparr>p_header = h, p_payload = ?pl\<rparr>"
    using assms flen
    unfolding Packet_decode_def parse0 Let_def res_bind_simps case_prod_conv
    by (simp add: res_bind_Inr_iff PacketType_is_link_local_def
        Address_is_broadcast_def is_ok_def split: if_split_asm option.split_asm sum.splits)
  then have parse: "Header_parse frame max_ttl = Inr (p_header p, plen)"
    and pl: "p_payload p = take plen (drop HEADER_LEN frame)"
    and len: "length frame \<le> MAX_FRAME"
      "length frame = HEADER_LEN + plen + (if Header_has (p_header p) NET_AUTH then NET_TAG_LEN else 0)"
    and key: "\<And>k. net_key = Some k \<Longrightarrow> Header_has (p_header p) NET_AUTH \<and>
        NetworkKey_tag c k (Header_aad (p_header p) (of_nat plen)) (p_payload p)
          = drop (HEADER_LEN + plen) frame"
    and frag: "Header_has (p_header p) FRAGMENTED \<Longrightarrow> is_ok (FragHeader_parse (p_payload p))"
    and bcast: "h_ptype (p_header p) = Beacon \<Longrightarrow> h_dst (p_header p) = BROADCAST"
    using parse0 flen by simp_all
  have plen: "length (p_payload p) = plen" using len(2) by (simp add: pl)
  show "Packet_ok max_ttl p"
    using Header_parse_Inr(1) [OF parse] len frag bcast
    by (simp add: Packet_ok_def plen packet_len_defs split: if_splits)
  show "Header_has (p_header p) NET_AUTH" if "net_key \<noteq> None" using that key by blast
  show "Packet_encode c p net_key = Inr frame"
    if "net_key \<noteq> None \<or> \<not> Header_has (p_header p) NET_AUTH"
  proof -
    have parts: "take 31 frame @ p_payload p @ drop (31 + plen) frame = frame"
      by (metis append_take_drop_id drop_drop add.commute pl HEADER_LEN_def)
    moreover have "drop (31 + plen) frame = []" if "\<not> Header_has (p_header p) NET_AUTH"
      using len(2) that by (simp add: packet_len_defs)
    ultimately have plain: "\<not> Header_has (p_header p) NET_AUTH \<Longrightarrow> take 31 frame @ p_payload p = frame"
      by auto
    have "plen \<le> max_payload (Header_has (p_header p) NET_AUTH)"
      using len by (simp add: packet_len_defs split: if_splits)
    then show ?thesis
      using that key Header_parse_Inr(2) [OF parse] parts plain
      by (cases net_key) (auto simp: Packet_encode_def Let_def plen HEADER_LEN_def)
  qed
qed

text \<open>The frame of a packet under a network key, empty when the encoder refuses it.\<close>

definition Packet_frame :: "crypto \<Rightarrow> network_key \<Rightarrow> packet \<Rightarrow> bytes" where
  "Packet_frame c k p = (case Packet_encode c p (Some k) of Inr f \<Rightarrow> f | Inl _ \<Rightarrow> [])"

definition Packet_keyed_ok :: "u8 \<Rightarrow> packet \<Rightarrow> bool" where
  "Packet_keyed_ok max_ttl p \<longleftrightarrow> Packet_ok max_ttl p \<and> Header_has (p_header p) NET_AUTH"

lemma Packet_encode_frame:
  "Packet_keyed_ok max_ttl p \<Longrightarrow> Packet_encode c p (Some k) = Inr (Packet_frame c k p)"
  by (auto simp: Packet_keyed_ok_def Packet_ok_def Packet_frame_def Packet_encode_def Let_def)

interpretation pkt: canonical_codec "Packet_frame c k" "\<lambda>f. Packet_decode c f (Some k) max_ttl"
  "Packet_keyed_ok max_ttl" for c k max_ttl
proof unfold_locales
  fix p f
  show "Packet_keyed_ok max_ttl p \<Longrightarrow> Packet_decode c (Packet_frame c k p) (Some k) max_ttl = Inr p"
    by (rule Packet_decode_encode [OF _ Packet_encode_frame]) (auto simp: Packet_keyed_ok_def)
  assume dec: "Packet_decode c f (Some k) max_ttl = Inr p"
  then show "Packet_keyed_ok max_ttl p"
    using Packet_decode_Inr [OF dec] by (simp add: Packet_keyed_ok_def)
  show "Packet_frame c k p = f"
    using Packet_decode_Inr(3) [OF dec] by (simp add: Packet_frame_def)
qed

text \<open>A concrete data packet with the network tag flag, for evaluation.\<close>

definition sample_packet :: packet where
  "sample_packet =
     \<lparr>p_header = (Header_new Data (Address 1 1 1 1 1 1 1 1) (Address 2 2 2 2 2 2 2 2) 0xDEADBEEF 7 10)
        \<lparr>h_hops := 3, h_flags := NET_AUTH\<rparr>,
      p_payload = [1, 2, 3]\<rparr>"

lemma sample_packet_ok: "Packet_keyed_ok 32 sample_packet"
  by code_simp

subsection \<open>Properties\<close>

text \<open>C14. Frame round trip: a packet that satisfies the header rules, encoded with a network
  key exactly when its flags ask for the tag, is decoded from its frame unchanged.\<close>

theorem Packet_roundtrip:
  assumes "Packet_ok max_ttl p"
    and "Packet_encode c p net_key = Inr frame"
    and "net_key \<noteq> None \<longleftrightarrow> Header_has (p_header p) NET_AUTH"
  shows "Packet_decode c frame net_key max_ttl = Inr p \<and> length frame = Packet_wire_len p"
  using assms Packet_decode_encode [OF assms(1,2)]
  by (auto simp: Packet_encode_def Packet_wire_len_def HEADER_LEN_def NET_TAG_LEN_def Let_def
      split: if_splits)

theorem Packet_roundtrip_witness:
  "Packet_decode demo_crypto (Packet_frame demo_crypto [7] sample_packet) (Some [7]) 32 = Inr sample_packet
   \<and> length (Packet_frame demo_crypto [7] sample_packet) = Packet_wire_len sample_packet"
  by (rule Packet_roundtrip [OF _ Packet_encode_frame [OF sample_packet_ok]])
    (use sample_packet_ok in \<open>simp_all add: Packet_keyed_ok_def\<close>)

text \<open>C8. Keyed network: with a network key the decoder accepts exactly the frames the
  encoder produces, under that key, from validated packets with the tag flag; every other
  byte string is rejected.\<close>

theorem Packet_decode_keyed:
  "Packet_decode c frame (Some k) max_ttl = Inr p \<longleftrightarrow>
     Packet_keyed_ok max_ttl p \<and> Packet_encode c p (Some k) = Inr frame"
  using pkt.dec_iff [of c frame k max_ttl p] Packet_encode_frame [of max_ttl p c k]
  by auto

text \<open>C15. Validation: whatever the bytes and the key, an accepted packet has a positive TTL
  within the node's limit, hops and TTL that stay within the protocol limit, a real source, a
  destination, a payload that fits a frame, a well-formed fragment header when flagged, and the
  broadcast destination when it is a beacon.\<close>

theorem Packet_decode_validates:
  assumes "Packet_decode c frame net_key max_ttl = Inr p"
  shows "Packet_ok max_ttl p"
  using Packet_decode_Inr(1) [OF assms] .

theorem Packet_decode_validates_witness: "Packet_ok 32 sample_packet"
  by (rule Packet_decode_validates [OF pkt.dec_enc [OF sample_packet_ok, of demo_crypto "[7]"]])

text \<open>C16. Associated data: two headers and payload lengths have the same associated data
  exactly when they agree on everything but TTL, hop count, next hop and relay.\<close>

theorem Header_aad_binds:
  "Header_aad h l = Header_aad h' l' \<longleftrightarrow>
     h_ptype h = h_ptype h' \<and> h_flags h = h_flags h' \<and> h_src h = h_src h' \<and> h_dst h = h_dst h' \<and>
     h_packet_id h = h_packet_id h' \<and> h_seq h = h_seq h' \<and> l = l'"
  by (auto simp: Header_aad_def Header_write_def PacketType_byte_inject append_eq_append_conv)

end
