(* ===== verification/SmallMap.thy ===== *)
theory SmallMap
  imports Prelude "HOL-Library.Multiset"
begin

section \<open>Sorted-vector maps and insertion sort (\<open>util.rs\<close>)\<close>

text \<open>
  \<open>SmallMap\<close> is the table every component keeps its state in: a vector of key/value
  pairs sorted by key and searched by bisection. This theory translates it with the
  bisection loop of \<open>slice::binary_search_by\<close>, shows that on a sorted vector every
  operation is the corresponding operation on finite maps, and packages that as the
  locale \<open>key_map\<close>, whose laws are what the other components use. \<open>sort_by_key\<close> is the
  in-place insertion sort of the same file; it is shown to be the stable sort.
  \<open>BTreeMap\<close> of the standard library, used by the relay, has the same laws.
\<close>

subsection \<open>Bisection\<close>

datatype ordering = Less | Equal | Greater

definition cmp :: "'k::linorder \<Rightarrow> 'k \<Rightarrow> ordering" where
  "cmp a b = (if a < b then Less else if a = b then Equal else Greater)"

function bisect :: "(nat \<Rightarrow> ordering) \<Rightarrow> nat \<Rightarrow> nat \<Rightarrow> nat" where
  "bisect f base sz =
     (if sz \<le> 1 then base
      else let half = sz div 2; mid = base + half
           in bisect f (if f mid = Greater then base else mid) (sz - half))"
  by pat_completeness auto
termination
  by (relation "measure (\<lambda>(f, base, sz). sz)") auto

declare bisect.simps [simp del]

definition binary_search_by :: "('a \<Rightarrow> ordering) \<Rightarrow> 'a list \<Rightarrow> nat + nat" where
  "binary_search_by f xs =
     (if xs = [] then Inl 0
      else let base = bisect (\<lambda>i. f (xs ! i)) 0 (length xs)
           in case f (xs ! base) of
                Equal \<Rightarrow> Inr base
              | Less \<Rightarrow> Inl (base + 1)
              | Greater \<Rightarrow> Inl base)"

subsection \<open>The map\<close>

type_synonym ('k, 'v) small_map = "('k \<times> 'v) list"

definition SmallMap_new :: "('k, 'v) small_map" where
  "SmallMap_new = []"

definition SmallMap_find :: "('k::linorder, 'v) small_map \<Rightarrow> 'k \<Rightarrow> nat + nat" where
  "SmallMap_find m k = binary_search_by (\<lambda>(key, _). cmp key k) m"

definition SmallMap_len :: "('k, 'v) small_map \<Rightarrow> nat" where
  "SmallMap_len m = length m"

definition SmallMap_is_empty :: "('k, 'v) small_map \<Rightarrow> bool" where
  "SmallMap_is_empty m = (m = [])"

definition SmallMap_clear :: "('k, 'v) small_map \<Rightarrow> ('k, 'v) small_map" where
  "SmallMap_clear m = []"

definition SmallMap_contains_key :: "('k::linorder, 'v) small_map \<Rightarrow> 'k \<Rightarrow> bool" where
  "SmallMap_contains_key m k = is_ok (SmallMap_find m k)"

definition SmallMap_get :: "('k::linorder, 'v) small_map \<Rightarrow> 'k \<Rightarrow> 'v option" where
  "SmallMap_get m k =
     (case SmallMap_find m k of Inr i \<Rightarrow> Some (snd (m ! i)) | Inl _ \<Rightarrow> None)"

text \<open>
  A caller of \<open>get_mut\<close> that writes through the reference is \<open>SmallMap_modify m k f\<close>,
  where \<open>f\<close> is what it writes; an absent key leaves the map alone.
\<close>

definition SmallMap_modify ::
  "('k::linorder, 'v) small_map \<Rightarrow> 'k \<Rightarrow> ('v \<Rightarrow> 'v) \<Rightarrow> ('k, 'v) small_map" where
  "SmallMap_modify m k f =
     (case SmallMap_find m k of
        Inr i \<Rightarrow> m[i := (fst (m ! i), f (snd (m ! i)))]
      | Inl _ \<Rightarrow> m)"

definition insert_at :: "nat \<Rightarrow> 'a \<Rightarrow> 'a list \<Rightarrow> 'a list" where
  "insert_at i x xs = take i xs @ x # drop i xs"

definition SmallMap_insert ::
  "('k::linorder, 'v) small_map \<Rightarrow> 'k \<Rightarrow> 'v \<Rightarrow> ('k, 'v) small_map \<times> 'v option" where
  "SmallMap_insert m k v =
     (case SmallMap_find m k of
        Inr i \<Rightarrow> (m[i := (fst (m ! i), v)], Some (snd (m ! i)))
      | Inl i \<Rightarrow> (insert_at i (k, v) m, None))"

definition SmallMap_remove ::
  "('k::linorder, 'v) small_map \<Rightarrow> 'k \<Rightarrow> ('k, 'v) small_map \<times> 'v option" where
  "SmallMap_remove m k =
     (case SmallMap_find m k of
        Inr i \<Rightarrow> (remove_at i m, Some (snd (m ! i)))
      | Inl _ \<Rightarrow> (m, None))"

text \<open>\<open>d\<close> is the default of the value type; the result is the map and the value at \<open>k\<close>.\<close>

definition SmallMap_get_or_default ::
  "'v \<Rightarrow> ('k::linorder, 'v) small_map \<Rightarrow> 'k \<Rightarrow> ('k, 'v) small_map \<times> 'v" where
  "SmallMap_get_or_default d m k =
     (case SmallMap_find m k of
        Inr i \<Rightarrow> (m, snd (m ! i))
      | Inl i \<Rightarrow> (let m' = insert_at i (k, d) m in (m', snd (m' ! i))))"

definition SmallMap_keys :: "('k, 'v) small_map \<Rightarrow> 'k list" where
  "SmallMap_keys m = map fst m"

definition SmallMap_values :: "('k, 'v) small_map \<Rightarrow> 'v list" where
  "SmallMap_values m = map snd m"

definition SmallMap_map_values :: "('v \<Rightarrow> 'v) \<Rightarrow> ('k, 'v) small_map \<Rightarrow> ('k, 'v) small_map" where
  "SmallMap_map_values f m = map (\<lambda>(k, v). (k, f v)) m"

definition SmallMap_retain ::
  "('k \<Rightarrow> 'v \<Rightarrow> bool) \<Rightarrow> ('k, 'v) small_map \<Rightarrow> ('k, 'v) small_map" where
  "SmallMap_retain f m = filter (\<lambda>(k, v). f k v) m"

definition SmallMap_from_iter :: "('k::linorder \<times> 'v) list \<Rightarrow> ('k, 'v) small_map" where
  "SmallMap_from_iter kvs = fold (\<lambda>(k, v) m. fst (SmallMap_insert m k v)) kvs SmallMap_new"

abbreviation sm_put :: "('k::linorder, 'v) small_map \<Rightarrow> 'k \<Rightarrow> 'v \<Rightarrow> ('k, 'v) small_map" where
  "sm_put m k v \<equiv> fst (SmallMap_insert m k v)"

abbreviation sm_del :: "('k::linorder, 'v) small_map \<Rightarrow> 'k \<Rightarrow> ('k, 'v) small_map" where
  "sm_del m k \<equiv> fst (SmallMap_remove m k)"

subsection \<open>Insertion sort\<close>

fun sift :: "('a \<Rightarrow> 'k::linorder) \<Rightarrow> nat \<Rightarrow> 'a list \<Rightarrow> 'a list" where
  "sift key 0 v = v"
| "sift key (Suc j) v =
     (if key (v ! j) > key (v ! Suc j)
      then sift key j (v[j := v ! Suc j, Suc j := v ! j]) else v)"

definition sort_by_key :: "('a \<Rightarrow> 'k::linorder) \<Rightarrow> 'a list \<Rightarrow> 'a list" where
  "sort_by_key key v = fold (sift key) [1..<length v] v"

subsection \<open>Correctness of the bisection\<close>

definition sm_wf :: "('k::linorder, 'v) small_map \<Rightarrow> bool" where
  "sm_wf m = sorted_wrt (<) (map fst m)"

lemma cmp_simps [simp]:
  "cmp a b = Less \<longleftrightarrow> a < b" "cmp a b = Equal \<longleftrightarrow> a = b" "cmp a b = Greater \<longleftrightarrow> b < a"
  by (auto simp: cmp_def)

text \<open>
  The loop keeps: the key at \<open>base\<close> is not above the target (unless \<open>base\<close> is 0) and
  every key from \<open>base + size\<close> on is above it.
\<close>

lemma bisect_bounds:
  assumes "0 < sz" "base + sz \<le> n"
    and "base = 0 \<or> key base \<le> k"
    and "\<forall>i. base + sz \<le> i \<and> i < n \<longrightarrow> k < key i"
    and "\<forall>i j. i < j \<and> j < n \<longrightarrow> key i < key j"
  shows "let b = bisect (\<lambda>i. cmp (key i) k) base sz
         in b < n \<and> (b = 0 \<or> key b \<le> k) \<and> (\<forall>i. b < i \<and> i < n \<longrightarrow> k < key i)"
  using assms
proof (induction "\<lambda>i. cmp (key i) k" base sz rule: bisect.induct)
  case (1 base sz)
  show ?case
  proof (cases "sz \<le> 1")
    case True
    with 1(2) have "sz = 1" by simp
    with 1(3-) show ?thesis by (simp add: bisect.simps Let_def Suc_le_eq)
  next
    case False
    define half where "half = sz div 2"
    define mid where "mid = base + half"
    define base' where "base' = (if cmp (key mid) k = Greater then base else mid)"
    from False have half: "0 < half" "half < sz" "sz - half \<ge> half" by (auto simp: half_def)
    have mid: "mid < n" using half 1(3) by (simp add: mid_def)
    have up: "k < key i" if "base' + (sz - half) \<le> i" "i < n" for i
    proof (cases "k < key mid")
      case True
      then have "mid \<le> i" using that half by (simp add: base'_def mid_def)
      with that 1(6) have "key mid \<le> key i" by (cases "mid = i") (auto simp: less_imp_le)
      with True show ?thesis by simp
    next
      case False
      then have "base + sz \<le> i" using that half by (simp add: base'_def mid_def)
      with that 1(5) show ?thesis by blast
    qed
    have ge: "base' = 0 \<or> key base' \<le> k" using 1(4) by (auto simp: base'_def not_less)
    have le: "base' + (sz - half) \<le> n" using half 1(3) by (auto simp: base'_def mid_def)
    have pos: "0 < sz - half" using half by simp
    have above: "\<forall>i. base' + (sz - half) \<le> i \<and> i < n \<longrightarrow> k < key i" using up by blast
    have step: "bisect (\<lambda>i. cmp (key i) k) base sz = bisect (\<lambda>i. cmp (key i) k) base' (sz - half)"
      using False by (subst bisect.simps) (simp add: base'_def mid_def half_def Let_def)
    show ?thesis
      unfolding step
      by (rule 1(1) [OF False half_def mid_def, folded base'_def, OF pos le ge above 1(6)])
  qed
qed

lemma SmallMap_find_cases:
  assumes "sm_wf m"
  obtains (found) i where "SmallMap_find m k = Inr i" "i < length m" "fst (m ! i) = k"
  | (missing) i where "SmallMap_find m k = Inl i" "i \<le> length m"
      "\<forall>x \<in> set (take i m). fst x < k" "\<forall>x \<in> set (drop i m). k < fst x"
proof (cases "m = []")
  case True
  show ?thesis
    by (rule missing [of 0]) (simp_all add: True SmallMap_find_def binary_search_by_def)
next
  case False
  define b where "b = bisect (\<lambda>i. cmp (fst (m ! i)) k) 0 (length m)"
  have lt: "\<forall>i j. i < j \<and> j < length m \<longrightarrow> fst (m ! i) < fst (m ! j)"
    using assms by (auto simp: sm_wf_def sorted_wrt_iff_nth_less)
  have vac: "\<forall>i. 0 + length m \<le> i \<and> i < length m \<longrightarrow> k < fst (m ! i)" by auto
  have b: "b < length m" "b = 0 \<or> fst (m ! b) \<le> k" "\<forall>i. b < i \<and> i < length m \<longrightarrow> k < fst (m ! i)"
    using bisect_bounds [OF _ _ _ vac lt] False unfolding b_def Let_def by simp_all
  have find: "SmallMap_find m k = (case cmp (fst (m ! b)) k of
      Equal \<Rightarrow> Inr b | Less \<Rightarrow> Inl (b + 1) | Greater \<Rightarrow> Inl b)"
    using False unfolding b_def
    by (simp add: SmallMap_find_def binary_search_by_def case_prod_unfold Let_def)
  consider "fst (m ! b) = k" | "fst (m ! b) < k" | "k < fst (m ! b)" by force
  then show ?thesis
  proof cases
    case 1
    show ?thesis by (rule found [of b]) (simp_all add: cmp_def 1 find b)
  next
    case 2
    then have below: "fst (m ! i) < k" if "i < b + 1" for i
      using that b(1) lt by (metis Suc_eq_plus1 less_SucE less_trans)
    show ?thesis
      by (rule missing [of "b + 1"]) (use b 2 below in \<open>auto simp: cmp_def find all_set_conv_all_nth\<close>)
  next
    case 3
    with b(2) have "b = 0" by auto
    then have "k < fst (m ! i)" if "i < length m" for i
      using that b(3) 3 by (cases "i = 0") auto
    then have "k < fst x" if "x \<in> set m" for x
      using that by (auto simp: in_set_conv_nth)
    with 3 \<open>b = 0\<close> find have "SmallMap_find m k = Inl 0" "\<forall>x \<in> set (drop 0 m). k < fst x"
      by (auto simp: cmp_def)
    then show ?thesis using missing [of 0] by simp
  qed
qed

subsection \<open>The operations on sorted vectors\<close>

lemma sm_wf_Nil [simp]: "sm_wf []"
  by (simp add: sm_wf_def)

lemma sm_wf_distinct: "sm_wf m \<Longrightarrow> distinct (map fst m)"
  unfolding sm_wf_def by (metis strict_sorted_iff)

lemma sm_wf_append:
  "sm_wf (xs @ ys) \<longleftrightarrow> sm_wf xs \<and> sm_wf ys \<and> (\<forall>x \<in> set xs. \<forall>y \<in> set ys. fst x < fst y)"
  by (auto simp: sm_wf_def sorted_wrt_append)

lemma sm_wf_Cons: "sm_wf (x # xs) \<longleftrightarrow> sm_wf xs \<and> (\<forall>y \<in> set xs. fst x < fst y)"
  by (auto simp: sm_wf_def)

lemma sm_wf_filter [simp]: "sm_wf m \<Longrightarrow> sm_wf (filter p m)"
  by (induction m) (auto simp: sm_wf_Cons)

lemma sm_wf_map_values [simp]: "sm_wf (map (\<lambda>(k, v). (k, f v)) m) = sm_wf m"
  by (simp add: sm_wf_def case_prod_unfold comp_def)

lemma map_of_Some_nth:
  "distinct (map fst m) \<Longrightarrow> i < length m \<Longrightarrow> map_of m (fst (m ! i)) = Some (snd (m ! i))"
  by (metis map_of_is_SomeI nth_mem prod.collapse)

lemma sm_mem_iff: "sm_wf m \<Longrightarrow> (k, v) \<in> set m \<longleftrightarrow> map_of m k = Some v"
  by (metis map_of_SomeD map_of_is_SomeI sm_wf_distinct)

lemma map_of_None_split:
  "\<forall>x \<in> set (take i m). fst x \<noteq> k \<Longrightarrow> \<forall>x \<in> set (drop i m). fst x \<noteq> k \<Longrightarrow> map_of m k = None"
  by (metis (no_types, lifting) append_take_drop_id map_of_eq_None_iff image_iff Un_iff set_append)

lemma SmallMap_find_missing_None:
  "\<forall>x \<in> set (take i m). fst x < k \<Longrightarrow> \<forall>x \<in> set (drop i m). k < fst x \<Longrightarrow> map_of m k = None"
  for k :: "'k::linorder"
  by (rule map_of_None_split [of i]) auto

lemma SmallMap_find_missing_key:
  "\<forall>x \<in> set (take i m). fst x < k \<Longrightarrow> \<forall>x \<in> set (drop i m). k < fst x \<Longrightarrow> k \<notin> fst ` set m"
  for k :: "'k::linorder"
  by (metis SmallMap_find_missing_None map_of_eq_None_iff)

lemma SmallMap_get_map_of: "sm_wf m \<Longrightarrow> SmallMap_get m k = map_of m k"
  by (rule SmallMap_find_cases [of m k])
    (auto simp: SmallMap_get_def map_of_Some_nth sm_wf_distinct SmallMap_find_missing_None)

lemma key_nth_mem: "fst (m ! i) = k \<Longrightarrow> i < length m \<Longrightarrow> k \<in> fst ` set m"
  by (metis image_eqI nth_mem)

lemma SmallMap_contains_key_iff:
  "sm_wf m \<Longrightarrow> SmallMap_contains_key m k \<longleftrightarrow> k \<in> fst ` set m"
  by (rule SmallMap_find_cases [of m k])
    (simp_all add: SmallMap_contains_key_def SmallMap_find_missing_key key_nth_mem)

lemma map_of_list_update:
  "distinct (map fst m) \<Longrightarrow> i < length m \<Longrightarrow>
   map_of (m[i := (fst (m ! i), v)]) = (map_of m)(fst (m ! i) \<mapsto> v)"
proof (induction m arbitrary: i)
  case (Cons x m)
  then show ?case by (cases i) (auto simp: fun_eq_iff, metis image_eqI nth_mem)
qed simp

lemma map_fst_list_update: "i < length m \<Longrightarrow> map fst (m[i := (fst (m ! i), v)]) = map fst m"
  by (metis fst_conv length_map list_update_id map_update nth_map)

lemma sm_wf_list_update: "i < length m \<Longrightarrow> sm_wf (m[i := (fst (m ! i), v)]) = sm_wf m"
  by (simp add: sm_wf_def map_fst_list_update)

lemma sm_wf_insert_at:
  assumes "sm_wf m" "\<forall>x \<in> set (take i m). fst x < k" "\<forall>x \<in> set (drop i m). k < fst x"
  shows "sm_wf (insert_at i (k, v) m)"
proof -
  have "sm_wf (take i m @ drop i m)" using assms(1) by simp
  then show ?thesis using assms(2,3)
    by (auto simp: insert_at_def sm_wf_append sm_wf_Cons simp del: append_take_drop_id)
qed

lemma map_of_insert_at:
  assumes "map_of m k = None"
  shows "map_of (insert_at i (k, v) m) = (map_of m)(k \<mapsto> v)"
proof -
  have "map_of m = map_of (drop i m) ++ map_of (take i m)"
    by (metis append_take_drop_id map_of_append)
  moreover have "map_of (take i m) k = None"
    using assms by (metis append_take_drop_id map_add_None map_of_append)
  ultimately show ?thesis by (auto simp: insert_at_def fun_eq_iff map_add_def split: option.splits)
qed

lemma SmallMap_insert_wf [simp]: "sm_wf m \<Longrightarrow> sm_wf (sm_put m k v)"
  by (rule SmallMap_find_cases [of m k])
    (auto simp: SmallMap_insert_def sm_wf_list_update sm_wf_insert_at)

lemma SmallMap_insert_map_of [simp]: "sm_wf m \<Longrightarrow> map_of (sm_put m k v) = (map_of m)(k \<mapsto> v)"
  by (rule SmallMap_find_cases [of m k])
    (auto simp: SmallMap_insert_def map_of_list_update sm_wf_distinct
      map_of_insert_at SmallMap_find_missing_None)

lemma SmallMap_insert_old: "sm_wf m \<Longrightarrow> snd (SmallMap_insert m k v) = map_of m k"
  by (rule SmallMap_find_cases [of m k])
    (auto simp: SmallMap_insert_def map_of_Some_nth sm_wf_distinct SmallMap_find_missing_None)

lemma SmallMap_insert_length:
  "sm_wf m \<Longrightarrow> length (sm_put m k v) = (if k \<in> fst ` set m then length m else Suc (length m))"
  by (rule SmallMap_find_cases [of m k])
    (simp_all add: SmallMap_insert_def insert_at_def SmallMap_find_missing_key key_nth_mem)

lemma SmallMap_insert_set:
  "sm_wf m \<Longrightarrow> set (sm_put m k v) = {(a, b). (a, b) \<in> set m \<and> a \<noteq> k} \<union> {(k, v)}"
  by (auto simp: sm_mem_iff split: if_splits)

lemma map_of_remove_at:
  assumes "distinct (map fst m)" "i < length m"
  shows "map_of (remove_at i m) = (map_of m)(fst (m ! i) := None)"
proof -
  let ?x = "m ! i"
  have m: "m = take i m @ ?x # drop (Suc i) m" by (rule id_take_nth_drop [OF assms(2)])
  then have d: "distinct (map fst (take i m @ ?x # drop (Suc i) m))" using assms(1) by simp
  then have "map_of (remove_at i m) (fst ?x) = None"
    by (auto simp: remove_at_def map_of_eq_None_iff)
  moreover have "map_of m k = map_of (remove_at i m) k" if "k \<noteq> fst ?x" for k
    by (subst m) (use that in \<open>auto simp: remove_at_def map_add_def split: option.splits\<close>)
  ultimately show ?thesis by (auto simp: fun_eq_iff)
qed

lemma sm_wf_remove_at:
  assumes "sm_wf m"
  shows "sm_wf (remove_at i m)"
proof (cases "i < length m")
  case True
  then have "sm_wf (take i m @ m ! i # drop (Suc i) m)"
    using assms by (simp add: id_take_nth_drop [symmetric])
  then show ?thesis by (auto simp: remove_at_def sm_wf_append sm_wf_Cons)
next
  case False
  with assms show ?thesis by (simp add: remove_at_def)
qed

lemma SmallMap_remove_wf [simp]: "sm_wf m \<Longrightarrow> sm_wf (sm_del m k)"
  by (rule SmallMap_find_cases [of m k]) (simp_all add: SmallMap_remove_def sm_wf_remove_at)

lemma SmallMap_remove_map_of [simp]: "sm_wf m \<Longrightarrow> map_of (sm_del m k) = (map_of m)(k := None)"
  by (rule SmallMap_find_cases [of m k])
    (auto simp: SmallMap_remove_def map_of_remove_at sm_wf_distinct SmallMap_find_missing_None
      fun_eq_iff)

lemma SmallMap_remove_old: "sm_wf m \<Longrightarrow> snd (SmallMap_remove m k) = map_of m k"
  by (rule SmallMap_find_cases [of m k])
    (auto simp: SmallMap_remove_def map_of_Some_nth sm_wf_distinct SmallMap_find_missing_None)

lemma SmallMap_remove_length:
  "sm_wf m \<Longrightarrow> length (sm_del m k) = (if k \<in> fst ` set m then length m - 1 else length m)"
  by (rule SmallMap_find_cases [of m k])
    (simp_all add: SmallMap_remove_def SmallMap_find_missing_key key_nth_mem)

lemma SmallMap_remove_length_le: "sm_wf m \<Longrightarrow> length (sm_del m k) \<le> length m"
  by (simp add: SmallMap_remove_length)

lemma SmallMap_remove_set: "sm_wf m \<Longrightarrow> set (sm_del m k) = {(a, b). (a, b) \<in> set m \<and> a \<noteq> k}"
  by (auto simp: sm_mem_iff split: if_splits)

lemma SmallMap_modify_wf [simp]: "sm_wf m \<Longrightarrow> sm_wf (SmallMap_modify m k f)"
  by (rule SmallMap_find_cases [of m k]) (auto simp: SmallMap_modify_def sm_wf_list_update)

lemma SmallMap_modify_keys [simp]: "sm_wf m \<Longrightarrow> map fst (SmallMap_modify m k f) = map fst m"
  by (rule SmallMap_find_cases [of m k]) (auto simp: SmallMap_modify_def map_fst_list_update)

lemma SmallMap_modify_length [simp]: "length (SmallMap_modify m k f) = length m"
  by (simp add: SmallMap_modify_def split: sum.splits)

lemma SmallMap_modify_map_of:
  "sm_wf m \<Longrightarrow> map_of (SmallMap_modify m k f) = (map_of m)(k := map_option f (map_of m k))"
  by (rule SmallMap_find_cases [of m k])
    (auto simp: SmallMap_modify_def map_of_list_update map_of_Some_nth sm_wf_distinct
      SmallMap_find_missing_None fun_eq_iff)

lemma SmallMap_modify_set:
  "sm_wf m \<Longrightarrow> (a, b) \<in> set (SmallMap_modify m k f) \<longleftrightarrow>
     (if a = k then \<exists>v. (k, v) \<in> set m \<and> b = f v else (a, b) \<in> set m)"
  by (auto simp: sm_mem_iff SmallMap_modify_map_of)

lemma SmallMap_retain_wf [simp]: "sm_wf m \<Longrightarrow> sm_wf (SmallMap_retain f m)"
  by (simp add: SmallMap_retain_def)

lemma SmallMap_retain_set [simp]: "(k, v) \<in> set (SmallMap_retain f m) \<longleftrightarrow> (k, v) \<in> set m \<and> f k v"
  by (auto simp: SmallMap_retain_def)

lemma SmallMap_retain_length: "length (SmallMap_retain f m) \<le> length m"
  by (simp add: SmallMap_retain_def)

lemma map_values_set: "(k, v) \<in> set (SmallMap_map_values f m) \<longleftrightarrow> (\<exists>u. (k, u) \<in> set m \<and> v = f u)"
  by (auto simp: SmallMap_map_values_def)

lemma map_values_wf [simp]: "sm_wf (SmallMap_map_values f m) = sm_wf m"
  by (simp add: SmallMap_map_values_def)

lemma SmallMap_contains_map_of: "sm_wf m \<Longrightarrow> SmallMap_contains_key m k \<longleftrightarrow> map_of m k \<noteq> None"
  by (simp add: SmallMap_contains_key_iff map_of_eq_None_iff)

lemma sm_del_mem:
  assumes "sm_wf m" "(k, v) \<in> set m"
  shows "length (sm_del m k) = length m - 1" "0 < length m" "set (sm_del m k) \<subseteq> set m"
    "map_of m d = None \<Longrightarrow> map_of (sm_del m k) d = None"
  using assms by (auto simp: SmallMap_remove_length SmallMap_remove_set rev_image_eqI)

text \<open>Removal of a list of keys.\<close>

definition sm_dels :: "'k::linorder list \<Rightarrow> ('k, 'v) small_map \<Rightarrow> ('k, 'v) small_map" where
  "sm_dels ks m = fold (\<lambda>k m. sm_del m k) ks m"

lemma sm_dels:
  assumes "sm_wf m"
  shows "sm_wf (sm_dels ks m)" "map_of (sm_dels ks m) = map_of m |` (- set ks)"
    "set (sm_dels ks m) = {(a, b). (a, b) \<in> set m \<and> a \<notin> set ks}" "length (sm_dels ks m) \<le> length m"
proof -
  have "sm_wf (sm_dels ks m) \<and> map_of (sm_dels ks m) = map_of m |` (- set ks) \<and>
      length (sm_dels ks m) \<le> length m"
    using assms
  proof (induction ks arbitrary: m)
    case (Cons k ks)
    have "sm_wf (sm_del m k)" using Cons.prems by simp
    from Cons.IH [OF this] show ?case
      using Cons.prems SmallMap_remove_length_le [OF Cons.prems, of k]
      by (auto simp: sm_dels_def restrict_map_def fun_eq_iff)
  qed (simp add: sm_dels_def restrict_map_def)
  then show wf: "sm_wf (sm_dels ks m)" and mo: "map_of (sm_dels ks m) = map_of m |` (- set ks)"
    and "length (sm_dels ks m) \<le> length m" by blast+
  show "set (sm_dels ks m) = {(a, b). (a, b) \<in> set m \<and> a \<notin> set ks}"
    using assms wf mo by (auto simp: sm_mem_iff restrict_map_def split: if_splits)
qed

text \<open>
  The idiom of the bounded tables: before a new key is added to a full map, the entry with the
  least rank is removed.
\<close>

definition evict_min :: "('k \<times> 'v \<Rightarrow> 'r::linorder) \<Rightarrow> nat \<Rightarrow> 'k::linorder \<Rightarrow> ('k, 'v) small_map \<Rightarrow> ('k, 'v) small_map" where
  "evict_min rank cap k m =
     (if \<not> SmallMap_contains_key m k \<and> length m \<ge> cap
      then (case min_by_key rank m of Some (victim, _) \<Rightarrow> sm_del m victim | None \<Rightarrow> m)
      else m)"

lemma evict_min:
  assumes wf: "sm_wf m" and len: "length m \<le> max 1 cap"
  shows "sm_wf (evict_min rank cap k m)" "map_of (evict_min rank cap k m) k = map_of m k"
    "set (evict_min rank cap k m) \<subseteq> set m" "length (evict_min rank cap k m) \<le> max 1 cap"
    "map_of m k = None \<Longrightarrow> length (evict_min rank cap k m) < max 1 cap"
proof -
  have "sm_wf (evict_min rank cap k m) \<and> map_of (evict_min rank cap k m) k = map_of m k \<and>
    set (evict_min rank cap k m) \<subseteq> set m \<and> length (evict_min rank cap k m) \<le> max 1 cap \<and>
    (map_of m k = None \<longrightarrow> length (evict_min rank cap k m) < max 1 cap)"
  proof (cases "min_by_key rank m")
    case None
    then have e: "m = []" by simp
    have "evict_min rank cap k [] = []" unfolding evict_min_def by (simp only: min_by_key.simps option.case if_cancel)
    then show ?thesis unfolding e by (simp add: less_max_iff_disj)
  next
    case (Some kv)
    then have "kv \<in> set m" by (rule min_by_key_mem)
    then have mem: "(fst kv, snd kv) \<in> set m" by simp
    show ?thesis using Some wf len sm_del_mem [OF wf mem]
      by (auto simp: evict_min_def SmallMap_contains_map_of case_prod_unfold)
  qed
  then show "sm_wf (evict_min rank cap k m)" "map_of (evict_min rank cap k m) k = map_of m k"
    "set (evict_min rank cap k m) \<subseteq> set m" "length (evict_min rank cap k m) \<le> max 1 cap"
    "map_of m k = None \<Longrightarrow> length (evict_min rank cap k m) < max 1 cap" by (elim conjE, simp)+
qed

lemma SmallMap_get_or_default_eq:
  "sm_wf m \<Longrightarrow> SmallMap_get_or_default d m k =
     (case map_of m k of Some v \<Rightarrow> (m, v) | None \<Rightarrow> (sm_put m k d, d))"
  by (rule SmallMap_find_cases [of m k])
    (auto simp: SmallMap_get_or_default_def SmallMap_insert_def map_of_Some_nth sm_wf_distinct
      SmallMap_find_missing_None insert_at_def nth_append Let_def)

lemma evict_get_or_default:
  assumes "sm_wf m" "length m \<le> max 1 cap"
  shows "sm_wf (fst (SmallMap_get_or_default d (evict_min rank cap k m) k))"
    "length (fst (SmallMap_get_or_default d (evict_min rank cap k m) k)) \<le> max 1 cap"
proof -
  note ev = evict_min [OF assms, where rank = rank and k = k]
  show "sm_wf (fst (SmallMap_get_or_default d (evict_min rank cap k m) k))"
    using ev(1) by (simp add: SmallMap_get_or_default_eq split: option.split)
  show "length (fst (SmallMap_get_or_default d (evict_min rank cap k m) k)) \<le> max 1 cap"
  proof (cases "map_of m k")
    case None
    with ev(1,2) have "k \<notin> fst ` set (evict_min rank cap k m)" by (metis map_of_eq_None_iff)
    then show ?thesis using ev(5) [OF None] ev(1,2) None
      by (simp add: SmallMap_get_or_default_eq SmallMap_insert_length)
  next
    case (Some v)
    then show ?thesis using ev(1,2,4) by (simp add: SmallMap_get_or_default_eq)
  qed
qed

lemma sm_eqI:
  assumes "sm_wf m" "sm_wf m'" "map_of m = map_of m'"
  shows "m = m'"
proof -
  have "set (map fst m) = set (map fst m')"
    using assms(3) by (metis dom_map_of_conv_image_fst list.set_map)
  then have keys: "map fst m = map fst m'"
    using assms(1,2) unfolding sm_wf_def by (metis strict_sorted_equal)
  have "map (\<lambda>k. (k, the (map_of m k))) (map fst m) = m" if "sm_wf m" for m :: "('a, 'b) small_map"
    using that by (intro nth_equalityI) (simp_all add: map_of_Some_nth sm_wf_distinct)
  then show ?thesis using assms keys by metis
qed

lemma sm_put_put [simp]: "sm_wf m \<Longrightarrow> sm_put (sm_put m k u) k v = sm_put m k v"
  by (rule sm_eqI) simp_all

lemma sm_del_put [simp]: "sm_wf m \<Longrightarrow> sm_del (sm_put m k v) k = sm_del m k"
  by (rule sm_eqI) simp_all

lemma SmallMap_modify_put:
  "sm_wf m \<Longrightarrow> map_of m k = Some u \<Longrightarrow> SmallMap_modify m k f = sm_put m k (f u)"
proof (rule SmallMap_find_cases [of m k])
  fix i
  assume *: "sm_wf m" "map_of m k = Some u" "SmallMap_find m k = Inr i" "i < length m" "fst (m ! i) = k"
  then have "m ! i = (k, u)" by (metis map_of_Some_nth option.inject prod.collapse sm_wf_distinct)
  with * show ?thesis by (simp add: SmallMap_modify_def SmallMap_insert_def)
qed (auto simp: SmallMap_find_missing_None)

text \<open>A property of every entry, through the operations.\<close>

definition sm_all :: "('k \<Rightarrow> 'v \<Rightarrow> bool) \<Rightarrow> ('k, 'v) small_map \<Rightarrow> bool" where
  "sm_all P m = list_all (\<lambda>(k, v). P k v) m"

lemma sm_all_new [simp]: "sm_all P SmallMap_new"
  by (simp add: sm_all_def SmallMap_new_def)

lemma sm_all_get: "sm_wf m \<Longrightarrow> sm_all P m \<Longrightarrow> SmallMap_get m k = Some v \<Longrightarrow> P k v"
  by (auto simp: sm_all_def list_all_iff SmallMap_get_map_of sm_mem_iff [symmetric])

lemma sm_all_put: "sm_wf m \<Longrightarrow> sm_all P m \<Longrightarrow> P k v \<Longrightarrow> sm_all P (sm_put m k v)"
  by (auto simp: sm_all_def list_all_iff SmallMap_insert_set)

lemma sm_all_del: "sm_wf m \<Longrightarrow> sm_all P m \<Longrightarrow> sm_all P (sm_del m k)"
  by (auto simp: sm_all_def list_all_iff SmallMap_remove_set)

lemma sm_all_dels: "sm_wf m \<Longrightarrow> sm_all P m \<Longrightarrow> sm_all P (sm_dels ks m)"
  by (auto simp: sm_all_def list_all_iff sm_dels)

lemma sm_all_retain: "sm_all P m \<Longrightarrow> sm_all P (SmallMap_retain f m)"
  by (auto simp: sm_all_def list_all_iff)

lemma sm_all_modify:
  assumes "sm_wf m" "sm_all P m" "\<And>v. map_of m k = Some v \<Longrightarrow> P k v \<Longrightarrow> P k (f v)"
  shows "sm_all P (SmallMap_modify m k f)"
proof -
  have "P a b" if "map_of (SmallMap_modify m k f) a = Some b" for a b
    using that assms
    by (auto simp: SmallMap_modify_map_of sm_all_def list_all_iff sm_mem_iff [symmetric] split: if_splits)
  then show ?thesis using sm_mem_iff [of "SmallMap_modify m k f"] assms(1) by (auto simp: sm_all_def list_all_iff)
qed

lemma sm_all_mono: "sm_all P m \<Longrightarrow> (\<And>k v. P k v \<Longrightarrow> Q k v) \<Longrightarrow> sm_all Q m"
  by (auto simp: sm_all_def list_all_iff)

lemma sm_all_map_values: "sm_all P m \<Longrightarrow> (\<And>k v. P k v \<Longrightarrow> P k (f v)) \<Longrightarrow> sm_all P (SmallMap_map_values f m)"
  by (fastforce simp: sm_all_def list_all_iff map_values_set)

lemma sm_sum_put_new:
  "sm_wf m \<Longrightarrow> map_of m k = None \<Longrightarrow>
   sum_list (map g (sm_put m k v)) = g (k, v) + sum_list (map g m)"
  for g :: "_ \<Rightarrow> nat"
proof (rule SmallMap_find_cases [of m k])
  fix i
  assume "SmallMap_find m k = Inl i"
  moreover have "sum_list (map g m) = sum_list (map g (take i m)) + sum_list (map g (drop i m))"
    by (metis append_take_drop_id map_append sum_list_append)
  ultimately show ?thesis by (simp add: SmallMap_insert_def insert_at_def)
qed (auto simp: map_of_Some_nth sm_wf_distinct)

lemma sm_sum_del:
  "sm_wf m \<Longrightarrow> map_of m k = Some v \<Longrightarrow>
   sum_list (map g m) = g (k, v) + sum_list (map g (sm_del m k))"
  for g :: "_ \<Rightarrow> nat"
proof (rule SmallMap_find_cases [of m k])
  fix i
  assume *: "sm_wf m" "map_of m k = Some v" "SmallMap_find m k = Inr i" "i < length m" "fst (m ! i) = k"
  then have "m ! i = (k, v)" by (metis map_of_Some_nth option.inject prod.collapse sm_wf_distinct)
  then show ?thesis
    using * sum_list_remove_at [of i m g] by (simp add: SmallMap_remove_def)
qed (auto simp: SmallMap_find_missing_None)

lemma sm_sum_put: "sm_wf m \<Longrightarrow> map_of m k = Some u \<Longrightarrow>
    sum_list (map g (sm_put m k v)) + g (k, u) = sum_list (map g m) + g (k, v)"
  for g :: "_ \<Rightarrow> nat"
proof (rule SmallMap_find_cases [of m k])
  fix i
  assume *: "sm_wf m" "map_of m k = Some u" "SmallMap_find m k = Inr i" "i < length m" "fst (m ! i) = k"
  then have mi: "m ! i = (k, u)" by (metis map_of_Some_nth option.inject prod.collapse sm_wf_distinct)
  have "sum_list (map g m) = g (k, u) + sum_list (map g (remove_at i m))"
    using sum_list_remove_at [of i m g] *(4) mi by simp
  moreover have "sum_list (map g (m[i := (k, v)])) = g (k, v) + sum_list (map g (remove_at i m))"
    using sum_list_remove_at [of i "m[i := (k, v)]" g] *(4) by (simp add: remove_at_def)
  ultimately show ?thesis using * by (simp add: SmallMap_insert_def)
qed (auto simp: SmallMap_find_missing_None)

subsection \<open>The contract of a keyed table\<close>

text \<open>
  What the components rely on: lookups see the last insertion, removal forgets a key,
  and every operation keeps the table well-formed.
\<close>

locale key_map =
  fixes empty :: 'm and get :: "'m \<Rightarrow> 'k \<Rightarrow> 'v option" and put :: "'m \<Rightarrow> 'k \<Rightarrow> 'v \<Rightarrow> 'm"
    and del :: "'m \<Rightarrow> 'k \<Rightarrow> 'm" and wf :: "'m \<Rightarrow> bool"
  assumes wf_empty: "wf empty"
    and wf_put: "wf m \<Longrightarrow> wf (put m k v)"
    and wf_del: "wf m \<Longrightarrow> wf (del m k)"
    and get_empty: "get empty k = None"
    and get_put: "wf m \<Longrightarrow> get (put m k v) k' = (if k' = k then Some v else get m k')"
    and get_del: "wf m \<Longrightarrow> get (del m k) k' = (if k' = k then None else get m k')"
begin

lemma wf_fold_put: "wf m \<Longrightarrow> wf (fold (\<lambda>(k, v) m. put m k v) kvs m)"
  by (induction kvs arbitrary: m) (auto intro: wf_put)

lemma get_fold_put:
  "wf m \<Longrightarrow> get (fold (\<lambda>(k, v) m. put m k v) kvs m) k =
     (case map_of (rev kvs) k of None \<Rightarrow> get m k | Some v \<Rightarrow> Some v)"
  by (induction kvs arbitrary: m) (auto simp: get_put wf_put map_add_def split: option.splits)

lemma wf_fold_del: "wf m \<Longrightarrow> wf (fold (\<lambda>k m. del m k) ks m)"
  by (induction ks arbitrary: m) (auto intro: wf_del)

lemma get_fold_del:
  "wf m \<Longrightarrow> get (fold (\<lambda>k m. del m k) ks m) k = (if k \<in> set ks then None else get m k)"
  by (induction ks arbitrary: m) (auto simp: get_del wf_del)

end

text \<open>
  A table with a size. The idiom of every bounded table of the node, evicting a present
  victim before inserting a new key when the table is full, keeps the bound.
\<close>

locale sized_map = key_map +
  fixes size :: "'a \<Rightarrow> nat"
  assumes size_put: "wf m \<Longrightarrow> size (put m k v) = (if get m k = None then Suc (size m) else size m)"
    and size_del: "wf m \<Longrightarrow> size (del m k) = (if get m k = None then size m else size m - 1)"
    and size_pos: "wf m \<Longrightarrow> get m k \<noteq> None \<Longrightarrow> 0 < size m"
begin

lemma size_del_le: "wf m \<Longrightarrow> size (del m k) \<le> size m"
  by (simp add: size_del)

lemma size_evict_put:
  assumes "wf m" "size m \<le> bound" "0 < bound"
    and "get m k = None \<Longrightarrow> bound \<le> size m \<Longrightarrow> get m victim \<noteq> None"
  shows "size (put (if get m k = None \<and> bound \<le> size m then del m victim else m) k v) \<le> bound"
proof (cases "get m k = None \<and> bound \<le> size m")
  case True
  then have "get m victim \<noteq> None" using assms(4) by simp
  with True assms show ?thesis
    using size_pos [OF assms(1)] by (auto simp: size_put size_del get_del wf_del)
next
  case False
  with assms show ?thesis by (auto simp: size_put)
qed

end

interpretation sm: key_map SmallMap_new SmallMap_get sm_put sm_del sm_wf
  by unfold_locales (simp_all add: SmallMap_new_def SmallMap_get_map_of)

interpretation sz: sized_map SmallMap_new SmallMap_get sm_put sm_del sm_wf length
proof unfold_locales
  fix m :: "('a::linorder, 'b) small_map" and k :: 'a and v :: 'b
  assume wf: "sm_wf m"
  show "length (sm_put m k v) = (if SmallMap_get m k = None then Suc (length m) else length m)"
    using wf by (simp add: SmallMap_insert_length SmallMap_get_map_of map_of_eq_None_iff)
  show "length (sm_del m k) = (if SmallMap_get m k = None then length m else length m - 1)"
    using wf by (simp add: SmallMap_remove_length SmallMap_get_map_of map_of_eq_None_iff)
  show "SmallMap_get m k \<noteq> None \<Longrightarrow> 0 < length m"
    using wf by (cases m) (auto simp: SmallMap_get_map_of)
qed

lemma SmallMap_from_iter_get:
  "SmallMap_get (SmallMap_from_iter kvs) k = map_of (rev kvs) k"
  using sm.get_fold_put [OF sm.wf_empty, of kvs k]
  by (simp add: SmallMap_from_iter_def sm.get_empty option.case_eq_if)

lemma sm_keys_mem: "sm_wf m \<Longrightarrow> SmallMap_get m k = None \<longleftrightarrow> k \<notin> fst ` set m"
  by (simp add: SmallMap_get_map_of map_of_eq_None_iff)

subsection \<open>The insertion sort is the stable sort\<close>

definition ins_right :: "('a \<Rightarrow> 'k::linorder) \<Rightarrow> 'a \<Rightarrow> 'a list \<Rightarrow> 'a list" where
  "ins_right key x xs =
     takeWhile (\<lambda>y. key y \<le> key x) xs @ x # dropWhile (\<lambda>y. key y \<le> key x) xs"

lemma ins_right_snoc_gt: "key x < key z \<Longrightarrow> ins_right key x (zs @ [z]) = ins_right key x zs @ [z]"
  by (auto simp: ins_right_def takeWhile_append dropWhile_append
      takeWhile_eq_all_conv [THEN iffD2] dropWhile_eq_Nil_conv)

lemma ins_right_all_le: "\<forall>y \<in> set xs. key y \<le> key x \<Longrightarrow> ins_right key x xs = xs @ [x]"
proof -
  assume *: "\<forall>y \<in> set xs. key y \<le> key x"
  then have "takeWhile (\<lambda>y. key y \<le> key x) xs = xs" by (simp add: takeWhile_eq_all_conv)
  moreover from * have "dropWhile (\<lambda>y. key y \<le> key x) xs = []" by (simp add: dropWhile_eq_Nil_conv)
  ultimately show ?thesis by (simp add: ins_right_def)
qed

lemma sift_ins_right:
  "sorted (map key xs) \<Longrightarrow> sift key (length xs) (xs @ x # ys) = ins_right key x xs @ ys"
proof (induction xs arbitrary: ys rule: rev_induct)
  case Nil
  then show ?case by (simp add: ins_right_def)
next
  case (snoc z zs)
  show ?case
  proof (cases "key x < key z")
    case True
    with snoc show ?thesis
      by (simp add: nth_append list_update_append ins_right_snoc_gt sorted_append)
  next
    case False
    with snoc.prems have "\<forall>y \<in> set (zs @ [z]). key y \<le> key x"
      by (auto simp: sorted_append)
    with False show ?thesis by (simp add: nth_append ins_right_all_le)
  qed
qed

lemma dropWhile_le_gt:
  "sorted (map key xs) \<Longrightarrow> y \<in> set (dropWhile (\<lambda>y. key y \<le> k) xs) \<Longrightarrow> k < key y"
  by (induction xs) (auto split: if_splits simp: not_le intro: less_le_trans)

lemma ins_right_sorted: "sorted (map key xs) \<Longrightarrow> sorted (map key (ins_right key x xs))"
proof -
  assume s: "sorted (map key xs)"
  have "sorted (map key (takeWhile (\<lambda>y. key y \<le> key x) xs) @ map key (dropWhile (\<lambda>y. key y \<le> key x) xs))"
    using s by (metis map_append takeWhile_dropWhile_id)
  then show ?thesis
    using dropWhile_le_gt [OF s, of _ "key x"]
    by (auto simp: ins_right_def sorted_append dest: set_takeWhileD less_imp_le)
qed

lemma ins_right_filter:
  assumes "sorted (map key xs)"
  shows "filter (\<lambda>y. k = key y) (ins_right key x xs) = filter (\<lambda>y. k = key y) (xs @ [x])"
proof -
  let ?P = "\<lambda>y. key y \<le> key x"
  have xs: "filter (\<lambda>y. k = key y) xs =
      filter (\<lambda>y. k = key y) (takeWhile ?P xs) @ filter (\<lambda>y. k = key y) (dropWhile ?P xs)"
    by (metis filter_append takeWhile_dropWhile_id)
  have "filter (\<lambda>y. k = key y) (dropWhile ?P xs) = []" if "k = key x"
    using dropWhile_le_gt [OF assms, of _ "key x"] that by (force simp: filter_empty_conv)
  then show ?thesis by (auto simp: ins_right_def xs)
qed

lemma sort_key_snoc: "sort_key key (xs @ [x]) = ins_right key x (sort_key key xs)"
proof (rule properties_for_sort_key)
  let ?s = "sort_key key xs"
  have "mset (takeWhile P ?s) + mset (dropWhile P ?s) = mset xs" for P
    by (metis mset_append mset_sort takeWhile_dropWhile_id)
  then show "mset (ins_right key x ?s) = mset (xs @ [x])"
    by (simp add: ins_right_def add.assoc [symmetric])
  fix k
  have "filter (\<lambda>y. key k = key y) ?s = filter (\<lambda>y. key k = key y) xs"
    unfolding eq_commute [of "key k"] by (rule sort_key_stable)
  then show "filter (\<lambda>y. key k = key y) (ins_right key x ?s) = filter (\<lambda>y. key k = key y) (xs @ [x])"
    by (simp add: ins_right_filter)
qed (simp add: ins_right_sorted)

lemma sort_by_key_prefix:
  "n < length v \<Longrightarrow>
   fold (sift key) [1..<Suc n] v = sort_key key (take (Suc n) v) @ drop (Suc n) v"
proof (induction n)
  case 0
  then show ?case by (simp add: take_Suc_conv_app_nth Cons_nth_drop_Suc)
next
  case (Suc n)
  let ?s = "sort_key key (take (Suc n) v)"
  have "fold (sift key) [1..<Suc (Suc n)] v = sift key (Suc n) (?s @ drop (Suc n) v)"
    using Suc by simp
  also have "drop (Suc n) v = v ! Suc n # drop (Suc (Suc n)) v"
    using Suc.prems by (simp add: Cons_nth_drop_Suc)
  also have "sift key (Suc n) (?s @ \<dots>) = ins_right key (v ! Suc n) ?s @ drop (Suc (Suc n)) v"
    using sift_ins_right [of key ?s] Suc.prems by simp
  finally show ?case
    by (simp only: take_Suc_conv_app_nth [OF Suc.prems] sort_key_snoc)
qed

lemma sort_by_key_sort_key: "sort_by_key key v = sort_key key v"
proof (cases v rule: rev_cases)
  case Nil
  then show ?thesis by (simp add: sort_by_key_def)
next
  case (snoc xs x)
  then show ?thesis using sort_by_key_prefix [of "length xs" v key] by (simp add: sort_by_key_def)
qed

subsection \<open>Properties\<close>

lemma sort_by_key_mset: "mset (sort_by_key f xs) = mset xs"
  by (simp add: sort_by_key_sort_key)

lemmas sort_by_key_perm =
  mset_eq_setD [OF sort_by_key_mset] mset_eq_length [OF sort_by_key_mset]

lemma sort_by_key_distinct_map:
  "distinct (map g (sort_by_key f xs)) = distinct (map g xs)"
  using mset_eq_imp_distinct_iff [of "map g (sort_by_key f xs)" "map g xs"]
  by (simp add: sort_by_key_mset)

text \<open>Insertion sort: the in-place sort of the tables returns the stable sort of its
  input by the key, for every input.\<close>

theorem sort_by_key_stable: "sort_by_key key v = sort_key key v"
  by (rule sort_by_key_sort_key)

end
