(* ===== verification/Fragmentation.thy ===== *)
theory Fragmentation
  imports Packet SmallMap
begin

section \<open>Fragmentation and reassembly (\<open>fragmentation/mod.rs\<close>)\<close>

text \<open>
  A message is split into at most 255 chunks that carry a fragment header; the receiver
  collects them per source and fragment id in a bounded table. The \<open>BTreeMap\<close> of partial
  sets is a sorted vector (\<open>SmallMap\<close>). A panic of the source (an index out of bounds or
  an \<open>unwrap\<close> of a missing part) is the result \<open>None\<close> of \<open>Reassembler_push\<close>.
\<close>

definition split_body :: "u16 \<Rightarrow> bytes \<Rightarrow> nat \<Rightarrow> (frag_header \<times> bytes) list option" where
  "split_body frag_id body chunk =
     (if chunk = 0 then None
      else let total = max (div_ceil (length body) chunk) 1
           in if total > 255 then None
              else Some (map (\<lambda>(i, part).
                          (\<lparr>fh_frag_id = frag_id, fh_index = of_nat i, fh_total = of_nat total\<rparr>, part))
                        (enumerate 0 (chunks chunk body))
                     @ (if body = []
                        then [(\<lparr>fh_frag_id = frag_id, fh_index = 0, fh_total = 1\<rparr>, [])] else [])))"

definition frame_fragment :: "frag_header \<Rightarrow> bytes \<Rightarrow> bytes" where
  "frame_fragment h chunk = FragHeader_write h @ chunk"

record frag_set =
  fs_parts :: "bytes option list"
  fs_received :: u8
  fs_bytes :: nat
  fs_started_at :: time
  fs_last_at :: time

record reassembly_config =
  rc_max_sets :: nat
  rc_max_bytes :: nat
  rc_timeout_ms :: time

definition ReassemblyConfig_default :: reassembly_config where
  "ReassemblyConfig_default =
     \<lparr>rc_max_sets = 8, rc_max_bytes = 8 * 1024, rc_timeout_ms = 60000\<rparr>"

type_synonym frag_key = "address \<times> u16"

record reassembler =
  ra_cfg :: reassembly_config
  ra_sets :: "(frag_key, frag_set) small_map"
  ra_bytes :: nat
  ra_dropped_sets :: u32

definition Reassembler_new :: "reassembly_config \<Rightarrow> reassembler" where
  "Reassembler_new cfg =
     \<lparr>ra_cfg = cfg, ra_sets = SmallMap_new, ra_bytes = 0, ra_dropped_sets = 0\<rparr>"

definition Reassembler_active_sets :: "reassembler \<Rightarrow> nat" where
  "Reassembler_active_sets r = length (ra_sets r)"

definition Reassembler_bytes_held :: "reassembler \<Rightarrow> nat" where
  "Reassembler_bytes_held r = ra_bytes r"

text \<open>Removal of one set with its bytes, shared by the four places that drop a set.\<close>

definition Reassembler_remove_set :: "reassembler \<Rightarrow> frag_key \<Rightarrow> frag_set \<Rightarrow> reassembler" where
  "Reassembler_remove_set r key s =
     r\<lparr>ra_bytes := ra_bytes r - fs_bytes s, ra_sets := sm_del (ra_sets r) key\<rparr>"

definition Reassembler_drop_set :: "reassembler \<Rightarrow> frag_key \<Rightarrow> frag_set \<Rightarrow> reassembler" where
  "Reassembler_drop_set r key s =
     (Reassembler_remove_set r key s)\<lparr>ra_dropped_sets := ra_dropped_sets r + 1\<rparr>"

definition Reassembler_evict_oldest :: "reassembler \<Rightarrow> reassembler" where
  "Reassembler_evict_oldest r =
     (case min_by_key (\<lambda>(_, s). fs_started_at s) (ra_sets r) of
        None \<Rightarrow> r
      | Some (k, s) \<Rightarrow> Reassembler_drop_set r k s)"

definition FragSet_new :: "nat \<Rightarrow> time \<Rightarrow> frag_set" where
  "FragSet_new n now =
     \<lparr>fs_parts = replicate n None, fs_received = 0, fs_bytes = 0,
      fs_started_at = now, fs_last_at = now\<rparr>"

definition FragSet_store :: "frag_set \<Rightarrow> nat \<Rightarrow> bytes \<Rightarrow> time \<Rightarrow> frag_set" where
  "FragSet_store s i chunk now =
     s\<lparr>fs_parts := (fs_parts s)[i := Some chunk], fs_received := fs_received s + 1,
       fs_bytes := fs_bytes s + length chunk, fs_last_at := now\<rparr>"

text \<open>The parts in order, \<open>None\<close> when one is missing (the \<open>unwrap\<close> panics).\<close>

fun concat_parts :: "bytes option list \<Rightarrow> bytes option" where
  "concat_parts [] = Some []"
| "concat_parts (None # ps) = None"
| "concat_parts (Some p # ps) = map_option (\<lambda>r. p @ r) (concat_parts ps)"

text \<open>\<open>push\<close> after the set for the key has been found or created.\<close>

definition Reassembler_fill ::
  "reassembler \<Rightarrow> time \<Rightarrow> frag_key \<Rightarrow> frag_header \<Rightarrow> bytes \<Rightarrow>
   (reassembler \<times> bytes option result) option" where
  "Reassembler_fill r now key h chunk =
     (case SmallMap_get (ra_sets r) key of
        None \<Rightarrow> None
      | Some s \<Rightarrow>
          if length (fs_parts s) \<noteq> unat (fh_total h)
          then Some (Reassembler_drop_set r key s, Inl BadField)
          else if length (fs_parts s) \<le> unat (fh_index h) then None
          else if fs_parts s ! unat (fh_index h) \<noteq> None then Some (r, Inl Duplicate)
          else if ra_bytes r + length chunk > rc_max_bytes (ra_cfg r)
          then Some (Reassembler_drop_set r key s, Inl Full)
          else
            let s' = FragSet_store s (unat (fh_index h)) chunk now;
                r' = r\<lparr>ra_sets := SmallMap_modify (ra_sets r) key (\<lambda>_. s'),
                       ra_bytes := ra_bytes r + length chunk\<rparr>
            in if unat (fs_received s') = length (fs_parts s')
               then (case concat_parts (fs_parts s') of
                       None \<Rightarrow> None
                     | Some out \<Rightarrow> Some (Reassembler_remove_set r' key s', Inr (Some out)))
               else Some (r', Inr None))"

definition Reassembler_push ::
  "reassembler \<Rightarrow> time \<Rightarrow> address \<Rightarrow> frag_header \<Rightarrow> bytes \<Rightarrow>
   (reassembler \<times> bytes option result) option" where
  "Reassembler_push r now src h chunk =
     (let key = (src, fh_frag_id h)
      in if SmallMap_contains_key (ra_sets r) key then Reassembler_fill r now key h chunk
         else
           let r1 = (if length (ra_sets r) \<ge> rc_max_sets (ra_cfg r)
                     then Reassembler_evict_oldest r else r)
           in if length (ra_sets r1) \<ge> rc_max_sets (ra_cfg r1) then Some (r1, Inl Full)
              else Reassembler_fill
                     (r1\<lparr>ra_sets := sm_put (ra_sets r1) key (FragSet_new (unat (fh_total h)) now)\<rparr>)
                     now key h chunk)"

definition Reassembler_expire :: "reassembler \<Rightarrow> time \<Rightarrow> reassembler \<times> nat" where
  "Reassembler_expire r now =
     (let stale = filter (\<lambda>(_, s). sat_sub now (fs_started_at s) > rc_timeout_ms (ra_cfg r)) (ra_sets r);
          r' = fold (\<lambda>(k, s) r. Reassembler_remove_set r k s) stale r
      in (r'\<lparr>ra_dropped_sets := ra_dropped_sets r' + of_nat (length stale)\<rparr>, length stale))"

subsection \<open>Invariant\<close>

definition part_len :: "bytes option \<Rightarrow> nat" where
  "part_len p = (case p of None \<Rightarrow> 0 | Some b \<Rightarrow> length b)"

definition present :: "bytes option \<Rightarrow> bool" where
  "present p = (p \<noteq> None)"

definition fs_ok :: "frag_set \<Rightarrow> bool" where
  "fs_ok s \<longleftrightarrow>
     length (fs_parts s) < 256 \<and>
     unat (fs_received s) = length (filter present (fs_parts s)) \<and>
     unat (fs_received s) < length (fs_parts s) \<and>
     fs_bytes s = sum_list (map part_len (fs_parts s))"

definition ra_total :: "(frag_key, frag_set) small_map \<Rightarrow> nat" where
  "ra_total m = sum_list (map (\<lambda>(_, s). fs_bytes s) m)"

definition ra_inv :: "reassembler \<Rightarrow> bool" where
  "ra_inv r \<longleftrightarrow>
     sm_wf (ra_sets r) \<and> (\<forall>(k, s) \<in> set (ra_sets r). fs_ok s) \<and>
     length (ra_sets r) \<le> rc_max_sets (ra_cfg r) \<and>
     ra_bytes r = ra_total (ra_sets r) \<and> ra_bytes r \<le> rc_max_bytes (ra_cfg r)"

lemma ra_inv_new: "ra_inv (Reassembler_new cfg)"
  by (simp add: ra_inv_def Reassembler_new_def SmallMap_new_def ra_total_def)

lemma ra_total_del: "sm_wf m \<Longrightarrow> map_of m k = Some s \<Longrightarrow> ra_total m = fs_bytes s + ra_total (sm_del m k)"
  unfolding ra_total_def by (drule (1) sm_sum_del [where g = "\<lambda>(_, s). fs_bytes s"]) simp

lemma ra_inv_remove_set:
  assumes "ra_inv r" "map_of (ra_sets r) k = Some s"
  shows "ra_inv (Reassembler_remove_set r k s)"
  using assms ra_total_del [of "ra_sets r" k s] SmallMap_remove_length_le [of "ra_sets r" k]
  by (auto simp: ra_inv_def Reassembler_remove_set_def SmallMap_remove_set)

lemma ra_inv_drop_set:
  "ra_inv r \<Longrightarrow> map_of (ra_sets r) k = Some s \<Longrightarrow> ra_inv (Reassembler_drop_set r k s)"
  using ra_inv_remove_set [of r k s] by (simp add: ra_inv_def Reassembler_drop_set_def)

lemma ra_inv_evict: "ra_inv r \<Longrightarrow> ra_inv (Reassembler_evict_oldest r)"
  by (auto simp: Reassembler_evict_oldest_def ra_inv_def sm_mem_iff
      intro!: ra_inv_drop_set [unfolded ra_inv_def] dest!: min_by_key_mem split: option.splits)

lemma present_simps [simp]: "\<not> present None" "present (Some b)"
  by (simp_all add: present_def)

lemma filter_list_update_None:
  "i < length ps \<Longrightarrow> ps ! i = None \<Longrightarrow>
   length (filter present (ps[i := Some b])) = Suc (length (filter present ps))"
proof (induction ps arbitrary: i)
  case (Cons p ps)
  then show ?case by (cases i) auto
qed simp

lemma part_len_list_update:
  "i < length ps \<Longrightarrow> ps ! i = None \<Longrightarrow>
   sum_list (map part_len (ps[i := Some b])) = sum_list (map part_len ps) + length b"
proof (induction ps arbitrary: i)
  case (Cons p ps)
  then show ?case by (cases i) (auto simp: part_len_def)
qed simp

lemma unat_Suc_u8: "unat w < 255 \<Longrightarrow> unat (w + 1 :: u8) = Suc (unat w)"
  by (simp add: unat_word_ariths)

lemma concat_parts_full: "(\<forall>p \<in> set ps. present p) \<Longrightarrow> concat_parts ps = Some (concat (map the ps))"
  by (induction ps rule: concat_parts.induct) auto

lemma filter_full: "length (filter P xs) = length xs \<longleftrightarrow> (\<forall>x \<in> set xs. P x)"
  by (metis filter_id_conv length_filter_less less_irrefl)

lemma FragSet_store_count:
  assumes "fs_ok s" "i < length (fs_parts s)" "fs_parts s ! i = None"
  shows "unat (fs_received (FragSet_store s i b now)) = Suc (unat (fs_received s))"
    "Suc (unat (fs_received s)) = length (filter present (fs_parts (FragSet_store s i b now)))"
    "fs_bytes (FragSet_store s i b now) = sum_list (map part_len (fs_parts (FragSet_store s i b now)))"
    "length (fs_parts (FragSet_store s i b now)) = length (fs_parts s)"
  using assms
  by (simp_all add: fs_ok_def FragSet_store_def unat_Suc_u8 filter_list_update_None part_len_list_update)

lemma FragSet_store_ok:
  assumes "fs_ok s" "i < length (fs_parts s)" "fs_parts s ! i = None"
    and "unat (fs_received (FragSet_store s i b now)) \<noteq> length (fs_parts s)"
  shows "fs_ok (FragSet_store s i b now)"
  using assms(4) FragSet_store_count [OF assms(1-3), of b now] assms(1) by (simp add: fs_ok_def)

lemma FragSet_store_full:
  assumes "fs_ok s" "i < length (fs_parts s)" "fs_parts s ! i = None"
    and "unat (fs_received (FragSet_store s i b now)) = length (fs_parts s)"
  shows "concat_parts (fs_parts (FragSet_store s i b now))
    = Some (concat (map the (fs_parts (FragSet_store s i b now))))"
  using FragSet_store_count [OF assms(1-3), of b now] assms(4)
  by (intro concat_parts_full) (metis filter_full)

text \<open>The two shapes of a successful \<open>fill\<close>: the set stays partial, or it is complete.\<close>

lemma ra_stored:
  fixes now :: time
  assumes inv: "ra_inv r" and s: "map_of (ra_sets r) key = Some s" and i: "i < length (fs_parts s)"
    and none: "fs_parts s ! i = None" and room: "ra_bytes r + length chunk \<le> rc_max_bytes (ra_cfg r)"
  defines "s' \<equiv> FragSet_store s i chunk now"
  defines "r' \<equiv> r\<lparr>ra_sets := SmallMap_modify (ra_sets r) key (\<lambda>_. s'), ra_bytes := ra_bytes r + length chunk\<rparr>"
  shows "unat (fs_received s') \<noteq> length (fs_parts s) \<Longrightarrow> ra_inv r'"
    and "ra_inv (Reassembler_remove_set r' key s')"
proof -
  have wf: "sm_wf (ra_sets r)" using inv by (simp add: ra_inv_def)
  have sok: "fs_ok s" using inv s wf by (auto simp: ra_inv_def dest!: map_of_SomeD)
  have mod: "SmallMap_modify (ra_sets r) key (\<lambda>_. s') = sm_put (ra_sets r) key s'"
    using SmallMap_modify_put [OF wf s] .
  have bytes: "fs_bytes s' = fs_bytes s + length chunk" by (simp add: s'_def FragSet_store_def)
  have tot: "ra_total (sm_put (ra_sets r) key s') = ra_total (ra_sets r) + length chunk"
    using sm_sum_put [OF wf s, of "\<lambda>(_, s). fs_bytes s" s'] bytes by (simp add: ra_total_def)
  have len: "length (sm_put (ra_sets r) key s') = length (ra_sets r)"
    using s wf by (simp add: SmallMap_insert_length) (metis domI dom_map_of_conv_image_fst)
  have r': "r' = r\<lparr>ra_sets := sm_put (ra_sets r) key s', ra_bytes := ra_bytes r + length chunk\<rparr>"
    by (simp add: r'_def mod)
  show "ra_inv r'" if "unat (fs_received s') \<noteq> length (fs_parts s)"
  proof -
    have "fs_ok s'" using FragSet_store_ok [OF sok i none, of chunk now] that by (simp add: s'_def)
    then show ?thesis
      using inv room tot len wf by (auto simp: ra_inv_def r' SmallMap_insert_set)
  qed
  have "ra_total (sm_put (ra_sets r) key s') = fs_bytes s' + ra_total (sm_del (sm_put (ra_sets r) key s') key)"
    using wf by (intro ra_total_del) simp_all
  moreover have "length (sm_del (sm_put (ra_sets r) key s') key) \<le> length (ra_sets r)"
    using SmallMap_remove_length_le [of "sm_put (ra_sets r) key s'" key] wf len by simp
  ultimately show "ra_inv (Reassembler_remove_set r' key s')"
    using inv tot wf room
    by (auto simp: ra_inv_def r' Reassembler_remove_set_def SmallMap_insert_set SmallMap_remove_set)
qed

lemma ra_inv_get: "ra_inv r \<Longrightarrow> SmallMap_get (ra_sets r) k = map_of (ra_sets r) k"
  by (simp add: ra_inv_def SmallMap_get_map_of)

lemma Reassembler_fill_inv:
  assumes inv: "ra_inv r" and fill: "Reassembler_fill r now key h chunk = Some (r', res)"
  shows "ra_inv r'"
proof -
  from fill obtain s where s: "map_of (ra_sets r) key = Some s"
    by (auto simp: Reassembler_fill_def ra_inv_get [OF inv] split: option.split_asm)
  have len: "length (fs_parts (FragSet_store s i b now)) = length (fs_parts s)" for i b
    by (simp add: FragSet_store_def)
  show ?thesis
    using fill ra_stored [OF inv s, of "unat (fh_index h)" chunk now] ra_inv_drop_set [OF inv s] inv
    unfolding Reassembler_fill_def ra_inv_get [OF inv] s Let_def
    by (simp add: len split: option.split_asm if_split_asm)
qed

lemma ra_inv_open:
  assumes "ra_inv r" "map_of (ra_sets r) key = None" "length (ra_sets r) < rc_max_sets (ra_cfg r)"
    and "0 < n" "n < 256"
  shows "ra_inv (r\<lparr>ra_sets := sm_put (ra_sets r) key (FragSet_new n now)\<rparr>)"
proof -
  have wf: "sm_wf (ra_sets r)" using assms(1) by (simp add: ra_inv_def)
  have "ra_total (sm_put (ra_sets r) key (FragSet_new n now)) = ra_total (ra_sets r)"
    using sm_sum_put_new [OF wf assms(2), of "\<lambda>(_, s). fs_bytes s"] by (simp add: ra_total_def FragSet_new_def)
  moreover have "fs_ok (FragSet_new n now)"
    using assms(4,5) by (simp add: fs_ok_def FragSet_new_def part_len_def sum_list_replicate filter_replicate)
  ultimately show ?thesis
    using assms(1,3) wf by (auto simp: ra_inv_def SmallMap_insert_set SmallMap_insert_length)
qed

lemma Reassembler_fill_total_0:
  "sm_wf m \<Longrightarrow> fh_total h = 0 \<Longrightarrow>
   Reassembler_fill (r\<lparr>ra_sets := sm_put m key (FragSet_new 0 now)\<rparr>) now key h chunk = None"
  by (simp add: Reassembler_fill_def SmallMap_get_map_of FragSet_new_def)

lemma unat_u8_lt: "unat (w :: u8) < 256"
  using unsigned_less [of w] by simp

lemma evict_sub: "sm_wf (ra_sets r) \<Longrightarrow> map_of (ra_sets r) k = None \<Longrightarrow>
    map_of (ra_sets (Reassembler_evict_oldest r)) k = None"
  by (simp add: Reassembler_evict_oldest_def Reassembler_drop_set_def Reassembler_remove_set_def
      split: option.split)

lemma contains_iff: "ra_inv r \<Longrightarrow> SmallMap_contains_key (ra_sets r) k \<longleftrightarrow> map_of (ra_sets r) k \<noteq> None"
  by (simp add: ra_inv_def SmallMap_contains_key_iff map_of_eq_None_iff)

text \<open>A push is a fill of the table, or the table is full after the eviction.\<close>

lemma Reassembler_push_cases:
  assumes "ra_inv r"
  obtains (full) r1 where "ra_inv r1" "Reassembler_push r now src h chunk = Some (r1, Inl Full)"
  | (zero) "fh_total h = 0" "Reassembler_push r now src h chunk = None"
  | (fill) r1 where "ra_inv r1" "map_of (ra_sets r1) (src, fh_frag_id h) \<noteq> None"
      "Reassembler_push r now src h chunk = Reassembler_fill r1 now (src, fh_frag_id h) h chunk"
proof (cases "map_of (ra_sets r) (src, fh_frag_id h) = None")
  case False
  then show ?thesis using assms by (intro fill [of r]) (simp_all add: Reassembler_push_def contains_iff)
next
  case True
  define r1 where "r1 = (if length (ra_sets r) \<ge> rc_max_sets (ra_cfg r) then Reassembler_evict_oldest r else r)"
  have "sm_wf (ra_sets r)" using assms by (simp add: ra_inv_def)
  then have r1: "ra_inv r1" "map_of (ra_sets r1) (src, fh_frag_id h) = None"
    using assms True by (simp_all add: r1_def ra_inv_evict evict_sub)
  then have wf: "sm_wf (ra_sets r1)" by (simp add: ra_inv_def)
  have push: "Reassembler_push r now src h chunk = (if length (ra_sets r1) \<ge> rc_max_sets (ra_cfg r1)
      then Some (r1, Inl Full)
      else Reassembler_fill (r1\<lparr>ra_sets := sm_put (ra_sets r1) (src, fh_frag_id h)
             (FragSet_new (unat (fh_total h)) now)\<rparr>) now (src, fh_frag_id h) h chunk)"
    using assms True by (simp add: Reassembler_push_def contains_iff r1_def Let_def)
  consider "length (ra_sets r1) \<ge> rc_max_sets (ra_cfg r1)"
    | "length (ra_sets r1) < rc_max_sets (ra_cfg r1)" "fh_total h = 0"
    | "length (ra_sets r1) < rc_max_sets (ra_cfg r1)" "fh_total h \<noteq> 0" by linarith
  then show ?thesis
  proof cases
    case 1
    then show ?thesis using r1 push by (intro full [of r1]) simp_all
  next
    case 2
    then show ?thesis using push wf by (intro zero) (simp_all add: Reassembler_fill_total_0)
  next
    case 3
    show ?thesis
    proof (rule fill)
      show "ra_inv (r1\<lparr>ra_sets := sm_put (ra_sets r1) (src, fh_frag_id h)
              (FragSet_new (unat (fh_total h)) now)\<rparr>)"
        using r1 3 unat_u8_lt [of "fh_total h"] by (intro ra_inv_open) (simp_all add: unat_gt_0)
    qed (use 3 push wf in simp_all)
  qed
qed

lemma Reassembler_push_inv:
  assumes "ra_inv r" "Reassembler_push r now src h chunk = Some (r', res)"
  shows "ra_inv r'"
  using Reassembler_push_cases [OF assms(1), of now src h chunk] assms(2) Reassembler_fill_inv
  by (metis Pair_inject option.discI option.inject)

lemma Reassembler_push_no_panic:
  assumes inv: "ra_inv r" and ok: "FragHeader_ok h"
  shows "Reassembler_push r now src h chunk \<noteq> None"
  using inv
proof (cases rule: Reassembler_push_cases [of r now src h chunk])
  case (fill r1)
  then obtain s where s: "map_of (ra_sets r1) (src, fh_frag_id h) = Some s" by auto
  then have "fs_ok s" using fill(1) by (auto simp: ra_inv_def dest!: map_of_SomeD)
  moreover have "unat (fh_index h) < unat (fh_total h)"
    using ok by (simp add: FragHeader_ok_def word_less_nat_alt)
  moreover have "length (fs_parts (FragSet_store s i b now)) = length (fs_parts s)" for i b
    by (simp add: FragSet_store_def)
  ultimately show ?thesis
    using fill(3) FragSet_store_full [of s "unat (fh_index h)" chunk now]
    by (auto simp: Reassembler_fill_def ra_inv_get [OF fill(1)] s Let_def)
qed (use ok in \<open>simp_all add: FragHeader_ok_def\<close>)

lemma ra_cfg_remove_set [simp]: "ra_cfg (Reassembler_remove_set r k s) = ra_cfg r"
  by (simp add: Reassembler_remove_set_def)

lemma fold_remove_set:
  assumes "ra_inv r" "distinct (map fst ks)" "\<forall>(k, s) \<in> set ks. map_of (ra_sets r) k = Some s"
  shows "ra_inv (fold (\<lambda>(k, s) r. Reassembler_remove_set r k s) ks r) \<and>
    (\<forall>k. map_of (ra_sets (fold (\<lambda>(k, s) r. Reassembler_remove_set r k s) ks r)) k
       = (if k \<in> fst ` set ks then None else map_of (ra_sets r) k))"
  using assms
proof (induction ks arbitrary: r)
  case (Cons x ks)
  obtain k s where x: "x = (k, s)" by (cases x)
  have wf: "sm_wf (ra_sets r)" using Cons.prems(1) by (simp add: ra_inv_def)
  let ?r = "Reassembler_remove_set r k s"
  have sets: "ra_sets ?r = sm_del (ra_sets r) k" by (simp add: Reassembler_remove_set_def)
  have "ra_inv ?r" using Cons.prems by (intro ra_inv_remove_set) (simp_all add: x)
  moreover have "\<forall>(k', s') \<in> set ks. map_of (ra_sets ?r) k' = Some s'"
    using Cons.prems wf unfolding sets by (force simp: x)
  ultimately show ?case
    using Cons.IH [of ?r] Cons.prems(2) wf unfolding sets by (auto simp: x)
qed simp

lemma Reassembler_expire_spec:
  assumes inv: "ra_inv r"
  shows "ra_inv (fst (Reassembler_expire r now))"
    "map_of (ra_sets (fst (Reassembler_expire r now))) k =
       (case map_of (ra_sets r) k of
          Some s \<Rightarrow> if sat_sub now (fs_started_at s) > rc_timeout_ms (ra_cfg r) then None else Some s
        | None \<Rightarrow> None)"
proof -
  let ?stale = "filter (\<lambda>(_, s). sat_sub now (fs_started_at s) > rc_timeout_ms (ra_cfg r)) (ra_sets r)"
  let ?r = "fold (\<lambda>(k, s) r. Reassembler_remove_set r k s) ?stale r"
  have wf: "sm_wf (ra_sets r)" using inv by (simp add: ra_inv_def)
  have d: "distinct (map fst ?stale)" using wf by (intro sm_wf_distinct) simp
  have all: "\<forall>(k, s) \<in> set ?stale. map_of (ra_sets r) k = Some s" using wf by (auto simp: sm_mem_iff)
  note F = fold_remove_set [OF inv d all]
  show "ra_inv (fst (Reassembler_expire r now))"
    using F by (simp add: Reassembler_expire_def Let_def ra_inv_def)
  have mem: "k \<in> fst ` set ?stale \<longleftrightarrow>
      (\<exists>s. map_of (ra_sets r) k = Some s \<and> sat_sub now (fs_started_at s) > rc_timeout_ms (ra_cfg r))"
    unfolding sm_mem_iff [OF wf, symmetric] by force
  have "map_of (ra_sets (fst (Reassembler_expire r now))) k = map_of (ra_sets ?r) k"
    by (simp add: Reassembler_expire_def Let_def)
  also have "\<dots> = (if k \<in> fst ` set ?stale then None else map_of (ra_sets r) k)"
    using F by blast
  finally show "map_of (ra_sets (fst (Reassembler_expire r now))) k =
       (case map_of (ra_sets r) k of
          Some s \<Rightarrow> if sat_sub now (fs_started_at s) > rc_timeout_ms (ra_cfg r) then None else Some s
        | None \<Rightarrow> None)"
    unfolding mem by (auto split: option.split)
qed

text \<open>The reassembler as a machine; a call that would panic is not a step.\<close>

datatype ra_op = RaPush time address frag_header bytes | RaExpire time

fun ra_step :: "ra_op \<Rightarrow> reassembler \<Rightarrow> reassembler" where
  "ra_step (RaPush now src h chunk) r =
     (case Reassembler_push r now src h chunk of None \<Rightarrow> r | Some (r', _) \<Rightarrow> r')"
| "ra_step (RaExpire now) r = fst (Reassembler_expire r now)"

interpretation ra: invariant_machine ra_step ra_inv
proof
  fix s a
  assume "ra_inv s"
  then show "ra_inv (ra_step a s)"
    by (cases a) (auto intro: Reassembler_push_inv Reassembler_expire_spec split: option.split)
qed

subsection \<open>Splitting\<close>

lemma split_body_nth:
  assumes "split_body fid body chunk = Some fr"
  shows "0 < length fr" "length fr < 256" "concat (map snd fr) = body"
    "i < length fr \<Longrightarrow> fst (fr ! i) = \<lparr>fh_frag_id = fid, fh_index = of_nat i, fh_total = of_nat (length fr)\<rparr>"
proof -
  have c: "0 < chunk" using assms by (simp add: split_body_def split: if_splits)
  have nil: "length (chunks chunk body) = 0 \<longleftrightarrow> body = []"
    using c by (metis concat.simps(1) concat_chunks length_0_conv chunks_Nil)
  have "length fr = max (div_ceil (length body) chunk) 1 \<and> length fr < 256
    \<and> concat (map snd fr) = body \<and>
    (\<forall>i < length fr. fst (fr ! i) = \<lparr>fh_frag_id = fid, fh_index = of_nat i, fh_total = of_nat (length fr)\<rparr>)"
  proof (cases "body = []")
    case True
    with assms c show ?thesis by (auto simp: split_body_def div_ceil_def)
  next
    case False
    then have pos: "0 < length (chunks chunk body)" using nil by simp
    have "map snd (enumerate 0 (chunks chunk body)) = chunks chunk body" by simp
    then show ?thesis
      using assms c False pos length_chunks [OF c, of body]
      by (auto simp: split_body_def Let_def nth_enumerate_eq comp_def case_prod_unfold split: if_splits)
  qed
  then show "0 < length fr" "length fr < 256" "concat (map snd fr) = body"
    "i < length fr \<Longrightarrow> fst (fr ! i) = \<lparr>fh_frag_id = fid, fh_index = of_nat i, fh_total = of_nat (length fr)\<rparr>"
    by auto
qed

lemma split_body_header_ok:
  assumes "split_body fid body chunk = Some fr" "f \<in> set fr"
  shows "FragHeader_ok (fst f)"
proof -
  obtain i where i: "i < length fr" "f = fr ! i" using assms(2) by (auto simp: in_set_conv_nth)
  note S = split_body_nth [OF assms(1)]
  then show ?thesis
    using i by (auto simp: FragHeader_ok_def word_less_nat_alt unat_of_nat_u8 unat_gt_0 [symmetric]
        simp del: unat_gt_0)
qed

subsection \<open>Reassembly in any order\<close>

text \<open>
  Fragments pushed one after another, each at its own time; the results are collected
  and \<open>None\<close> is a panic.
\<close>

fun Reassembler_feed ::
  "reassembler \<Rightarrow> address \<Rightarrow> (time \<times> frag_header \<times> bytes) list \<Rightarrow>
   (reassembler \<times> bytes option result list) option" where
  "Reassembler_feed r src [] = Some (r, [])"
| "Reassembler_feed r src ((now, h, chunk) # fs) =
     (case Reassembler_push r now src h chunk of
        None \<Rightarrow> None
      | Some (r', res) \<Rightarrow> map_option (\<lambda>(r'', rs). (r'', res # rs)) (Reassembler_feed r' src fs))"

text \<open>
  \<open>ra_partial r0 src fr I r\<close>: compared with \<open>r0\<close>, the table \<open>r\<close> additionally holds the
  fragments of \<open>fr\<close> with an index in \<open>I\<close>.
\<close>

definition frag_key_of :: "address \<Rightarrow> (frag_header \<times> bytes) list \<Rightarrow> frag_key" where
  "frag_key_of src fr = (src, fh_frag_id (fst (fr ! 0)))"

definition ra_partial ::
  "reassembler \<Rightarrow> address \<Rightarrow> (frag_header \<times> bytes) list \<Rightarrow> nat set \<Rightarrow> reassembler \<Rightarrow> bool" where
  "ra_partial r0 src fr I r \<longleftrightarrow>
     ra_inv r \<and> ra_cfg r = ra_cfg r0 \<and>
     ra_bytes r = ra_bytes r0 + (\<Sum>i \<in> I. length (snd (fr ! i))) \<and>
     (\<exists>s. map_of (ra_sets r) = (map_of (ra_sets r0))(frag_key_of src fr \<mapsto> s) \<and>
          fs_parts s = map (\<lambda>i. if i \<in> I then Some (snd (fr ! i)) else None) [0..<length fr])"

lemma sum_part_le:
  "I \<subseteq> {..<length fr} \<Longrightarrow> (\<Sum>i \<in> I. length (snd (fr ! i))) \<le> length (concat (map snd fr))"
proof -
  assume "I \<subseteq> {..<length fr}"
  then have "(\<Sum>i \<in> I. length (snd (fr ! i))) \<le> (\<Sum>i < length fr. length (snd (fr ! i)))"
    by (intro sum_mono2) auto
  also have "\<dots> = sum_list (map (length \<circ> snd) fr)"
    by (simp add: sum_list_sum_nth atLeast0LessThan)
  finally show ?thesis by (simp add: length_concat comp_def)
qed

lemma map_if_upt_update:
  "i < n \<Longrightarrow> (map (\<lambda>j. if j \<in> I then Some (f j) else None) [0..<n])[i := Some (f i)]
     = map (\<lambda>j. if j = i \<or> j \<in> I then Some (f j) else None) [0..<n]"
  by (auto simp: list_eq_iff_nth_eq nth_list_update)

lemma length_filter_present_upt:
  "I \<subseteq> {..<n} \<Longrightarrow> length (filter present (map (\<lambda>j. if j \<in> I then Some (f j) else None) [0..<n])) = card I"
proof -
  assume I: "I \<subseteq> {..<n}"
  have "filter (present \<circ> (\<lambda>j. if j \<in> I then Some (f j) else None)) [0..<n] = filter (\<lambda>j. j \<in> I) [0..<n]"
    by (rule filter_cong) auto
  then have "length (filter present (map (\<lambda>j. if j \<in> I then Some (f j) else None) [0..<n]))
      = length (filter (\<lambda>j. j \<in> I) [0..<n])" by (simp add: filter_map)
  also have "\<dots> = card {j \<in> {0..<n}. j \<in> I}"
    using distinct_card [of "filter (\<lambda>j. j \<in> I) [0..<n]"] by simp
  also have "{j \<in> {0..<n}. j \<in> I} = I" using I by auto
  finally show ?thesis .
qed

lemma card_insert_full:
  assumes "I \<subseteq> {..<n}" "i < n" "i \<notin> I"
  shows "Suc (card I) = n \<longleftrightarrow> insert i I = {..<n}"
proof -
  have fin: "finite I" using assms(1) finite_subset by blast
  then have "card (insert i I) = Suc (card I)" using assms(3) by simp
  moreover have "insert i I \<subseteq> {..<n}" using assms by simp
  ultimately show ?thesis by (metis card_lessThan card_subset_eq finite_lessThan)
qed

lemma ra_partial_fill:
  assumes split: "split_body fid body chunk = Some fr"
    and P: "ra_partial r0 src fr I r" and I: "I \<subseteq> {..<length fr}" and i: "i < length fr" "i \<notin> I"
    and room: "ra_bytes r0 + length body \<le> rc_max_bytes (ra_cfg r0)"
  obtains s where "map_of (ra_sets r) = (map_of (ra_sets r0))(frag_key_of src fr \<mapsto> s)" "fs_ok s"
    "length (fs_parts s) = length fr" "fs_parts s ! i = None"
    "ra_bytes r + length (snd (fr ! i)) \<le> rc_max_bytes (ra_cfg r)"
    "fs_parts (FragSet_store s i (snd (fr ! i)) now)
       = map (\<lambda>j. if j \<in> insert i I then Some (snd (fr ! j)) else None) [0..<length fr]"
    "unat (fs_received (FragSet_store s i (snd (fr ! i)) now)) = length fr \<longleftrightarrow> insert i I = {..<length fr}"
proof -
  from P obtain s where s: "map_of (ra_sets r) = (map_of (ra_sets r0))(frag_key_of src fr \<mapsto> s)"
    and parts: "fs_parts s = map (\<lambda>i. if i \<in> I then Some (snd (fr ! i)) else None) [0..<length fr]"
    by (auto simp: ra_partial_def)
  have "map_of (ra_sets r) (frag_key_of src fr) = Some s" using s by simp
  then have ok: "fs_ok s" using P by (auto simp: ra_partial_def ra_inv_def dest!: map_of_SomeD)
  have none: "fs_parts s ! i = None" using i by (simp add: parts)
  have "(\<Sum>j \<in> insert i I. length (snd (fr ! j))) \<le> length body"
    using sum_part_le [of "insert i I" fr] I i split_body_nth(3) [OF split] by simp
  then have le: "ra_bytes r + length (snd (fr ! i)) \<le> rc_max_bytes (ra_cfg r)"
    using P room i finite_subset [OF I] by (simp add: ra_partial_def)
  have cnt: "unat (fs_received (FragSet_store s i (snd (fr ! i)) now)) = Suc (card I)"
    using FragSet_store_count(1) [OF ok _ none, of "snd (fr ! i)" now] ok i
      length_filter_present_upt [OF I, of "\<lambda>j. snd (fr ! j)"]
    by (simp add: parts fs_ok_def)
  show ?thesis
    by (rule that [OF s ok _ none le])
      (use cnt card_insert_full [OF I i] i in \<open>simp_all add: parts FragSet_store_def
        map_if_upt_update [of i "length fr" I "\<lambda>j. snd (fr ! j)"]\<close>)
qed

lemma ra_partial_push:
  assumes split: "split_body fid body chunk = Some fr"
    and P: "ra_partial r0 src fr I r" and I: "I \<subseteq> {..<length fr}" and i: "i < length fr" "i \<notin> I"
    and room: "ra_bytes r0 + length body \<le> rc_max_bytes (ra_cfg r0)"
    and inv0: "ra_inv r0" and fresh: "map_of (ra_sets r0) (frag_key_of src fr) = None"
  shows "insert i I \<noteq> {..<length fr} \<Longrightarrow>
      \<exists>r'. Reassembler_push r now src (fst (fr ! i)) (snd (fr ! i)) = Some (r', Inr None)
           \<and> ra_partial r0 src fr (insert i I) r'"
    and "insert i I = {..<length fr} \<Longrightarrow>
      \<exists>r'. Reassembler_push r now src (fst (fr ! i)) (snd (fr ! i)) = Some (r', Inr (Some body))
           \<and> ra_sets r' = ra_sets r0 \<and> ra_bytes r' = ra_bytes r0"
proof -
  let ?key = "frag_key_of src fr" and ?c = "snd (fr ! i)"
  obtain s where s: "map_of (ra_sets r) = (map_of (ra_sets r0))(?key \<mapsto> s)" and ok: "fs_ok s"
    and len: "length (fs_parts s) = length fr" and none: "fs_parts s ! i = None"
    and le: "ra_bytes r + length ?c \<le> rc_max_bytes (ra_cfg r)"
    and parts: "fs_parts (FragSet_store s i ?c now)
       = map (\<lambda>j. if j \<in> insert i I then Some (snd (fr ! j)) else None) [0..<length fr]"
    and cnt: "unat (fs_received (FragSet_store s i ?c now)) = length fr \<longleftrightarrow> insert i I = {..<length fr}"
    by (rule ra_partial_fill [OF split P I i room, where now = now]) (rule that)
  note S = split_body_nth [OF split]
  have inv: "ra_inv r" and cfg: "ra_cfg r = ra_cfg r0"
    and bytes: "ra_bytes r = ra_bytes r0 + (\<Sum>j \<in> I. length (snd (fr ! j)))"
    using P by (simp_all add: ra_partial_def)
  have key: "(src, fh_frag_id (fst (fr ! i))) = ?key" using S(1) S(4) i by (simp add: frag_key_of_def)
  have sk: "map_of (ra_sets r) ?key = Some s" using s by simp
  have wf: "sm_wf (ra_sets r)" using inv by (simp add: ra_inv_def)
  define s' where "s' = FragSet_store s i ?c now"
  define r' where "r' = r\<lparr>ra_sets := SmallMap_modify (ra_sets r) ?key (\<lambda>_. s'), ra_bytes := ra_bytes r + length ?c\<rparr>"
  have len': "length (fs_parts s') = length fr" by (simp add: s'_def parts)
  have sets': "map_of (ra_sets r') = (map_of (ra_sets r0))(?key \<mapsto> s')"
    using s wf by (simp add: r'_def SmallMap_modify_map_of)
  have cont: "SmallMap_contains_key (ra_sets r) ?key" using sk by (simp add: contains_iff [OF inv])
  have get: "SmallMap_get (ra_sets r) ?key = Some s" using sk by (simp add: ra_inv_get [OF inv])
  have tot: "unat (fh_total (fst (fr ! i))) = length fr" and idx: "unat (fh_index (fst (fr ! i))) = i"
    using S(4) [OF i(1)] S(2) i(1) by (simp_all add: unat_of_nat_u8)
  have push: "Reassembler_push r now src (fst (fr ! i)) ?c = (if insert i I = {..<length fr}
      then (case concat_parts (fs_parts s') of None \<Rightarrow> None
            | Some out \<Rightarrow> Some (Reassembler_remove_set r' ?key s', Inr (Some out)))
      else Some (r', Inr None))"
    unfolding Reassembler_push_def Let_def key if_P [OF cont] Reassembler_fill_def get option.case
      tot idx len s'_def [symmetric] r'_def [symmetric] len'
    using i(1) none le cnt by (simp add: s'_def [symmetric])
  have stored: "unat (fs_received s') \<noteq> length (fs_parts s) \<Longrightarrow> ra_inv r'"
    "ra_inv (Reassembler_remove_set r' ?key s')"
    using ra_stored [OF inv sk _ none le, of now] i len unfolding s'_def r'_def by simp_all
  {
    assume "insert i I \<noteq> {..<length fr}"
    then have "ra_partial r0 src fr (insert i I) r'"
      using stored(1) cnt len sets' parts bytes cfg i finite_subset [OF I]
      by (auto simp: ra_partial_def s'_def [symmetric] r'_def)
    then show "\<exists>r'. Reassembler_push r now src (fst (fr ! i)) ?c = Some (r', Inr None)
           \<and> ra_partial r0 src fr (insert i I) r'"
      using push \<open>insert i I \<noteq> {..<length fr}\<close> by simp
  next
    assume full: "insert i I = {..<length fr}"
    have "map the (fs_parts s') = map snd fr"
      unfolding s'_def parts full by (rule nth_equalityI) simp_all
    moreover have "\<forall>p \<in> set (fs_parts s'). present p" by (auto simp: s'_def parts full)
    ultimately have out: "concat_parts (fs_parts s') = Some body"
      using S(3) by (simp add: concat_parts_full)
    let ?r = "Reassembler_remove_set r' ?key s'"
    have "map_of (ra_sets ?r) = map_of (ra_sets r0)"
      using sets' wf fresh by (auto simp: Reassembler_remove_set_def r'_def)
    then have "ra_sets ?r = ra_sets r0"
      using stored(2) inv0 by (intro sm_eqI) (simp_all add: ra_inv_def)
    moreover from this have "ra_bytes ?r = ra_bytes r0" using stored(2) inv0 by (simp add: ra_inv_def)
    ultimately show "\<exists>r'. Reassembler_push r now src (fst (fr ! i)) ?c = Some (r', Inr (Some body))
           \<and> ra_sets r' = ra_sets r0 \<and> ra_bytes r' = ra_bytes r0"
      using push full out by simp
  }
qed

lemma ra_partial_open:
  assumes split: "split_body fid body chunk = Some fr" and inv: "ra_inv r"
    and fresh: "map_of (ra_sets r) (frag_key_of src fr) = None"
    and room: "length (ra_sets r) < rc_max_sets (ra_cfg r)" and f: "f \<in> set fr"
  obtains r1 where "ra_partial r src fr {} r1"
    "\<And>b. Reassembler_push r now src (fst f) b = Reassembler_push r1 now src (fst f) b"
proof -
  note S = split_body_nth [OF split]
  obtain i where i: "i < length fr" "f = fr ! i" using f by (auto simp: in_set_conv_nth)
  define r1 where "r1 = r\<lparr>ra_sets := sm_put (ra_sets r) (frag_key_of src fr) (FragSet_new (length fr) now)\<rparr>"
  have inv1: "ra_inv r1" using S(1,2) by (simp add: r1_def ra_inv_open [OF inv fresh room])
  have wf: "sm_wf (ra_sets r)" using inv by (simp add: ra_inv_def)
  have key: "(src, fh_frag_id (fst f)) = frag_key_of src fr"
    using S(1) S(4) i by (simp add: frag_key_of_def)
  have sets: "map_of (ra_sets r1) = (map_of (ra_sets r))(frag_key_of src fr \<mapsto> FragSet_new (length fr) now)"
    using wf by (simp add: r1_def)
  have "ra_partial r src fr {} r1"
    using inv1 sets by (auto simp: ra_partial_def r1_def FragSet_new_def map_replicate_const)
  moreover have "unat (fh_total (fst f)) = length fr" using S(2) S(4) i by (simp add: unat_of_nat_u8)
  then have "Reassembler_push r now src (fst f) b = Reassembler_push r1 now src (fst f) b" for b
    using fresh room sets
    by (simp add: Reassembler_push_def Let_def key contains_iff [OF inv] contains_iff [OF inv1]
        r1_def [symmetric])
  ultimately show thesis by (rule that)
qed

text \<open>The arrival order of the rest: indices not yet seen, each with its arrival time.\<close>

lemma ra_feed_rest:
  assumes split: "split_body fid body chunk = Some fr" and inv0: "ra_inv r0"
    and fresh: "map_of (ra_sets r0) (frag_key_of src fr) = None"
    and room: "ra_bytes r0 + length body \<le> rc_max_bytes (ra_cfg r0)"
  shows "ra_partial r0 src fr I r \<Longrightarrow> I \<subseteq> {..<length fr} \<Longrightarrow> distinct (map snd js) \<Longrightarrow> js \<noteq> [] \<Longrightarrow>
    snd ` set js = {..<length fr} - I \<Longrightarrow>
    \<exists>r'. Reassembler_feed r src (map (\<lambda>(t, j). (t, fr ! j)) js)
           = Some (r', replicate (length js - 1) (Inr None) @ [Inr (Some body)])
         \<and> ra_sets r' = ra_sets r0 \<and> ra_bytes r' = ra_bytes r0"
proof (induction js arbitrary: I r)
  case (Cons x js)
  obtain t j where x: "x = (t, j)" by (cases x)
  have j: "j < length fr" "j \<notin> I" using Cons.prems(5) by (auto simp: x)
  note push = ra_partial_push [OF split Cons.prems(1,2) j room inv0 fresh, of t]
  have rest: "snd ` set js = {..<length fr} - insert j I" using Cons.prems(3,5) by (auto simp: x)
  show ?case
  proof (cases "js = []")
    case True
    then have "insert j I = {..<length fr}" using rest Cons.prems(2) j by auto
    then show ?thesis using push(2) True by (cases "fr ! j") (auto simp: x)
  next
    case False
    then have "insert j I \<noteq> {..<length fr}" using rest by (cases js) auto
    then obtain r1 where r1: "Reassembler_push r t src (fst (fr ! j)) (snd (fr ! j)) = Some (r1, Inr None)"
      and P1: "ra_partial r0 src fr (insert j I) r1" using push(1) by blast
    have "insert j I \<subseteq> {..<length fr}" using Cons.prems(2) j by simp
    then obtain r' where "Reassembler_feed r1 src (map (\<lambda>(t, j). (t, fr ! j)) js)
        = Some (r', replicate (length js - 1) (Inr None) @ [Inr (Some body)])"
      "ra_sets r' = ra_sets r0" "ra_bytes r' = ra_bytes r0"
      using Cons.IH [OF P1] Cons.prems(3) False rest by auto
    moreover have "replicate (length js) a = a # replicate (length js - 1) a" for a :: "bytes option result"
      using False by (cases js) simp_all
    ultimately show ?thesis using r1 by (cases "fr ! j") (simp add: x)
  qed
qed simp

lemma ra_feed_first:
  "(\<And>b. Reassembler_push r t src (fst f) b = Reassembler_push r1 t src (fst f) b) \<Longrightarrow>
   Reassembler_feed r src ((t, f) # fs) = Reassembler_feed r1 src ((t, f) # fs)"
  by (cases f) simp

lemma ra_feed_indices:
  assumes split: "split_body fid body chunk = Some fr" and inv: "ra_inv r"
    and fresh: "map_of (ra_sets r) (frag_key_of src fr) = None"
    and sets: "length (ra_sets r) < rc_max_sets (ra_cfg r)"
    and room: "ra_bytes r + length body \<le> rc_max_bytes (ra_cfg r)"
    and js: "distinct (map snd js)" "snd ` set js = {..<length fr}"
  shows "\<exists>r'. Reassembler_feed r src (map (\<lambda>(t, j). (t, fr ! j)) js)
           = Some (r', replicate (length fr - 1) (Inr None) @ [Inr (Some body)])
         \<and> ra_sets r' = ra_sets r \<and> ra_bytes r' = ra_bytes r"
proof -
  have len: "length js = length fr"
    using js distinct_card [OF js(1)] by simp
  then obtain t j js' where x: "js = (t, j) # js'"
    using split_body_nth(1) [OF split] by (cases js) auto
  then have "j < length fr" using js(2) by auto
  then obtain r1 where r1: "ra_partial r src fr {} r1"
    and same: "\<And>b. Reassembler_push r t src (fst (fr ! j)) b = Reassembler_push r1 t src (fst (fr ! j)) b"
    using ra_partial_open [OF split inv fresh sets, of "fr ! j" t] by auto
  have "Reassembler_feed r src (map (\<lambda>(t, j). (t, fr ! j)) js)
      = Reassembler_feed r1 src (map (\<lambda>(t, j). (t, fr ! j)) js)"
    using ra_feed_first [OF same] by (simp add: x)
  then show ?thesis
    using ra_feed_rest [OF split inv fresh room r1 _ js(1)] js(2) x by (simp flip: len)
qed

lemma arrivals_indices:
  assumes split: "split_body fid body chunk = Some fr" and arr: "mset (map snd fs) = mset fr"
  defines "js \<equiv> map (\<lambda>(t, f). (t, unat (fh_index (fst f)))) fs"
  shows "fs = map (\<lambda>(t, j). (t, fr ! j)) js" "distinct (map snd js)" "snd ` set js = {..<length fr}"
proof -
  note S = split_body_nth [OF split]
  let ?ix = "\<lambda>f. unat (fh_index (fst f))"
  have ix: "?ix (fr ! i) = i" if "i < length fr" for i
    using that S(2) S(4) by (simp add: unat_of_nat_u8)
  then have frix: "map ?ix fr = [0..<length fr]" by (intro nth_equalityI) simp_all
  have jss: "map snd js = map ?ix (map snd fs)" by (simp add: js_def split_beta comp_def)
  then have "mset (map snd js) = image_mset ?ix (mset (map snd fs))" by (simp only: mset_map)
  then have m: "mset (map snd js) = mset [0..<length fr]"
    unfolding arr by (metis frix mset_map)
  then have "distinct (map snd js)"
    by (metis distinct_upt mset_eq_imp_distinct_iff)
  moreover have "set (map snd js) = {..<length fr}" using m by (metis atLeast_upt mset_eq_setD)
  ultimately show "distinct (map snd js)" "snd ` set js = {..<length fr}" by simp_all
  have "fr ! ?ix f = f" if "f \<in> set (map snd fs)" for f
  proof -
    have "f \<in> set fr" using that arr by (metis mset_eq_setD)
    then show ?thesis using ix by (auto simp: in_set_conv_nth)
  qed
  then show "fs = map (\<lambda>(t, j). (t, fr ! j)) js"
    by (intro nth_equalityI) (auto simp: js_def split_beta)
qed

lemma ra_cfg_evict [simp]: "ra_cfg (Reassembler_evict_oldest r) = ra_cfg r"
  by (simp add: Reassembler_evict_oldest_def Reassembler_drop_set_def split: option.split)

lemma ra_cfg_fill:
  "Reassembler_fill r now key h chunk = Some (r', res) \<Longrightarrow> ra_cfg r' = ra_cfg r"
  by (auto simp: Reassembler_fill_def Reassembler_drop_set_def Reassembler_remove_set_def Let_def
      split: option.split_asm if_split_asm)

lemma ra_cfg_push:
  "Reassembler_push r now src h chunk = Some (r', res) \<Longrightarrow> ra_cfg r' = ra_cfg r"
  by (auto simp: Reassembler_push_def Let_def dest!: ra_cfg_fill split: if_split_asm)

lemma ra_cfg_fold_remove [simp]:
  "ra_cfg (fold (\<lambda>(k, s) r. Reassembler_remove_set r k s) ks r) = ra_cfg r"
  by (induction ks arbitrary: r) (auto simp: split_beta)

lemma ra_cfg_step [simp]: "ra_cfg (ra_step a r) = ra_cfg r"
  by (cases a) (auto simp: Reassembler_expire_def Let_def dest: ra_cfg_push split: option.split)

lemma ra_cfg_run [simp]: "ra_cfg (fold ra_step ops r) = ra_cfg r"
  by (induction ops arbitrary: r) auto

subsection \<open>Properties\<close>

text \<open>C9. Reassembly in any order: the fragments of a split message, arriving in any order and
  at any times at a reassembler with a free set, room for the message and no set of that id,
  give \<open>Ok(None)\<close> until the last one, which gives the message; afterwards the table and the
  byte count are what they were before.\<close>

theorem reassembly_any_order:
  assumes "split_body fid body chunk = Some fr" "mset (map snd arrivals) = mset fr" "ra_inv r"
    and "SmallMap_get (ra_sets r) (src, fid) = None"
    and "Reassembler_active_sets r < rc_max_sets (ra_cfg r)"
    and "Reassembler_bytes_held r + length body \<le> rc_max_bytes (ra_cfg r)"
  shows "\<exists>r'. Reassembler_feed r src arrivals
            = Some (r', replicate (length fr - 1) (Inr None) @ [Inr (Some body)])
          \<and> ra_sets r' = ra_sets r \<and> Reassembler_bytes_held r' = Reassembler_bytes_held r"
proof -
  note S = split_body_nth [OF assms(1)] and A = arrivals_indices [OF assms(1,2)]
  have "frag_key_of src fr = (src, fid)" using S(1) S(4) [of 0] by (simp add: frag_key_of_def)
  then have "map_of (ra_sets r) (frag_key_of src fr) = None" using assms(4) ra_inv_get [OF assms(3)] by simp
  from ra_feed_indices [OF assms(1,3) this _ _ A(2,3)] assms(5,6) show ?thesis
    unfolding A(1) [symmetric] Reassembler_active_sets_def Reassembler_bytes_held_def by blast
qed

theorem reassembly_any_order_witness:
  "\<exists>r'. Reassembler_feed (Reassembler_new ReassemblyConfig_default) (Address 1 1 1 1 1 1 1 1)
       [(5, \<lparr>fh_frag_id = 9, fh_index = 1, fh_total = 2\<rparr>, [30]), (8, \<lparr>fh_frag_id = 9, fh_index = 0, fh_total = 2\<rparr>, [10, 20])]
     = Some (r', replicate (length [(\<lparr>fh_frag_id = 9, fh_index = 0, fh_total = 2\<rparr>, [10, 20 :: u8]),
         (\<lparr>fh_frag_id = 9, fh_index = 1, fh_total = 2\<rparr>, [30])] - 1) (Inr None) @ [Inr (Some [10, 20, 30])])
   \<and> ra_sets r' = ra_sets (Reassembler_new ReassemblyConfig_default)
   \<and> Reassembler_bytes_held r' = Reassembler_bytes_held (Reassembler_new ReassemblyConfig_default)"
proof (rule reassembly_any_order)
  show "split_body 9 [10, 20, 30] 2 = Some [(\<lparr>fh_frag_id = 9, fh_index = 0, fh_total = 2\<rparr>, [10, 20]),
         (\<lparr>fh_frag_id = 9, fh_index = 1, fh_total = 2\<rparr>, [30])]"
    by code_simp
qed (simp_all add: ra_inv_new, code_simp+)

text \<open>C17. Bounded memory: after any sequence of pushes and expiries the reassembler holds at
  most the configured number of sets and bytes, and its byte counter is the sum of the bytes of
  the parts it stores.\<close>

theorem reassembler_bounded:
  "let r = fold ra_step ops (Reassembler_new cfg)
   in Reassembler_active_sets r \<le> rc_max_sets cfg \<and>
      Reassembler_bytes_held r \<le> rc_max_bytes cfg \<and>
      Reassembler_bytes_held r = sum_list (map (\<lambda>(_, s). sum_list (map part_len (fs_parts s))) (ra_sets r))"
proof -
  define r where "r = fold ra_step ops (Reassembler_new cfg)"
  have inv: "ra_inv r" unfolding r_def by (rule ra.run_inv [OF ra_inv_new])
  have "sum_list (map (\<lambda>(_, s). sum_list (map part_len (fs_parts s))) (ra_sets r)) = ra_total (ra_sets r)"
    unfolding ra_total_def
    by (rule arg_cong [where f = sum_list], rule map_cong [OF refl])
      (use inv in \<open>auto simp: ra_inv_def fs_ok_def\<close>)
  moreover have "ra_cfg r = cfg" by (simp add: r_def Reassembler_new_def)
  ultimately show ?thesis
    using inv unfolding r_def [symmetric] by (simp add: ra_inv_def Reassembler_active_sets_def Reassembler_bytes_held_def)
qed

text \<open>C18. No panic: in every reachable state a fragment whose header passed the header parser
  is pushed without an index out of bounds or an unwrap of a missing part.\<close>

theorem reassembler_no_panic:
  assumes "FragHeader_parse payload = Inr h"
  shows "Reassembler_push (fold ra_step ops (Reassembler_new cfg)) now src h chunk \<noteq> None"
  using FragHeader_parse_Inr [OF assms] Reassembler_push_no_panic [OF ra.run_inv [OF ra_inv_new]]
  by blast

theorem reassembler_no_panic_witness:
  "Reassembler_push (fold ra_step [RaPush 0 (Address 1 1 1 1 1 1 1 1) \<lparr>fh_frag_id = 9, fh_index = 0, fh_total = 3\<rparr> [1]]
     (Reassembler_new ReassemblyConfig_default)) 5 (Address 1 1 1 1 1 1 1 1)
     \<lparr>fh_frag_id = 9, fh_index = 2, fh_total = 3\<rparr> [4, 5] \<noteq> None"
  by (rule reassembler_no_panic [of "[0, 9, 2, 3]"]) code_simp

text \<open>Expiry: in every reachable state, expiry keeps exactly the sets that are not older
  than the timeout.\<close>

theorem reassembler_expire_exact:
  "let r = fold ra_step ops (Reassembler_new cfg)
   in SmallMap_get (ra_sets (fst (Reassembler_expire r now))) k =
        (case SmallMap_get (ra_sets r) k of
           Some s \<Rightarrow> if sat_sub now (fs_started_at s) > rc_timeout_ms cfg then None else Some s
         | None \<Rightarrow> None)"
proof -
  define r where "r = fold ra_step ops (Reassembler_new cfg)"
  have inv: "ra_inv r" unfolding r_def by (rule ra.run_inv [OF ra_inv_new])
  have "ra_cfg r = cfg" by (simp add: r_def Reassembler_new_def)
  then show ?thesis
    using Reassembler_expire_spec(2) [OF inv, of now k]
      ra_inv_get [OF Reassembler_expire_spec(1) [OF inv, of now]] ra_inv_get [OF inv]
    unfolding r_def [symmetric] by (simp split: option.split)
qed

end
