(* ===== verification/Noise.thy ===== *)
theory Noise
  imports Identity
begin

section \<open>Noise handshakes and envelopes (\<open>crypto/noise.rs\<close>, \<open>crypto/envelope.rs\<close>, \<open>crypto/mod.rs\<close>)\<close>

text \<open>
  The cipher and symmetric states, the XX handshake as a state machine, the one-way X
  message used for store-and-forward envelopes, and the group AEAD of broadcasts. A method
  of \<open>HandshakeXX\<close> is a \<open>meth\<close> on the record \<open>handshake\<close>, so that an early return keeps
  what was already mixed in. Random bytes are arguments. Fixed-size arrays are byte
  lists; \<open>copy_from_slice\<close> from a decrypted key is the decrypted bytes.
\<close>

subsection \<open>Cipher state\<close>

definition PROTOCOL_NAME_XX :: bytes where
  "PROTOCOL_NAME_XX = str_bytes ''Noise_XX_25519_ChaChaPoly_SHA256''"

definition PROTOCOL_NAME_X :: bytes where
  "PROTOCOL_NAME_X = str_bytes ''Noise_X_25519_ChaChaPoly_SHA256''"

record cipher_state =
  cs_k :: "bytes option"
  cs_n :: u64

definition CipherState_empty :: cipher_state where
  "CipherState_empty = \<lparr>cs_k = None, cs_n = 0\<rparr>"

definition CipherState_with_key :: "bytes \<Rightarrow> cipher_state" where
  "CipherState_with_key k = \<lparr>cs_k = Some k, cs_n = 0\<rparr>"

definition CipherState_nonce_bytes :: "u64 \<Rightarrow> bytes" where
  "CipherState_nonce_bytes n = [0, 0, 0, 0] @ le64 n"

definition CipherState_encrypt_n :: "crypto \<Rightarrow> bytes \<Rightarrow> u64 \<Rightarrow> bytes \<Rightarrow> bytes \<Rightarrow> bytes" where
  "CipherState_encrypt_n c k n ad plaintext =
     aead_encrypt c k (CipherState_nonce_bytes n) ad plaintext"

definition CipherState_decrypt_n :: "crypto \<Rightarrow> bytes \<Rightarrow> u64 \<Rightarrow> bytes \<Rightarrow> bytes \<Rightarrow> bytes result" where
  "CipherState_decrypt_n c k n ad ciphertext =
     (if length ciphertext < TAG_LEN then Inl Truncated
      else ok_or (aead_decrypt c k (CipherState_nonce_bytes n) ad ciphertext) AuthFailed)"

definition CipherState_encrypt_with_ad ::
  "crypto \<Rightarrow> cipher_state \<Rightarrow> bytes \<Rightarrow> bytes \<Rightarrow> cipher_state \<times> bytes" where
  "CipherState_encrypt_with_ad c cs ad plaintext =
     (case cs_k cs of
        None \<Rightarrow> (cs, plaintext)
      | Some k \<Rightarrow> (cs\<lparr>cs_n := cs_n cs + 1\<rparr>, CipherState_encrypt_n c k (cs_n cs) ad plaintext))"

definition CipherState_decrypt_with_ad ::
  "crypto \<Rightarrow> cipher_state \<Rightarrow> bytes \<Rightarrow> bytes \<Rightarrow> cipher_state \<times> bytes result" where
  "CipherState_decrypt_with_ad c cs ad ciphertext =
     (case cs_k cs of
        None \<Rightarrow> (cs, Inr ciphertext)
      | Some k \<Rightarrow> (case CipherState_decrypt_n c k (cs_n cs) ad ciphertext of
                     Inl e \<Rightarrow> (cs, Inl e)
                   | Inr out \<Rightarrow> (cs\<lparr>cs_n := cs_n cs + 1\<rparr>, Inr out)))"

definition hkdf2 :: "crypto \<Rightarrow> bytes \<Rightarrow> bytes \<Rightarrow> bytes \<times> bytes" where
  "hkdf2 c ck ikm =
     (let temp = hmac_sha256 c ck ikm;
          o1 = hmac_sha256 c temp [1];
          o2 = hmac_sha256 c temp (o1 @ [2])
      in (o1, o2))"

subsection \<open>Symmetric state\<close>

record symmetric_state =
  ss_cs :: cipher_state
  ss_ck :: bytes
  ss_h :: bytes

definition SymmetricState_new :: "crypto \<Rightarrow> bytes \<Rightarrow> symmetric_state" where
  "SymmetricState_new c protocol_name =
     (let h = (if length protocol_name \<le> 32
               then protocol_name @ replicate (32 - length protocol_name) 0
               else sha256 c protocol_name)
      in \<lparr>ss_cs = CipherState_empty, ss_ck = h, ss_h = h\<rparr>)"

definition SymmetricState_mix_key :: "crypto \<Rightarrow> bytes \<Rightarrow> symmetric_state \<Rightarrow> symmetric_state" where
  "SymmetricState_mix_key c ikm ss =
     (case hkdf2 c (ss_ck ss) ikm of (ck, k) \<Rightarrow> ss\<lparr>ss_ck := ck, ss_cs := CipherState_with_key k\<rparr>)"

definition SymmetricState_mix_hash :: "crypto \<Rightarrow> bytes \<Rightarrow> symmetric_state \<Rightarrow> symmetric_state" where
  "SymmetricState_mix_hash c data ss = ss\<lparr>ss_h := sha256 c (ss_h ss @ data)\<rparr>"

definition SymmetricState_encrypt_and_hash ::
  "crypto \<Rightarrow> bytes \<Rightarrow> symmetric_state \<Rightarrow> symmetric_state \<times> bytes" where
  "SymmetricState_encrypt_and_hash c plaintext ss =
     (case CipherState_encrypt_with_ad c (ss_cs ss) (ss_h ss) plaintext of
        (cs, ct) \<Rightarrow> (SymmetricState_mix_hash c ct (ss\<lparr>ss_cs := cs\<rparr>), ct))"

definition SymmetricState_decrypt_and_hash ::
  "crypto \<Rightarrow> bytes \<Rightarrow> symmetric_state \<Rightarrow> symmetric_state \<times> bytes result" where
  "SymmetricState_decrypt_and_hash c ciphertext ss =
     (case CipherState_decrypt_with_ad c (ss_cs ss) (ss_h ss) ciphertext of
        (cs, Inl e) \<Rightarrow> (ss\<lparr>ss_cs := cs\<rparr>, Inl e)
      | (cs, Inr pt) \<Rightarrow> (SymmetricState_mix_hash c ciphertext (ss\<lparr>ss_cs := cs\<rparr>), Inr pt))"

definition SymmetricState_split :: "crypto \<Rightarrow> symmetric_state \<Rightarrow> cipher_state \<times> cipher_state" where
  "SymmetricState_split c ss =
     (case hkdf2 c (ss_ck ss) [] of (k1, k2) \<Rightarrow> (CipherState_with_key k1, CipherState_with_key k2))"

subsection \<open>The XX handshake\<close>

datatype noise_role = Initiator | Responder

record transport_keys =
  tk_send :: bytes
  tk_recv :: bytes
  tk_handshake_hash :: bytes

datatype handshake_message = One | Two | Three

definition HandshakeMessage_from_u8 :: "u8 \<Rightarrow> handshake_message option" where
  "HandshakeMessage_from_u8 v =
     (if v = 1 then Some One else if v = 2 then Some Two else if v = 3 then Some Three else None)"

definition dh :: "crypto \<Rightarrow> bytes \<Rightarrow> bytes \<Rightarrow> bytes result" where
  "dh c secret public =
     (let shared = x25519_dh c secret public
      in if \<not> x25519_contributory c shared then Inl AuthFailed else Inr shared)"

record handshake =
  hx_role :: noise_role
  hx_ss :: symmetric_state
  hx_s :: bytes
  hx_s_pub :: bytes
  hx_ed_pub :: bytes
  hx_e :: "bytes option"
  hx_e_pub :: bytes
  hx_re :: "bytes option"
  hx_rs :: "bytes option"
  hx_step :: u8
  hx_remote :: "public_identity option"

text \<open>\<open>e\<close> is the ephemeral secret drawn from the random number generator.\<close>

definition HandshakeXX_new :: "crypto \<Rightarrow> noise_role \<Rightarrow> identity \<Rightarrow> bytes \<Rightarrow> bytes \<Rightarrow> handshake" where
  "HandshakeXX_new c role ident prologue e =
     \<lparr>hx_role = role,
      hx_ss = SymmetricState_mix_hash c prologue (SymmetricState_new c PROTOCOL_NAME_XX),
      hx_s = id_x25519_secret ident, hx_s_pub = pid_x25519 (id_public ident),
      hx_ed_pub = pid_verifying (id_public ident), hx_e = Some e, hx_e_pub = x25519_public c e,
      hx_re = None, hx_rs = None, hx_step = 0, hx_remote = None\<rparr>"

type_synonym 'a hx = "(handshake, error, 'a) meth"

definition hx_mix_hash :: "crypto \<Rightarrow> bytes \<Rightarrow> unit hx" where
  "hx_mix_hash c data = m_modify (\<lambda>h. h\<lparr>hx_ss := SymmetricState_mix_hash c data (hx_ss h)\<rparr>)"

definition hx_mix_key :: "crypto \<Rightarrow> bytes \<Rightarrow> unit hx" where
  "hx_mix_key c ikm = m_modify (\<lambda>h. h\<lparr>hx_ss := SymmetricState_mix_key c ikm (hx_ss h)\<rparr>)"

definition hx_encrypt :: "crypto \<Rightarrow> bytes \<Rightarrow> bytes hx" where
  "hx_encrypt c pt h =
     (case SymmetricState_encrypt_and_hash c pt (hx_ss h) of (ss, ct) \<Rightarrow> (h\<lparr>hx_ss := ss\<rparr>, Inr ct))"

definition hx_decrypt :: "crypto \<Rightarrow> bytes \<Rightarrow> bytes hx" where
  "hx_decrypt c ct h =
     (case SymmetricState_decrypt_and_hash c ct (hx_ss h) of (ss, r) \<Rightarrow> (h\<lparr>hx_ss := ss\<rparr>, r))"

definition HandshakeXX_identity_payload :: "bytes \<Rightarrow> handshake \<Rightarrow> bytes" where
  "HandshakeXX_identity_payload extra h = hx_ed_pub h @ extra"

definition HandshakeXX_verify_identity_payload :: "crypto \<Rightarrow> bytes \<Rightarrow> bytes hx" where
  "HandshakeXX_verify_identity_payload c payload =
     m_bind (m_when (length payload < 32) Truncated) (\<lambda>_.
     m_bind (m_lift (PublicIdentity_from_bytes c (take 32 payload))) (\<lambda>ident.
     m_bind (m_gets hx_rs) (\<lambda>ors.
     m_bind (m_lift (ok_or ors HandshakeState)) (\<lambda>rs.
     m_bind (m_when (pid_x25519 ident \<noteq> rs) AuthFailed) (\<lambda>_.
     m_bind (m_modify (\<lambda>h. h\<lparr>hx_remote := Some ident\<rparr>)) (\<lambda>_.
     m_ok (drop 32 payload)))))))"

definition HandshakeXX_write_message_1 :: "crypto \<Rightarrow> bytes \<Rightarrow> bytes hx" where
  "HandshakeXX_write_message_1 c payload =
     m_bind (m_gets (\<lambda>h. h)) (\<lambda>h.
     m_bind (m_when (hx_role h \<noteq> Initiator \<or> hx_step h \<noteq> 0) HandshakeState) (\<lambda>_.
     m_bind (hx_mix_hash c (hx_e_pub h)) (\<lambda>_.
     m_bind (hx_encrypt c payload) (\<lambda>ct.
     m_bind (m_modify (\<lambda>h. h\<lparr>hx_step := 1\<rparr>)) (\<lambda>_.
     m_ok (hx_e_pub h @ ct))))))"

definition HandshakeXX_read_message_1 :: "crypto \<Rightarrow> bytes \<Rightarrow> bytes hx" where
  "HandshakeXX_read_message_1 c msg =
     m_bind (m_gets (\<lambda>h. h)) (\<lambda>h.
     m_bind (m_when (hx_role h \<noteq> Responder \<or> hx_step h \<noteq> 0) HandshakeState) (\<lambda>_.
     m_bind (m_when (length msg < 32) Truncated) (\<lambda>_.
     m_bind (m_modify (\<lambda>h. h\<lparr>hx_re := Some (take 32 msg)\<rparr>)) (\<lambda>_.
     m_bind (hx_mix_hash c (take 32 msg)) (\<lambda>_.
     m_bind (hx_decrypt c (drop 32 msg)) (\<lambda>payload.
     m_bind (m_modify (\<lambda>h. h\<lparr>hx_step := 1\<rparr>)) (\<lambda>_.
     m_ok payload)))))))"

definition HandshakeXX_write_message_2 :: "crypto \<Rightarrow> bytes \<Rightarrow> bytes hx" where
  "HandshakeXX_write_message_2 c extra =
     m_bind (m_gets (\<lambda>h. h)) (\<lambda>h.
     m_bind (m_when (hx_role h \<noteq> Responder \<or> hx_step h \<noteq> 1) HandshakeState) (\<lambda>_.
     m_bind (m_lift (ok_or (hx_re h) HandshakeState)) (\<lambda>re.
     m_bind (m_lift (ok_or (hx_e h) HandshakeState)) (\<lambda>e.
     m_bind (hx_mix_hash c (hx_e_pub h)) (\<lambda>_.
     m_bind (m_lift (dh c e re)) (\<lambda>ee.
     m_bind (hx_mix_key c ee) (\<lambda>_.
     m_bind (hx_encrypt c (hx_s_pub h)) (\<lambda>ct_s.
     m_bind (m_lift (dh c (hx_s h) re)) (\<lambda>es.
     m_bind (hx_mix_key c es) (\<lambda>_.
     m_bind (hx_encrypt c (HandshakeXX_identity_payload extra h)) (\<lambda>ct_p.
     m_bind (m_modify (\<lambda>h. h\<lparr>hx_step := 2\<rparr>)) (\<lambda>_.
     m_ok (hx_e_pub h @ ct_s @ ct_p)))))))))))))"

definition HandshakeXX_read_message_2 :: "crypto \<Rightarrow> bytes \<Rightarrow> bytes hx" where
  "HandshakeXX_read_message_2 c msg =
     m_bind (m_gets (\<lambda>h. h)) (\<lambda>h.
     m_bind (m_when (hx_role h \<noteq> Initiator \<or> hx_step h \<noteq> 1) HandshakeState) (\<lambda>_.
     m_bind (m_when (length msg < 32 + 48 + 16) Truncated) (\<lambda>_.
     m_bind (m_lift (ok_or (hx_e h) HandshakeState)) (\<lambda>e.
     m_bind (m_modify (\<lambda>h. h\<lparr>hx_re := Some (take 32 msg)\<rparr>)) (\<lambda>_.
     m_bind (hx_mix_hash c (take 32 msg)) (\<lambda>_.
     m_bind (m_lift (dh c e (take 32 msg))) (\<lambda>ee.
     m_bind (hx_mix_key c ee) (\<lambda>_.
     m_bind (hx_decrypt c (take 48 (drop 32 msg))) (\<lambda>rs.
     m_bind (m_modify (\<lambda>h. h\<lparr>hx_rs := Some rs\<rparr>)) (\<lambda>_.
     m_bind (m_lift (dh c e rs)) (\<lambda>es.
     m_bind (hx_mix_key c es) (\<lambda>_.
     m_bind (hx_decrypt c (drop 80 msg)) (\<lambda>payload.
     m_bind (HandshakeXX_verify_identity_payload c payload) (\<lambda>extra.
     m_bind (m_modify (\<lambda>h. h\<lparr>hx_step := 2\<rparr>)) (\<lambda>_.
     m_ok extra)))))))))))))))"

definition HandshakeXX_write_message_3 :: "crypto \<Rightarrow> bytes \<Rightarrow> bytes hx" where
  "HandshakeXX_write_message_3 c extra =
     m_bind (m_gets (\<lambda>h. h)) (\<lambda>h.
     m_bind (m_when (hx_role h \<noteq> Initiator \<or> hx_step h \<noteq> 2) HandshakeState) (\<lambda>_.
     m_bind (m_lift (ok_or (hx_re h) HandshakeState)) (\<lambda>re.
     m_bind (hx_encrypt c (hx_s_pub h)) (\<lambda>ct_s.
     m_bind (m_lift (dh c (hx_s h) re)) (\<lambda>se.
     m_bind (hx_mix_key c se) (\<lambda>_.
     m_bind (hx_encrypt c (HandshakeXX_identity_payload extra h)) (\<lambda>ct_p.
     m_bind (m_modify (\<lambda>h. h\<lparr>hx_step := 3\<rparr>)) (\<lambda>_.
     m_ok (ct_s @ ct_p)))))))))"

definition HandshakeXX_read_message_3 :: "crypto \<Rightarrow> bytes \<Rightarrow> bytes hx" where
  "HandshakeXX_read_message_3 c msg =
     m_bind (m_gets (\<lambda>h. h)) (\<lambda>h.
     m_bind (m_when (hx_role h \<noteq> Responder \<or> hx_step h \<noteq> 2) HandshakeState) (\<lambda>_.
     m_bind (m_when (length msg < 48 + 16) Truncated) (\<lambda>_.
     m_bind (m_lift (ok_or (hx_e h) HandshakeState)) (\<lambda>e.
     m_bind (hx_decrypt c (take 48 msg)) (\<lambda>rs.
     m_bind (m_modify (\<lambda>h. h\<lparr>hx_rs := Some rs\<rparr>)) (\<lambda>_.
     m_bind (m_lift (dh c e rs)) (\<lambda>se.
     m_bind (hx_mix_key c se) (\<lambda>_.
     m_bind (hx_decrypt c (drop 48 msg)) (\<lambda>payload.
     m_bind (HandshakeXX_verify_identity_payload c payload) (\<lambda>extra.
     m_bind (m_modify (\<lambda>h. h\<lparr>hx_step := 3\<rparr>)) (\<lambda>_.
     m_ok extra)))))))))))"

definition HandshakeXX_finish :: "crypto \<Rightarrow> handshake \<Rightarrow> (transport_keys \<times> public_identity) result" where
  "HandshakeXX_finish c h =
     (if hx_step h \<noteq> 3 then Inl HandshakeState
      else case SymmetricState_split c (hx_ss h) of (c1, c2) \<Rightarrow>
        (case (case hx_role h of Initiator \<Rightarrow> (c1, c2) | Responder \<Rightarrow> (c2, c1)) of (send, recv) \<Rightarrow>
           res_bind (ok_or (hx_remote h) HandshakeState) (\<lambda>remote.
             Inr (\<lparr>tk_send = the (cs_k send), tk_recv = the (cs_k recv),
                   tk_handshake_hash = ss_h (hx_ss h)\<rparr>, remote))))"

subsection \<open>One-way messages and envelopes\<close>

definition x_seal ::
  "crypto \<Rightarrow> identity \<Rightarrow> public_identity \<Rightarrow> bytes \<Rightarrow> bytes \<Rightarrow> bytes \<Rightarrow> bytes result" where
  "x_seal c sender recipient prologue payload e =
     (let rs = pid_x25519 recipient;
          e_pub = x25519_public c e;
          ss = SymmetricState_mix_hash c e_pub (SymmetricState_mix_hash c rs
                 (SymmetricState_mix_hash c prologue (SymmetricState_new c PROTOCOL_NAME_X)))
      in res_bind (dh c e rs) (\<lambda>es.
         case SymmetricState_encrypt_and_hash c (pid_x25519 (id_public sender))
                (SymmetricState_mix_key c es ss) of (ss, ct_s) \<Rightarrow>
         res_bind (dh c (id_x25519_secret sender) rs) (\<lambda>sst.
         case SymmetricState_encrypt_and_hash c (pid_verifying (id_public sender) @ payload)
                (SymmetricState_mix_key c sst ss) of (ss, ct_p) \<Rightarrow>
         Inr (e_pub @ ct_s @ ct_p))))"

definition x_open :: "crypto \<Rightarrow> identity \<Rightarrow> bytes \<Rightarrow> bytes \<Rightarrow> (public_identity \<times> bytes) result" where
  "x_open c recipient prologue msg =
     (if length msg < 32 + 48 + 32 + 16 then Inl Truncated
      else
        let re = take 32 msg;
            ss = SymmetricState_mix_hash c re (SymmetricState_mix_hash c (pid_x25519 (id_public recipient))
                   (SymmetricState_mix_hash c prologue (SymmetricState_new c PROTOCOL_NAME_X)))
        in res_bind (dh c (id_x25519_secret recipient) re) (\<lambda>es.
           case SymmetricState_decrypt_and_hash c (take 48 (drop 32 msg))
                  (SymmetricState_mix_key c es ss) of (ss, r) \<Rightarrow>
           res_bind r (\<lambda>rs.
           res_bind (dh c (id_x25519_secret recipient) rs) (\<lambda>sst.
           case SymmetricState_decrypt_and_hash c (drop 80 msg)
                  (SymmetricState_mix_key c sst ss) of (ss, r) \<Rightarrow>
           res_bind r (\<lambda>body.
           if length body < 32 then Inl Truncated
           else res_bind (PublicIdentity_from_bytes c (take 32 body)) (\<lambda>sender.
                if pid_x25519 sender \<noteq> rs then Inl AuthFailed
                else Inr (sender, drop 32 body)))))))"

definition ENVELOPE_OVERHEAD :: nat where
  "ENVELOPE_OVERHEAD = 32 + 48 + 32 + 16"

definition envelope_prologue :: "address \<Rightarrow> u32 \<Rightarrow> bytes" where
  "envelope_prologue dst envelope_id =
     str_bytes ''MeshStar/env/v1'' @ [0] @ Address_as_bytes dst @ be32 envelope_id"

definition seal_envelope ::
  "crypto \<Rightarrow> identity \<Rightarrow> public_identity \<Rightarrow> u32 \<Rightarrow> bytes \<Rightarrow> bytes \<Rightarrow> bytes result" where
  "seal_envelope c sender recipient envelope_id body e =
     x_seal c sender recipient (envelope_prologue (pid_address recipient) envelope_id) body e"

definition open_envelope ::
  "crypto \<Rightarrow> identity \<Rightarrow> u32 \<Rightarrow> bytes \<Rightarrow> (public_identity \<times> bytes) result" where
  "open_envelope c recipient envelope_id envelope =
     x_open c recipient (envelope_prologue (Identity_address recipient) envelope_id) envelope"

subsection \<open>Group encryption\<close>

definition group_nonce :: "address \<Rightarrow> u32 \<Rightarrow> bytes" where
  "group_nonce src packet_id = Address_as_bytes src @ be32 packet_id"

definition group_encrypt :: "crypto \<Rightarrow> bytes \<Rightarrow> address \<Rightarrow> u32 \<Rightarrow> bytes \<Rightarrow> bytes \<Rightarrow> bytes" where
  "group_encrypt c key src packet_id aad plaintext =
     aead_encrypt c key (group_nonce src packet_id) aad plaintext"

definition group_decrypt ::
  "crypto \<Rightarrow> bytes \<Rightarrow> address \<Rightarrow> u32 \<Rightarrow> bytes \<Rightarrow> bytes \<Rightarrow> bytes result" where
  "group_decrypt c key src packet_id aad ciphertext =
     (if length ciphertext < TAG_LEN then Inl Truncated
      else ok_or (aead_decrypt c key (group_nonce src packet_id) aad ciphertext) AuthFailed)"

subsection \<open>Encryption and decryption in lock step\<close>

abbreviation ss_enc :: "crypto \<Rightarrow> bytes \<Rightarrow> symmetric_state \<Rightarrow> symmetric_state" where
  "ss_enc c p ss \<equiv> fst (SymmetricState_encrypt_and_hash c p ss)"

abbreviation ss_ct :: "crypto \<Rightarrow> bytes \<Rightarrow> symmetric_state \<Rightarrow> bytes" where
  "ss_ct c p ss \<equiv> snd (SymmetricState_encrypt_and_hash c p ss)"

lemma decrypt_encrypt_n:
  "aead_law c \<Longrightarrow> CipherState_decrypt_n c k n ad (CipherState_encrypt_n c k n ad p) = Inr p"
  by (simp add: CipherState_decrypt_n_def CipherState_encrypt_n_def aead_length aead_open_seal TAG_LEN_def)

lemma decrypt_encrypt_and_hash:
  "aead_law c \<Longrightarrow> SymmetricState_decrypt_and_hash c (ss_ct c p ss) ss = (ss_enc c p ss, Inr p)"
  by (auto simp: SymmetricState_decrypt_and_hash_def SymmetricState_encrypt_and_hash_def
      CipherState_encrypt_with_ad_def CipherState_decrypt_with_ad_def decrypt_encrypt_n
      split: option.split)

lemma key_after [simp]:
  "cs_k (ss_cs (SymmetricState_mix_key c ikm ss)) \<noteq> None"
  "cs_k (ss_cs (SymmetricState_mix_hash c d ss)) = cs_k (ss_cs ss)"
  "cs_k (ss_cs (ss_enc c p ss)) = cs_k (ss_cs ss)"
  by (auto simp: SymmetricState_mix_key_def SymmetricState_mix_hash_def CipherState_with_key_def
      SymmetricState_encrypt_and_hash_def CipherState_encrypt_with_ad_def split: prod.split option.split)

lemma length_ss_ct:
  "aead_law c \<Longrightarrow> cs_k (ss_cs ss) \<noteq> None \<Longrightarrow> length (ss_ct c p ss) = length p + 16"
  by (auto simp: SymmetricState_encrypt_and_hash_def CipherState_encrypt_with_ad_def
      CipherState_encrypt_n_def aead_length split: option.split)

lemma hx_binds:
  "m_bind (hx_mix_hash c d) f h = f () (h\<lparr>hx_ss := SymmetricState_mix_hash c d (hx_ss h)\<rparr>)"
  "m_bind (hx_mix_key c d) f h = f () (h\<lparr>hx_ss := SymmetricState_mix_key c d (hx_ss h)\<rparr>)"
  "m_bind (hx_encrypt c p) g h = g (ss_ct c p (hx_ss h)) (h\<lparr>hx_ss := ss_enc c p (hx_ss h)\<rparr>)"
  by (simp_all add: hx_mix_hash_def hx_mix_key_def hx_encrypt_def m_bind_def split_beta)

lemma hx_decrypt_bind:
  "aead_law c \<Longrightarrow> hx_ss h = ss \<Longrightarrow>
   m_bind (hx_decrypt c (ss_ct c p ss)) f h = f p (h\<lparr>hx_ss := ss_enc c p ss\<rparr>)"
  by (simp add: hx_decrypt_def m_bind_def decrypt_encrypt_and_hash)

lemma dh_ok: "dh_law c \<Longrightarrow> dh c a (x25519_public c b) = Inr (x25519_dh c a (x25519_public c b))"
  by (simp add: dh_def dh_law_def)

lemma dh_sym: "dh_law c \<Longrightarrow> x25519_dh c a (x25519_public c b) = x25519_dh c b (x25519_public c a)"
  by (simp add: dh_law_def)

lemma length_x25519_public: "dh_law c \<Longrightarrow> length (x25519_public c a) = 32"
  by (simp add: dh_law_def)

lemma verify_identity_payload_ok:
  "length pk = 32 \<Longrightarrow> PublicIdentity_from_bytes c pk = Inr ident \<Longrightarrow> hx_rs h = Some (pid_x25519 ident) \<Longrightarrow>
   m_bind (HandshakeXX_verify_identity_payload c (pk @ extra)) f h
     = f extra (h\<lparr>hx_remote := Some ident\<rparr>)"
  by (simp add: HandshakeXX_verify_identity_payload_def m_bind_assoc)

text \<open>The two sides agree on the symmetric state before and after each message.\<close>

lemma xx_message_1:
  assumes law: "aead_law c"
    and i: "hx_role i = Initiator" "hx_step i = 0" and r: "hx_role r = Responder" "hx_step r = 0"
    and sync: "hx_ss r = hx_ss i" and len: "length (hx_e_pub i) = 32"
  obtains S m where
    "HandshakeXX_write_message_1 c payload i = (i\<lparr>hx_ss := S, hx_step := 1\<rparr>, Inr m)"
    "HandshakeXX_read_message_1 c m r = (r\<lparr>hx_ss := S, hx_re := Some (hx_e_pub i), hx_step := 1\<rparr>, Inr payload)"
  using assms
  by (simp add: HandshakeXX_write_message_1_def HandshakeXX_read_message_1_def hx_binds hx_decrypt_bind)

lemma xx_message_2:
  assumes laws: "aead_law c" "dh_law c"
    and i: "hx_role i = Initiator" "hx_step i = 1" "hx_e i = Some ei"
    and r: "hx_role r = Responder" "hx_step r = 1" "hx_re r = Some (x25519_public c ei)" "hx_e r = Some er"
      "hx_e_pub r = x25519_public c er" "hx_s_pub r = x25519_public c (hx_s r)" "length (hx_ed_pub r) = 32"
    and pid: "PublicIdentity_from_bytes c (hx_ed_pub r) = Inr ident" "pid_x25519 ident = hx_s_pub r"
    and sync: "hx_ss i = hx_ss r"
  obtains S m where
    "HandshakeXX_write_message_2 c extra r = (r\<lparr>hx_ss := S, hx_step := 2\<rparr>, Inr m)"
    "HandshakeXX_read_message_2 c m i = (i\<lparr>hx_ss := S, hx_re := Some (hx_e_pub r),
       hx_rs := Some (hx_s_pub r), hx_remote := Some ident, hx_step := 2\<rparr>, Inr extra)"
    "cs_k (ss_cs S) \<noteq> None"
proof -
  let ?S1 = "SymmetricState_mix_key c (x25519_dh c er (x25519_public c ei))
      (SymmetricState_mix_hash c (x25519_public c er) (hx_ss r))"
  let ?S2 = "SymmetricState_mix_key c (x25519_dh c (hx_s r) (x25519_public c ei)) (ss_enc c (hx_s_pub r) ?S1)"
  let ?m = "x25519_public c er @ ss_ct c (hx_s_pub r) ?S1 @ ss_ct c (hx_ed_pub r @ extra) ?S2"
  have w: "HandshakeXX_write_message_2 c extra r
      = (r\<lparr>hx_ss := ss_enc c (hx_ed_pub r @ extra) ?S2, hx_step := 2\<rparr>, Inr ?m)"
    using laws r by (simp add: HandshakeXX_write_message_2_def hx_binds dh_ok HandshakeXX_identity_payload_def)
  have parts: "take 32 ?m = x25519_public c er" "take 48 (drop 32 ?m) = ss_ct c (hx_s_pub r) ?S1"
    "drop 80 ?m = ss_ct c (hx_ed_pub r @ extra) ?S2" "96 \<le> length ?m"
    using laws r by (simp_all add: length_ss_ct length_x25519_public)
  have dhs: "x25519_dh c ei (x25519_public c er) = x25519_dh c er (x25519_public c ei)"
    "x25519_dh c ei (hx_s_pub r) = x25519_dh c (hx_s r) (x25519_public c ei)"
    "dh c ei (hx_s_pub r) = Inr (x25519_dh c (hx_s r) (x25519_public c ei))"
    using laws(2) r(6) dh_sym [OF laws(2), of ei "hx_s r"] dh_sym [OF laws(2), of ei er]
    by (simp_all add: dh_ok)
  have "HandshakeXX_read_message_2 c ?m i = (i\<lparr>hx_ss := ss_enc c (hx_ed_pub r @ extra) ?S2,
      hx_re := Some (hx_e_pub r), hx_rs := Some (hx_s_pub r), hx_remote := Some ident, hx_step := 2\<rparr>, Inr extra)"
    unfolding HandshakeXX_read_message_2_def parts
    using laws i r(5,7) sync parts(4) pid
    by (simp add: hx_binds dh_ok dhs hx_decrypt_bind verify_identity_payload_ok)
  with w show thesis by (rule that) simp
qed

lemma xx_message_3:
  assumes laws: "aead_law c" "dh_law c"
    and i: "hx_role i = Initiator" "hx_step i = 2" "hx_re i = Some (x25519_public c er)"
      "hx_s_pub i = x25519_public c (hx_s i)" "length (hx_ed_pub i) = 32"
    and r: "hx_role r = Responder" "hx_step r = 2" "hx_e r = Some er"
    and pid: "PublicIdentity_from_bytes c (hx_ed_pub i) = Inr ident" "pid_x25519 ident = hx_s_pub i"
    and sync: "hx_ss r = hx_ss i" and keyed: "cs_k (ss_cs (hx_ss i)) \<noteq> None"
  obtains S m where
    "HandshakeXX_write_message_3 c extra i = (i\<lparr>hx_ss := S, hx_step := 3\<rparr>, Inr m)"
    "HandshakeXX_read_message_3 c m r = (r\<lparr>hx_ss := S, hx_rs := Some (hx_s_pub i),
       hx_remote := Some ident, hx_step := 3\<rparr>, Inr extra)"
proof -
  let ?S1 = "ss_enc c (hx_s_pub i) (hx_ss i)"
  let ?S2 = "SymmetricState_mix_key c (x25519_dh c (hx_s i) (x25519_public c er)) ?S1"
  let ?m = "ss_ct c (hx_s_pub i) (hx_ss i) @ ss_ct c (hx_ed_pub i @ extra) ?S2"
  have w: "HandshakeXX_write_message_3 c extra i
      = (i\<lparr>hx_ss := ss_enc c (hx_ed_pub i @ extra) ?S2, hx_step := 3\<rparr>, Inr ?m)"
    using laws i by (simp add: HandshakeXX_write_message_3_def hx_binds dh_ok HandshakeXX_identity_payload_def)
  have parts: "take 48 ?m = ss_ct c (hx_s_pub i) (hx_ss i)"
    "drop 48 ?m = ss_ct c (hx_ed_pub i @ extra) ?S2" "64 \<le> length ?m"
    using laws i keyed by (simp_all add: length_ss_ct length_x25519_public)
  have dhs: "dh c er (hx_s_pub i) = Inr (x25519_dh c (hx_s i) (x25519_public c er))"
    using laws(2) i(4) dh_sym [OF laws(2), of er "hx_s i"] by (simp add: dh_ok)
  have "HandshakeXX_read_message_3 c ?m r = (r\<lparr>hx_ss := ss_enc c (hx_ed_pub i @ extra) ?S2,
      hx_rs := Some (hx_s_pub i), hx_remote := Some ident, hx_step := 3\<rparr>, Inr extra)"
    unfolding HandshakeXX_read_message_3_def parts
    using laws i(5) r sync parts(3) pid
    by (simp add: hx_binds dhs hx_decrypt_bind verify_identity_payload_ok)
  with w show thesis by (rule that)
qed

subsection \<open>Complete runs\<close>

text \<open>
  An undisturbed handshake: the three messages are written and read in turn; the result is
  the two final states and the three payloads as the readers saw them.
\<close>

definition xx_run ::
  "crypto \<Rightarrow> identity \<Rightarrow> identity \<Rightarrow> bytes \<Rightarrow> bytes \<Rightarrow> bytes \<Rightarrow> bytes \<Rightarrow> bytes \<Rightarrow> bytes \<Rightarrow>
   (handshake \<times> handshake \<times> bytes \<times> bytes \<times> bytes) result" where
  "xx_run c a b prologue ea eb p1 p2 p3 =
     (case HandshakeXX_write_message_1 c p1 (HandshakeXX_new c Initiator a prologue ea) of (i1, m1) \<Rightarrow>
      res_bind m1 (\<lambda>m1.
      case HandshakeXX_read_message_1 c m1 (HandshakeXX_new c Responder b prologue eb) of (r1, q1) \<Rightarrow>
      res_bind q1 (\<lambda>q1.
      case HandshakeXX_write_message_2 c p2 r1 of (r2, m2) \<Rightarrow>
      res_bind m2 (\<lambda>m2.
      case HandshakeXX_read_message_2 c m2 i1 of (i2, q2) \<Rightarrow>
      res_bind q2 (\<lambda>q2.
      case HandshakeXX_write_message_3 c p3 i2 of (i3, m3) \<Rightarrow>
      res_bind m3 (\<lambda>m3.
      case HandshakeXX_read_message_3 c m3 r2 of (r3, q3) \<Rightarrow>
      res_bind q3 (\<lambda>q3. Inr (i3, r3, q1, q2, q3))))))))"

text \<open>The operations of a handshake by the role and step at which the code allows them.\<close>

datatype hx_op = Write1 bytes | Read1 bytes | Write2 bytes | Read2 bytes | Write3 bytes | Read3 bytes

fun hx_call :: "crypto \<Rightarrow> hx_op \<Rightarrow> bytes hx" where
  "hx_call c (Write1 b) = HandshakeXX_write_message_1 c b"
| "hx_call c (Read1 b) = HandshakeXX_read_message_1 c b"
| "hx_call c (Write2 b) = HandshakeXX_write_message_2 c b"
| "hx_call c (Read2 b) = HandshakeXX_read_message_2 c b"
| "hx_call c (Write3 b) = HandshakeXX_write_message_3 c b"
| "hx_call c (Read3 b) = HandshakeXX_read_message_3 c b"

fun hx_turn :: "hx_op \<Rightarrow> noise_role \<times> u8" where
  "hx_turn (Write1 _) = (Initiator, 0)"
| "hx_turn (Read1 _) = (Responder, 0)"
| "hx_turn (Write2 _) = (Responder, 1)"
| "hx_turn (Read2 _) = (Initiator, 1)"
| "hx_turn (Write3 _) = (Initiator, 2)"
| "hx_turn (Read3 _) = (Responder, 2)"

lemma identity_facts:
  assumes "sign_law c" "Identity_from_seed c seed = Some i"
  shows "length (pid_verifying (id_public i)) = 32"
    "PublicIdentity_from_bytes c (pid_verifying (id_public i)) = Inr (id_public i)"
    "pid_x25519 (id_public i) = x25519_public c (id_x25519_secret i)"
  using assms
  by (auto simp: sign_law_def Identity_from_seed_def PublicIdentity_from_bytes_def Let_def)

lemma xx_run_ok:
  assumes laws: "aead_law c" "dh_law c" "sign_law c"
    and a: "Identity_from_seed c sa = Some a" and b: "Identity_from_seed c sb = Some b"
  obtains i r m2 where "xx_run c a b prologue ea eb p1 p2 p3 = Inr (i, r, p1, p2, p3)"
    "i = fold (\<lambda>op h. fst (hx_call c op h)) [Write1 p1, Read2 m2, Write3 p3]
           (HandshakeXX_new c Initiator a prologue ea)"
    "hx_ss r = hx_ss i" "hx_role i = Initiator" "hx_role r = Responder" "hx_step i = 3" "hx_step r = 3"
    "hx_remote i = Some (id_public b)" "hx_remote r = Some (id_public a)"
proof -
  note A = identity_facts [OF laws(3) a] and B = identity_facts [OF laws(3) b]
  define i0 where "i0 = HandshakeXX_new c Initiator a prologue ea"
  define r0 where "r0 = HandshakeXX_new c Responder b prologue eb"
  note new = i0_def r0_def HandshakeXX_new_def
  obtain S1 m1 where w1: "HandshakeXX_write_message_1 c p1 i0 = (i0\<lparr>hx_ss := S1, hx_step := 1\<rparr>, Inr m1)"
    and d1: "HandshakeXX_read_message_1 c m1 r0
        = (r0\<lparr>hx_ss := S1, hx_re := Some (hx_e_pub i0), hx_step := 1\<rparr>, Inr p1)"
    by (rule xx_message_1 [OF laws(1), of i0 r0 p1])
      (simp_all add: new length_x25519_public laws)
  define i1 where "i1 = i0\<lparr>hx_ss := S1, hx_step := 1\<rparr>"
  define r1 where "r1 = r0\<lparr>hx_ss := S1, hx_re := Some (hx_e_pub i0), hx_step := 1\<rparr>"
  obtain S2 m2 where w2: "HandshakeXX_write_message_2 c p2 r1 = (r1\<lparr>hx_ss := S2, hx_step := 2\<rparr>, Inr m2)"
    and d2: "HandshakeXX_read_message_2 c m2 i1 = (i1\<lparr>hx_ss := S2, hx_re := Some (hx_e_pub r1),
       hx_rs := Some (hx_s_pub r1), hx_remote := Some (id_public b), hx_step := 2\<rparr>, Inr p2)"
    and keyed: "cs_k (ss_cs S2) \<noteq> None"
    by (rule xx_message_2 [OF laws(1,2), of i1 ea r1 eb "id_public b" p2])
      (simp_all add: i1_def r1_def new B)
  define i2 where "i2 = i1\<lparr>hx_ss := S2, hx_re := Some (hx_e_pub r1),
       hx_rs := Some (hx_s_pub r1), hx_remote := Some (id_public b), hx_step := 2\<rparr>"
  define r2 where "r2 = r1\<lparr>hx_ss := S2, hx_step := 2\<rparr>"
  obtain S3 m3 where w3: "HandshakeXX_write_message_3 c p3 i2 = (i2\<lparr>hx_ss := S3, hx_step := 3\<rparr>, Inr m3)"
    and d3: "HandshakeXX_read_message_3 c m3 r2 = (r2\<lparr>hx_ss := S3, hx_rs := Some (hx_s_pub i2),
       hx_remote := Some (id_public a), hx_step := 3\<rparr>, Inr p3)"
    by (rule xx_message_3 [OF laws(1,2), of i2 eb r2 "id_public a" p3])
      (simp_all add: i2_def r2_def i1_def r1_def new A keyed)
  have "xx_run c a b prologue ea eb p1 p2 p3 = Inr (i2\<lparr>hx_ss := S3, hx_step := 3\<rparr>,
      r2\<lparr>hx_ss := S3, hx_rs := Some (hx_s_pub i2), hx_remote := Some (id_public a), hx_step := 3\<rparr>, p1, p2, p3)"
    unfolding xx_run_def i0_def [symmetric] r0_def [symmetric]
    by (simp only: w1 [folded i1_def] d1 [folded r1_def] w2 [folded r2_def] d2 [folded i2_def] w3 d3
        prod.case res_bind_simps)
  moreover have "i2\<lparr>hx_ss := S3, hx_step := 3\<rparr>
      = fold (\<lambda>op h. fst (hx_call c op h)) [Write1 p1, Read2 m2, Write3 p3] i0"
    by (simp only: fold_simps comp_apply id_apply hx_call.simps w1 [folded i1_def] d2 [folded i2_def] w3 fst_conv)
  ultimately show thesis
    unfolding i0_def by (rule that) (simp_all add: i2_def r2_def i1_def r1_def new)
qed

subsection \<open>Order of the messages and identity binding\<close>

lemmas hx_op_defs = HandshakeXX_write_message_1_def HandshakeXX_read_message_1_def
  HandshakeXX_write_message_2_def HandshakeXX_read_message_2_def
  HandshakeXX_write_message_3_def HandshakeXX_read_message_3_def

lemma hx_call_out_of_turn:
  assumes "(hx_role h, hx_step h) \<noteq> hx_turn op"
  shows "hx_call c op h = (h, Inl HandshakeState)"
  using assms by (cases op) (auto simp: hx_op_defs m_when_def)

text \<open>A verified peer identity always matches the Noise static key of the peer.\<close>

definition hx_bound :: "crypto \<Rightarrow> handshake \<Rightarrow> bool" where
  "hx_bound c h \<longleftrightarrow>
     (\<forall>ident. hx_remote h = Some ident \<longrightarrow>
        hx_rs h = Some (pid_x25519 ident) \<and>
        PublicIdentity_from_bytes c (pid_verifying ident) = Inr ident)"

definition hx_fresh :: "handshake \<Rightarrow> bool" where
  "hx_fresh h \<longleftrightarrow>
     (hx_step h = 0 \<or> hx_step h = 1 \<or> (hx_role h = Responder \<and> hx_step h = 2) \<longrightarrow> hx_remote h = None)"

definition hx_inv :: "crypto \<Rightarrow> handshake \<Rightarrow> bool" where
  "hx_inv c h \<longleftrightarrow> hx_bound c h \<and> hx_fresh h"

lemma wp_hx:
  "wp (hx_mix_hash c d) Q E h = Q () (h\<lparr>hx_ss := SymmetricState_mix_hash c d (hx_ss h)\<rparr>)"
  "wp (hx_mix_key c d) Q E h = Q () (h\<lparr>hx_ss := SymmetricState_mix_key c d (hx_ss h)\<rparr>)"
  "wp (hx_encrypt c p) Q' E h = Q' (ss_ct c p (hx_ss h)) (h\<lparr>hx_ss := ss_enc c p (hx_ss h)\<rparr>)"
  "wp (hx_decrypt c ct) Q' E h =
     (case SymmetricState_decrypt_and_hash c ct (hx_ss h) of
        (ss, Inl e) \<Rightarrow> E (h\<lparr>hx_ss := ss\<rparr>) | (ss, Inr p) \<Rightarrow> Q' p (h\<lparr>hx_ss := ss\<rparr>))"
  by (auto simp: wp_def hx_mix_hash_def hx_mix_key_def hx_encrypt_def hx_decrypt_def split_beta
      split: prod.split sum.split)

lemma PublicIdentity_from_bytes_Inr:
  "PublicIdentity_from_bytes c pk = Inr ident \<Longrightarrow>
     pid_verifying ident = pk \<and> pid_address ident = Address_from_public_key c pk
     \<and> pid_x25519 ident = ed_montgomery c pk"
  by (auto simp: PublicIdentity_from_bytes_def split: if_splits)

lemma wp_verify:
  assumes "\<And>e. E h"
    and "\<And>ident. hx_rs h = Some (pid_x25519 ident) \<Longrightarrow>
           PublicIdentity_from_bytes c (pid_verifying ident) = Inr ident \<Longrightarrow>
           Q (drop 32 payload) (h\<lparr>hx_remote := Some ident\<rparr>)"
  shows "wp (HandshakeXX_verify_identity_payload c payload) Q E h"
  using assms PublicIdentity_from_bytes_Inr [of c "take 32 payload"]
  by (auto simp: HandshakeXX_verify_identity_payload_def wp_simps ok_or_def
      split: sum.split option.split if_split)

lemma hx_call_inv:
  assumes "hx_inv c h"
  shows "hx_inv c (fst (hx_call c op h))"
proof (cases "(hx_role h, hx_step h) = hx_turn op")
  case False
  then show ?thesis using assms hx_call_out_of_turn by simp
next
  case True
  have none: "hx_remote h = None" if "hx_turn op \<noteq> (Initiator, 2)"
    using that True assms by (cases op) (auto simp: hx_inv_def hx_fresh_def)
  have "wp (hx_call c op) (\<lambda>_. hx_inv c) (hx_inv c) h"
    using True assms none
    by (cases op)
      (auto simp: hx_op_defs wp_simps wp_hx hx_inv_def hx_bound_def hx_fresh_def
        intro!: wp_verify split: sum.split prod.split)
  then show ?thesis by (simp only: wp_state)
qed

interpretation hx: invariant_machine "\<lambda>op h. fst (hx_call c op h)" "hx_inv c" for c
  by unfold_locales (rule hx_call_inv)

lemma hx_inv_new: "hx_inv c (HandshakeXX_new c role ident prologue e)"
  by (simp add: hx_inv_def hx_bound_def hx_fresh_def HandshakeXX_new_def)

subsection \<open>One-way messages\<close>

lemma x_open_seal:
  assumes laws: "aead_law c" "dh_law c" "sign_law c"
    and a: "Identity_from_seed c sa = Some a" and b: "Identity_from_seed c sb = Some b"
  obtains m where "x_seal c a (id_public b) prologue payload e = Inr m"
    "x_open c b prologue m = Inr (id_public a, payload)" "length m = length payload + ENVELOPE_OVERHEAD"
proof -
  note A = identity_facts [OF laws(3) a] and B = identity_facts [OF laws(3) b]
  let ?ea = "x25519_public c e" and ?sb = "id_x25519_secret b" and ?sa = "id_x25519_secret a"
  let ?S0 = "SymmetricState_mix_hash c ?ea (SymmetricState_mix_hash c (x25519_public c ?sb)
       (SymmetricState_mix_hash c prologue (SymmetricState_new c PROTOCOL_NAME_X)))"
  let ?S1 = "SymmetricState_mix_key c (x25519_dh c e (x25519_public c ?sb)) ?S0"
  let ?S2 = "SymmetricState_mix_key c (x25519_dh c ?sa (x25519_public c ?sb)) (ss_enc c (x25519_public c ?sa) ?S1)"
  let ?pk = "pid_verifying (id_public a)"
  let ?m = "?ea @ ss_ct c (x25519_public c ?sa) ?S1 @ ss_ct c (?pk @ payload) ?S2"
  have seal: "x_seal c a (id_public b) prologue payload e = Inr ?m"
    using laws A B by (simp add: x_seal_def dh_ok split_beta Let_def)
  have parts: "take 32 ?m = ?ea" "take 48 (drop 32 ?m) = ss_ct c (x25519_public c ?sa) ?S1"
    "drop 80 ?m = ss_ct c (?pk @ payload) ?S2" and len: "length ?m = length payload + (32 + 48 + 32 + 16)"
    using laws A by (simp_all add: length_ss_ct length_x25519_public)
  have dhs: "x25519_dh c ?sb ?ea = x25519_dh c e (x25519_public c ?sb)"
    "x25519_dh c ?sb (x25519_public c ?sa) = x25519_dh c ?sa (x25519_public c ?sb)"
    using laws(2) by (rule dh_sym)+
  have opened: "x_open c b prologue ?m = Inr (id_public a, payload)"
    unfolding x_open_def parts Let_def
    using laws A B len
    by (simp add: dh_ok dhs decrypt_encrypt_and_hash)
  show thesis by (rule that [OF seal opened]) (simp only: len ENVELOPE_OVERHEAD_def)
qed

lemma envelope_prologue_inject:
  "envelope_prologue d n = envelope_prologue d' n' \<longleftrightarrow> d = d' \<and> n = n'"
  by (simp add: envelope_prologue_def append_eq_append_conv)

text \<open>Two concrete identities, for evaluation.\<close>

definition demo_alice :: identity where
  "demo_alice = the (Identity_from_seed demo_crypto [1])"

definition demo_bob :: identity where
  "demo_bob = the (Identity_from_seed demo_crypto [2])"

lemma demo_identities:
  "Identity_from_seed demo_crypto [1] = Some demo_alice" "Identity_from_seed demo_crypto [2] = Some demo_bob"
  by (simp_all add: demo_alice_def demo_bob_def Identity_from_seed_def PublicIdentity_from_bytes_def
      demo_crypto_def Let_def)

subsection \<open>Properties\<close>

text \<open>C10. Handshake: an undisturbed XX handshake between two identities, with the same prologue
  on both sides, delivers the three payloads, gives the two sides opposite transport keys and the
  same handshake hash, and tells each side the public identity of the other.\<close>

theorem xx_handshake_agrees:
  assumes "aead_law c" "dh_law c" "sign_law c"
    and "Identity_from_seed c sa = Some a" "Identity_from_seed c sb = Some b"
  shows "\<exists>i r ki kr.
    xx_run c a b prologue ea eb p1 p2 p3 = Inr (i, r, p1, p2, p3) \<and>
    HandshakeXX_finish c i = Inr (ki, id_public b) \<and> HandshakeXX_finish c r = Inr (kr, id_public a) \<and>
    tk_send ki = tk_recv kr \<and> tk_recv ki = tk_send kr \<and> tk_handshake_hash ki = tk_handshake_hash kr"
proof -
  obtain i r where "xx_run c a b prologue ea eb p1 p2 p3 = Inr (i, r, p1, p2, p3)"
    "hx_ss r = hx_ss i" "hx_role i = Initiator" "hx_role r = Responder" "hx_step i = 3" "hx_step r = 3"
    "hx_remote i = Some (id_public b)" "hx_remote r = Some (id_public a)"
    by (rule xx_run_ok [OF assms])
  then show ?thesis by (simp add: HandshakeXX_finish_def SymmetricState_split_def split_beta)
qed

theorem xx_handshake_agrees_witness:
  "\<exists>i r ki kr.
    xx_run demo_crypto demo_alice demo_bob [9] [3] [4] [10] [20] [30] = Inr (i, r, [10], [20], [30]) \<and>
    HandshakeXX_finish demo_crypto i = Inr (ki, id_public demo_bob) \<and>
    HandshakeXX_finish demo_crypto r = Inr (kr, id_public demo_alice) \<and>
    tk_send ki = tk_recv kr \<and> tk_recv ki = tk_send kr \<and> tk_handshake_hash ki = tk_handshake_hash kr"
  by (rule xx_handshake_agrees [OF demo_crypto_laws(1,3,4) demo_identities])

text \<open>C20. Message order: a handshake call made by the wrong role or at the wrong step is refused
  and changes nothing.\<close>

theorem xx_out_of_turn:
  assumes "(hx_role h, hx_step h) \<noteq> hx_turn op"
  shows "hx_call c op h = (h, Inl HandshakeState)"
  using assms by (rule hx_call_out_of_turn)

theorem xx_out_of_turn_witness:
  "hx_call demo_crypto (Read2 [1]) (HandshakeXX_new demo_crypto Responder
      \<lparr>id_signing = [], id_public = \<lparr>pid_verifying = [], pid_address = NULL, pid_x25519 = []\<rparr>, id_x25519_secret = []\<rparr> [] [5])
   = (HandshakeXX_new demo_crypto Responder
      \<lparr>id_signing = [], id_public = \<lparr>pid_verifying = [], pid_address = NULL, pid_x25519 = []\<rparr>, id_x25519_secret = []\<rparr> [] [5],
      Inl HandshakeState)"
  by (rule xx_out_of_turn) (simp add: HandshakeXX_new_def)

text \<open>C21. Identity binding: whatever calls are made on a new handshake, with whatever bytes, when
  it finishes the reported peer is the identity of the Ed25519 key the peer sent, its address is
  derived from that key and its Noise static key is the one used in the handshake.\<close>

theorem xx_identity_bound:
  assumes "h = fold (\<lambda>op h. fst (hx_call c op h)) ops (HandshakeXX_new c role ident prologue e)"
    and "HandshakeXX_finish c h = Inr (keys, peer)"
  shows "hx_rs h = Some (pid_x25519 peer) \<and>
    pid_x25519 peer = ed_montgomery c (pid_verifying peer) \<and>
    pid_address peer = Address_from_public_key c (pid_verifying peer)"
proof -
  have "hx_inv c h" unfolding assms(1) by (rule hx.run_inv [OF hx_inv_new])
  moreover have "hx_remote h = Some peer"
    using assms(2)
    by (cases "hx_remote h") (auto simp: HandshakeXX_finish_def split_beta split: if_splits)
  ultimately show ?thesis
    using PublicIdentity_from_bytes_Inr [of c "pid_verifying peer" peer]
    by (simp add: hx_inv_def hx_bound_def)
qed

theorem xx_identity_bound_witness:
  "\<exists>m2 keys peer.
     let h = fold (\<lambda>op h. fst (hx_call demo_crypto op h)) [Write1 [10], Read2 m2, Write3 [30]]
               (HandshakeXX_new demo_crypto Initiator demo_alice [9] [3])
     in HandshakeXX_finish demo_crypto h = Inr (keys, peer) \<and>
        hx_rs h = Some (pid_x25519 peer) \<and>
        pid_x25519 peer = ed_montgomery demo_crypto (pid_verifying peer) \<and>
        pid_address peer = Address_from_public_key demo_crypto (pid_verifying peer)"
proof -
  obtain i r m2 where i: "i = fold (\<lambda>op h. fst (hx_call demo_crypto op h)) [Write1 [10], Read2 m2, Write3 [30]]
      (HandshakeXX_new demo_crypto Initiator demo_alice [9] [3])"
    and "hx_step i = 3" "hx_remote i = Some (id_public demo_bob)"
    by (rule xx_run_ok [OF demo_crypto_laws(1,3,4) demo_identities, of "[9]" "[3]" "[4]" "[10]" "[20]" "[30]"])
  then obtain keys where fin: "HandshakeXX_finish demo_crypto i = Inr (keys, id_public demo_bob)"
    by (auto simp: HandshakeXX_finish_def split_beta)
  from fin xx_identity_bound [OF i fin] show ?thesis unfolding i Let_def by blast
qed

text \<open>C22. Envelopes: an envelope sealed for a recipient opens for that recipient under the same
  envelope id to the sender's identity and the body, and is 128 bytes longer than the body.\<close>

theorem envelope_roundtrip:
  assumes "aead_law c" "dh_law c" "sign_law c"
    and "Identity_from_seed c sa = Some a" "Identity_from_seed c sb = Some b"
  shows "\<exists>env. seal_envelope c a (id_public b) n body e = Inr env \<and>
    open_envelope c b n env = Inr (id_public a, body) \<and> length env = length body + ENVELOPE_OVERHEAD"
  using x_open_seal [OF assms, of "envelope_prologue (pid_address (id_public b)) n" body e]
  by (auto simp: seal_envelope_def open_envelope_def Identity_address_def)

theorem envelope_roundtrip_witness:
  "\<exists>env. seal_envelope demo_crypto demo_alice (id_public demo_bob) 77 [1, 2] [3] = Inr env \<and>
    open_envelope demo_crypto demo_bob 77 env = Inr (id_public demo_alice, [1, 2]) \<and>
    length env = length [1, 2 :: u8] + ENVELOPE_OVERHEAD"
  by (rule envelope_roundtrip [OF demo_crypto_laws(1,3,4) demo_identities])

text \<open>Group encryption: a broadcast decrypts under the key, source, packet id and header it
  was encrypted with, and the nonces of two packets are equal only when source and packet id are.\<close>

theorem group_roundtrip:
  assumes "aead_law c"
  shows "group_decrypt c key src n aad (group_encrypt c key src n aad pt) = Inr pt \<and>
    (group_nonce src n = group_nonce src' n' \<longleftrightarrow> src = src' \<and> n = n')"
  using assms
  by (simp add: group_decrypt_def group_encrypt_def aead_length aead_open_seal TAG_LEN_def
      group_nonce_def append_eq_append_conv)

theorem group_roundtrip_witness:
  "group_decrypt demo_crypto [9] NULL 42 [5] (group_encrypt demo_crypto [9] NULL 42 [5] [1, 2]) = Inr [1, 2] \<and>
    (group_nonce NULL 42 = group_nonce NULL 43 \<longleftrightarrow> NULL = NULL \<and> (42 :: u32) = 43)"
  by (rule group_roundtrip [OF demo_crypto_laws(1)])

end
