(* ===== verification/Replay.thy ===== *)
theory Replay
  imports Prelude
begin

section \<open>Replay window (\<open>crypto/replay.rs\<close>)\<close>

text \<open>
  The 64-entry sliding window over packet counters: the highest accepted counter and a
  bitmap of the counters below it. It is shown to implement the reference window that
  keeps the set of all accepted counters, and through the locale \<open>replay_guard\<close> to accept
  no counter twice.
\<close>

record replay_window =
  rw_top :: u64
  rw_bitmap :: u64
  rw_accepted_any :: bool

definition ReplayWindow_SIZE :: u64 where
  "ReplayWindow_SIZE = 64"

definition ReplayWindow_new :: replay_window where
  "ReplayWindow_new = \<lparr>rw_top = 0, rw_bitmap = 0, rw_accepted_any = False\<rparr>"

definition ReplayWindow_check :: "replay_window \<Rightarrow> u64 \<Rightarrow> bool" where
  "ReplayWindow_check w ctr =
     (if \<not> rw_accepted_any w then True
      else if ctr > rw_top w then True
      else let diff = rw_top w - ctr
           in if diff \<ge> ReplayWindow_SIZE then False
              else rw_bitmap w AND push_bit (unat diff) 1 = 0)"

definition ReplayWindow_accept :: "replay_window \<Rightarrow> u64 \<Rightarrow> replay_window \<times> bool" where
  "ReplayWindow_accept w ctr =
     (if \<not> ReplayWindow_check w ctr then (w, False)
      else if \<not> rw_accepted_any w
      then (w\<lparr>rw_accepted_any := True, rw_top := ctr, rw_bitmap := 1\<rparr>, True)
      else if ctr > rw_top w
      then let shift = ctr - rw_top w;
               bitmap = (if shift \<ge> ReplayWindow_SIZE then 0 else push_bit (unat shift) (rw_bitmap w))
           in (w\<lparr>rw_bitmap := bitmap OR 1, rw_top := ctr\<rparr>, True)
      else (w\<lparr>rw_bitmap := rw_bitmap w OR push_bit (unat (rw_top w - ctr)) 1\<rparr>, True))"

definition ReplayWindow_highest :: "replay_window \<Rightarrow> u64 option" where
  "ReplayWindow_highest w = (if rw_accepted_any w then Some (rw_top w) else None)"

subsection \<open>The contract\<close>

text \<open>
  A guard relates its state to the set of counters it has recorded. What it lets through
  was not recorded before. A run offers counters one after another and collects those
  that are let through.
\<close>

locale replay_guard =
  fixes init :: 's and check :: "'s \<Rightarrow> 'c \<Rightarrow> bool" and record_ctr :: "'s \<Rightarrow> 'c \<Rightarrow> 's"
    and rel :: "'s \<Rightarrow> 'c set \<Rightarrow> bool"
  assumes rel_init: "rel init {}"
    and check_fresh: "rel s A \<Longrightarrow> check s c \<Longrightarrow> c \<notin> A"
    and rel_record: "rel s A \<Longrightarrow> check s c \<Longrightarrow> rel (record_ctr s c) (insert c A)"
begin

fun passed :: "'s \<Rightarrow> 'c list \<Rightarrow> 'c list" where
  "passed s [] = []"
| "passed s (c # cs) = (if check s c then c # passed (record_ctr s c) cs else passed s cs)"

lemma passed_fresh: "rel s A \<Longrightarrow> distinct (passed s cs) \<and> set (passed s cs) \<inter> A = {}"
proof (induction cs arbitrary: s A)
  case (Cons c cs)
  show ?case
  proof (cases "check s c")
    case True
    with Cons.IH [OF rel_record [OF Cons.prems True]] check_fresh [OF Cons.prems True]
    show ?thesis by auto
  next
    case False
    with Cons show ?thesis by simp
  qed
qed simp

lemma passed_distinct: "distinct (passed init cs)"
  using passed_fresh [OF rel_init] by blast

end

subsection \<open>The reference window\<close>

text \<open>
  The reference keeps every accepted counter. A counter is acceptable when it is above all
  accepted ones, or fewer than 64 below the highest and not accepted before.
\<close>

definition ref_check :: "u64 set \<Rightarrow> u64 \<Rightarrow> bool" where
  "ref_check A c \<longleftrightarrow> A = {} \<or> Max A < c \<or> (unat (Max A) - unat c < 64 \<and> c \<notin> A)"

definition rw_rel :: "replay_window \<Rightarrow> u64 set \<Rightarrow> bool" where
  "rw_rel w A \<longleftrightarrow>
     finite A \<and> (rw_accepted_any w \<longleftrightarrow> A \<noteq> {}) \<and>
     (A \<noteq> {} \<longrightarrow> rw_top w = Max A \<and>
        (\<forall>i < 64. bit (rw_bitmap w) i \<longleftrightarrow> (\<exists>a \<in> A. unat a + i = unat (Max A))))"

lemma rw_relD:
  assumes "rw_rel w A" "A \<noteq> {}"
  shows "finite A" "rw_top w = Max A" "rw_accepted_any w"
    "\<And>i. i < 64 \<Longrightarrow> bit (rw_bitmap w) i \<longleftrightarrow> (\<exists>a \<in> A. unat a + i = unat (Max A))"
    "\<And>a. a \<in> A \<Longrightarrow> unat a \<le> unat (Max A)"
  using assms by (auto simp: rw_rel_def word_le_nat_alt [symmetric])

lemma and_single_bit: "w AND push_bit n 1 = 0 \<longleftrightarrow> \<not> bit w n" for w :: u64
  by (simp add: bit_iff_and_push_bit_not_eq_0)

lemmas window_bit = and_single_bit [unfolded push_bit_of_1]

lemma unat_diff: "c \<le> t \<Longrightarrow> unat (t - c) = unat t - unat c" for c t :: u64
  by (simp add: unat_sub)

lemma size_le: "d \<ge> ReplayWindow_SIZE \<longleftrightarrow> 64 \<le> unat d"
  by (simp add: ReplayWindow_SIZE_def word_le_nat_alt)

lemma rw_check_ref:
  assumes rel: "rw_rel w A"
  shows "ReplayWindow_check w c \<longleftrightarrow> ref_check A c"
proof (cases "A = {}")
  case True
  then show ?thesis using rel by (simp add: rw_rel_def ReplayWindow_check_def ref_check_def)
next
  case ne: False
  note R = rw_relD [OF rel ne]
  show ?thesis
  proof (cases "c > Max A")
    case True
    then show ?thesis
      using R(2,3) by (simp add: ReplayWindow_check_def ref_check_def del: Max_less_iff)
  next
    case False
    have le: "unat c \<le> unat (Max A)" and d: "unat (Max A - c) = unat (Max A) - unat c"
      using False by (simp_all add: unat_diff word_le_nat_alt [symmetric] not_less del: Max_less_iff Max_ge_iff)
    have "unat a + (unat (Max A) - unat c) = unat (Max A) \<longleftrightarrow> a = c" for a
      using le by (auto simp: word_unat_eq_iff)
    then have "unat (Max A) - unat c < 64 \<Longrightarrow> bit (rw_bitmap w) (unat (Max A) - unat c) \<longleftrightarrow> c \<in> A"
      using R(4) [of "unat (Max A) - unat c"] by simp
    then show ?thesis
      using R(2,3) False d ne
      by (auto simp: ReplayWindow_check_def ref_check_def Let_def window_bit size_le
          simp del: Max_less_iff Max_ge_iff)
  qed
qed

lemma rw_accept_new_top:
  assumes rel: "rw_rel w A" and ne: "A \<noteq> {}" and gt: "c > Max A"
  shows "rw_rel (fst (ReplayWindow_accept w c)) (insert c A)"
proof -
  note R = rw_relD [OF rel ne]
  have lt: "unat (Max A) < unat c" using gt by (simp add: word_less_nat_alt)
  have sh: "unat (c - Max A) = unat c - unat (Max A)" using gt by (simp add: unat_diff less_imp_le)
  have Max': "Max (insert c A) = c" unfolding Max_insert [OF R(1) ne] using gt by (rule max.absorb3)
  let ?s = "unat c - unat (Max A)"
  let ?bm = "(if 64 \<le> ?s then 0 else push_bit ?s (rw_bitmap w)) OR 1"
  have acc: "ReplayWindow_accept w c = (w\<lparr>rw_bitmap := ?bm, rw_top := c\<rparr>, True)"
    using R(2,3) gt by (simp add: ReplayWindow_accept_def ReplayWindow_check_def Let_def size_le sh)
  have "bit ?bm i \<longleftrightarrow> (\<exists>a \<in> insert c A. unat a + i = unat c)" if i: "i < 64" for i
  proof -
    have "bit ?bm i \<longleftrightarrow> i = 0 \<or> (?s \<le> i \<and> bit (rw_bitmap w) (i - ?s))"
      using i by (auto simp: bit_simps)
    also have "\<dots> \<longleftrightarrow> i = 0 \<or> (?s \<le> i \<and> (\<exists>a \<in> A. unat a + (i - ?s) = unat (Max A)))"
      using R(4) [of "i - ?s"] i by auto
    also have "\<dots> \<longleftrightarrow> i = 0 \<or> (\<exists>a \<in> A. unat a + i = unat c)"
    proof -
      have "?s \<le> i \<and> unat a + (i - ?s) = unat (Max A) \<longleftrightarrow> unat a + i = unat c" if "a \<in> A" for a
        using R(5) [OF that] lt by arith
      then show ?thesis by blast
    qed
    finally show ?thesis by auto
  qed
  then show ?thesis using R(1,3) Max' by (simp add: acc rw_rel_def)
qed

lemma rw_accept_inside:
  assumes rel: "rw_rel w A" and ne: "A \<noteq> {}" and le: "\<not> c > Max A" and chk: "ReplayWindow_check w c"
  shows "rw_rel (fst (ReplayWindow_accept w c)) (insert c A)"
proof -
  note R = rw_relD [OF rel ne]
  have leN: "unat c \<le> unat (Max A)" and d: "unat (Max A - c) = unat (Max A) - unat c"
    using le by (simp_all add: unat_diff word_le_nat_alt [symmetric] not_less del: Max_less_iff Max_ge_iff)
  let ?d = "unat (Max A) - unat c"
  have Max': "Max (insert c A) = Max A"
    unfolding Max_insert [OF R(1) ne] using le by (intro max.absorb2) (simp only: not_less)
  have acc: "ReplayWindow_accept w c = (w\<lparr>rw_bitmap := rw_bitmap w OR push_bit ?d 1\<rparr>, True)"
    using R(2,3) le chk by (simp add: ReplayWindow_accept_def d)
  have "bit (rw_bitmap w OR push_bit ?d 1) i \<longleftrightarrow> (\<exists>a \<in> insert c A. unat a + i = unat (Max A))"
    if "i < 64" for i
    using R(4) [OF that] that leN by (auto simp: bit_simps)
  then show ?thesis using R(1,2,3) ne Max' by (simp add: acc rw_rel_def)
qed

lemma rw_accept_rel:
  assumes rel: "rw_rel w A" and chk: "ReplayWindow_check w c"
  shows "rw_rel (fst (ReplayWindow_accept w c)) (insert c A)"
proof (cases "A = {}")
  case True
  then have "\<not> rw_accepted_any w" using rel by (simp add: rw_rel_def)
  then show ?thesis
    using True chk by (auto simp: rw_rel_def ReplayWindow_accept_def bit_simps)
next
  case False
  then show ?thesis
    using rw_accept_new_top [OF rel False] rw_accept_inside [OF rel False _ chk] by blast
qed

interpretation rw: replay_guard ReplayWindow_new ReplayWindow_check
  "\<lambda>w c. fst (ReplayWindow_accept w c)" rw_rel
proof
  show "rw_rel ReplayWindow_new {}" by (simp add: rw_rel_def ReplayWindow_new_def)
  fix w A c
  assume rel: "rw_rel w A" and chk: "ReplayWindow_check w c"
  then show "rw_rel (fst (ReplayWindow_accept w c)) (insert c A)" by (rule rw_accept_rel)
  show "c \<notin> A"
    using chk unfolding rw_check_ref [OF rel]
    using rel by (auto simp: ref_check_def rw_rel_def not_le [symmetric])
qed

subsection \<open>Runs\<close>

fun rw_run :: "replay_window \<Rightarrow> u64 list \<Rightarrow> bool list" where
  "rw_run w [] = []"
| "rw_run w (c # cs) = (case ReplayWindow_accept w c of (w', b) \<Rightarrow> b # rw_run w' cs)"

fun ref_run :: "u64 set \<Rightarrow> u64 list \<Rightarrow> bool list" where
  "ref_run A [] = []"
| "ref_run A (c # cs) =
     (if ref_check A c then True # ref_run (insert c A) cs else False # ref_run A cs)"

lemma accept_result: "snd (ReplayWindow_accept w c) = ReplayWindow_check w c"
  by (simp add: ReplayWindow_accept_def Let_def)

lemma accept_refused: "\<not> ReplayWindow_check w c \<Longrightarrow> fst (ReplayWindow_accept w c) = w"
  by (simp add: ReplayWindow_accept_def)

lemma rw_run_ref_run: "rw_rel w A \<Longrightarrow> rw_run w cs = ref_run A cs"
proof (induction cs arbitrary: w A)
  case (Cons c cs)
  show ?case
  proof (cases "ReplayWindow_check w c")
    case True
    with Cons.IH [OF rw_accept_rel [OF Cons.prems True]] show ?thesis
      by (simp add: split_beta accept_result rw_check_ref [OF Cons.prems])
  next
    case False
    with Cons show ?thesis
      by (simp add: split_beta accept_result accept_refused rw_check_ref [OF Cons.prems])
  qed
qed simp

lemma passed_rw_run: "rw.passed w cs = map fst (filter snd (zip cs (rw_run w cs)))"
  by (induction cs arbitrary: w) (auto simp: split_beta accept_result accept_refused)

subsection \<open>Properties\<close>

text \<open>C19. Refinement of the replay window: on every sequence of counters the bitmap window
  gives the answers of the reference window that remembers every accepted counter.\<close>

theorem replay_window_refines: "rw_run ReplayWindow_new ctrs = ref_run {} ctrs"
  by (rule rw_run_ref_run) (rule rw.rel_init)

text \<open>No replay: whatever counters are offered, no counter is accepted twice.\<close>

theorem replay_window_no_replay:
  "distinct (map fst (filter snd (zip ctrs (rw_run ReplayWindow_new ctrs))))"
  using rw.passed_distinct [of ctrs] by (simp add: passed_rw_run)

end
