(* ===== verification/Session.thy ===== *)
theory Session
  imports Noise Replay
begin

section \<open>Transport sessions (\<open>crypto/session.rs\<close>)\<close>

text \<open>
  An established session: transport keys from the handshake, an explicit 24-bit counter
  on every message and the replay window on reception. \<open>Vec::with_capacity\<close> has no
  effect on values and is left out.
\<close>

definition TRANSPORT_OVERHEAD :: nat where
  "TRANSPORT_OVERHEAD = 4 + TAG_LEN"

definition COUNTER_REKEY_THRESHOLD :: u64 where
  "COUNTER_REKEY_THRESHOLD = push_bit 24 1 - 4096"

record session_limits =
  sl_idle_timeout_ms :: time
  sl_max_age_ms :: time
  sl_max_messages :: u64

definition SessionLimits_default :: session_limits where
  "SessionLimits_default =
     \<lparr>sl_idle_timeout_ms = 4 * 60 * 60 * 1000, sl_max_age_ms = 24 * 60 * 60 * 1000, sl_max_messages = 50000\<rparr>"

record session =
  se_peer :: public_identity
  se_epoch :: u8
  se_send_key :: bytes
  se_recv_key :: bytes
  se_send_ctr :: u64
  se_replay :: replay_window
  se_handshake_hash :: bytes
  se_established_at :: time
  se_last_activity :: time
  se_sent :: u64
  se_received :: u64
  se_rekey_in_progress :: bool
  se_m3 :: "bytes option"
  se_m3_resends :: u8

definition Session_new :: "public_identity \<Rightarrow> u8 \<Rightarrow> transport_keys \<Rightarrow> time \<Rightarrow> session" where
  "Session_new peer epoch keys now =
     \<lparr>se_peer = peer, se_epoch = epoch, se_send_key = tk_send keys, se_recv_key = tk_recv keys,
      se_send_ctr = 0, se_replay = ReplayWindow_new, se_handshake_hash = tk_handshake_hash keys,
      se_established_at = now, se_last_activity = now, se_sent = 0, se_received = 0,
      se_rekey_in_progress = False, se_m3 = None, se_m3_resends = 0\<rparr>"

definition Session_peer_address :: "session \<Rightarrow> address" where
  "Session_peer_address s = pid_address (se_peer s)"

definition Session_highest_received :: "session \<Rightarrow> u64 option" where
  "Session_highest_received s = ReplayWindow_highest (se_replay s)"

definition ctr_bytes :: "u64 \<Rightarrow> bytes" where
  "ctr_bytes ctr = drop 5 (be64 ctr)"

definition Session_full_ad :: "bytes \<Rightarrow> u8 \<Rightarrow> u64 \<Rightarrow> bytes" where
  "Session_full_ad aad epoch ctr = aad @ [epoch] @ ctr_bytes ctr"

definition Session_encrypt ::
  "crypto \<Rightarrow> time \<Rightarrow> bytes \<Rightarrow> bytes \<Rightarrow> (session, error, bytes) meth" where
  "Session_encrypt c now aad plaintext s =
     (if se_send_ctr s \<ge> COUNTER_REKEY_THRESHOLD then (s, Inl Expired)
      else
        let ctr = se_send_ctr s;
            s' = s\<lparr>se_send_ctr := se_send_ctr s + 1, se_sent := se_sent s + 1, se_last_activity := now\<rparr>;
            ad = Session_full_ad aad (se_epoch s) ctr
        in (s', Inr ([se_epoch s] @ ctr_bytes ctr
                     @ CipherState_encrypt_n c (se_send_key s) ctr ad plaintext)))"

definition Session_epoch_of :: "bytes \<Rightarrow> u8 option" where
  "Session_epoch_of payload = (case payload of [] \<Rightarrow> None | b # _ \<Rightarrow> Some b)"

definition payload_ctr :: "bytes \<Rightarrow> u64" where
  "payload_ctr payload = from_be64 [0, 0, 0, 0, 0, payload ! 1, payload ! 2, payload ! 3]"

definition Session_decrypt ::
  "crypto \<Rightarrow> time \<Rightarrow> bytes \<Rightarrow> bytes \<Rightarrow> (session, error, bytes) meth" where
  "Session_decrypt c now aad payload s =
     (if length payload < TRANSPORT_OVERHEAD then (s, Inl Truncated)
      else if payload ! 0 \<noteq> se_epoch s then (s, Inl NoSession)
      else let ctr = payload_ctr payload
           in if \<not> ReplayWindow_check (se_replay s) ctr then (s, Inl Replay)
              else case CipherState_decrypt_n c (se_recv_key s) ctr
                          (Session_full_ad aad (se_epoch s) ctr) (drop 4 payload) of
                     Inl e \<Rightarrow> (s, Inl e)
                   | Inr pt \<Rightarrow>
                       (s\<lparr>se_replay := fst (ReplayWindow_accept (se_replay s) ctr),
                          se_received := se_received s + 1, se_last_activity := now\<rparr>, Inr pt))"

definition Session_is_expired :: "session \<Rightarrow> time \<Rightarrow> session_limits \<Rightarrow> bool" where
  "Session_is_expired s now limits = (sat_sub now (se_last_activity s) > sl_idle_timeout_ms limits)"

definition Session_needs_rekey :: "session \<Rightarrow> time \<Rightarrow> session_limits \<Rightarrow> bool" where
  "Session_needs_rekey s now limits \<longleftrightarrow>
     \<not> se_rekey_in_progress s \<and>
     (sat_sub now (se_established_at s) > sl_max_age_ms limits
      \<or> se_sent s \<ge> sl_max_messages limits
      \<or> se_send_ctr s \<ge> COUNTER_REKEY_THRESHOLD)"

subsection \<open>Counters\<close>

lemma threshold_nat: "unat COUNTER_REKEY_THRESHOLD = 16773120"
  by (simp add: COUNTER_REKEY_THRESHOLD_def)

lemma ctr_high_bits: "w < COUNTER_REKEY_THRESHOLD \<Longrightarrow> take_bit 24 w = w"
  by (simp add: word_unat_eq_iff unsigned_take_bit_eq take_bit_nat_eq_self word_less_nat_alt threshold_nat)

lemma be64_small:
  assumes "take_bit 24 w = w"
  shows "take 5 (be64 w) = [0, 0, 0, 0, 0]"
proof -
  have hi: "\<not> bit w n" if "24 \<le> n" for n
    using that assms by (metis bit_take_bit_iff not_less)
  have "ucast (drop_bit 32 w) = (0 :: u32)" "ucast (drop_bit 24 (ucast w :: u32)) = (0 :: u8)"
    by (rule bit_word_eqI; simp add: bit_simps hi)+
  then show ?thesis by (simp add: be64_def be32_def)
qed

lemma payload_ctr_bytes:
  assumes "w < COUNTER_REKEY_THRESHOLD"
  shows "payload_ctr ([e] @ ctr_bytes w @ rest) = w"
proof -
  have len: "length (ctr_bytes w) = 3" by (simp add: ctr_bytes_def)
  then obtain x y z where xyz: "ctr_bytes w = [x, y, z]"
    by (auto simp: length_Suc_conv numeral_3_eq_3)
  have "[0, 0, 0, 0, 0] @ ctr_bytes w = be64 w"
    using be64_small [OF ctr_high_bits [OF assms]] by (metis append_take_drop_id ctr_bytes_def)
  then have "from_be64 ([0, 0, 0, 0, 0] @ ctr_bytes w) = w" by simp
  then show ?thesis by (simp add: payload_ctr_def xyz)
qed

lemma length_ctr_bytes [simp]: "length (ctr_bytes w) = 3"
  by (simp add: ctr_bytes_def)

lemma drop4: "drop 4 ([e] @ ctr_bytes w @ rest) = rest"
  by simp

subsection \<open>Sequences of calls\<close>

text \<open>A run encrypts a list of messages; the nonces used are the counters before each call.\<close>

fun encrypt_run :: "crypto \<Rightarrow> (time \<times> bytes \<times> bytes) list \<Rightarrow> session \<Rightarrow> session \<times> bytes result list" where
  "encrypt_run c [] s = (s, [])"
| "encrypt_run c ((now, aad, pt) # ms) s =
     (case Session_encrypt c now aad pt s of
        (s1, r) \<Rightarrow> (case encrypt_run c ms s1 of (s2, rs) \<Rightarrow> (s2, r # rs)))"

fun decrypt_run :: "crypto \<Rightarrow> (time \<times> bytes \<times> bytes) list \<Rightarrow> session \<Rightarrow> session \<times> bytes result list" where
  "decrypt_run c [] s = (s, [])"
| "decrypt_run c ((now, aad, payload) # ms) s =
     (case Session_decrypt c now aad payload s of
        (s1, r) \<Rightarrow> (case decrypt_run c ms s1 of (s2, rs) \<Rightarrow> (s2, r # rs)))"

definition sent_ctrs :: "bytes result list \<Rightarrow> u64 list" where
  "sent_ctrs rs = map (\<lambda>r. payload_ctr (projr r)) (filter is_ok rs)"

definition accepted_ctrs :: "(time \<times> bytes \<times> bytes) list \<Rightarrow> bytes result list \<Rightarrow> u64 list" where
  "accepted_ctrs ms rs = map (\<lambda>((_, _, payload), _). payload_ctr payload) (filter (\<lambda>(_, r). is_ok r) (zip ms rs))"

lemma encrypt_run_ctrs:
  "sorted_wrt (<) (sent_ctrs (snd (encrypt_run c ms s))) \<and>
   (\<forall>n \<in> set (sent_ctrs (snd (encrypt_run c ms s))). se_send_ctr s \<le> n \<and> n < COUNTER_REKEY_THRESHOLD)"
proof (induction c ms s rule: encrypt_run.induct)
  case (2 c now aad pt ms s)
  show ?case
  proof (cases "se_send_ctr s \<ge> COUNTER_REKEY_THRESHOLD")
    case True
    then show ?thesis
      using "2.IH" [of s "Inl Expired"] by (simp add: Session_encrypt_def sent_ctrs_def split_beta)
  next
    case False
    let ?s = "s\<lparr>se_send_ctr := se_send_ctr s + 1, se_sent := se_sent s + 1, se_last_activity := now\<rparr>"
    obtain out where enc: "Session_encrypt c now aad pt s = (?s, Inr ([se_epoch s] @ ctr_bytes (se_send_ctr s) @ out))"
      using False by (simp add: Session_encrypt_def Let_def)
    have suc: "unat (se_send_ctr s + 1) = Suc (unat (se_send_ctr s))"
      using False by (simp add: unat_word_ariths word_le_nat_alt threshold_nat)
    then have IH: "sorted_wrt (<) (sent_ctrs (snd (encrypt_run c ms ?s))) \<and>
      (\<forall>n \<in> set (sent_ctrs (snd (encrypt_run c ms ?s))). se_send_ctr s + 1 \<le> n \<and> n < COUNTER_REKEY_THRESHOLD)"
      using "2.IH" [OF enc [symmetric]] by simp
    have lt: "n > se_send_ctr s" if "se_send_ctr s + 1 \<le> n" for n
      using that suc by (simp add: word_le_nat_alt word_less_nat_alt)
    have "sent_ctrs (snd (encrypt_run c ((now, aad, pt) # ms) s))
        = se_send_ctr s # sent_ctrs (snd (encrypt_run c ms ?s))"
      using False payload_ctr_bytes [of "se_send_ctr s" "se_epoch s" out]
      by (simp add: enc sent_ctrs_def split_beta not_le)
    then show ?thesis using IH lt False by (auto simp: less_imp_le not_le)
  qed
qed (simp add: sent_ctrs_def)

lemma decrypt_error_unchanged:
  "Session_decrypt c now aad payload s = (s', Inl e) \<Longrightarrow> s' = s"
  by (auto simp: Session_decrypt_def Let_def split: if_splits sum.splits)

lemma decrypt_ok:
  assumes "Session_decrypt c now aad payload s = (s', Inr pt)"
  shows "ReplayWindow_check (se_replay s) (payload_ctr payload)"
    "se_replay s' = fst (ReplayWindow_accept (se_replay s) (payload_ctr payload))"
  using assms by (auto simp: Session_decrypt_def Let_def split: if_splits sum.splits)

lemma decrypt_run_fresh:
  "rw_rel (se_replay s) A \<Longrightarrow>
   distinct (accepted_ctrs ms (snd (decrypt_run c ms s))) \<and>
   set (accepted_ctrs ms (snd (decrypt_run c ms s))) \<inter> A = {}"
proof (induction c ms s arbitrary: A rule: decrypt_run.induct)
  case (2 c now aad payload ms s)
  obtain s1 r where dec: "Session_decrypt c now aad payload s = (s1, r)" by fastforce
  show ?case
  proof (cases r)
    case (Inl e)
    then show ?thesis
      using "2.IH" [OF dec [symmetric], of A] "2.prems" decrypt_error_unchanged [of c now aad payload s s1 e] dec
      by (simp add: accepted_ctrs_def split_beta)
  next
    case (Inr pt)
    note ok = decrypt_ok [OF dec [unfolded Inr]]
    have "rw_rel (se_replay s1) (insert (payload_ctr payload) A)"
      unfolding ok(2) by (rule rw.rel_record [OF "2.prems" ok(1)])
    with rw.check_fresh [OF "2.prems" ok(1)] show ?thesis
      using "2.IH" [OF dec [symmetric]] dec Inr
      by (auto simp: accepted_ctrs_def split_beta)
  qed
qed (simp add: accepted_ctrs_def)

lemma Session_decrypt_encrypt:
  assumes law: "aead_law c" and pair: "se_epoch r = se_epoch s" "se_recv_key r = se_send_key s"
    and enc: "Session_encrypt c now aad pt s = (s', Inr payload)"
    and fresh: "ReplayWindow_check (se_replay r) (se_send_ctr s)"
  shows "snd (Session_decrypt c now' aad payload r) = Inr pt"
    "length payload = length pt + TRANSPORT_OVERHEAD"
proof -
  have lt: "se_send_ctr s < COUNTER_REKEY_THRESHOLD"
    and p: "payload = [se_epoch s] @ ctr_bytes (se_send_ctr s) @ CipherState_encrypt_n c (se_send_key s)
         (se_send_ctr s) (Session_full_ad aad (se_epoch s) (se_send_ctr s)) pt"
    using enc by (auto simp: Session_encrypt_def Let_def split: if_splits)
  show len: "length payload = length pt + TRANSPORT_OVERHEAD"
    using law by (simp add: p CipherState_encrypt_n_def aead_length TRANSPORT_OVERHEAD_def TAG_LEN_def)
  have ctr: "payload_ctr payload = se_send_ctr s" unfolding p by (rule payload_ctr_bytes [OF lt])
  have "drop 4 payload = CipherState_encrypt_n c (se_send_key s)
         (se_send_ctr s) (Session_full_ad aad (se_epoch s) (se_send_ctr s)) pt"
    unfolding p by (rule drop4)
  then show "snd (Session_decrypt c now' aad payload r) = Inr pt"
    using law pair fresh len ctr
    by (simp add: Session_decrypt_def Let_def decrypt_encrypt_n p [THEN arg_cong [where f = "\<lambda>x. x ! 0"], simplified])
qed

subsection \<open>Properties\<close>

text \<open>C23. Session round trip: what one side encrypts the other decrypts, when the keys and epoch
  match and the counter is acceptable to the receiver's window; the framing adds 20 bytes.\<close>

theorem session_roundtrip:
  assumes "aead_law c" "se_epoch r = se_epoch s" "se_recv_key r = se_send_key s"
    and "Session_encrypt c now aad pt s = (s', Inr payload)"
    and "ReplayWindow_check (se_replay r) (se_send_ctr s)"
  shows "snd (Session_decrypt c now' aad payload r) = Inr pt \<and> length payload = length pt + TRANSPORT_OVERHEAD"
  using Session_decrypt_encrypt [OF assms] by blast

theorem session_roundtrip_witness:
  "let alice = Session_new (id_public demo_bob) 1 \<lparr>tk_send = [7], tk_recv = [8], tk_handshake_hash = []\<rparr> 0;
       bob = Session_new (id_public demo_alice) 1 \<lparr>tk_send = [8], tk_recv = [7], tk_handshake_hash = []\<rparr> 0
   in \<exists>s' payload. Session_encrypt demo_crypto 5 [1] [2, 3] alice = (s', Inr payload) \<and>
        snd (Session_decrypt demo_crypto 6 [1] payload bob) = Inr [2, 3] \<and>
        length payload = length [2, 3 :: u8] + TRANSPORT_OVERHEAD"
proof -
  let ?a = "Session_new (id_public demo_bob) 1 \<lparr>tk_send = [7], tk_recv = [8], tk_handshake_hash = []\<rparr> 0"
  let ?b = "Session_new (id_public demo_alice) 1 \<lparr>tk_send = [8], tk_recv = [7], tk_handshake_hash = []\<rparr> 0"
  obtain s' payload where enc: "Session_encrypt demo_crypto 5 [1] [2, 3] ?a = (s', Inr payload)"
    by (simp add: Session_encrypt_def Session_new_def COUNTER_REKEY_THRESHOLD_def Let_def)
  have "snd (Session_decrypt demo_crypto 6 [1] payload ?b) = Inr [2, 3] \<and>
        length payload = length [2, 3 :: u8] + TRANSPORT_OVERHEAD"
    by (rule session_roundtrip [OF demo_crypto_laws(1) _ _ enc])
      (simp_all add: Session_new_def ReplayWindow_new_def ReplayWindow_check_def)
  with enc show ?thesis unfolding Let_def by blast
qed

text \<open>C24. No reuse of a nonce: over any sequence of encryptions the counters sent are strictly
  increasing and stay below the rekey threshold, so that their 24-bit form is unambiguous.\<close>

theorem session_nonces_increase:
  "sorted_wrt (<) (sent_ctrs (snd (encrypt_run c ms s))) \<and>
   list_all (\<lambda>n. n < COUNTER_REKEY_THRESHOLD) (sent_ctrs (snd (encrypt_run c ms s)))"
  using encrypt_run_ctrs [of c ms s] by (simp add: list_all_iff)

text \<open>C11. No replay on a session: over any sequence of received payloads a new session accepts
  no counter twice, and a refused payload leaves the session as it was.\<close>

theorem session_no_replay:
  "distinct (accepted_ctrs ms (snd (decrypt_run c ms (Session_new peer epoch keys now)))) \<and>
   (case Session_decrypt c t aad payload s of (s', Inl e) \<Rightarrow> s' = s | (s', Inr pt) \<Rightarrow> True)"
  using decrypt_run_fresh [of "Session_new peer epoch keys now" "{}" ms c] rw.rel_init
    decrypt_error_unchanged [of c t aad payload s]
  by (auto simp: Session_new_def split: prod.split sum.split)

end
