(* ===== verification/F32.thy ===== *)
theory F32
  imports Prelude "HOL-Library.Log_Nat" Complex_Main
begin

section \<open>Single-precision arithmetic\<close>

text \<open>
  A finite \<open>f32\<close> is the rational number it denotes. Each operation is the exact one followed
  by \<open>rnd32\<close>, rounding to the nearest number with a 24-bit significand, ties to even, with
  the exponent bounded below by that of the smallest normal number (so that subnormals are
  rounded to multiples of \<open>2 ^ -149\<close>). The quantities of the program (decibels, percentages,
  milliseconds) stay far from the overflow threshold, and infinities and NaN are not modelled.
\<close>

type_synonym f32 = rat

definition pow2 :: "int \<Rightarrow> rat" where
  "pow2 e = (if 0 \<le> e then 2 ^ nat e else 1 / 2 ^ nat (- e))"

text \<open>The binary exponent of a positive rational: its numerator and denominator differ by at
  most one bit from the exponent estimate.\<close>

definition exponent :: "rat \<Rightarrow> int" where
  "exponent x =
     (case quotient_of x of (p, q) \<Rightarrow>
        let a = int (floorlog 2 (nat p)) - int (floorlog 2 (nat q))
        in if x < pow2 a then a - 1 else a)"

definition round_even :: "rat \<Rightarrow> int" where
  "round_even x =
     (let f = \<lfloor>x\<rfloor>; d = x - of_int f
      in if d < 1 / 2 then f else if d > 1 / 2 then f + 1 else if even f then f else f + 1)"

definition rnd32 :: "rat \<Rightarrow> f32" where
  "rnd32 x =
     (if x = 0 then 0
      else let ulp = pow2 (max (exponent \<bar>x\<bar>) (- 126) - 23)
           in of_int (round_even (x / ulp)) * ulp)"

definition f32_add :: "f32 \<Rightarrow> f32 \<Rightarrow> f32" where "f32_add a b = rnd32 (a + b)"
definition f32_sub :: "f32 \<Rightarrow> f32 \<Rightarrow> f32" where "f32_sub a b = rnd32 (a - b)"
definition f32_mul :: "f32 \<Rightarrow> f32 \<Rightarrow> f32" where "f32_mul a b = rnd32 (a * b)"
definition f32_div :: "f32 \<Rightarrow> f32 \<Rightarrow> f32" where "f32_div a b = rnd32 (a / b)"

definition f32_clamp :: "f32 \<Rightarrow> f32 \<Rightarrow> f32 \<Rightarrow> f32" where
  "f32_clamp x lo hi = (if x < lo then lo else if x > hi then hi else x)"

text \<open>\<open>as u32\<close> and \<open>as u8\<close> truncate towards zero and saturate; \<open>as f32\<close> rounds.\<close>

definition f32_of_nat :: "nat \<Rightarrow> f32" where
  "f32_of_nat n = rnd32 (of_nat n)"

definition f32_of_int :: "int \<Rightarrow> f32" where
  "f32_of_int n = rnd32 (of_int n)"

definition f32_to_nat :: "nat \<Rightarrow> f32 \<Rightarrow> nat" where
  "f32_to_nat hi x = (if x < 0 then 0 else min hi (nat \<lfloor>x\<rfloor>))"

definition f32_to_u8 :: "f32 \<Rightarrow> u8" where
  "f32_to_u8 x = of_nat (f32_to_nat 255 x)"

definition f32_to_u32 :: "f32 \<Rightarrow> u32" where
  "f32_to_u32 x = of_nat (f32_to_nat (2 ^ 32 - 1) x)"

lemma pow2_pos [simp]: "0 < pow2 e"
  by (simp add: pow2_def)

lemma round_even_of_int [simp]: "round_even (of_int n) = n"
  by (simp add: round_even_def)

lemma round_even_nonneg: "0 \<le> x \<Longrightarrow> 0 \<le> round_even x"
  by (auto simp: round_even_def Let_def)

lemma rnd32_nonneg: "0 \<le> x \<Longrightarrow> 0 \<le> rnd32 x"
  by (auto simp: rnd32_def Let_def intro!: mult_nonneg_nonneg round_even_nonneg less_imp_le [OF pow2_pos]
      divide_nonneg_pos)

lemma f32_to_nat_le: "f32_to_nat hi x \<le> hi"
  by (simp add: f32_to_nat_def)

lemma unat_f32_to_u8: "unat (f32_to_u8 x) = f32_to_nat 255 x"
proof -
  have "f32_to_nat 255 x < 256" using f32_to_nat_le [of 255 x] by linarith
  then show ?thesis by (simp add: f32_to_u8_def unat_of_nat take_bit_nat_eq_self)
qed

lemma f32_clamp_bounds: "lo \<le> hi \<Longrightarrow> lo \<le> f32_clamp x lo hi \<and> f32_clamp x lo hi \<le> hi"
  by (simp add: f32_clamp_def)

end
