(* ===== verification/Storm.thy ===== *)
theory Storm
  imports Packet SmallMap F32
begin

section \<open>Broadcast storm protection (\<open>storm/mod.rs\<close>)\<close>

text \<open>
  The cache of seen packets, the random relay delay and probability, and the queue of
  packets waiting for their relay slot. Random draws are arguments; a function that does
  not draw on some path ignores its argument there.
\<close>

record storm_config =
  st_seen_cache_size :: nat
  st_seen_ttl_ms :: time
  st_min_delay_ms :: u32
  st_max_delay_ms :: u32
  st_counter_threshold :: u8
  st_density_threshold :: u8
  st_min_forward_percent :: u8
  st_max_pending :: nat

definition StormConfig_default :: storm_config where
  "StormConfig_default =
     \<lparr>st_seen_cache_size = 256, st_seen_ttl_ms = 5 * 60 * 1000, st_min_delay_ms = 40,
      st_max_delay_ms = 600, st_counter_threshold = 3, st_density_threshold = 4,
      st_min_forward_percent = 25, st_max_pending = 16\<rparr>"

subsection \<open>Seen-packet cache\<close>

record seen_entry =
  sn_first_seen :: time
  sn_count :: u16
  sn_forwarded :: bool

record seen_cache =
  sc_map :: "(packet_key, seen_entry) small_map"
  sc_order :: "packet_key list"
  sc_cap :: nat
  sc_ttl_ms :: time

definition SeenCache_new :: "nat \<Rightarrow> time \<Rightarrow> seen_cache" where
  "SeenCache_new cap ttl_ms =
     \<lparr>sc_map = SmallMap_new, sc_order = [], sc_cap = max cap 1, sc_ttl_ms = ttl_ms\<rparr>"

fun SeenCache_make_room ::
  "nat \<Rightarrow> (packet_key, seen_entry) small_map \<Rightarrow> packet_key list \<Rightarrow>
   (packet_key, seen_entry) small_map \<times> packet_key list" where
  "SeenCache_make_room cap m [] = (m, [])"
| "SeenCache_make_room cap m (old # order) =
     (if length m \<ge> cap then SeenCache_make_room cap (sm_del m old) order else (m, old # order))"

definition SeenCache_observe :: "seen_cache \<Rightarrow> packet_key \<Rightarrow> time \<Rightarrow> seen_cache \<times> bool" where
  "SeenCache_observe c key now =
     (if SmallMap_contains_key (sc_map c) key
      then (c\<lparr>sc_map := SmallMap_modify (sc_map c) key (\<lambda>e. e\<lparr>sn_count := sat_add (sn_count e) 1\<rparr>)\<rparr>, False)
      else case SeenCache_make_room (sc_cap c) (sc_map c) (sc_order c) of (m, order) \<Rightarrow>
        (c\<lparr>sc_map := sm_put m key \<lparr>sn_first_seen = now, sn_count = 1, sn_forwarded = False\<rparr>,
           sc_order := order @ [key]\<rparr>, True))"

definition SeenCache_count :: "seen_cache \<Rightarrow> packet_key \<Rightarrow> u16" where
  "SeenCache_count c key = (case SmallMap_get (sc_map c) key of Some e \<Rightarrow> sn_count e | None \<Rightarrow> 0)"

definition SeenCache_contains :: "seen_cache \<Rightarrow> packet_key \<Rightarrow> bool" where
  "SeenCache_contains c key = SmallMap_contains_key (sc_map c) key"

definition SeenCache_mark_forwarded :: "seen_cache \<Rightarrow> packet_key \<Rightarrow> seen_cache" where
  "SeenCache_mark_forwarded c key =
     c\<lparr>sc_map := SmallMap_modify (sc_map c) key (\<lambda>e. e\<lparr>sn_forwarded := True\<rparr>)\<rparr>"

definition SeenCache_was_forwarded :: "seen_cache \<Rightarrow> packet_key \<Rightarrow> bool" where
  "SeenCache_was_forwarded c key =
     (case SmallMap_get (sc_map c) key of Some e \<Rightarrow> sn_forwarded e | None \<Rightarrow> False)"

definition SeenCache_len :: "seen_cache \<Rightarrow> nat" where
  "SeenCache_len c = length (sc_map c)"

fun SeenCache_expire_loop ::
  "time \<Rightarrow> time \<Rightarrow> (packet_key, seen_entry) small_map \<Rightarrow> packet_key list \<Rightarrow>
   (packet_key, seen_entry) small_map \<times> packet_key list" where
  "SeenCache_expire_loop now ttl m [] = (m, [])"
| "SeenCache_expire_loop now ttl m (k # order) =
     (case SmallMap_get m k of
        Some e \<Rightarrow> if sat_sub now (sn_first_seen e) > ttl
                  then SeenCache_expire_loop now ttl (sm_del m k) order
                  else (m, k # order)
      | None \<Rightarrow> SeenCache_expire_loop now ttl m order)"

definition SeenCache_expire :: "seen_cache \<Rightarrow> time \<Rightarrow> seen_cache" where
  "SeenCache_expire c now =
     (case SeenCache_expire_loop now (sc_ttl_ms c) (sc_map c) (sc_order c) of
        (m, order) \<Rightarrow> c\<lparr>sc_map := m, sc_order := order\<rparr>)"

subsection \<open>Relay delay and probability\<close>

definition forward_delay_ms :: "u32 \<Rightarrow> storm_config \<Rightarrow> f32 \<Rightarrow> u32" where
  "forward_delay_ms draw cfg snr_db =
     (let span = max (sat_sub (st_max_delay_ms cfg) (st_min_delay_ms cfg)) 1;
          w = f32_clamp (f32_div (f32_add snr_db 20) 30) 0 1;
          base = st_min_delay_ms cfg
                 + f32_to_u32 (f32_mul (f32_mul (f32_of_nat (unat span)) (rnd32 (6 / 10))) w);
          jitter = draw mod (span * 2 div 5 + 1)
      in base + jitter)"

definition forward_percent :: "storm_config \<Rightarrow> nat \<Rightarrow> u8" where
  "forward_percent cfg neighbor_count =
     (if neighbor_count \<le> unat (st_density_threshold cfg) then 100
      else let p = (of_nat (unat (st_density_threshold cfg) * 100 div neighbor_count) :: u8)
           in max p (st_min_forward_percent cfg))"

definition roll_percent :: "u32 \<Rightarrow> u8 \<Rightarrow> bool" where
  "roll_percent draw percent \<longleftrightarrow> percent \<ge> 100 \<or> draw mod 100 < ucast percent"

subsection \<open>Relay queue\<close>

record pending =
  pd_key :: packet_key
  pd_due :: time
  pd_packet :: packet
  pd_heard :: u8

record rebroadcast_scheduler =
  rs_pending :: "pending list"
  rs_cancelled :: u32
  rs_relayed :: u32

definition RebroadcastScheduler_new :: rebroadcast_scheduler where
  "RebroadcastScheduler_new = \<lparr>rs_pending = [], rs_cancelled = 0, rs_relayed = 0\<rparr>"

definition RebroadcastScheduler_schedule ::
  "rebroadcast_scheduler \<Rightarrow> packet_key \<Rightarrow> packet \<Rightarrow> time \<Rightarrow> nat \<Rightarrow> rebroadcast_scheduler \<times> bool" where
  "RebroadcastScheduler_schedule s key packet due max_pending =
     (if length (rs_pending s) \<ge> max_pending then (s, False)
      else (s\<lparr>rs_pending := rs_pending s
               @ [\<lparr>pd_key = key, pd_due = due, pd_packet = packet, pd_heard = 1\<rparr>]\<rparr>, True))"

definition RebroadcastScheduler_is_pending :: "rebroadcast_scheduler \<Rightarrow> packet_key \<Rightarrow> bool" where
  "RebroadcastScheduler_is_pending s key \<longleftrightarrow> (\<exists>p \<in> set (rs_pending s). pd_key p = key)"

definition RebroadcastScheduler_heard ::
  "rebroadcast_scheduler \<Rightarrow> packet_key \<Rightarrow> rebroadcast_scheduler \<times> bool" where
  "RebroadcastScheduler_heard s key =
     (if position (\<lambda>p. pd_key p = key) (rs_pending s) = None then (s, False)
      else (s\<lparr>rs_pending := update_first (\<lambda>p. pd_key p = key)
                (\<lambda>p. p\<lparr>pd_heard := sat_add (pd_heard p) 1\<rparr>) (rs_pending s)\<rparr>, True))"

definition RebroadcastScheduler_cancel ::
  "rebroadcast_scheduler \<Rightarrow> packet_key \<Rightarrow> rebroadcast_scheduler \<times> bool" where
  "RebroadcastScheduler_cancel s key =
     (let kept = filter (\<lambda>p. pd_key p \<noteq> key) (rs_pending s);
          removed = (length (rs_pending s) \<noteq> length kept)
      in (s\<lparr>rs_pending := kept, rs_cancelled := rs_cancelled s + (if removed then 1 else 0)\<rparr>, removed))"

definition RebroadcastScheduler_next_due :: "rebroadcast_scheduler \<Rightarrow> time option" where
  "RebroadcastScheduler_next_due s = list_min (map pd_due (rs_pending s))"

text \<open>The loop of \<open>due\<close>: \<open>i\<close> is the index, \<open>out\<close> the packets collected so far.\<close>

function RebroadcastScheduler_due_loop ::
  "time \<Rightarrow> u8 \<Rightarrow> nat \<Rightarrow> rebroadcast_scheduler \<Rightarrow> (packet_key \<times> packet) list \<Rightarrow>
   rebroadcast_scheduler \<times> (packet_key \<times> packet) list" where
  "RebroadcastScheduler_due_loop now threshold i s out =
     (if i < length (rs_pending s) then
        let p = rs_pending s ! i in
        if pd_due p \<le> now then
          let s' = s\<lparr>rs_pending := remove_at i (rs_pending s)\<rparr> in
          if pd_heard p \<ge> threshold
          then RebroadcastScheduler_due_loop now threshold i
                 (s'\<lparr>rs_cancelled := rs_cancelled s + 1\<rparr>) out
          else RebroadcastScheduler_due_loop now threshold i
                 (s'\<lparr>rs_relayed := rs_relayed s + 1\<rparr>) (out @ [(pd_key p, pd_packet p)])
        else RebroadcastScheduler_due_loop now threshold (i + 1) s out
      else (s, out))"
  by pat_completeness auto
termination
  by (relation "measure (\<lambda>(now, t, i, s, out). length (rs_pending s) - i)") auto

declare RebroadcastScheduler_due_loop.simps [simp del]

definition RebroadcastScheduler_due ::
  "rebroadcast_scheduler \<Rightarrow> time \<Rightarrow> u8 \<Rightarrow> rebroadcast_scheduler \<times> (packet_key \<times> packet) list" where
  "RebroadcastScheduler_due s now threshold = RebroadcastScheduler_due_loop now threshold 0 s []"

subsection \<open>The cache is a bounded first-in first-out set\<close>

text \<open>
  The reference: a queue of keys with the time of their first observation. A new key is
  appended, after the oldest key has made room when the queue is full; expiry drops the
  expired keys at the front.
\<close>

type_synonym seen_queue = "(packet_key \<times> time) list"

definition ref_observe :: "nat \<Rightarrow> seen_queue \<Rightarrow> packet_key \<Rightarrow> time \<Rightarrow> seen_queue \<times> bool" where
  "ref_observe cap q key now =
     (if key \<in> fst ` set q then (q, False)
      else ((if length q \<ge> cap then tl q else q) @ [(key, now)], True))"

definition ref_expire :: "time \<Rightarrow> seen_queue \<Rightarrow> time \<Rightarrow> seen_queue" where
  "ref_expire ttl q now = dropWhile (\<lambda>(_, t). sat_sub now t > ttl) q"

definition sc_abs :: "seen_cache \<Rightarrow> seen_queue" where
  "sc_abs c = map (\<lambda>k. (k, sn_first_seen (the (map_of (sc_map c) k)))) (sc_order c)"

definition sc_inv :: "seen_cache \<Rightarrow> bool" where
  "sc_inv c \<longleftrightarrow>
     sm_wf (sc_map c) \<and> distinct (sc_order c) \<and> set (sc_order c) = fst ` set (sc_map c) \<and>
     length (sc_order c) \<le> sc_cap c \<and> 1 \<le> sc_cap c"

lemma sc_invD:
  assumes "sc_inv c"
  shows "sm_wf (sc_map c)" "distinct (sc_order c)" "length (sc_map c) = length (sc_order c)"
    "map_of (sc_map c) k \<noteq> None \<longleftrightarrow> k \<in> set (sc_order c)" "length (sc_order c) \<le> sc_cap c" "1 \<le> sc_cap c"
proof -
  show wf: "sm_wf (sc_map c)" "distinct (sc_order c)" "length (sc_order c) \<le> sc_cap c" "1 \<le> sc_cap c"
    using assms by (simp_all add: sc_inv_def)
  have "set (map fst (sc_map c)) = set (sc_order c)" using assms by (simp add: sc_inv_def)
  then show "length (sc_map c) = length (sc_order c)"
    using sm_wf_distinct [OF wf(1)] wf(2) by (metis distinct_card length_map)
  show "map_of (sc_map c) k \<noteq> None \<longleftrightarrow> k \<in> set (sc_order c)"
    using assms by (simp add: sc_inv_def map_of_eq_None_iff)
qed

lemma make_room_eq:
  assumes "length m = length order" "length order \<le> cap" "1 \<le> cap" "sm_wf m" "distinct order"
    and "set order = fst ` set m"
  shows "SeenCache_make_room cap m order
    = (if length order \<ge> cap then (sm_del m (hd order), tl order) else (m, order))"
proof (cases order)
  case (Cons k ks)
  have "k \<in> fst ` set m" using assms(6) Cons by auto
  then have "length (sm_del m k) = length m - 1" using assms(4) by (simp add: SmallMap_remove_length)
  then show ?thesis using assms(1-3) Cons by (cases ks) auto
qed (use assms in simp)

lemma sc_observe_known:
  assumes inv: "sc_inv c" and k: "key \<in> set (sc_order c)"
  shows "snd (SeenCache_observe c key now) = False" "sc_inv (fst (SeenCache_observe c key now))"
    "sc_abs (fst (SeenCache_observe c key now)) = sc_abs c"
proof -
  note I = sc_invD [OF inv]
  let ?f = "\<lambda>e. e\<lparr>sn_count := sat_add (sn_count e) 1\<rparr>"
  have obs: "SeenCache_observe c key now = (c\<lparr>sc_map := SmallMap_modify (sc_map c) key ?f\<rparr>, False)"
    using inv k by (simp add: SeenCache_observe_def SmallMap_contains_key_iff I(1) sc_inv_def)
  show "snd (SeenCache_observe c key now) = False" by (simp add: obs)
  have "fst ` set (SmallMap_modify (sc_map c) key ?f) = fst ` set (sc_map c)"
    using SmallMap_modify_keys [OF I(1), of key ?f] by (metis list.set_map)
  then show "sc_inv (fst (SeenCache_observe c key now))" using inv by (simp add: obs sc_inv_def)
  have "sn_first_seen (the (map_of (SmallMap_modify (sc_map c) key ?f) k)) = sn_first_seen (the (map_of (sc_map c) k))"
    if "k \<in> set (sc_order c)" for k
    using I(4) [of k] that I(1) by (auto simp: SmallMap_modify_map_of)
  then show "sc_abs (fst (SeenCache_observe c key now)) = sc_abs c" by (simp add: obs sc_abs_def)
qed

lemma sc_observe_new:
  assumes inv: "sc_inv c" and k: "key \<notin> set (sc_order c)"
  shows "snd (SeenCache_observe c key now)" "sc_inv (fst (SeenCache_observe c key now))"
    "sc_abs (fst (SeenCache_observe c key now))
       = (if length (sc_order c) \<ge> sc_cap c then tl (sc_abs c) else sc_abs c) @ [(key, now)]"
proof -
  note I = sc_invD [OF inv]
  let ?full = "length (sc_order c) \<ge> sc_cap c"
  define m where "m = (if ?full then sm_del (sc_map c) (hd (sc_order c)) else sc_map c)"
  define order where "order = (if ?full then tl (sc_order c) else sc_order c)"
  let ?e = "\<lparr>sn_first_seen = now, sn_count = 1, sn_forwarded = False\<rparr>"
  have "SeenCache_make_room (sc_cap c) (sc_map c) (sc_order c) = (m, order)"
    using make_room_eq [OF I(3,5,6,1,2)] inv by (simp add: sc_inv_def m_def order_def)
  then have obs: "SeenCache_observe c key now = (c\<lparr>sc_map := sm_put m key ?e, sc_order := order @ [key]\<rparr>, True)"
    using inv k by (simp add: SeenCache_observe_def SmallMap_contains_key_iff I(1) sc_inv_def)
  then show "snd (SeenCache_observe c key now)" by simp
  have wfm: "sm_wf m" using I(1) by (simp add: m_def)
  have ne: "sc_order c \<noteq> []" if ?full using that I(6) by auto
  have keys: "fst ` set m = set order"
  proof (cases ?full)
    case True
    obtain h t where ht: "sc_order c = h # t" using ne [OF True] by (cases "sc_order c") auto
    have "fst ` set (sm_del (sc_map c) h) = fst ` set (sc_map c) - {h}"
      using I(1) by (force simp: SmallMap_remove_set)
    then show ?thesis using True inv ht by (auto simp: m_def order_def sc_inv_def)
  qed (use inv in \<open>simp add: m_def order_def sc_inv_def\<close>)
  have "set order \<subseteq> set (sc_order c)" "distinct order" "length order < sc_cap c"
    using I ne by (auto simp: order_def distinct_tl dest: list.set_sel(2) split: if_splits)
  moreover have "fst ` set (sm_put m key ?e) = insert key (set order)"
    using wfm keys by (force simp: SmallMap_insert_set)
  ultimately show "sc_inv (fst (SeenCache_observe c key now))"
    using k wfm I(6) by (auto simp: obs sc_inv_def)
  have "map_of (sm_put m key ?e) x = map_of (sc_map c) x" if "x \<in> set order" for x
  proof -
    have "x \<noteq> key" using that k \<open>set order \<subseteq> set (sc_order c)\<close> by auto
    moreover have "?full \<Longrightarrow> x \<noteq> hd (sc_order c)"
      using that I(2) ne by (cases "sc_order c") (auto simp: order_def)
    ultimately show ?thesis using wfm I(1) by (simp add: m_def)
  qed
  moreover have "map_of (sm_put m key ?e) key = Some ?e" using wfm by simp
  ultimately show "sc_abs (fst (SeenCache_observe c key now))
       = (if ?full then tl (sc_abs c) else sc_abs c) @ [(key, now)]"
    by (simp add: obs sc_abs_def order_def flip: map_tl)
qed

lemma sc_observe_refines:
  assumes inv: "sc_inv c"
  shows "sc_inv (fst (SeenCache_observe c key now))"
    "ref_observe (sc_cap c) (sc_abs c) key now
       = (sc_abs (fst (SeenCache_observe c key now)), snd (SeenCache_observe c key now))"
proof -
  have mem: "key \<in> fst ` set (sc_abs c) \<longleftrightarrow> key \<in> set (sc_order c)" by (force simp: sc_abs_def)
  have len: "length (sc_abs c) = length (sc_order c)" by (simp add: sc_abs_def)
  show "sc_inv (fst (SeenCache_observe c key now))"
    using sc_observe_known(2) [OF inv] sc_observe_new(2) [OF inv] by blast
  show "ref_observe (sc_cap c) (sc_abs c) key now
       = (sc_abs (fst (SeenCache_observe c key now)), snd (SeenCache_observe c key now))"
    using sc_observe_known [OF inv, of key now] sc_observe_new [OF inv, of key now]
    by (cases "key \<in> set (sc_order c)") (simp_all add: ref_observe_def mem len)
qed

lemma expire_loop_spec:
  assumes "sm_wf m" "distinct order" "set order = fst ` set m"
  shows "let (m', order') = SeenCache_expire_loop now ttl m order
    in sm_wf m' \<and> distinct order' \<and> set order' = fst ` set m' \<and> length order' \<le> length order \<and>
       map (\<lambda>k. (k, sn_first_seen (the (map_of m' k)))) order'
         = dropWhile (\<lambda>(_, t). sat_sub now t > ttl) (map (\<lambda>k. (k, sn_first_seen (the (map_of m k)))) order)"
  using assms
proof (induction now ttl m order rule: SeenCache_expire_loop.induct)
  case (2 now ttl m k order)
  have "k \<in> fst ` set m" using "2.prems"(3) by auto
  then obtain e where e: "map_of m k = Some e"
    using map_of_eq_None_iff [of m k] by (cases "map_of m k") auto
  then have get: "SmallMap_get m k = Some e" using "2.prems"(1) by (simp add: SmallMap_get_map_of)
  show ?case
  proof (cases "sat_sub now (sn_first_seen e) > ttl")
    case True
    have "fst ` set (sm_del m k) = fst ` set m - {k}"
      using "2.prems"(1) by (force simp: SmallMap_remove_set)
    then have *: "set order = fst ` set (sm_del m k)" using "2.prems"(2,3) by auto
    have **: "map (\<lambda>x. (x, sn_first_seen (the (map_of (sm_del m k) x)))) order
        = map (\<lambda>x. (x, sn_first_seen (the (map_of m x)))) order"
      using "2.prems"(1,2) by auto
    show ?thesis
      using "2.IH"(2) [OF get True] "2.prems"(1,2) * True e unfolding **
      by (auto simp: get Let_def split: prod.splits)
  next
    case False
    then show ?thesis using "2.prems" e by (simp add: get)
  qed
qed simp

lemma sc_expire_refines:
  assumes inv: "sc_inv c"
  shows "sc_inv (SeenCache_expire c now)"
    "sc_abs (SeenCache_expire c now) = ref_expire (sc_ttl_ms c) (sc_abs c) now"
  using expire_loop_spec [of "sc_map c" "sc_order c" now "sc_ttl_ms c"] inv
  by (auto simp: sc_inv_def SeenCache_expire_def sc_abs_def ref_expire_def split: prod.splits)

text \<open>The cache as a machine, and its answers to a sequence of operations.\<close>

datatype sc_op = ScObserve packet_key time | ScMark packet_key | ScExpire time

fun sc_step :: "sc_op \<Rightarrow> seen_cache \<Rightarrow> seen_cache" where
  "sc_step (ScObserve key now) c = fst (SeenCache_observe c key now)"
| "sc_step (ScMark key) c = SeenCache_mark_forwarded c key"
| "sc_step (ScExpire now) c = SeenCache_expire c now"

fun ref_step :: "nat \<Rightarrow> time \<Rightarrow> sc_op \<Rightarrow> seen_queue \<Rightarrow> seen_queue" where
  "ref_step cap ttl (ScObserve key now) q = fst (ref_observe cap q key now)"
| "ref_step cap ttl (ScMark key) q = q"
| "ref_step cap ttl (ScExpire now) q = ref_expire ttl q now"

lemma sc_mark_refines:
  assumes inv: "sc_inv c"
  shows "sc_inv (SeenCache_mark_forwarded c key)" "sc_abs (SeenCache_mark_forwarded c key) = sc_abs c"
proof -
  note I = sc_invD [OF inv]
  let ?f = "\<lambda>e. e\<lparr>sn_forwarded := True\<rparr>"
  have "fst ` set (SmallMap_modify (sc_map c) key ?f) = fst ` set (sc_map c)"
    using SmallMap_modify_keys [OF I(1), of key ?f] by (metis list.set_map)
  then show "sc_inv (SeenCache_mark_forwarded c key)"
    using inv by (simp add: SeenCache_mark_forwarded_def sc_inv_def)
  have "sn_first_seen (the (map_of (SmallMap_modify (sc_map c) key ?f) k)) = sn_first_seen (the (map_of (sc_map c) k))"
    if "k \<in> set (sc_order c)" for k
    using I(4) [of k] that I(1) by (auto simp: SmallMap_modify_map_of)
  then show "sc_abs (SeenCache_mark_forwarded c key) = sc_abs c"
    by (simp add: SeenCache_mark_forwarded_def sc_abs_def)
qed

lemma sc_step_const [simp]: "sc_cap (sc_step a c) = sc_cap c" "sc_ttl_ms (sc_step a c) = sc_ttl_ms c"
  by (cases a; simp add: SeenCache_observe_def SeenCache_mark_forwarded_def SeenCache_expire_def
      split: prod.split)+

lemma sc_step_refines:
  assumes "sc_inv c"
  shows "sc_inv (sc_step a c)" "sc_abs (sc_step a c) = ref_step (sc_cap c) (sc_ttl_ms c) a (sc_abs c)"
  using assms sc_observe_refines [OF assms] sc_expire_refines [OF assms] sc_mark_refines [OF assms]
  by (cases a; simp)+

interpretation sc: invariant_machine sc_step sc_inv
  by unfold_locales (rule sc_step_refines)

lemma sc_inv_new: "sc_inv (SeenCache_new cap ttl)"
  by (simp add: sc_inv_def SeenCache_new_def SmallMap_new_def)

lemma sc_run_refines:
  "sc_inv c \<Longrightarrow> sc_abs (fold sc_step ops c) = fold (ref_step (sc_cap c) (sc_ttl_ms c)) ops (sc_abs c)"
  by (induction ops arbitrary: c) (auto simp: sc_step_refines)

lemma sc_run_const [simp]:
  "sc_cap (fold sc_step ops c) = sc_cap c" "sc_ttl_ms (fold sc_step ops c) = sc_ttl_ms c"
  by (induction ops arbitrary: c) auto

subsection \<open>The relay queue\<close>

definition pd_ready :: "time \<Rightarrow> pending \<Rightarrow> bool" where
  "pd_ready now p \<longleftrightarrow> pd_due p \<le> now"

lemma filter_remove_at_drop:
  "i < length xs \<Longrightarrow> drop i xs = xs ! i # drop i (remove_at i xs)"
  "i < length xs \<Longrightarrow> take i (remove_at i xs) = take i xs"
  by (simp_all add: remove_at_def Cons_nth_drop_Suc)

lemma due_loop_spec:
  "i \<le> length (rs_pending s) \<Longrightarrow>
   RebroadcastScheduler_due_loop now thr i s out =
     (s\<lparr>rs_pending := take i (rs_pending s) @ filter (\<lambda>p. \<not> pd_ready now p) (drop i (rs_pending s)),
        rs_cancelled := rs_cancelled s
          + of_nat (length (filter (\<lambda>p. pd_ready now p \<and> thr \<le> pd_heard p) (drop i (rs_pending s)))),
        rs_relayed := rs_relayed s
          + of_nat (length (filter (\<lambda>p. pd_ready now p \<and> pd_heard p < thr) (drop i (rs_pending s))))\<rparr>,
      out @ map (\<lambda>p. (pd_key p, pd_packet p))
              (filter (\<lambda>p. pd_ready now p \<and> pd_heard p < thr) (drop i (rs_pending s))))"
proof (induction now thr i s out rule: RebroadcastScheduler_due_loop.induct)
  case (1 now thr i s out)
  show ?case
  proof (cases "i < length (rs_pending s)")
    case False
    with "1.prems" show ?thesis by (simp add: RebroadcastScheduler_due_loop.simps)
  next
    case True
    let ?p = "rs_pending s ! i"
    note drop = filter_remove_at_drop [OF True]
    have le: "i \<le> length (remove_at i (rs_pending s))" using True by simp
    have take_Suc: "take (Suc i) (rs_pending s) = take i (rs_pending s) @ [?p]"
      "drop i (rs_pending s) = ?p # drop (Suc i) (rs_pending s)"
      using True by (simp_all add: take_Suc_conv_app_nth Cons_nth_drop_Suc)
    consider "pd_ready now ?p" "thr \<le> pd_heard ?p" | "pd_ready now ?p" "pd_heard ?p < thr"
      | "\<not> pd_ready now ?p" by fastforce
    then show ?thesis
    proof cases
      case 1
      then show ?thesis
        using "1.IH"(1) True le
        by (simp add: RebroadcastScheduler_due_loop.simps [of now thr i s] pd_ready_def drop not_less Let_def)
    next
      case 2
      then have "\<not> thr \<le> pd_heard ?p" by simp
      with 2 show ?thesis
        using "1.IH"(2) True le
        by (simp add: RebroadcastScheduler_due_loop.simps [of now thr i s] pd_ready_def drop not_less Let_def)
    next
      case 3
      then show ?thesis
        using "1.IH"(3) True
        by (simp add: RebroadcastScheduler_due_loop.simps [of now thr i s] pd_ready_def take_Suc Let_def)
    qed
  qed
qed

subsection \<open>Properties\<close>

text \<open>C25. Seen cache: after any sequence of operations the cache holds what a first-in first-out
  queue of at most the configured number of keys holds, and reports a packet as new exactly when
  its key is not in that queue.\<close>

theorem seen_cache_refines_queue:
  "let c = fold sc_step ops (SeenCache_new cap ttl);
       q = fold (ref_step (max cap 1) ttl) ops []
   in sc_abs c = q \<and> length q \<le> max cap 1 \<and> SeenCache_len c = length q \<and>
      snd (SeenCache_observe c key now) = (key \<notin> fst ` set q)"
proof -
  define c where "c = fold sc_step ops (SeenCache_new cap ttl)"
  have inv: "sc_inv c" unfolding c_def by (rule sc.run_inv [OF sc_inv_new])
  have q: "sc_abs c = fold (ref_step (max cap 1) ttl) ops []"
    unfolding c_def using sc_run_refines [OF sc_inv_new, of ops cap ttl]
    by (simp add: SeenCache_new_def sc_abs_def)
  have "sc_cap c = max cap 1" by (simp add: c_def SeenCache_new_def)
  then have "length (sc_abs c) \<le> max cap 1" "SeenCache_len c = length (sc_abs c)"
    using sc_invD [OF inv] by (simp_all add: sc_abs_def SeenCache_len_def)
  moreover have "snd (SeenCache_observe c key now) = (key \<notin> fst ` set (sc_abs c))"
    using sc_observe_refines(2) [OF inv, of key now] by (auto simp: ref_observe_def split: if_splits)
  ultimately show ?thesis unfolding c_def [symmetric] q [symmetric] by simp
qed

text \<open>C26. Relay slots: \<open>due\<close> returns, in queue order, exactly the packets whose slot has come
  and that were heard fewer times than the threshold, keeps exactly those whose slot has not come,
  and counts the others as cancelled.\<close>

theorem scheduler_due_exact:
  "RebroadcastScheduler_due s now thr =
     (s\<lparr>rs_pending := filter (\<lambda>p. now < pd_due p) (rs_pending s),
        rs_cancelled := rs_cancelled s
          + of_nat (length (filter (\<lambda>p. pd_due p \<le> now \<and> thr \<le> pd_heard p) (rs_pending s))),
        rs_relayed := rs_relayed s
          + of_nat (length (filter (\<lambda>p. pd_due p \<le> now \<and> pd_heard p < thr) (rs_pending s)))\<rparr>,
      map (\<lambda>p. (pd_key p, pd_packet p)) (filter (\<lambda>p. pd_due p \<le> now \<and> pd_heard p < thr) (rs_pending s)))"
  using due_loop_spec [of 0 s now thr "[]"]
  by (simp add: RebroadcastScheduler_due_def pd_ready_def not_le)

text \<open>Relay probability: it is never below the configured floor for a floor of at most 100
  percent, and never above 100 percent.\<close>

theorem forward_percent_bounds:
  assumes "st_min_forward_percent cfg \<le> 100"
  shows "st_min_forward_percent cfg \<le> forward_percent cfg n \<and> forward_percent cfg n \<le> 100"
proof (cases "n \<le> unat (st_density_threshold cfg)")
  case True
  then show ?thesis using assms by (simp add: forward_percent_def)
next
  case False
  let ?q = "unat (st_density_threshold cfg) * 100 div n"
  have "unat (st_density_threshold cfg) * 100 \<le> n * 100" using False by simp
  then have q: "?q \<le> 100"
    using False by (metis div_le_mono nonzero_mult_div_cancel_left not_le not_less_zero)
  then have "(of_nat ?q :: u8) \<le> 100" by (simp add: word_le_nat_alt unat_of_nat_u8)
  then show ?thesis using False assms by (simp add: forward_percent_def Let_def)
qed

theorem forward_percent_bounds_witness:
  "st_min_forward_percent StormConfig_default \<le> forward_percent StormConfig_default 9 \<and>
   forward_percent StormConfig_default 9 \<le> 100"
  by (rule forward_percent_bounds) (simp add: StormConfig_default_def)

end
