(* ===== verification/Power_Manager.thy ===== *)
theory Power_Manager
  imports Prelude
begin

section \<open>Energy management (\<open>power/mod.rs\<close>)\<close>

text \<open>
  The regulatory transmit budget over a sliding window and the sleep schedule. The constructor
  \<open>Leaf\<close> of \<open>PowerMode\<close> is \<open>LeafMode\<close> here, to keep the name of the node role free.
\<close>

datatype power_mode =
    AlwaysOn
  | DutyCycle (listen_ms: u32) (sleep_ms: u32)
  | LeafMode (wake_interval_s: u16) (awake_window_ms: u16)

record power_config =
  pc_mode :: power_mode
  pc_max_airtime_permille :: u16
  pc_airtime_window_ms :: time
  pc_max_beacon_slowdown :: u8
  pc_activity_extension_ms :: u32

definition PowerConfig_default :: power_config where
  "PowerConfig_default =
     \<lparr>pc_mode = AlwaysOn, pc_max_airtime_permille = 10, pc_airtime_window_ms = 3600000,
      pc_max_beacon_slowdown = 4, pc_activity_extension_ms = 6000\<rparr>"

record power_stats =
  ps_tx_airtime_ms :: u64
  ps_sleep_ms :: u64
  ps_wakeups :: u32
  ps_tx_deferred_duty :: u32

record power_manager =
  pm_cfg :: power_config
  pm_tx_log :: "(time \<times> u32) list"
  pm_airtime_in_window :: u64
  pm_awake :: bool
  pm_awake_until :: time
  pm_awake_since :: time
  pm_next_wake :: time
  pm_stable_intervals :: u8
  pm_stats :: power_stats

definition PowerManager_new :: "power_config \<Rightarrow> time \<Rightarrow> power_manager" where
  "PowerManager_new cfg now =
     \<lparr>pm_cfg = cfg, pm_tx_log = [], pm_airtime_in_window = 0, pm_awake = True,
      pm_awake_until = u64_MAX, pm_awake_since = now, pm_next_wake = now, pm_stable_intervals = 0,
      pm_stats = \<lparr>ps_tx_airtime_ms = 0, ps_sleep_ms = 0, ps_wakeups = 0, ps_tx_deferred_duty = 0\<rparr>\<rparr>"

text \<open>The loop of \<open>prune\<close> over the log and the airtime counter.\<close>

fun prune_loop :: "time \<Rightarrow> time \<Rightarrow> (time \<times> u32) list \<Rightarrow> u64 \<Rightarrow> (time \<times> u32) list \<times> u64" where
  "prune_loop window now [] air = ([], air)"
| "prune_loop window now ((t, a) # log) air =
     (if sat_sub now t > window then prune_loop window now log (air - ucast a)
      else ((t, a) # log, air))"

definition PowerManager_prune :: "time \<Rightarrow> power_manager \<Rightarrow> power_manager" where
  "PowerManager_prune now pm =
     (case prune_loop (pc_airtime_window_ms (pm_cfg pm)) now (pm_tx_log pm) (pm_airtime_in_window pm) of
        (log, air) \<Rightarrow> pm\<lparr>pm_tx_log := log, pm_airtime_in_window := air\<rparr>)"

definition airtime_budget :: "power_config \<Rightarrow> u64" where
  "airtime_budget cfg = pc_airtime_window_ms cfg * ucast (pc_max_airtime_permille cfg) div 1000"

definition PowerManager_can_transmit :: "time \<Rightarrow> u32 \<Rightarrow> power_manager \<Rightarrow> power_manager \<times> bool" where
  "PowerManager_can_transmit now airtime_ms pm0 =
     (let pm = PowerManager_prune now pm0;
          ok = (pm_airtime_in_window pm + ucast airtime_ms \<le> airtime_budget (pm_cfg pm))
      in (if ok then pm
          else pm\<lparr>pm_stats := (pm_stats pm)\<lparr>ps_tx_deferred_duty := ps_tx_deferred_duty (pm_stats pm) + 1\<rparr>\<rparr>,
          ok))"

definition PowerManager_record_tx :: "time \<Rightarrow> u32 \<Rightarrow> power_manager \<Rightarrow> power_manager" where
  "PowerManager_record_tx now airtime_ms pm0 =
     (let pm = PowerManager_prune now pm0;
          log = pm_tx_log pm @ [(now, airtime_ms)];
          air = pm_airtime_in_window pm + ucast airtime_ms;
          pm' = pm\<lparr>pm_stats := (pm_stats pm)
                     \<lparr>ps_tx_airtime_ms := ps_tx_airtime_ms (pm_stats pm) + ucast airtime_ms\<rparr>\<rparr>
      in if length log > 4096
         then pm'\<lparr>pm_tx_log := tl log, pm_airtime_in_window := air - ucast (snd (hd log))\<rparr>
         else pm'\<lparr>pm_tx_log := log, pm_airtime_in_window := air\<rparr>)"

definition PowerManager_airtime_permille :: "time \<Rightarrow> power_manager \<Rightarrow> power_manager \<times> u16" where
  "PowerManager_airtime_permille now pm0 =
     (let pm = PowerManager_prune now pm0
      in (pm, ucast (pm_airtime_in_window pm * 1000 div max (pc_airtime_window_ms (pm_cfg pm)) 1)))"

definition PowerManager_on_activity :: "time \<Rightarrow> power_manager \<Rightarrow> power_manager" where
  "PowerManager_on_activity now pm =
     (let extend = (\<lambda>window.
            let cap = pm_awake_since pm + 5 * max window 1
            in pm\<lparr>pm_awake_until :=
                 min (max (pm_awake_until pm) (now + ucast (pc_activity_extension_ms (pm_cfg pm))))
                     (max cap (pm_awake_until pm))\<rparr>)
      in if pm_awake pm \<and> pm_awake_until pm \<noteq> u64_MAX
         then (case pc_mode (pm_cfg pm) of
                 LeafMode _ w \<Rightarrow> extend (ucast w)
               | DutyCycle l _ \<Rightarrow> extend (ucast l)
               | AlwaysOn \<Rightarrow> pm)
         else pm)"

definition PowerManager_step :: "time \<Rightarrow> u64 \<Rightarrow> u64 \<Rightarrow> power_manager \<Rightarrow> power_manager \<times> bool option" where
  "PowerManager_step now awake_len sleep_len pm =
     (if pm_awake pm
      then if pm_awake_until pm = u64_MAX
           then (pm\<lparr>pm_awake_until := now + awake_len, pm_awake_since := now\<rparr>, None)
           else if now \<ge> pm_awake_until pm
           then (pm\<lparr>pm_awake := False, pm_next_wake := now + sleep_len\<rparr>, Some False)
           else (pm, None)
      else if now \<ge> pm_next_wake pm
      then (pm\<lparr>pm_awake := True, pm_awake_until := now + awake_len, pm_awake_since := now,
              pm_stats := (pm_stats pm)\<lparr>ps_sleep_ms := ps_sleep_ms (pm_stats pm) + sleep_len,
                                      ps_wakeups := ps_wakeups (pm_stats pm) + 1\<rparr>\<rparr>, Some True)
      else (pm, None))"

definition PowerManager_tick :: "time \<Rightarrow> power_manager \<Rightarrow> power_manager \<times> bool option" where
  "PowerManager_tick now pm =
     (case pc_mode (pm_cfg pm) of
        AlwaysOn \<Rightarrow>
          if \<not> pm_awake pm then (pm\<lparr>pm_awake := True, pm_awake_until := u64_MAX\<rparr>, Some True)
          else (pm, None)
      | DutyCycle l s \<Rightarrow> PowerManager_step now (ucast l) (ucast s) pm
      | LeafMode i w \<Rightarrow> PowerManager_step now (ucast w) (ucast i * 1000) pm)"

definition PowerManager_delay_wake :: "u64 \<Rightarrow> power_manager \<Rightarrow> power_manager" where
  "PowerManager_delay_wake ms pm =
     (if \<not> pm_awake pm then pm\<lparr>pm_next_wake := sat_add (pm_next_wake pm) ms\<rparr> else pm)"

definition PowerManager_wake_now :: "time \<Rightarrow> u32 \<Rightarrow> power_manager \<Rightarrow> power_manager" where
  "PowerManager_wake_now now window_ms pm =
     (let pm' = (if \<not> pm_awake pm
                 then pm\<lparr>pm_stats := (pm_stats pm)\<lparr>ps_wakeups := ps_wakeups (pm_stats pm) + 1\<rparr>\<rparr>
                 else pm)
      in pm'\<lparr>pm_awake := True, pm_awake_since := now, pm_awake_until := now + ucast window_ms\<rparr>)"

definition PowerManager_next_event :: "power_manager \<Rightarrow> time" where
  "PowerManager_next_event pm = (if pm_awake pm then pm_awake_until pm else pm_next_wake pm)"

definition PowerManager_beacon_multiplier :: "bool \<Rightarrow> power_manager \<Rightarrow> power_manager \<times> u8" where
  "PowerManager_beacon_multiplier neighborhood_changed pm =
     (let si = (if neighborhood_changed then 0 else sat_add (pm_stable_intervals pm) 1);
          m = 1 + si div 4
      in (pm\<lparr>pm_stable_intervals := si\<rparr>, min m (max (pc_max_beacon_slowdown (pm_cfg pm)) 1)))"

subsection \<open>The log of transmissions\<close>

definition log_sum :: "(time \<times> u32) list \<Rightarrow> nat" where
  "log_sum log = sum_list (map (\<lambda>(_, a). unat a) log)"

lemma log_sum_simps [simp]:
  "log_sum [] = 0" "log_sum ((t, a) # l) = unat a + log_sum l" "log_sum (l @ l') = log_sum l + log_sum l'"
  by (simp_all add: log_sum_def)

text \<open>The requests a sender makes: each is asked for with \<open>can_transmit\<close>, and transmitted and
  recorded when it fits.\<close>

fun tx_run :: "(time \<times> u32) list \<Rightarrow> power_manager \<Rightarrow> power_manager \<times> (time \<times> u32) list" where
  "tx_run [] pm = (pm, [])"
| "tx_run ((now, a) # reqs) pm =
     (case PowerManager_can_transmit now a pm of
        (pm1, True) \<Rightarrow>
          (case tx_run reqs (PowerManager_record_tx now a pm1) of (pm2, sent) \<Rightarrow> (pm2, (now, a) # sent))
      | (pm1, False) \<Rightarrow> tx_run reqs pm1)"

definition window_sum :: "time \<Rightarrow> time \<Rightarrow> (time \<times> u32) list \<Rightarrow> nat" where
  "window_sum window now sent = log_sum (filter (\<lambda>(t, _). t \<le> now \<and> now - t \<le> window) sent)"

lemma unat_ucast_u32 [simp]: "unat (ucast a :: u64) = unat a" for a :: u32
  by (simp add: unsigned_ucast_eq take_bit_nat_eq_self_iff less_trans [OF unsigned_less])

text \<open>With times in order, pruning keeps exactly the entries inside the window.\<close>

lemma prune_loop_filter:
  assumes "sorted (map fst log)" "\<forall>(t, a) \<in> set log. t \<le> now"
  shows "fst (prune_loop window now log air) = filter (\<lambda>(t, _). now - t \<le> window) log"
  using assms
proof (induction log arbitrary: air)
  case (Cons e log)
  obtain t a where e: "e = (t, a)" by fastforce
  show ?case
  proof (cases "sat_sub now t > window")
    case True
    then show ?thesis using Cons e by (auto simp: sat_sub_def)
  next
    case False
    have "now - t' \<le> window" if "(t', a') \<in> set log" for t' a'
    proof -
      have "t \<le> t'" "t' \<le> now" using that Cons.prems e by auto
      then have "now - t' \<le> now - t" by (simp add: word_le_nat_alt unat_sub)
      moreover have "now - t \<le> window" using False Cons.prems e by (simp add: sat_sub_def)
      ultimately show ?thesis by simp
    qed
    then have "filter (\<lambda>(t, _). now - t \<le> window) log = log" by (intro filter_True) auto
    then show ?thesis using False Cons.prems e by (auto simp: sat_sub_def)
  qed
qed simp

lemma prune_loop_sum:
  assumes "unat air = log_sum log"
  shows "unat (snd (prune_loop window now log air)) = log_sum (fst (prune_loop window now log air))"
  using assms by (induction window now log air rule: prune_loop.induct)
    (auto simp: unat_sub word_le_nat_alt)

text \<open>
  \<open>tx_ok amin cfg S latest pm\<close>: the frames \<open>S\<close> were transmitted, the last operation was at time
  \<open>latest\<close>, every frame takes at least \<open>amin\<close> ms, the log holds those in the window and
  the budget holds at every transmission.
\<close>

definition tx_ok :: "nat \<Rightarrow> power_config \<Rightarrow> (time \<times> u32) list \<Rightarrow> time \<Rightarrow> power_manager \<Rightarrow> bool" where
  "tx_ok amin cfg S latest pm \<longleftrightarrow>
     pm_cfg pm = cfg \<and> sorted (map fst S) \<and> (\<forall>(t, a) \<in> set S. t \<le> latest \<and> amin \<le> unat a) \<and>
     pm_tx_log pm = filter (\<lambda>(t, _). latest - t \<le> pc_airtime_window_ms cfg) S \<and>
     unat (pm_airtime_in_window pm) = log_sum (pm_tx_log pm) \<and>
     log_sum (pm_tx_log pm) \<le> unat (airtime_budget cfg) \<and>
     (\<forall>(t, a) \<in> set S. window_sum (pc_airtime_window_ms cfg) t S \<le> unat (airtime_budget cfg))"

lemma prune_sel [simp]:
  "pm_tx_log (PowerManager_prune now pm) =
     fst (prune_loop (pc_airtime_window_ms (pm_cfg pm)) now (pm_tx_log pm) (pm_airtime_in_window pm))"
  "pm_airtime_in_window (PowerManager_prune now pm) =
     snd (prune_loop (pc_airtime_window_ms (pm_cfg pm)) now (pm_tx_log pm) (pm_airtime_in_window pm))"
  "pm_cfg (PowerManager_prune now pm) = pm_cfg pm"
  by (simp_all add: PowerManager_prune_def case_prod_unfold)

lemma prune_loop_id: "\<forall>(t, a) \<in> set log. sat_sub now t \<le> window \<Longrightarrow> prune_loop window now log air = (log, air)"
  by (cases log) auto

lemma log_sum_filter_le: "log_sum (filter p l) \<le> log_sum l"
  by (induction l) auto

lemma tx_ok_prune:
  assumes ok: "tx_ok amin cfg S latest pm" and le: "latest \<le> now"
  shows "tx_ok amin cfg S now (PowerManager_prune now pm)"
proof -
  let ?w = "pc_airtime_window_ms cfg"
  have cfg: "pm_cfg pm = cfg" and S: "sorted (map fst S)" "\<forall>(t, a) \<in> set S. t \<le> latest \<and> amin \<le> unat a"
    and log: "pm_tx_log pm = filter (\<lambda>(t, _). latest - t \<le> ?w) S"
    and air: "unat (pm_airtime_in_window pm) = log_sum (pm_tx_log pm)"
    using ok by (simp_all add: tx_ok_def)
  have "now - t \<le> ?w \<Longrightarrow> latest - t \<le> ?w" if "(t, a) \<in> set S" for t a
    using that S(2) le by (fastforce simp: word_le_nat_alt unat_sub)
  then have f: "filter (\<lambda>(t, _). now - t \<le> ?w) (pm_tx_log pm) = filter (\<lambda>(t, _). now - t \<le> ?w) S"
    unfolding log filter_filter by (intro filter_cong) auto
  have "fst (prune_loop ?w now (pm_tx_log pm) (pm_airtime_in_window pm))
      = filter (\<lambda>(t, _). now - t \<le> ?w) (pm_tx_log pm)"
    using S le unfolding log by (intro prune_loop_filter) (auto simp: sorted_filter)
  moreover have "log_sum (filter (\<lambda>(t, _). now - t \<le> ?w) (pm_tx_log pm)) \<le> log_sum (pm_tx_log pm)"
    by (rule log_sum_filter_le)
  ultimately show ?thesis
    using ok le prune_loop_sum [OF air, of ?w now] f
    by (fastforce simp: tx_ok_def)
qed

lemma log_length_bound: "\<forall>(t, a) \<in> set l. amin \<le> unat a \<Longrightarrow> length l * amin \<le> log_sum l"
  by (induction l) auto

lemma log_sum_bound: "log_sum l \<le> length l * 2 ^ 32"
proof (induction l)
  case (Cons e l)
  moreover have "unat (snd e) < 2 ^ 32" using unsigned_less [of "snd e", where 'a = nat] by simp
  ultimately show ?case by (cases e) simp
qed simp

lemma tx_ok_record:
  assumes ok: "tx_ok amin cfg S now pm" and a: "amin \<le> unat a"
    and amin: "unat (airtime_budget cfg) < 4096 * amin"
    and fits: "pm_airtime_in_window pm + ucast a \<le> airtime_budget cfg"
  shows "tx_ok amin cfg (S @ [(now, a)]) now (PowerManager_record_tx now a pm)"
proof -
  let ?w = "pc_airtime_window_ms cfg"
  have log: "pm_tx_log pm = filter (\<lambda>(t, _). now - t \<le> ?w) S" and S: "\<forall>(t, a) \<in> set S. t \<le> now \<and> amin \<le> unat a"
    and air: "unat (pm_airtime_in_window pm) = log_sum (pm_tx_log pm)"
    and sum: "log_sum (pm_tx_log pm) \<le> unat (airtime_budget cfg)" and cfg: "pm_cfg pm = cfg"
    and srt: "sorted (map fst S)"
    and old: "\<forall>(t, a) \<in> set S. window_sum ?w t S \<le> unat (airtime_budget cfg)"
    using ok unfolding tx_ok_def by blast+
  have "length (pm_tx_log pm) * amin \<le> log_sum (pm_tx_log pm)"
    using S unfolding log by (intro log_length_bound) auto
  then have len: "length (pm_tx_log pm) < 4096"
    using sum amin by (meson le_less_trans mult_less_cancel2)
  have "unat (pm_airtime_in_window pm) + unat (ucast a :: u64) < 2 ^ 64"
    using log_sum_bound [of "pm_tx_log pm"] len air unsigned_less [of a, where 'a = nat] by simp
  then have add: "unat (pm_airtime_in_window pm + ucast a) = log_sum (pm_tx_log pm) + unat a"
    using air by (simp add: unat_word_ariths)
  with fits have new: "log_sum (pm_tx_log pm) + unat a \<le> unat (airtime_budget cfg)"
    by (simp add: word_le_nat_alt)
  have prune: "PowerManager_prune now pm = pm"
    using S by (simp add: PowerManager_prune_def prune_loop_id log cfg sat_sub_def)
  have "filter (\<lambda>(t, _). t \<le> now \<and> now - t \<le> ?w) S = filter (\<lambda>(t, _). now - t \<le> ?w) S"
    using S by (intro filter_cong) auto
  then have at_now: "window_sum ?w now (S @ [(now, a)]) = log_sum (pm_tx_log pm) + unat a"
    by (simp add: window_sum_def log)
  have before: "window_sum ?w t (S @ [(now, a)]) = window_sum ?w t S" if "t < now" for t
    using that by (simp add: window_sum_def not_le [symmetric])
  have "window_sum ?w t (S @ [(now, a)]) \<le> unat (airtime_budget cfg)" if "(t, b) \<in> set (S @ [(now, a)])" for t b
  proof (cases "t = now")
    case True then show ?thesis using at_now new by simp
  next
    case False
    with that S have "t < now" "(t, b) \<in> set S" by auto
    then show ?thesis using old before by auto
  qed
  then show ?thesis
    using S srt a len new add log cfg
    by (auto simp: tx_ok_def PowerManager_record_tx_def prune sorted_append)
qed

lemma tx_ok_stats [simp]: "tx_ok amin cfg S t (pm\<lparr>pm_stats := st\<rparr>) = tx_ok amin cfg S t pm"
  by (simp add: tx_ok_def)

lemma tx_run_ok:
  assumes "tx_ok amin cfg S latest pm" "unat (airtime_budget cfg) < 4096 * amin"
    and "sorted (latest # map fst reqs)" "\<forall>(t, a) \<in> set reqs. amin \<le> unat a"
  shows "\<exists>latest'. tx_ok amin cfg (S @ snd (tx_run reqs pm)) latest' (fst (tx_run reqs pm))"
  using assms
proof (induction reqs pm arbitrary: S latest rule: tx_run.induct)
  case (2 now a reqs pm)
  obtain pm1 b where ct: "PowerManager_can_transmit now a pm = (pm1, b)" by fastforce
  have "tx_ok amin cfg S now (PowerManager_prune now pm)" using tx_ok_prune 2(3,5) by auto
  then have pm1: "tx_ok amin cfg S now pm1"
    using ct by (auto simp: PowerManager_can_transmit_def Let_def split: if_splits)
  show ?case
  proof (cases b)
    case True
    then have "pm_airtime_in_window pm1 + ucast a \<le> airtime_budget cfg"
      using ct pm1 by (auto simp: PowerManager_can_transmit_def Let_def tx_ok_def split: if_splits)
    then have "tx_ok amin cfg (S @ [(now, a)]) now (PowerManager_record_tx now a pm1)"
      using tx_ok_record [OF pm1] 2(4,6) by simp
    then show ?thesis using "2.IH"(1) [OF ct [symmetric] ] 2(4,5,6) True ct
      by (fastforce simp: case_prod_unfold)
  next
    case False
    then show ?thesis using "2.IH"(2) [OF ct [symmetric] ] pm1 2(4,5,6) ct by fastforce
  qed
qed auto

subsection \<open>Properties\<close>

text \<open>C12. Duty cycle: when every frame sent was first admitted by \<open>can_transmit\<close> and then
  recorded, at times that do not go backwards, the airtime sent in the window that ends at any
  transmission is within the regulatory budget, provided every frame takes at least \<open>amin\<close>
  milliseconds and the budget is less than 4096 times \<open>amin\<close>, the airtime of the frames the log can
  hold.\<close>

theorem duty_cycle_respected:
  assumes "sorted (map fst reqs)" "list_all (\<lambda>(t, a). amin \<le> unat a) reqs"
    and "unat (airtime_budget cfg) < 4096 * amin"
  shows "let sent = snd (tx_run reqs (PowerManager_new cfg t0))
    in list_all (\<lambda>(t, a). window_sum (pc_airtime_window_ms cfg) t sent \<le> unat (airtime_budget cfg)) sent"
proof -
  have "tx_ok amin cfg [] 0 (PowerManager_new cfg t0)"
    by (simp add: tx_ok_def PowerManager_new_def)
  from tx_run_ok [OF this assms(3)] show ?thesis
    using assms(1,2) by (auto simp: list_all_iff tx_ok_def Let_def)
qed

text \<open>
  The condition is needed: a full log drops its oldest entry, also one inside the window, so with
  frames of one millisecond and a budget of more than 4096 every frame is admitted, however many.
\<close>

lemma full_log_forgets:
  assumes "pm_tx_log pm = replicate j (0, 1)" "pm_airtime_in_window pm = of_nat j" "j \<le> 4096"
    and "4097 \<le> unat (airtime_budget (pm_cfg pm))"
  shows "snd (tx_run (replicate k (0, 1)) pm) = replicate k (0, 1)"
  using assms
proof (induction k arbitrary: pm j)
  case (Suc k)
  let ?w = "pc_airtime_window_ms (pm_cfg pm)"
  have prune: "prune_loop ?w 0 (replicate j (0, 1)) (of_nat j) = (replicate j (0, 1), of_nat j)"
    by (rule prune_loop_id) (auto simp: sat_sub_def)
  have "unat (of_nat (Suc j) :: u64) = Suc j" unfolding unat_of_nat using Suc.prems(3) by simp
  then have "unat (of_nat j + 1 :: u64) = Suc j" by (simp add: add.commute)
  then have admit: "snd (PowerManager_can_transmit 0 1 pm)" "fst (PowerManager_can_transmit 0 1 pm) = PowerManager_prune 0 pm"
    using Suc.prems by (simp_all add: PowerManager_can_transmit_def prune word_le_nat_alt Let_def)
  define pm' where "pm' = PowerManager_record_tx 0 1 (PowerManager_prune 0 pm)"
  let ?i = "min (Suc j) 4096"
  have "pm_tx_log pm' = replicate ?i (0, 1) \<and> pm_airtime_in_window pm' = of_nat ?i"
    using Suc.prems(1-3) prune
    by (cases "j = 4096") (simp_all add: pm'_def PowerManager_record_tx_def Let_def replicate_append_same)
  moreover have "pm_cfg pm' = pm_cfg pm" by (simp add: pm'_def PowerManager_record_tx_def Let_def)
  ultimately show ?case using Suc.IH [of pm' ?i] Suc.prems(4) admit by (simp add: pm'_def split_beta)
qed simp

lemma default_budget:
  "airtime_budget PowerConfig_default = 36000" "pc_airtime_window_ms PowerConfig_default = 3600000"
  by (simp_all add: airtime_budget_def PowerConfig_default_def)

theorem duty_cycle_respected_witness:
  "let sent = snd (tx_run [(5, 20000), (6, 17000)] (PowerManager_new PowerConfig_default 0))
   in sent = [(5, 20000)] \<and>
      list_all (\<lambda>(t, a). window_sum (pc_airtime_window_ms PowerConfig_default) t sent
        \<le> unat (airtime_budget PowerConfig_default)) sent"
proof -
  have "snd (tx_run [(5, 20000), (6, 17000)] (PowerManager_new PowerConfig_default 0)) = [(5, 20000)]"
    by (simp add: PowerManager_new_def PowerManager_can_transmit_def PowerManager_prune_def
      PowerManager_record_tx_def sat_sub_def default_budget Let_def)
  then show ?thesis
    using duty_cycle_respected [of "[(5, 20000), (6, 17000)]" 9 PowerConfig_default 0]
    by (simp add: Let_def default_budget)
qed

end
