(* ===== verification/Wire.thy ===== *)
theory Wire
  imports Identity
begin

section \<open>Reading fields of a byte slice\<close>

text \<open>
  The message parsers read big-endian fields at fixed offsets of a slice. \<open>rd16\<close>,
  \<open>rd32\<close> and \<open>rd_addr\<close> are these reads; the lemmas relate them to the bytes written by
  \<open>to_be_bytes\<close> and to the part of the slice they cover, so that each codec proof cuts a slice
  into its fields once.
\<close>

definition rd16 :: "bytes \<Rightarrow> nat \<Rightarrow> u16" where
  "rd16 b i = from_be16 (b ! i) (b ! (i + 1))"

definition rd32 :: "bytes \<Rightarrow> nat \<Rightarrow> u32" where
  "rd32 b i = from_be32 (b ! i) (b ! (i + 1)) (b ! (i + 2)) (b ! (i + 3))"

definition rd_addr :: "bytes \<Rightarrow> nat \<Rightarrow> address" where
  "rd_addr b i = addr_of (take 8 (drop i b))"

named_theorems wire \<open>reads of written bytes\<close>

lemma rd_skip [wire]:
  "length xs \<le> i \<Longrightarrow> rd16 (xs @ ys) i = rd16 ys (i - length xs)"
  "length xs \<le> i \<Longrightarrow> rd32 (xs @ ys) i = rd32 ys (i - length xs)"
  "length xs \<le> i \<Longrightarrow> rd_addr (xs @ ys) i = rd_addr ys (i - length xs)"
  by (simp_all add: rd16_def rd32_def rd_addr_def nth_append Suc_diff_le)

lemma rd_Cons [wire]:
  "0 < i \<Longrightarrow> rd16 (x # ys) i = rd16 ys (i - 1)"
  "0 < i \<Longrightarrow> rd32 (x # ys) i = rd32 ys (i - 1)"
  "0 < i \<Longrightarrow> rd_addr (x # ys) i = rd_addr ys (i - 1)"
  using rd_skip [of "[x]" i ys] by simp_all

lemma rd_here [wire]:
  "rd16 (be16 w @ ys) 0 = w" "rd16 (be16 w) 0 = w"
  "rd32 (be32 v @ ys) 0 = v" "rd32 (be32 v) 0 = v"
  "rd_addr (Address_as_bytes a @ ys) 0 = a" "rd_addr (Address_as_bytes a) 0 = a"
  by (simp_all add: rd16_def rd32_def rd_addr_def be16_def be32_def)

lemma take2_drop: "i + 2 \<le> length b \<Longrightarrow> take 2 (drop i b) = [b ! i, b ! (i + 1)]"
  by (rule nth_equalityI) (auto simp: less_Suc_eq numeral_2_eq_2)

lemma take4_drop: "i + 4 \<le> length b \<Longrightarrow> take 4 (drop i b) = [b ! i, b ! (i + 1), b ! (i + 2), b ! (i + 3)]"
  by (rule nth_equalityI) (auto simp: less_Suc_eq numeral_eq_Suc)

lemma take1_drop: "i < length b \<Longrightarrow> take (Suc 0) (drop i b) = [b ! i]"
  by (simp add: take_Suc_conv_app_nth)

lemma be16_rd16 [simp]: "i + 2 \<le> length b \<Longrightarrow> be16 (rd16 b i) = take 2 (drop i b)"
  by (simp add: rd16_def take2_drop)

lemma be32_rd32 [simp]: "i + 4 \<le> length b \<Longrightarrow> be32 (rd32 b i) = take 4 (drop i b)"
  by (simp add: rd32_def take4_drop)

lemma bytes_rd_addr [simp]: "i + 8 \<le> length b \<Longrightarrow> Address_as_bytes (rd_addr b i) = take 8 (drop i b)"
  by (simp add: rd_addr_def as_bytes_addr_of)

lemma take_drop_join: "i + n = j \<Longrightarrow> take n (drop i b) @ drop j b = drop i b"
  by (metis add.commute append_take_drop_id drop_drop)

lemma Cons_drop_join: "i < length b \<Longrightarrow> b ! i # drop (Suc i) b = drop i b"
  by (rule Cons_nth_drop_Suc)

lemma Address_from_bytes_rd:
  "Address_from_bytes (drop i b) = (if length b < i + 8 then Inl Truncated else Inr (rd_addr b i))"
  by (auto simp: Address_from_bytes_def rd_addr_def ADDRESS_LEN_def)

subsection \<open>Flag bytes\<close>

definition flag :: "nat \<Rightarrow> u8" where
  "flag n = push_bit n 1"

lemma bit_flag: "n < 8 \<Longrightarrow> bit (flag n) k \<longleftrightarrow> k = n"
  by (auto simp: flag_def bit_simps)

lemma and_flag: "n < 8 \<Longrightarrow> f AND flag n \<noteq> 0 \<longleftrightarrow> bit f n"
  unfolding flag_def bit_iff_and_push_bit_not_eq_0 ..

lemma set_flag: "n < 8 \<Longrightarrow> h = bit f n \<Longrightarrow> (f AND NOT (flag n)) OR (if h then flag n else 0) = f"
  by (rule bit_word_eqI) (auto simp: bit_simps bit_flag)

lemma set_flags2:
  "n < 8 \<Longrightarrow> m < 8 \<Longrightarrow> h = bit f n \<Longrightarrow> k = bit f m \<Longrightarrow>
   ((f AND NOT (flag n OR flag m)) OR (if h then flag n else 0)) OR (if k then flag m else 0) = f"
  by (rule bit_word_eqI) (auto simp: bit_simps bit_flag)

subsection \<open>Lists of addresses\<close>

definition addr_valid :: "address \<Rightarrow> bool" where
  "addr_valid a \<longleftrightarrow> \<not> Address_is_null a \<and> \<not> Address_is_broadcast a"

text \<open>The loops that read \<open>n\<close> addresses and refuse a null or broadcast one.\<close>

fun read_addrs :: "nat \<Rightarrow> bytes \<Rightarrow> (address list \<times> bytes) result" where
  "read_addrs 0 r = Inr ([], r)"
| "read_addrs (Suc n) r =
     res_bind (Address_from_bytes (take 8 r)) (\<lambda>a.
       if Address_is_null a \<or> Address_is_broadcast a then Inl BadField
       else res_bind (read_addrs n (drop 8 r)) (\<lambda>(as, r'). Inr (a # as, r')))"

definition write_addrs :: "address list \<Rightarrow> bytes" where
  "write_addrs as = concat (map Address_as_bytes as)"

lemma write_addrs_simps [simp]:
  "write_addrs [] = []" "write_addrs (a # as) = Address_as_bytes a @ write_addrs as"
  by (simp_all add: write_addrs_def)

lemma length_write_addrs [simp]: "length (write_addrs as) = 8 * length as"
  by (induction as) simp_all

lemma Address_from_bytes_take: "8 \<le> length r \<Longrightarrow> Address_from_bytes (take 8 r) = Inr (rd_addr r 0)"
  by (simp add: Address_from_bytes_def rd_addr_def ADDRESS_LEN_def)

lemma Address_from_bytes_exact [simp]: "Address_from_bytes (Address_as_bytes a) = Inr a"
  using Address_from_bytes_as_bytes [of a "[]"] by simp

lemma take_drop_addr [simp]:
  "take 8 (Address_as_bytes a @ r) = Address_as_bytes a" "drop 8 (Address_as_bytes a @ r) = r"
  by simp_all

lemma read_write_addrs:
  "\<forall>a \<in> set as. addr_valid a \<Longrightarrow> read_addrs (length as) (write_addrs as @ r) = Inr (as, r)"
  by (induction as) (auto simp: Address_from_bytes_take wire addr_valid_def)

lemma read_addrs_Inr:
  assumes "read_addrs n r = Inr (as, r')" "8 * n \<le> length r"
  shows "length as = n" "\<forall>a \<in> set as. addr_valid a" "r = write_addrs as @ r'"
proof -
  have "length as = n \<and> (\<forall>a \<in> set as. addr_valid a) \<and> r = write_addrs as @ r'"
    using assms
  proof (induction n arbitrary: r as)
    case (Suc n)
    then have a: "Address_from_bytes (take 8 r) = Inr (rd_addr r 0)" by (simp add: Address_from_bytes_take)
    obtain as' where as': "as = rd_addr r 0 # as'" "addr_valid (rd_addr r 0)" "read_addrs n (drop 8 r) = Inr (as', r')"
      using Suc.prems(1) by (auto simp: a addr_valid_def res_bind_Inr_iff split: if_split_asm)
    have "8 * n \<le> length (drop 8 r)" "0 + 8 \<le> length r" using Suc.prems(2) by auto
    then show ?case
      using Suc.IH [OF as'(3)] as'(1,2) bytes_rd_addr [of 0 r] append_take_drop_id [of 8 r] by auto
  qed simp
  then show "length as = n" "\<forall>a \<in> set as. addr_valid a" "r = write_addrs as @ r'" by blast+
qed

end
