(* ===== verification/Mailbox.thy ===== *)
theory Mailbox
  imports Noise Wire
begin

section \<open>Store and forward (\<open>store_forward/mod.rs\<close>)\<close>

text \<open>
  The bounded mailbox an anchor keeps for nodes that are not reachable, and the wire formats of
  its requests. The counters \<open>bytes\<close> and lengths are natural numbers; the invariant shows that no
  subtraction of the source goes below zero.
\<close>

record store_request =
  sr_dst :: address
  sr_envelope_id :: u32
  sr_ttl_s :: u32
  sr_envelope :: bytes

definition StoreRequest_HEADER_LEN :: nat where
  "StoreRequest_HEADER_LEN = 16"

definition StoreRequest_encode :: "store_request \<Rightarrow> bytes" where
  "StoreRequest_encode r =
     Address_as_bytes (sr_dst r) @ be32 (sr_envelope_id r) @ be32 (sr_ttl_s r) @ sr_envelope r"

definition StoreRequest_decode :: "bytes \<Rightarrow> store_request result" where
  "StoreRequest_decode b =
     (if length b < StoreRequest_HEADER_LEN + ENVELOPE_OVERHEAD then Inl Truncated
      else res_bind (Address_from_bytes (take 8 b)) (\<lambda>dst.
        if Address_is_null dst \<or> Address_is_broadcast dst then Inl BadField
        else let envelope_id = rd32 b 8; ttl_s = rd32 b 12
             in if ttl_s = 0 then Inl BadField
                else Inr \<lparr>sr_dst = dst, sr_envelope_id = envelope_id, sr_ttl_s = ttl_s,
                         sr_envelope = drop 16 b\<rparr>))"

definition frame_envelope :: "u32 \<Rightarrow> bytes \<Rightarrow> bytes" where
  "frame_envelope envelope_id envelope = be32 envelope_id @ envelope"

definition parse_envelope_frame :: "bytes \<Rightarrow> (u32 \<times> bytes) result" where
  "parse_envelope_frame b =
     (if length b < 4 + ENVELOPE_OVERHEAD then Inl Truncated else Inr (rd32 b 0, drop 4 b))"

record stored_envelope =
  me_dst :: address
  me_envelope_id :: u32
  me_depositor :: address
  me_stored_at :: time
  me_expires_at :: time
  me_delivery_attempts :: u8
  me_last_attempt :: time
  me_envelope :: bytes

record mailbox_config =
  mc_max_entries :: nat
  mc_max_bytes :: nat
  mc_max_per_destination :: nat
  mc_max_ttl_ms :: time
  mc_max_delivery_attempts :: u8
  mc_retry_interval_ms :: time

definition MailboxConfig_default :: mailbox_config where
  "MailboxConfig_default =
     \<lparr>mc_max_entries = 64, mc_max_bytes = 16 * 1024, mc_max_per_destination = 8,
      mc_max_ttl_ms = 7 * 24 * 3600 * 1000, mc_max_delivery_attempts = 6, mc_retry_interval_ms = 30000\<rparr>"

definition reject_FULL :: u8 where "reject_FULL = 1"
definition reject_PER_DESTINATION_LIMIT :: u8 where "reject_PER_DESTINATION_LIMIT = 2"
definition reject_DUPLICATE :: u8 where "reject_DUPLICATE = 3"
definition reject_NOT_ANCHOR :: u8 where "reject_NOT_ANCHOR = 4"

record mailbox_stats =
  ms_stored :: u32
  ms_delivered :: u32
  ms_expired :: u32
  ms_rejected :: u32

record mailbox =
  mb_cfg :: mailbox_config
  mb_entries :: "stored_envelope list"
  mb_bytes :: nat
  mb_stats :: mailbox_stats

definition Mailbox_new :: "mailbox_config \<Rightarrow> mailbox" where
  "Mailbox_new cfg =
     \<lparr>mb_cfg = cfg, mb_entries = [], mb_bytes = 0,
      mb_stats = \<lparr>ms_stored = 0, ms_delivered = 0, ms_expired = 0, ms_rejected = 0\<rparr>\<rparr>"

definition Mailbox_has_space :: "mailbox \<Rightarrow> bool" where
  "Mailbox_has_space m \<longleftrightarrow>
     length (mb_entries m) < mc_max_entries (mb_cfg m) \<and> mb_bytes m < mc_max_bytes (mb_cfg m)"

definition Mailbox_reject :: "u8 \<Rightarrow> mailbox \<Rightarrow> mailbox \<times> (u8 + unit)" where
  "Mailbox_reject reason m =
     (m\<lparr>mb_stats := (mb_stats m)\<lparr>ms_rejected := ms_rejected (mb_stats m) + 1\<rparr>\<rparr>, Inl reason)"

definition Mailbox_store :: "time \<Rightarrow> address \<Rightarrow> store_request \<Rightarrow> mailbox \<Rightarrow> mailbox \<times> (u8 + unit)" where
  "Mailbox_store now depositor req m =
     (if list_ex (\<lambda>e. me_dst e = sr_dst req \<and> me_envelope_id e = sr_envelope_id req) (mb_entries m)
      then Mailbox_reject reject_DUPLICATE m
      else if length (filter (\<lambda>e. me_dst e = sr_dst req) (mb_entries m)) \<ge> mc_max_per_destination (mb_cfg m)
      then Mailbox_reject reject_PER_DESTINATION_LIMIT m
      else if length (mb_entries m) \<ge> mc_max_entries (mb_cfg m)
              \<or> mb_bytes m + length (sr_envelope req) > mc_max_bytes (mb_cfg m)
      then Mailbox_reject reject_FULL m
      else let ttl = min (ucast (sr_ttl_s req) * 1000) (mc_max_ttl_ms (mb_cfg m))
           in (m\<lparr>mb_bytes := mb_bytes m + length (sr_envelope req),
                 mb_entries := mb_entries m @
                   [\<lparr>me_dst = sr_dst req, me_envelope_id = sr_envelope_id req, me_depositor = depositor,
                     me_stored_at = now, me_expires_at = now + ttl, me_delivery_attempts = 0,
                     me_last_attempt = 0, me_envelope = sr_envelope req\<rparr>],
                 mb_stats := (mb_stats m)\<lparr>ms_stored := ms_stored (mb_stats m) + 1\<rparr>\<rparr>, Inr ()))"

text \<open>The loop of \<open>take_deliverable\<close>; \<open>n\<close> is the number of envelopes still to be taken.\<close>

fun take_loop :: "mailbox_config \<Rightarrow> address \<Rightarrow> time \<Rightarrow> nat \<Rightarrow> stored_envelope list
    \<Rightarrow> stored_envelope list \<times> (u32 \<times> bytes) list" where
  "take_loop cfg dst now n [] = ([], [])"
| "take_loop cfg dst now n (e # es) =
     (if me_dst e \<noteq> dst then (case take_loop cfg dst now n es of (es', out) \<Rightarrow> (e # es', out))
      else if n = 0 then (e # es, [])
      else if me_delivery_attempts e > 0
              \<and> sat_sub now (me_last_attempt e) < mc_retry_interval_ms cfg
      then (case take_loop cfg dst now n es of (es', out) \<Rightarrow> (e # es', out))
      else if me_delivery_attempts e \<ge> mc_max_delivery_attempts cfg
      then (case take_loop cfg dst now n es of (es', out) \<Rightarrow> (e # es', out))
      else (case take_loop cfg dst now (n - 1) es of (es', out) \<Rightarrow>
             (e\<lparr>me_delivery_attempts := me_delivery_attempts e + 1, me_last_attempt := now\<rparr> # es',
              (me_envelope_id e, me_envelope e) # out)))"

definition Mailbox_take_deliverable ::
  "address \<Rightarrow> time \<Rightarrow> nat \<Rightarrow> mailbox \<Rightarrow> mailbox \<times> (u32 \<times> bytes) list" where
  "Mailbox_take_deliverable dst now n m =
     (case take_loop (mb_cfg m) dst now n (mb_entries m) of (es, out) \<Rightarrow> (m\<lparr>mb_entries := es\<rparr>, out))"

definition Mailbox_pending_for :: "address \<Rightarrow> mailbox \<Rightarrow> nat" where
  "Mailbox_pending_for dst m = length (filter (\<lambda>e. me_dst e = dst) (mb_entries m))"

definition Mailbox_destinations :: "mailbox \<Rightarrow> address list" where
  "Mailbox_destinations m = remdups_adj (sort (map me_dst (mb_entries m)))"

definition Mailbox_delivered :: "address \<Rightarrow> u32 \<Rightarrow> mailbox \<Rightarrow> mailbox \<times> bool" where
  "Mailbox_delivered dst envelope_id m =
     (case position (\<lambda>e. me_dst e = dst \<and> me_envelope_id e = envelope_id) (mb_entries m) of
        Some i \<Rightarrow>
          (m\<lparr>mb_entries := remove_at i (mb_entries m),
             mb_bytes := mb_bytes m - length (me_envelope (mb_entries m ! i)),
             mb_stats := (mb_stats m)\<lparr>ms_delivered := ms_delivered (mb_stats m) + 1\<rparr>\<rparr>, True)
      | None \<Rightarrow> (m, False))"

definition Mailbox_gc :: "time \<Rightarrow> mailbox \<Rightarrow> mailbox \<times> nat" where
  "Mailbox_gc now m =
     (let keep = (\<lambda>e. me_expires_at e > now
                      \<and> me_delivery_attempts e < mc_max_delivery_attempts (mb_cfg m));
          entries = filter keep (mb_entries m);
          freed = sum_list (map (\<lambda>e. length (me_envelope e)) (filter (\<lambda>e. \<not> keep e) (mb_entries m)));
          n = length (mb_entries m) - length entries
      in (m\<lparr>mb_entries := entries, mb_bytes := mb_bytes m - freed,
            mb_stats := (mb_stats m)\<lparr>ms_expired := ms_expired (mb_stats m) + of_nat n\<rparr>\<rparr>, n))"

definition encode_store_result :: "u32 \<Rightarrow> u8 option \<Rightarrow> bytes" where
  "encode_store_result envelope_id reason =
     be32 envelope_id @ (case reason of Some r \<Rightarrow> [r] | None \<Rightarrow> [])"

definition decode_store_result :: "bytes \<Rightarrow> (u32 \<times> u8 option) result" where
  "decode_store_result b =
     (if length b < 4 then Inl Truncated
      else let id = rd32 b 0
           in if length b = 4 then Inr (id, None)
              else if length b = 5 then Inr (id, Some (b ! 4))
              else Inl BadField)"

subsection \<open>Codecs\<close>

definition StoreRequest_ok :: "store_request \<Rightarrow> bool" where
  "StoreRequest_ok r \<longleftrightarrow>
     \<not> Address_is_null (sr_dst r) \<and> \<not> Address_is_broadcast (sr_dst r) \<and> sr_ttl_s r \<noteq> 0 \<and>
     length (sr_envelope r) \<ge> ENVELOPE_OVERHEAD"

interpretation sr: canonical_codec StoreRequest_encode StoreRequest_decode StoreRequest_ok
proof unfold_locales
  fix r b
  show "StoreRequest_ok r \<Longrightarrow> StoreRequest_decode (StoreRequest_encode r) = Inr r"
    by (simp add: StoreRequest_ok_def StoreRequest_decode_def StoreRequest_encode_def
        StoreRequest_HEADER_LEN_def wire Address_from_bytes_as_bytes [where rest = "[]", simplified] Let_def)
  assume dec: "StoreRequest_decode b = Inr r"
  then have len: "16 + ENVELOPE_OVERHEAD \<le> length b"
    by (simp add: StoreRequest_decode_def StoreRequest_HEADER_LEN_def split: if_split_asm)
  then have addr: "Address_from_bytes (take 8 b) = Inr (rd_addr b 0)"
    using Address_from_bytes_rd [of 0 "take 8 b"] by (simp add: rd_addr_def)
  show "StoreRequest_ok r"
    using dec len by (auto simp: StoreRequest_decode_def addr StoreRequest_ok_def Let_def
        StoreRequest_HEADER_LEN_def split: if_split_asm)
  show "StoreRequest_encode r = b"
    using dec len take_drop_join [of 0 8 8 b] take_drop_join [of 8 4 12 b] take_drop_join [of 12 4 16 b]
    by (auto simp: StoreRequest_decode_def addr StoreRequest_encode_def Let_def
        StoreRequest_HEADER_LEN_def split: if_split_asm)
qed

interpretation sres: canonical_codec "\<lambda>(i, r). encode_store_result i r" decode_store_result "\<lambda>_. True"
proof unfold_locales
  fix x b
  show "decode_store_result (case x of (i, r) \<Rightarrow> encode_store_result i r) = Inr x"
    by (cases x) (auto simp: decode_store_result_def encode_store_result_def wire nth_append Let_def
        split: option.split)
  assume dec: "decode_store_result b = Inr x"
  then have len: "4 \<le> length b" by (simp add: decode_store_result_def split: if_split_asm)
  show "(case x of (i, r) \<Rightarrow> encode_store_result i r) = b"
    using dec len take_drop_join [of 0 4 4 b] Cons_drop_join [of 4 b]
    by (auto simp: decode_store_result_def encode_store_result_def Let_def split: if_split_asm)
qed simp

interpretation envf: canonical_codec "\<lambda>(i, e). frame_envelope i e" parse_envelope_frame
  "\<lambda>(i, e). length e \<ge> ENVELOPE_OVERHEAD"
proof unfold_locales
  fix x b
  show "(case x of (i, e) \<Rightarrow> length e \<ge> ENVELOPE_OVERHEAD) \<Longrightarrow>
      parse_envelope_frame (case x of (i, e) \<Rightarrow> frame_envelope i e) = Inr x"
    by (cases x) (auto simp: parse_envelope_frame_def frame_envelope_def wire)
  assume dec: "parse_envelope_frame b = Inr x"
  show "case x of (i, e) \<Rightarrow> length e \<ge> ENVELOPE_OVERHEAD"
    using dec by (auto simp: parse_envelope_frame_def split: if_split_asm)
  show "(case x of (i, e) \<Rightarrow> frame_envelope i e) = b"
    using dec take_drop_join [of 0 4 4 b]
    by (auto simp: parse_envelope_frame_def frame_envelope_def split: if_split_asm)
qed

subsection \<open>Invariant\<close>

definition env_bytes :: "stored_envelope list \<Rightarrow> nat" where
  "env_bytes es = sum_list (map (\<lambda>e. length (me_envelope e)) es)"

definition mb_key :: "stored_envelope \<Rightarrow> address \<times> u32" where
  "mb_key e = (me_dst e, me_envelope_id e)"

definition mb_inv :: "mailbox \<Rightarrow> bool" where
  "mb_inv m \<longleftrightarrow>
     mb_bytes m = env_bytes (mb_entries m) \<and> mb_bytes m \<le> mc_max_bytes (mb_cfg m) \<and>
     length (mb_entries m) \<le> mc_max_entries (mb_cfg m) \<and> distinct (map mb_key (mb_entries m)) \<and>
     (\<forall>d. Mailbox_pending_for d m \<le> mc_max_per_destination (mb_cfg m)) \<and>
     (\<forall>e \<in> set (mb_entries m). me_delivery_attempts e \<le> mc_max_delivery_attempts (mb_cfg m))"

lemma env_bytes_simps [simp]:
  "env_bytes [] = 0" "env_bytes (e # es) = length (me_envelope e) + env_bytes es"
  "env_bytes (es @ es') = env_bytes es + env_bytes es'"
  by (simp_all add: env_bytes_def)

lemma env_bytes_filter: "env_bytes (filter p es) + env_bytes (filter (\<lambda>e. \<not> p e) es) = env_bytes es"
  by (induction es) auto

lemma env_bytes_remove_at:
  "i < length es \<Longrightarrow> env_bytes (remove_at i es) = env_bytes es - length (me_envelope (es ! i))"
  using sum_list_remove_at [of i es "\<lambda>e. length (me_envelope e)"] by (simp add: env_bytes_def)

definition mb_static :: "stored_envelope \<Rightarrow> (address \<times> u32) \<times> bytes \<times> time" where
  "mb_static e = (mb_key e, me_envelope e, me_expires_at e)"

lemma take_loop_frame: "map mb_static (fst (take_loop cfg dst now n es)) = map mb_static es"
  by (induction cfg dst now n es rule: take_loop.induct)
    (auto simp: case_prod_unfold mb_static_def mb_key_def)

lemma static_sel:
  assumes "map mb_static es' = map mb_static es"
  shows "map mb_key es' = map mb_key es" "env_bytes es' = env_bytes es" "length es' = length es"
proof -
  show "map mb_key es' = map mb_key es"
    using arg_cong [OF assms, of "map fst"] by (simp add: mb_static_def comp_def)
  show "env_bytes es' = env_bytes es"
    using arg_cong [OF assms, of "\<lambda>l. sum_list (map (\<lambda>x. length (fst (snd x))) l)"]
    by (simp add: mb_static_def comp_def env_bytes_def)
  show "length es' = length es" using assms by (rule map_eq_imp_length_eq)
qed

lemma take_loop_attempts:
  assumes "\<forall>e \<in> set es. me_delivery_attempts e \<le> mc_max_delivery_attempts cfg"
    "e \<in> set (fst (take_loop cfg dst now n es))"
  shows "me_delivery_attempts e \<le> mc_max_delivery_attempts cfg"
  using assms
  by (induction cfg dst now n es rule: take_loop.induct)
    (auto simp: case_prod_unfold inc_le split: if_splits)

lemma pending_for_keys: "length (filter (\<lambda>e. me_dst e = d) es) = length (filter (\<lambda>k. fst k = d) (map mb_key es))"
  by (induction es) (simp_all add: mb_key_def)

lemma mb_inv_store: "mb_inv m \<Longrightarrow> mb_inv (fst (Mailbox_store now dep req m))"
  by (auto simp: mb_inv_def Mailbox_store_def Mailbox_reject_def Let_def Mailbox_pending_for_def
      mb_key_def list_ex_iff Suc_le_eq)

lemma mb_inv_take:
  assumes "mb_inv m" shows "mb_inv (fst (Mailbox_take_deliverable dst now n m))"
  using assms static_sel [OF take_loop_frame [of "mb_cfg m" dst now n "mb_entries m"]] take_loop_attempts
  by (fastforce simp: mb_inv_def Mailbox_take_deliverable_def case_prod_unfold Mailbox_pending_for_def
      pending_for_keys)

lemma length_filter_remove_at:
  assumes "i < length xs" "length (filter p xs) \<le> n"
  shows "length (filter p (remove_at i xs)) \<le> n"
proof -
  have "filter p xs = filter p (take i xs) @ filter p (xs ! i # drop (Suc i) xs)"
    using id_take_nth_drop [OF assms(1)] filter_append by metis
  then have "length (filter p (remove_at i xs)) \<le> length (filter p xs)"
    by (simp add: remove_at_def)
  with assms(2) show ?thesis by simp
qed

lemma mb_inv_delivered:
  assumes "mb_inv m" shows "mb_inv (fst (Mailbox_delivered dst i m))"
proof (cases "position (\<lambda>e. me_dst e = dst \<and> me_envelope_id e = i) (mb_entries m)")
  case None
  then show ?thesis using assms by (simp add: Mailbox_delivered_def)
next
  case (Some j)
  then have "j < length (mb_entries m)" by (rule position_Some_lt)
  then show ?thesis
    using assms Some set_remove_at [of j "mb_entries m"]
    by (auto simp: mb_inv_def Mailbox_delivered_def env_bytes_remove_at Mailbox_pending_for_def
        map_remove_at distinct_remove_at length_filter_remove_at)
qed

lemma mb_inv_gc:
  assumes "mb_inv m" shows "mb_inv (fst (Mailbox_gc now m))"
proof -
  let ?p = "\<lambda>e. me_expires_at e > now \<and> me_delivery_attempts e < mc_max_delivery_attempts (mb_cfg m)"
  have "length (filter q (filter ?p (mb_entries m))) \<le> length (filter q (mb_entries m))" for q
    by (metis (no_types, lifting) filter_filter conj_commute filter_cong length_filter_le)
  then show ?thesis
    using assms env_bytes_filter [of ?p "mb_entries m"] order_trans [OF length_filter_le [of ?p "mb_entries m"]]
    by (fastforce simp: mb_inv_def Mailbox_gc_def Let_def env_bytes_def [symmetric] Mailbox_pending_for_def
        distinct_map_filter intro: order_trans)
qed

datatype mb_op =
    MbStore time address store_request
  | MbTake address time nat
  | MbDelivered address u32
  | MbGc time

fun mb_step :: "mb_op \<Rightarrow> mailbox \<Rightarrow> mailbox" where
  "mb_step (MbStore now dep req) m = fst (Mailbox_store now dep req m)"
| "mb_step (MbTake dst now n) m = fst (Mailbox_take_deliverable dst now n m)"
| "mb_step (MbDelivered dst i) m = fst (Mailbox_delivered dst i m)"
| "mb_step (MbGc now) m = fst (Mailbox_gc now m)"

interpretation mb: invariant_machine mb_step mb_inv
proof
  fix s a
  assume "mb_inv s"
  then show "mb_inv (mb_step a s)"
    by (cases a) (simp_all add: mb_inv_store mb_inv_take mb_inv_delivered mb_inv_gc)
qed

lemma mb_inv_new: "mb_inv (Mailbox_new cfg)"
  by (simp add: mb_inv_def Mailbox_new_def Mailbox_pending_for_def)

text \<open>An envelope is held when an entry has its key, its bytes and its expiry.\<close>

definition mb_holds :: "mailbox \<Rightarrow> stored_envelope \<Rightarrow> bool" where
  "mb_holds m e \<longleftrightarrow> list_ex (\<lambda>x. mb_key x = mb_key e \<and> me_envelope x = me_envelope e
     \<and> me_expires_at x = me_expires_at e) (mb_entries m)"

text \<open>The ways an envelope may leave: acknowledged, expired, or tried as often as configured.\<close>

fun mb_discards :: "mb_op \<Rightarrow> mailbox \<Rightarrow> stored_envelope \<Rightarrow> bool" where
  "mb_discards (MbDelivered dst i) m e \<longleftrightarrow> mb_key e = (dst, i)"
| "mb_discards (MbGc now) m e \<longleftrightarrow> me_expires_at e \<le> now \<or>
     list_ex (\<lambda>x. mb_key x = mb_key e \<and> mc_max_delivery_attempts (mb_cfg m) \<le> me_delivery_attempts x)
       (mb_entries m)"
| "mb_discards _ m e \<longleftrightarrow> False"

lemma mb_holds_iff:
  "mb_holds m e \<longleftrightarrow> mb_static e \<in> set (map mb_static (mb_entries m))"
  unfolding mb_holds_def list_ex_iff set_map image_iff mb_static_def prod.inject by metis

lemma mb_holds_step:
  assumes "mb_holds m e" "\<not> mb_discards op m e"
  shows "mb_holds (mb_step op m) e"
proof (cases op)
  case (MbStore now dep req)
  then show ?thesis using assms
    by (auto simp: mb_holds_def Mailbox_store_def Mailbox_reject_def Let_def)
next
  case (MbTake dst now n)
  then show ?thesis using assms(1) take_loop_frame [of "mb_cfg m" dst now n "mb_entries m"]
    by (simp add: mb_holds_iff Mailbox_take_deliverable_def case_prod_unfold)
next
  case (MbDelivered dst i)
  obtain x where x: "x \<in> set (mb_entries m)" "mb_key x = mb_key e" "me_envelope x = me_envelope e"
      "me_expires_at x = me_expires_at e"
    using assms(1) by (auto simp: mb_holds_def list_ex_iff)
  have "x \<in> set (remove_at j (mb_entries m))"
    if "position (\<lambda>e. me_dst e = dst \<and> me_envelope_id e = i) (mb_entries m) = Some j" for j
  proof -
    have j: "j < length (mb_entries m)" "mb_key (mb_entries m ! j) = (dst, i)"
      using that by (auto simp: position_Some mb_key_def)
    then have "x \<noteq> mb_entries m ! j" using assms(2) x(2) MbDelivered by auto
    then show ?thesis using x(1) id_take_nth_drop [OF j(1)] unfolding remove_at_def
      by (metis Un_iff set_ConsD set_append)
  qed
  then show ?thesis using x MbDelivered
    by (auto simp: mb_holds_def list_ex_iff Mailbox_delivered_def split: option.split)
next
  case (MbGc now)
  then show ?thesis using assms
    by (fastforce simp: mb_holds_def list_ex_iff Mailbox_gc_def Let_def not_le)
qed

fun mb_kept :: "mb_op list \<Rightarrow> mailbox \<Rightarrow> stored_envelope \<Rightarrow> bool" where
  "mb_kept [] m e \<longleftrightarrow> True"
| "mb_kept (op # ops) m e \<longleftrightarrow> \<not> mb_discards op m e \<and> mb_kept ops (mb_step op m) e"

lemma mb_kept_holds: "mb_holds m e \<Longrightarrow> mb_kept ops m e \<Longrightarrow> mb_holds (fold mb_step ops m) e"
  by (induction ops arbitrary: m) (auto intro: mb_holds_step)

text \<open>The envelope an accepted request asks to be kept.\<close>

definition envelope_of :: "time \<Rightarrow> address \<Rightarrow> store_request \<Rightarrow> mailbox_config \<Rightarrow> stored_envelope" where
  "envelope_of now dep req cfg =
     \<lparr>me_dst = sr_dst req, me_envelope_id = sr_envelope_id req, me_depositor = dep, me_stored_at = now,
      me_expires_at = now + min (ucast (sr_ttl_s req) * 1000) (mc_max_ttl_ms cfg),
      me_delivery_attempts = 0, me_last_attempt = 0, me_envelope = sr_envelope req\<rparr>"

subsection \<open>Properties\<close>

text \<open>C30. Mailbox bounds: after any sequence of operations the mailbox holds at most the configured
  number of envelopes, in total and for each destination, and at most the configured number of
  bytes, counts those bytes exactly, holds no envelope twice and tries none too often.\<close>

theorem mailbox_bounded: "mb_inv (fold mb_step ops (Mailbox_new cfg))"
  by (rule mb.run_inv) (rule mb_inv_new)

text \<open>C13. No lost mail: an accepted request becomes one new envelope, for its destination, with its
  identifier, its bytes and an expiry that is the time it asks for, at most the configured one, from
  now. The envelope stays held with its bytes and expiry unchanged through any sequence of
  operations, none of which discards it, where only an acknowledgement, its expiry or the limit of
  delivery attempts discards an envelope.\<close>

theorem mailbox_keeps_mail:
  assumes "Mailbox_store now dep req m = (m', Inr ())"
  shows "mb_entries m' = mb_entries m @ [envelope_of now dep req (mb_cfg m)] \<and>
    (mb_kept ops m' (envelope_of now dep req (mb_cfg m)) \<longrightarrow>
       mb_holds (fold mb_step ops m') (envelope_of now dep req (mb_cfg m)))"
proof -
  let ?e = "envelope_of now dep req (mb_cfg m)"
  have "mb_entries m' = mb_entries m @ [?e]"
    using assms by (auto simp: Mailbox_store_def Mailbox_reject_def Let_def envelope_of_def split: if_split_asm)
  moreover from this have "mb_holds m' ?e" by (simp add: mb_holds_def)
  ultimately show ?thesis using mb_kept_holds by blast
qed

definition demo_request :: store_request where
  "demo_request = \<lparr>sr_dst = Address 1 2 3 4 5 6 7 8, sr_envelope_id = 9, sr_ttl_s = 60, sr_envelope = [1, 2, 3]\<rparr>"

text \<open>The envelope is held through an attempt to deliver it and collections before its expiry.\<close>

theorem mailbox_keeps_mail_witness:
  "\<exists>m' e. Mailbox_store 5 NULL demo_request (Mailbox_new MailboxConfig_default) = (m', Inr ()) \<and>
     mb_key e = (Address 1 2 3 4 5 6 7 8, 9) \<and> me_envelope e = [1, 2, 3] \<and> me_expires_at e = 60005 \<and>
     mb_holds (fold mb_step [MbStore 6 NULL demo_request, MbGc 7, MbTake (Address 1 2 3 4 5 6 7 8) 8 4, MbGc 60004] m') e"
proof -
  let ?s = "Mailbox_store 5 NULL demo_request (Mailbox_new MailboxConfig_default)"
  let ?e = "envelope_of 5 NULL demo_request MailboxConfig_default"
  let ?ops = "[MbStore 6 NULL demo_request, MbGc 7, MbTake (Address 1 2 3 4 5 6 7 8) 8 4, MbGc 60004]"
  have s: "?s = (fst ?s, Inr ())"
    by (simp add: Mailbox_store_def Mailbox_new_def MailboxConfig_default_def demo_request_def Let_def)
  have "mb_kept ?ops (fst ?s) ?e"
    by (simp add: Mailbox_store_def Mailbox_reject_def Mailbox_new_def MailboxConfig_default_def demo_request_def
        envelope_of_def Mailbox_gc_def Mailbox_take_deliverable_def mb_key_def sat_sub_def Let_def word_le_nat_alt)
  then have "mb_holds (fold mb_step ?ops (fst ?s)) ?e"
    using mailbox_keeps_mail [OF s, of ?ops] by (simp add: Mailbox_new_def)
  moreover have "mb_key ?e = (Address 1 2 3 4 5 6 7 8, 9) \<and> me_envelope ?e = [1, 2, 3] \<and> me_expires_at ?e = 60005"
    by (simp add: envelope_of_def mb_key_def demo_request_def MailboxConfig_default_def)
  ultimately show ?thesis using s by metis
qed

end
