(* ===== verification/Transport.thy ===== *)
theory Transport
  imports Packet SmallMap Wire "HOL-Library.Stream"
begin

section \<open>Reliable delivery (\<open>transport/mod.rs\<close>)\<close>

text \<open>
  Tracking of messages that wait for an acknowledgement, with retries and exponential backoff,
  and the per-peer window that recognises a repeated sequence number. \<open>BTreeMap\<close> is an ordered
  map like \<open>SmallMap\<close> and uses its operations. The generator of random numbers is the stream
  of the numbers it will return.
\<close>

type_synonym rng = "u64 stream"

definition ack_DELIVERED :: u8 where "ack_DELIVERED = 0"
definition ack_STORED :: u8 where "ack_STORED = 1"
definition ack_REJECTED :: u8 where "ack_REJECTED = 2"

lemmas ack_defs = ack_DELIVERED_def ack_STORED_def ack_REJECTED_def

record ack =
  ack_seq :: u16
  ack_status :: u8

definition Ack_encode :: "ack \<Rightarrow> bytes" where
  "Ack_encode a = be16 (ack_seq a) @ [ack_status a]"

definition Ack_decode :: "bytes \<Rightarrow> ack result" where
  "Ack_decode b =
     (if length b \<noteq> 3 then Inl Truncated
      else if b ! 2 > ack_REJECTED then Inl BadField
      else Inr \<lparr>ack_seq = rd16 b 0, ack_status = b ! 2\<rparr>)"

record transport_config =
  tc_max_attempts :: u8
  tc_initial_rto_ms :: time
  tc_max_rto_ms :: time
  tc_max_in_flight :: nat
  tc_max_peers :: nat

definition TransportConfig_default :: transport_config where
  "TransportConfig_default =
     \<lparr>tc_max_attempts = 4, tc_initial_rto_ms = 4000, tc_max_rto_ms = 60000, tc_max_in_flight = 16,
      tc_max_peers = 64\<rparr>"

record outstanding =
  o_dst :: address
  o_seq :: u16
  o_handle :: u32
  o_reliability :: reliability
  o_body :: bytes
  o_attempts :: u8
  o_next_retry :: time
  o_started_at :: time
  o_envelope_id :: "u32 option"
  o_stored :: bool
  o_last_packet :: "packet option"

record seq_window =
  sw_top :: u16
  sw_bitmap :: u64
  sw_any :: bool

definition SeqWindow_default :: seq_window where
  "SeqWindow_default = \<lparr>sw_top = 0, sw_bitmap = 0, sw_any = False\<rparr>"

definition SeqWindow_accept :: "u16 \<Rightarrow> seq_window \<Rightarrow> seq_window \<times> bool" where
  "SeqWindow_accept seq w =
     (if \<not> sw_any w then (w\<lparr>sw_any := True, sw_top := seq, sw_bitmap := 1\<rparr>, True)
      else let ahead = seq - sw_top w in
        if ahead \<noteq> 0 \<and> ahead < 0x8000
        then let shift = unat ahead;
                 bm = (if shift \<ge> 64 then 0 else push_bit shift (sw_bitmap w))
             in (w\<lparr>sw_bitmap := bm OR 1, sw_top := seq\<rparr>, True)
        else let behind = unat (sw_top w - seq) in
          if behind \<ge> 64 then (w, True)
          else if sw_bitmap w AND push_bit behind 1 \<noteq> 0 then (w, False)
          else (w\<lparr>sw_bitmap := sw_bitmap w OR push_bit behind 1\<rparr>, True))"

record transport_stats =
  ts_sent :: u32
  ts_retries :: u32
  ts_acked :: u32
  ts_failed :: u32
  ts_duplicates_dropped :: u32
  ts_acks_sent :: u32
  ts_stored_at_anchor :: u32

record transport =
  t_cfg :: transport_config
  t_outstanding :: "outstanding list"
  t_windows :: "(address, seq_window \<times> time) small_map"
  t_next_seq :: u16
  t_stats :: transport_stats

definition Transport_new :: "transport_config \<Rightarrow> u16 \<Rightarrow> transport" where
  "Transport_new cfg first_seq =
     \<lparr>t_cfg = cfg, t_outstanding = [], t_windows = SmallMap_new, t_next_seq = first_seq,
      t_stats = \<lparr>ts_sent = 0, ts_retries = 0, ts_acked = 0, ts_failed = 0, ts_duplicates_dropped = 0,
                 ts_acks_sent = 0, ts_stored_at_anchor = 0\<rparr>\<rparr>"

definition Transport_next_seq :: "transport \<Rightarrow> transport \<times> u16" where
  "Transport_next_seq t =
     (let n = t_next_seq t + 1
      in (t\<lparr>t_next_seq := if n = 0 then 1 else n\<rparr>, t_next_seq t))"

definition Transport_in_flight :: "transport \<Rightarrow> nat" where
  "Transport_in_flight t = length (t_outstanding t)"

definition Transport_track :: "outstanding \<Rightarrow> time \<Rightarrow> transport \<Rightarrow> transport \<times> unit result" where
  "Transport_track ob now t =
     (if length (t_outstanding t) \<ge> tc_max_in_flight (t_cfg t) then (t, Inl Full)
      else let o' = ob\<lparr>o_attempts := 1, o_started_at := now,
                      o_next_retry := now + tc_initial_rto_ms (t_cfg t)\<rparr>
           in (t\<lparr>t_outstanding := t_outstanding t @ [o'],
                 t_stats := (t_stats t)\<lparr>ts_sent := ts_sent (t_stats t) + 1\<rparr>\<rparr>, Inr ()))"

definition sat_mul :: "u64 \<Rightarrow> u64 \<Rightarrow> u64" where
  "sat_mul a b = (if unat a * unat b < 2 ^ 64 then a * b else u64_MAX)"

definition Transport_rto :: "transport_config \<Rightarrow> u8 \<Rightarrow> u64 \<Rightarrow> u64" where
  "Transport_rto cfg attempts draw =
     (let base0 = sat_mul (tc_initial_rto_ms cfg) (push_bit (unat (min (sat_sub attempts 1) 6)) 1);
          base = min base0 (tc_max_rto_ms cfg)
      in base + draw mod (base div 2 + 1))"

definition Transport_on_ack :: "address \<Rightarrow> ack \<Rightarrow> transport \<Rightarrow> transport \<times> outstanding option" where
  "Transport_on_ack from a t =
     (case position (\<lambda>ob. o_dst ob = from \<and> o_seq ob = ack_seq a) (t_outstanding t) of
        None \<Rightarrow> (t, None)
      | Some idx \<Rightarrow>
          if ack_status a = ack_STORED
          then (t\<lparr>t_outstanding := (t_outstanding t)[idx :=
                    (t_outstanding t ! idx)\<lparr>o_stored := True, o_next_retry := u64_MAX\<rparr>],
                  t_stats := (t_stats t)\<lparr>ts_stored_at_anchor := ts_stored_at_anchor (t_stats t) + 1\<rparr>\<rparr>, None)
          else (t\<lparr>t_outstanding := remove_at idx (t_outstanding t),
                  t_stats := if ack_status a = ack_DELIVERED
                    then (t_stats t)\<lparr>ts_acked := ts_acked (t_stats t) + 1\<rparr>
                    else (t_stats t)\<lparr>ts_failed := ts_failed (t_stats t) + 1\<rparr>\<rparr>,
                Some (t_outstanding t ! idx)))"

definition Transport_on_envelope_delivered :: "u32 \<Rightarrow> transport \<Rightarrow> transport \<times> outstanding option" where
  "Transport_on_envelope_delivered envelope_id t =
     (case position (\<lambda>ob. o_envelope_id ob = Some envelope_id) (t_outstanding t) of
        None \<Rightarrow> (t, None)
      | Some idx \<Rightarrow>
          (t\<lparr>t_outstanding := remove_at idx (t_outstanding t),
             t_stats := (t_stats t)\<lparr>ts_acked := ts_acked (t_stats t) + 1\<rparr>\<rparr>, Some (t_outstanding t ! idx)))"

definition Transport_on_store_accepted :: "u32 \<Rightarrow> transport \<Rightarrow> transport \<times> bool" where
  "Transport_on_store_accepted envelope_id t =
     (if list_ex (\<lambda>ob. o_envelope_id ob = Some envelope_id) (t_outstanding t)
      then (t\<lparr>t_outstanding := update_first (\<lambda>ob. o_envelope_id ob = Some envelope_id)
                (\<lambda>ob. ob\<lparr>o_stored := True, o_next_retry := u64_MAX\<rparr>) (t_outstanding t),
              t_stats := (t_stats t)\<lparr>ts_stored_at_anchor := ts_stored_at_anchor (t_stats t) + 1\<rparr>\<rparr>, True)
      else (t, False))"

definition Transport_fail_all_to :: "address \<Rightarrow> transport \<Rightarrow> transport \<times> outstanding list" where
  "Transport_fail_all_to dst t =
     (case partition (\<lambda>ob. o_dst ob = dst \<and> \<not> o_stored ob) (t_outstanding t) of (gone, keep) \<Rightarrow>
        (t\<lparr>t_outstanding := keep,
           t_stats := (t_stats t)\<lparr>ts_failed := ts_failed (t_stats t) + of_nat (length gone)\<rparr>\<rparr>, gone))"

text \<open>
  The loop of \<open>tick\<close> over the outstanding messages: those kept, those to retry, those that failed,
  the increments of \<open>stats.failed\<close> and \<open>stats.retries\<close>, and the generator.
\<close>

record tick_result =
  tk_keep :: "outstanding list"
  tk_retry :: "outstanding list"
  tk_failed :: "outstanding list"
  tk_nfailed :: u32
  tk_nretries :: u32
  tk_rng :: rng

fun tick_loop :: "transport_config \<Rightarrow> time \<Rightarrow> outstanding list \<Rightarrow> rng \<Rightarrow> tick_result" where
  "tick_loop cfg now [] r =
     \<lparr>tk_keep = [], tk_retry = [], tk_failed = [], tk_nfailed = 0, tk_nretries = 0, tk_rng = r\<rparr>"
| "tick_loop cfg now (ob # os) r =
     (if o_stored ob
      then if sat_sub now (o_started_at ob) > tc_max_rto_ms cfg * 8
           then (let k = tick_loop cfg now os r in k\<lparr>tk_failed := ob # tk_failed k\<rparr>)
           else (let k = tick_loop cfg now os r in k\<lparr>tk_keep := ob # tk_keep k\<rparr>)
      else if now \<ge> o_next_retry ob
      then if o_attempts ob \<ge> tc_max_attempts cfg
           then (let k = tick_loop cfg now os r
                 in k\<lparr>tk_failed := ob # tk_failed k, tk_nfailed := tk_nfailed k + 1\<rparr>)
           else (let attempts = o_attempts ob + 1;
                     ob' = ob\<lparr>o_attempts := attempts,
                            o_next_retry := now + Transport_rto cfg attempts (shd r)\<rparr>;
                     k = tick_loop cfg now os (stl r)
                 in k\<lparr>tk_keep := ob' # tk_keep k, tk_retry := ob' # tk_retry k,
                      tk_nretries := tk_nretries k + 1\<rparr>)
      else (let k = tick_loop cfg now os r in k\<lparr>tk_keep := ob # tk_keep k\<rparr>))"

definition Transport_tick ::
  "time \<Rightarrow> rng \<Rightarrow> transport \<Rightarrow> transport \<times> rng \<times> outstanding list \<times> outstanding list" where
  "Transport_tick now r t =
     (let k = tick_loop (t_cfg t) now (t_outstanding t) r
      in (t\<lparr>t_outstanding := tk_keep k,
            t_stats := (t_stats t)\<lparr>ts_failed := ts_failed (t_stats t) + tk_nfailed k,
                                  ts_retries := ts_retries (t_stats t) + tk_nretries k\<rparr>\<rparr>,
          tk_rng k, tk_retry k, tk_failed k))"

definition Transport_next_deadline :: "transport \<Rightarrow> time option" where
  "Transport_next_deadline t =
     list_min (map o_next_retry (filter (\<lambda>ob. \<not> o_stored ob) (t_outstanding t)))"

definition Transport_shift_timers :: "u64 \<Rightarrow> transport \<Rightarrow> transport" where
  "Transport_shift_timers delta t =
     t\<lparr>t_outstanding := map (\<lambda>ob.
         let o1 = (if o_next_retry ob \<noteq> u64_MAX
                   then ob\<lparr>o_next_retry := sat_add (o_next_retry ob) delta\<rparr> else ob)
         in o1\<lparr>o_started_at := sat_add (o_started_at o1) delta\<rparr>) (t_outstanding t)\<rparr>"

definition Transport_set_last_packet :: "address \<Rightarrow> u16 \<Rightarrow> packet \<Rightarrow> transport \<Rightarrow> transport" where
  "Transport_set_last_packet dst seq p t =
     t\<lparr>t_outstanding := update_first (\<lambda>ob. o_dst ob = dst \<and> o_seq ob = seq)
         (\<lambda>ob. ob\<lparr>o_last_packet := Some p\<rparr>) (t_outstanding t)\<rparr>"

definition Transport_accept_incoming :: "address \<Rightarrow> u16 \<Rightarrow> time \<Rightarrow> transport \<Rightarrow> transport \<times> bool" where
  "Transport_accept_incoming from seq now t =
     (let ws = evict_min (\<lambda>(_, (_, t)). t) (tc_max_peers (t_cfg t)) from (t_windows t)
      in case SmallMap_get_or_default (SeqWindow_default, now) ws from of (ws', (w, _)) \<Rightarrow>
         (case SeqWindow_accept seq w of (w', fresh) \<Rightarrow>
           (t\<lparr>t_windows := SmallMap_modify ws' from (\<lambda>_. (w', now)),
              t_stats := if fresh then t_stats t
                else (t_stats t)\<lparr>ts_duplicates_dropped := ts_duplicates_dropped (t_stats t) + 1\<rparr>\<rparr>, fresh)))"

definition Transport_reset_peer :: "address \<Rightarrow> transport \<Rightarrow> transport" where
  "Transport_reset_peer from t = t\<lparr>t_windows := sm_del (t_windows t) from\<rparr>"

subsection \<open>Acknowledgement codec\<close>

interpretation ack: canonical_codec Ack_encode Ack_decode "\<lambda>a. ack_status a \<le> ack_REJECTED"
proof unfold_locales
  fix a b
  show "ack_status a \<le> ack_REJECTED \<Longrightarrow> Ack_decode (Ack_encode a) = Inr a"
    by (simp add: Ack_decode_def Ack_encode_def wire nth_append)
  assume dec: "Ack_decode b = Inr a"
  then have len: "length b = 3" by (simp add: Ack_decode_def split: if_split_asm)
  show "ack_status a \<le> ack_REJECTED"
    using dec by (auto simp: Ack_decode_def split: if_split_asm)
  show "Ack_encode a = b"
    using dec len take_drop_join [of 0 2 2 b] Cons_drop_join [of 2 b]
    by (auto simp: Ack_decode_def Ack_encode_def split: if_split_asm)
qed

subsection \<open>The receive window\<close>

text \<open>
  The reference keeps the highest sequence number and the set of those seen among the 64 numbers
  up to it. Numbers wrap around: a number is newer when it is less than half the range ahead.
\<close>

definition ref_seq_accept :: "u16 \<Rightarrow> u16 option \<times> u16 set \<Rightarrow> (u16 option \<times> u16 set) \<times> bool" where
  "ref_seq_accept seq s =
     (case s of
        (None, S) \<Rightarrow> ((Some seq, {seq}), True)
      | (Some hi, S) \<Rightarrow>
          if seq \<noteq> hi \<and> seq - hi < 0x8000
          then ((Some seq, insert seq {x \<in> S. unat (seq - x) < 64}), True)
          else if unat (hi - seq) \<ge> 64 then (s, True)
          else ((Some hi, insert seq S), seq \<notin> S))"

definition sw_abs :: "seq_window \<Rightarrow> u16 option \<times> u16 set" where
  "sw_abs w =
     (if sw_any w then (Some (sw_top w),
        {x. unat (sw_top w - x) < 64 \<and> bit (sw_bitmap w) (unat (sw_top w - x))})
      else (None, {}))"

lemma u64_single_bit: "(b AND push_bit n 1 \<noteq> 0) \<longleftrightarrow> bit b n" if "n < 64" for b :: u64
proof -
  have "bit (b AND push_bit n 1) k \<longleftrightarrow> k = n \<and> bit b n" for k
    using that by (auto simp: bit_simps)
  then show ?thesis by (metis bit_0_eq bit_eq_iff bot_apply bot_bool_def)
qed

lemma unat_add_small: "unat a < 0x8000 \<Longrightarrow> unat b < 64 \<Longrightarrow> unat (a + b) = unat a + unat b"
  for a b :: u16
  by (simp add: unat_word_ariths(1))

lemma unat_ahead:
  fixes seq hi x :: u16
  assumes "seq - hi < 0x8000" "unat (hi - x) < 64"
  shows "unat (seq - x) = unat (seq - hi) + unat (hi - x)"
proof -
  have "unat (seq - hi) < 0x8000" using assms(1) by (simp add: word_less_nat_alt)
  from unat_add_small [OF this assms(2)] show ?thesis by simp
qed

lemma unat_behind:
  fixes seq hi x :: u16
  assumes "seq - hi < 0x8000" "unat (seq - x) < 64" "unat (seq - hi) \<le> unat (seq - x)"
  shows "unat (hi - x) = unat (seq - x) - unat (seq - hi)"
proof -
  have "hi - x = (seq - x) - (seq - hi)" by simp
  then show ?thesis using assms(3) by (metis unat_sub word_le_nat_alt)
qed

lemma sw_newer_bits:
  fixes seq hi x :: u16
  assumes "seq \<noteq> hi" "seq - hi < 0x8000" "unat (seq - x) < 64"
  shows "bit ((if unat (seq - hi) \<ge> 64 then 0 else push_bit (unat (seq - hi)) bm) OR 1 :: u64) (unat (seq - x))
    \<longleftrightarrow> x = seq \<or> unat (hi - x) < 64 \<and> bit bm (unat (hi - x))"
proof (cases "x = seq")
  case False
  then have x: "0 < unat (seq - x)" by (simp add: unat_gt_0)
  show ?thesis
  proof (cases "unat (seq - hi) \<le> unat (seq - x)")
    case True
    then show ?thesis using x False assms unat_behind [OF assms(2,3) True]
      by (auto simp: bit_simps)
  next
    case lt: False
    have "\<not> unat (hi - x) < 64" using unat_ahead [OF assms(2), of x] lt by auto
    then show ?thesis using x False lt by (auto simp: bit_simps)
  qed
qed (auto simp: bit_simps)

lemma sw_newer_refines:
  assumes "sw_any w" "seq \<noteq> sw_top w" "seq - sw_top w < 0x8000"
  shows "ref_seq_accept seq (sw_abs w) = (case SeqWindow_accept seq w of (w', r) \<Rightarrow> (sw_abs w', r))"
proof -
  let ?d = "unat (seq - sw_top w)"
  let ?bm = "(if ?d \<ge> 64 then 0 else push_bit ?d (sw_bitmap w)) OR 1"
  have "SeqWindow_accept seq w = (w\<lparr>sw_bitmap := ?bm, sw_top := seq\<rparr>, True)"
    using assms by (simp add: SeqWindow_accept_def Let_def)
  moreover have "insert seq {x. (unat (sw_top w - x) < 64 \<and> bit (sw_bitmap w) (unat (sw_top w - x))) \<and>
      unat (seq - x) < 64} = {x. unat (seq - x) < 64 \<and> bit ?bm (unat (seq - x))}"
    using sw_newer_bits [OF assms(2,3), of _ "sw_bitmap w"] sw_newer_bits [OF assms(2,3), of seq "sw_bitmap w"]
    by (intro set_eqI) auto
  ultimately show ?thesis using assms by (simp add: ref_seq_accept_def sw_abs_def)
qed

lemma sw_older_refines:
  assumes "sw_any w" "\<not> (seq \<noteq> sw_top w \<and> seq - sw_top w < 0x8000)"
  shows "ref_seq_accept seq (sw_abs w) = (case SeqWindow_accept seq w of (w', r) \<Rightarrow> (sw_abs w', r))"
proof (cases "unat (sw_top w - seq) < 64")
  case False
  then show ?thesis using assms
    by (auto simp: SeqWindow_accept_def Let_def ref_seq_accept_def sw_abs_def)
next
  case True
  let ?k = "unat (sw_top w - seq)"
  let ?S = "\<lambda>bm. {x. unat (sw_top w - x) < 64 \<and> bit (bm :: u64) (unat (sw_top w - x))}"
  have "?S (sw_bitmap w OR push_bit ?k 1) = insert seq (?S (sw_bitmap w))"
    using True by (auto simp: bit_simps word_unat_eq_iff [symmetric])
  moreover have "SeqWindow_accept seq w =
    (if bit (sw_bitmap w) ?k then (w, False) else (w\<lparr>sw_bitmap := sw_bitmap w OR push_bit ?k 1\<rparr>, True))"
    using assms True u64_single_bit [OF True, of "sw_bitmap w"]
    by (auto simp: SeqWindow_accept_def Let_def)
  ultimately show ?thesis using assms True
    by (auto simp: ref_seq_accept_def sw_abs_def)
qed

lemma sw_accept_refines:
  "ref_seq_accept seq (sw_abs w) = (case SeqWindow_accept seq w of (w', r) \<Rightarrow> (sw_abs w', r))"
proof (cases "sw_any w")
  case False
  then show ?thesis
    by (auto simp: ref_seq_accept_def sw_abs_def SeqWindow_accept_def bit_simps unat_eq_0)
qed (use sw_newer_refines sw_older_refines in blast)

subsection \<open>Timers\<close>

definition o_id :: "outstanding \<Rightarrow> address \<times> u16 \<times> u32 \<times> bytes \<times> u32 option" where
  "o_id ob = (o_dst ob, o_seq ob, o_handle ob, o_body ob, o_envelope_id ob)"

lemma tick_loop_accounts:
  "image_mset o_id (mset os) =
     image_mset o_id (mset (tk_keep (tick_loop cfg now os r))) +
     image_mset o_id (mset (tk_failed (tick_loop cfg now os r)))"
  by (induction os arbitrary: r) (auto simp: Let_def o_id_def)

lemma tick_loop_keep:
  assumes "ob \<in> set (tk_keep (tick_loop cfg now os r))" "\<not> o_stored ob"
  shows "\<exists>ob' \<in> set os. \<not> o_stored ob' \<and>
    (ob = ob' \<and> now < o_next_retry ob' \<or>
     o_attempts ob = o_attempts ob' + 1 \<and> o_attempts ob' < tc_max_attempts cfg)"
  using assms
  by (induction os arbitrary: r) (auto simp: Let_def split: if_splits)

lemma tick_loop_length: "length (tk_keep (tick_loop cfg now os r)) \<le> length os"
  by (induction os arbitrary: r) (auto simp: Let_def le_SucI dest: subsetD)

lemma tick_loop_retry: "set (tk_retry (tick_loop cfg now os r)) \<subseteq> set (tk_keep (tick_loop cfg now os r))"
  by (induction os arbitrary: r) (auto simp: Let_def le_SucI dest: subsetD)

definition due_now :: "time \<Rightarrow> transport \<Rightarrow> bool" where
  "due_now now t = list_all (\<lambda>ob. o_stored ob \<or> o_next_retry ob \<le> now) (t_outstanding t)"

text \<open>A run of ticks with the messages given up, and the condition that every tick comes when the
  timers of all messages still being retried have run out.\<close>

fun tick_run :: "time list \<Rightarrow> rng \<Rightarrow> transport \<Rightarrow> transport \<times> outstanding list" where
  "tick_run [] r t = (t, [])"
| "tick_run (now # nows) r t =
     (case Transport_tick now r t of (t1, r1, retry, failed) \<Rightarrow>
        (case tick_run nows r1 t1 of (t2, failed') \<Rightarrow> (t2, failed @ failed')))"

fun all_due :: "time list \<Rightarrow> rng \<Rightarrow> transport \<Rightarrow> bool" where
  "all_due [] r t \<longleftrightarrow> True"
| "all_due (now # nows) r t \<longleftrightarrow> due_now now t \<and>
     all_due nows (fst (snd (Transport_tick now r t))) (fst (Transport_tick now r t))"

definition attempts_ge :: "nat \<Rightarrow> transport \<Rightarrow> bool" where
  "attempts_ge n t \<longleftrightarrow> (\<forall>ob \<in> set (t_outstanding t). o_stored ob \<or> n \<le> unat (o_attempts ob))"

definition attempts_le :: "transport \<Rightarrow> bool" where
  "attempts_le t \<longleftrightarrow> (\<forall>ob \<in> set (t_outstanding t). o_stored ob \<or> o_attempts ob \<le> tc_max_attempts (t_cfg t))"

lemma attempts_inc:
  fixes a m :: u8
  assumes "a < m" shows "unat (a + 1) = unat a + 1" "a + 1 \<le> m"
  using assms unsigned_less [of m, where 'a = nat]
  by (auto simp: word_less_nat_alt unat_word_ariths(1) inc_le)

lemma tick_due:
  assumes "attempts_ge n t" "due_now now t" "t' = fst (Transport_tick now r t)"
  shows "attempts_ge (Suc n) t'" "attempts_le t'"
proof -
  have *: "Suc n \<le> unat (o_attempts ob) \<and> o_attempts ob \<le> tc_max_attempts (t_cfg t)"
    if ob: "ob \<in> set (t_outstanding t')" "\<not> o_stored ob" for ob
  proof -
    obtain ob' where ob': "ob' \<in> set (t_outstanding t)" "\<not> o_stored ob'"
        "ob = ob' \<and> now < o_next_retry ob' \<or>
         o_attempts ob = o_attempts ob' + 1 \<and> o_attempts ob' < tc_max_attempts (t_cfg t)"
      using tick_loop_keep ob unfolding assms(3) Transport_tick_def by (fastforce simp: Let_def)
    then have "o_next_retry ob' \<le> now" "n \<le> unat (o_attempts ob')"
      using assms(1,2) by (auto simp: due_now_def list_all_iff attempts_ge_def)
    then show ?thesis using ob'(3) attempts_inc by (auto simp: not_less [symmetric])
  qed
  moreover have "t_cfg t' = t_cfg t" by (simp add: assms(3) Transport_tick_def Let_def)
  ultimately show "attempts_ge (Suc n) t'" "attempts_le t'"
    unfolding attempts_ge_def attempts_le_def by auto
qed

lemma tick_run_due:
  assumes "attempts_ge n t" "all_due nows r t" "attempts_le t \<or> nows \<noteq> []"
  shows "attempts_ge (n + length nows) (fst (tick_run nows r t)) \<and> attempts_le (fst (tick_run nows r t)) \<and>
    t_cfg (fst (tick_run nows r t)) = t_cfg t"
  using assms
proof (induction nows arbitrary: n r t)
  case (Cons now nows)
  let ?t = "fst (Transport_tick now r t)" and ?r = "fst (snd (Transport_tick now r t))"
  have "attempts_ge (Suc n) ?t" "attempts_le ?t" using tick_due Cons.prems by auto
  moreover have "t_cfg ?t = t_cfg t" by (simp add: Transport_tick_def Let_def)
  ultimately show ?case
    using Cons.IH [of "Suc n" ?t ?r] Cons.prems by (simp add: case_prod_unfold)
qed simp

lemma tick_run_accounts:
  "image_mset o_id (mset (t_outstanding t)) =
     image_mset o_id (mset (t_outstanding (fst (tick_run nows r t)))) +
     image_mset o_id (mset (snd (tick_run nows r t)))"
proof (induction nows arbitrary: r t)
  case (Cons now nows)
  then show ?case
    using tick_loop_accounts [of "t_outstanding t" "t_cfg t" now r]
    by (simp add: case_prod_unfold Transport_tick_def Let_def)
qed simp

subsection \<open>Bounds\<close>

definition tr_inv :: "transport \<Rightarrow> bool" where
  "tr_inv t \<longleftrightarrow>
     length (t_outstanding t) \<le> tc_max_in_flight (t_cfg t) \<and>
     (\<forall>ob \<in> set (t_outstanding t). 1 \<le> o_attempts ob \<and> o_attempts ob \<le> max 1 (tc_max_attempts (t_cfg t))) \<and>
     sm_wf (t_windows t) \<and> length (t_windows t) \<le> max 1 (tc_max_peers (t_cfg t))"

datatype tr_op =
    TrTrack outstanding time
  | TrAck address ack
  | TrEnvelope u32
  | TrStored u32
  | TrFailAll address
  | TrTick time rng
  | TrShift u64
  | TrLastPacket address u16 packet
  | TrIncoming address u16 time
  | TrReset address

fun tr_step :: "tr_op \<Rightarrow> transport \<Rightarrow> transport" where
  "tr_step (TrTrack ob now) t = fst (Transport_track ob now t)"
| "tr_step (TrAck from a) t = fst (Transport_on_ack from a t)"
| "tr_step (TrEnvelope i) t = fst (Transport_on_envelope_delivered i t)"
| "tr_step (TrStored i) t = fst (Transport_on_store_accepted i t)"
| "tr_step (TrFailAll dst) t = fst (Transport_fail_all_to dst t)"
| "tr_step (TrTick now r) t = fst (Transport_tick now r t)"
| "tr_step (TrShift d) t = Transport_shift_timers d t"
| "tr_step (TrLastPacket dst seq p) t = Transport_set_last_packet dst seq p t"
| "tr_step (TrIncoming from seq now) t = fst (Transport_accept_incoming from seq now t)"
| "tr_step (TrReset from) t = Transport_reset_peer from t"

text \<open>Operations that only drop messages or change fields other than the attempts.\<close>

lemma tr_inv_outstanding:
  assumes "tr_inv t" "length os \<le> length (t_outstanding t)" "o_attempts ` set os \<subseteq> o_attempts ` set (t_outstanding t)"
  shows "tr_inv (t\<lparr>t_outstanding := os, t_stats := st\<rparr>)"
proof -
  have "1 \<le> a \<and> a \<le> max 1 (tc_max_attempts (t_cfg t))" if "a \<in> o_attempts ` set os" for a
    using that assms(1,3) by (auto simp: tr_inv_def)
  then show ?thesis using assms(1,2) by (auto simp: tr_inv_def)
qed

lemmas tr_inv_os = tr_inv_outstanding [where st = "t_stats t" and t = t for t, simplified]

lemma attempts_update_first:
  "(\<And>ob. o_attempts (f ob) = o_attempts ob) \<Longrightarrow> o_attempts ` set (update_first p f os) = o_attempts ` set os"
  by (metis (mono_tags, lifting) list.set_map map_update_first)

lemma attempts_list_update:
  "i < length os \<Longrightarrow> o_attempts ob = o_attempts (os ! i) \<Longrightarrow> o_attempts ` set (os[i := ob]) = o_attempts ` set os"
  by (metis (no_types, lifting) list.set_map map_update list_update_id nth_map)

lemma tr_inv_tick: "tr_inv t \<Longrightarrow> tr_inv (fst (Transport_tick now r t))"
proof -
  assume inv: "tr_inv t"
  have "1 \<le> o_attempts ob \<and> o_attempts ob \<le> max 1 (tc_max_attempts (t_cfg t))"
    if "ob \<in> set (tk_keep (tick_loop (t_cfg t) now os r))"
      "\<forall>ob \<in> set os. 1 \<le> o_attempts ob \<and> o_attempts ob \<le> max 1 (tc_max_attempts (t_cfg t))" for ob os
    using that
  proof (induction os arbitrary: r)
    case (Cons x os)
    have "o_attempts x < tc_max_attempts (t_cfg t) \<Longrightarrow>
        1 \<le> o_attempts x + 1 \<and> o_attempts x + 1 \<le> max 1 (tc_max_attempts (t_cfg t))"
      using attempts_inc [of "o_attempts x" "tc_max_attempts (t_cfg t)"]
      by (auto simp: word_le_nat_alt intro: order_trans)
    then show ?case using Cons by (auto simp: Let_def not_le split: if_splits)
  qed simp
  then show ?thesis
    using inv tick_loop_length [of "t_cfg t" now "t_outstanding t" r]
    by (auto simp: tr_inv_def Transport_tick_def Let_def)
qed

lemma tr_inv_incoming:
  assumes "tr_inv t" shows "tr_inv (fst (Transport_accept_incoming from seq now t))"
proof -
  have "sm_wf (t_windows t)" "length (t_windows t) \<le> max 1 (tc_max_peers (t_cfg t))"
    using assms by (simp_all add: tr_inv_def)
  note ws = evict_get_or_default [OF this]
  show ?thesis
    using assms by (simp add: Transport_accept_incoming_def tr_inv_def case_prod_unfold Let_def ws ws [simplified])
qed

interpretation tr: invariant_machine tr_step tr_inv
proof
  fix t a
  assume inv: "tr_inv t"
  have rem: "set (remove_at i (t_outstanding t)) \<subseteq> set (t_outstanding t)"
    "length (remove_at i (t_outstanding t)) \<le> length (t_outstanding t)" for i
    by (auto simp: remove_at_def dest: in_set_takeD in_set_dropD)
  note os = tr_inv_outstanding [OF inv]
  show "tr_inv (tr_step a t)"
  proof (cases a)
    case (TrTrack ob now)
    then show ?thesis using inv
      by (auto simp: tr_inv_def Transport_track_def Let_def Suc_le_eq)
  next
    case (TrAck src x)
    then show ?thesis using inv os rem
      by (auto simp: Transport_on_ack_def position_Some_lt attempts_list_update image_mono split: option.split)
  next
    case (TrEnvelope i)
    then show ?thesis using inv os rem
      by (auto simp: Transport_on_envelope_delivered_def image_mono split: option.split)
  next
    case (TrStored i)
    then show ?thesis using inv os
      by (auto simp: Transport_on_store_accepted_def attempts_update_first)
  next
    case (TrFailAll dst)
    then show ?thesis using inv
      by (auto simp: Transport_fail_all_to_def intro!: os image_mono)
  next
    case (TrTick now r)
    then show ?thesis using inv tr_inv_tick by simp
  next
    case (TrShift d)
    have "o_attempts (let o1 = if o_next_retry ob \<noteq> u64_MAX then ob\<lparr>o_next_retry := sat_add (o_next_retry ob) d\<rparr> else ob
       in o1\<lparr>o_started_at := sat_add (o_started_at o1) d\<rparr>) = o_attempts ob" for ob
      by (simp add: Let_def)
    then show ?thesis using inv TrShift by (simp add: tr_inv_def Transport_shift_timers_def)
  next
    case (TrLastPacket dst seq p)
    then show ?thesis using inv tr_inv_os [OF inv]
      by (simp add: Transport_set_last_packet_def attempts_update_first)
  next
    case (TrIncoming src seq now)
    then show ?thesis using inv tr_inv_incoming by simp
  next
    case (TrReset src)
    then show ?thesis using inv SmallMap_remove_length_le [of "t_windows t" src]
      by (auto simp: tr_inv_def Transport_reset_peer_def)
  qed
qed

subsection \<open>Properties\<close>

text \<open>C31. Receive window: the bitmap over 16-bit sequence numbers gives, at every step, the answer
  and the contents of the reference window that remembers which of the last 64 numbers were seen.\<close>

theorem seq_window_refines:
  "ref_seq_accept seq (sw_abs w) = (case SeqWindow_accept seq w of (w', fresh) \<Rightarrow> (sw_abs w', fresh))"
  by (rule sw_accept_refines)

text \<open>C32. Giving up: when every tick comes after the timers of the messages still being retried
  have run out, then after as many ticks as attempts are allowed no message is being retried any
  more, and every message was kept as stored or was reported as failed exactly once.\<close>

theorem transport_gives_up:
  assumes "all_due nows r t" "nows \<noteq> []" "unat (tc_max_attempts (t_cfg t)) \<le> length nows"
    and "t = fold tr_step ops (Transport_new cfg first_seq)"
  shows "case tick_run nows r t of (t', failed) \<Rightarrow>
    list_all o_stored (t_outstanding t') \<and>
    image_mset o_id (mset (t_outstanding t)) =
      image_mset o_id (mset (t_outstanding t')) + image_mset o_id (mset failed)"
proof -
  have "tr_inv (Transport_new cfg first_seq)" by (simp add: tr_inv_def Transport_new_def SmallMap_new_def)
  then have "tr_inv t" using tr.run_inv assms(4) by blast
  then have "attempts_ge 1 t" by (auto simp: tr_inv_def attempts_ge_def word_le_nat_alt)
  from tick_run_due [OF this assms(1)] assms(2)
  have "attempts_ge (1 + length nows) (fst (tick_run nows r t))" "attempts_le (fst (tick_run nows r t))"
    "t_cfg (fst (tick_run nows r t)) = t_cfg t" by auto
  then have "list_all o_stored (t_outstanding (fst (tick_run nows r t)))"
    using assms(3) by (fastforce simp: attempts_ge_def attempts_le_def list_all_iff word_le_nat_alt)
  then show ?thesis using tick_run_accounts [of t nows r] by (simp add: case_prod_unfold)
qed

definition demo_outstanding :: outstanding where
  "demo_outstanding = \<lparr>o_dst = Address 1 2 3 4 5 6 7 8, o_seq = 7, o_handle = 1,
     o_reliability = Acknowledged, o_body = [1, 2], o_attempts = 0, o_next_retry = 0, o_started_at = 0,
     o_envelope_id = None, o_stored = False, o_last_packet = None\<rparr>"

theorem transport_gives_up_witness:
  "case tick_run [4000] (sconst 5)
     (fold tr_step [TrTrack demo_outstanding 0] (Transport_new (TransportConfig_default\<lparr>tc_max_attempts := 1\<rparr>) 1)) of
   (t', failed) \<Rightarrow> list_all o_stored (t_outstanding t') \<and>
     {#(Address 1 2 3 4 5 6 7 8, 7, 1, [1, 2], None)#} =
       image_mset o_id (mset (t_outstanding t')) + image_mset o_id (mset failed)"
proof -
  let ?t = "fold tr_step [TrTrack demo_outstanding 0] (Transport_new (TransportConfig_default\<lparr>tc_max_attempts := 1\<rparr>) 1)"
  have "t_outstanding ?t = [demo_outstanding\<lparr>o_attempts := 1, o_next_retry := 4000\<rparr>]"
    "tc_max_attempts (t_cfg ?t) = 1"
    by (simp_all add: Transport_track_def Transport_new_def TransportConfig_default_def demo_outstanding_def Let_def)
  moreover from this have "all_due [4000] (sconst 5) ?t"
    by (simp add: due_now_def demo_outstanding_def)
  ultimately show ?thesis
    using transport_gives_up [of "[4000]" "sconst 5" ?t, OF _ _ _ refl]
    by (simp add: o_id_def demo_outstanding_def)
qed

end
