(* ===== verification/Zone_Messages.thy ===== *)
theory Zone_Messages
  imports Wire
begin

section \<open>Route discovery messages (\<open>zrp/messages.rs\<close>)\<close>

text \<open>
  The payloads of \<open>ROUTE_REQUEST\<close>, \<open>ROUTE_REPLY\<close> and \<open>ROUTE_ERROR\<close>. Each decoder
  accepts exactly the encodings of well-formed messages. The types carry the suffix \<open>_msg\<close>,
  since the names of the structures are constructors of the packet type.
\<close>

definition rreq_PROXY_OK :: u8 where "rreq_PROXY_OK = flag 0"
definition rreq_WANT_KEY :: u8 where "rreq_WANT_KEY = flag 1"
definition rreq_HANDSHAKE :: u8 where "rreq_HANDSHAKE = flag 2"
definition rrep_PROXY :: u8 where "rrep_PROXY = flag 0"
definition rrep_HAS_KEY :: u8 where "rrep_HAS_KEY = flag 1"
definition rrep_TARGET_LEAF :: u8 where "rrep_TARGET_LEAF = flag 2"
definition rrep_HANDSHAKE :: u8 where "rrep_HANDSHAKE = flag 3"

record route_request_msg =
  rq_target :: address
  rq_cost :: u16
  rq_flags :: u8
  rq_handshake :: bytes

definition RouteRequest_LEN :: nat where "RouteRequest_LEN = 11"

definition RouteRequest_encode :: "route_request_msg \<Rightarrow> bytes" where
  "RouteRequest_encode r =
     Address_as_bytes (rq_target r) @ be16 (rq_cost r) @
     [(rq_flags r AND NOT rreq_HANDSHAKE) OR (if rq_handshake r \<noteq> [] then rreq_HANDSHAKE else 0)] @
     rq_handshake r"

definition RouteRequest_decode :: "bytes \<Rightarrow> route_request_msg result" where
  "RouteRequest_decode b =
     (if length b < RouteRequest_LEN then Inl Truncated
      else res_bind (Address_from_bytes (take 8 b)) (\<lambda>target.
        if Address_is_null target \<or> Address_is_broadcast target then Inl BadField
        else let flags = b ! 10 in
          res_bind
            (if flags AND rreq_HANDSHAKE \<noteq> 0
             then if length b < RouteRequest_LEN + 32 then Inl Truncated else Inr (drop RouteRequest_LEN b)
             else if length b \<noteq> RouteRequest_LEN then Inl BadField else Inr [])
            (\<lambda>handshake.
              Inr \<lparr>rq_target = target, rq_cost = rd16 b 8, rq_flags = flags, rq_handshake = handshake\<rparr>)))"

record route_reply_msg =
  rp_target :: address
  rp_req_id :: u32
  rp_hops_to_target :: u8
  rp_cost :: u16
  rp_flags :: u8
  rp_target_key :: "bytes option"
  rp_handshake :: bytes

definition RouteReply_MIN_LEN :: nat where "RouteReply_MIN_LEN = 16"

definition RouteReply_encode :: "route_reply_msg \<Rightarrow> bytes" where
  "RouteReply_encode r =
     Address_as_bytes (rp_target r) @ be32 (rp_req_id r) @ [rp_hops_to_target r] @ be16 (rp_cost r) @
     [((rp_flags r AND NOT (rrep_HAS_KEY OR rrep_HANDSHAKE))
        OR (if rp_target_key r \<noteq> None then rrep_HAS_KEY else 0))
        OR (if rp_handshake r \<noteq> [] then rrep_HANDSHAKE else 0)] @
     (case rp_target_key r of Some k \<Rightarrow> k | None \<Rightarrow> []) @ rp_handshake r"

text \<open>The optional fields: \<open>rest\<close> is the slice from \<open>pos\<close> on.\<close>

definition read_target_key :: "u8 \<Rightarrow> bytes \<Rightarrow> (bytes option \<times> bytes) result" where
  "read_target_key flags rest =
     (if flags AND rrep_HAS_KEY \<noteq> 0
      then if length rest < 32 then Inl Truncated else Inr (Some (take 32 rest), drop 32 rest)
      else Inr (None, rest))"

definition read_reply_handshake :: "u8 \<Rightarrow> bytes \<Rightarrow> bytes result" where
  "read_reply_handshake flags rest =
     (if flags AND rrep_HANDSHAKE \<noteq> 0
      then if length rest < 32 + 48 + 16 then Inl Truncated else Inr rest
      else if rest \<noteq> [] then Inl BadField else Inr [])"

definition RouteReply_decode :: "bytes \<Rightarrow> route_reply_msg result" where
  "RouteReply_decode b =
     (if length b < RouteReply_MIN_LEN then Inl Truncated
      else res_bind (Address_from_bytes (take 8 b)) (\<lambda>target.
        if Address_is_null target \<or> Address_is_broadcast target then Inl BadField
        else let flags = b ! 15 in
          res_bind (read_target_key flags (drop RouteReply_MIN_LEN b)) (\<lambda>(target_key, rest).
          res_bind (read_reply_handshake flags rest) (\<lambda>handshake.
            Inr \<lparr>rp_target = target, rp_req_id = rd32 b 8, rp_hops_to_target = b ! 12,
                 rp_cost = rd16 b 13, rp_flags = flags, rp_target_key = target_key,
                 rp_handshake = handshake\<rparr>))))"

record route_error_msg =
  rerr_unreachable :: "address list"

definition RouteError_encode :: "route_error_msg \<Rightarrow> bytes" where
  "RouteError_encode r =
     of_nat (min (length (rerr_unreachable r)) 16) # write_addrs (take 16 (rerr_unreachable r))"

definition RouteError_decode :: "bytes \<Rightarrow> route_error_msg result" where
  "RouteError_decode b =
     (if b = [] then Inl Truncated
      else let n = unat (b ! 0) in
        if n = 0 \<or> n > 16 \<or> length b \<noteq> 1 + 8 * n then Inl BadField
        else res_bind (read_addrs n (drop 1 b)) (\<lambda>(as, _). Inr \<lparr>rerr_unreachable = as\<rparr>))"

subsection \<open>Codecs\<close>

definition RouteRequest_ok :: "route_request_msg \<Rightarrow> bool" where
  "RouteRequest_ok r \<longleftrightarrow> addr_valid (rq_target r) \<and>
     (rq_handshake r \<noteq> [] \<longleftrightarrow> rq_flags r AND rreq_HANDSHAKE \<noteq> 0) \<and>
     (rq_handshake r = [] \<or> 32 \<le> length (rq_handshake r))"

definition RouteReply_ok :: "route_reply_msg \<Rightarrow> bool" where
  "RouteReply_ok r \<longleftrightarrow> addr_valid (rp_target r) \<and>
     (rp_target_key r \<noteq> None \<longleftrightarrow> rp_flags r AND rrep_HAS_KEY \<noteq> 0) \<and>
     (case rp_target_key r of Some k \<Rightarrow> length k = 32 | None \<Rightarrow> True) \<and>
     (rp_handshake r \<noteq> [] \<longleftrightarrow> rp_flags r AND rrep_HANDSHAKE \<noteq> 0) \<and>
     (rp_handshake r = [] \<or> 96 \<le> length (rp_handshake r))"

definition RouteError_ok :: "route_error_msg \<Rightarrow> bool" where
  "RouteError_ok r \<longleftrightarrow> rerr_unreachable r \<noteq> [] \<and> length (rerr_unreachable r) \<le> 16 \<and>
     list_all addr_valid (rerr_unreachable r)"

lemma rreq_flags_id:
  "(f AND NOT rreq_HANDSHAKE) OR (if f AND rreq_HANDSHAKE \<noteq> 0 then rreq_HANDSHAKE else 0) = f"
  unfolding rreq_HANDSHAKE_def by (rule set_flag) (simp_all add: and_flag)

lemma rrep_flags_id:
  "((f AND NOT (rrep_HAS_KEY OR rrep_HANDSHAKE)) OR (if f AND rrep_HAS_KEY \<noteq> 0 then rrep_HAS_KEY else 0))
     OR (if f AND rrep_HANDSHAKE \<noteq> 0 then rrep_HANDSHAKE else 0) = f"
  unfolding rrep_HAS_KEY_def rrep_HANDSHAKE_def by (rule set_flags2) (simp_all add: and_flag)

interpretation rreq: canonical_codec RouteRequest_encode RouteRequest_decode RouteRequest_ok
proof unfold_locales
  fix r b
  show "RouteRequest_decode (RouteRequest_encode r) = Inr r" if ok: "RouteRequest_ok r"
  proof -
    have "RouteRequest_encode r =
        Address_as_bytes (rq_target r) @ be16 (rq_cost r) @ [rq_flags r] @ rq_handshake r"
      using ok rreq_flags_id [of "rq_flags r"] by (simp add: RouteRequest_encode_def RouteRequest_ok_def)
    then show ?thesis using ok
      by (auto simp: RouteRequest_decode_def RouteRequest_LEN_def Address_from_bytes_take wire nth_append
          RouteRequest_ok_def addr_valid_def Let_def)
  qed
  assume dec: "RouteRequest_decode b = Inr r"
  then have len: "11 \<le> length b" by (simp add: RouteRequest_decode_def RouteRequest_LEN_def split: if_split_asm)
  note d = dec [unfolded RouteRequest_decode_def RouteRequest_LEN_def, simplified len
    Address_from_bytes_take [of b, OF order_trans [OF _ len]], simplified]
  show ok: "RouteRequest_ok r"
    using d len by (auto simp: RouteRequest_ok_def addr_valid_def Let_def split: if_split_asm)
  have "rq_target r = rd_addr b 0" "rq_cost r = rd16 b 8" "rq_flags r = b ! 10" "rq_handshake r = drop 11 b"
    using d len by (auto simp: Let_def split: if_split_asm)
  then show "RouteRequest_encode r = b"
    using len ok rreq_flags_id [of "rq_flags r"] take_drop_join [of 0 8 8 b] take_drop_join [of 8 2 10 b]
      Cons_drop_join [of 10 b]
    by (simp add: RouteRequest_encode_def RouteRequest_ok_def)
qed

lemma read_target_key_Inr:
  "read_target_key f rest = Inr (k, rest') \<longleftrightarrow>
     (k \<noteq> None \<longleftrightarrow> f AND rrep_HAS_KEY \<noteq> 0) \<and>
     (case k of Some x \<Rightarrow> length x = 32 \<and> rest = x @ rest' | None \<Rightarrow> rest = rest')"
  by (cases k) (auto simp: read_target_key_def append_eq_conv_conj split: if_split_asm)

lemma read_reply_handshake_Inr:
  "read_reply_handshake f rest = Inr h \<longleftrightarrow>
     h = rest \<and> (h \<noteq> [] \<longleftrightarrow> f AND rrep_HANDSHAKE \<noteq> 0) \<and> (h = [] \<or> 96 \<le> length h)"
  by (auto simp: read_reply_handshake_def split: if_split_asm)

interpretation rrep: canonical_codec RouteReply_encode RouteReply_decode RouteReply_ok
proof unfold_locales
  fix r b
  show "RouteReply_decode (RouteReply_encode r) = Inr r" if ok: "RouteReply_ok r"
  proof -
    let ?key = "case rp_target_key r of Some k \<Rightarrow> k | None \<Rightarrow> []"
    have enc: "RouteReply_encode r = Address_as_bytes (rp_target r) @ be32 (rp_req_id r) @
        [rp_hops_to_target r] @ be16 (rp_cost r) @ [rp_flags r] @ ?key @ rp_handshake r"
      using ok rrep_flags_id [of "rp_flags r"] by (simp add: RouteReply_encode_def RouteReply_ok_def)
    have "read_target_key (rp_flags r) (?key @ rp_handshake r) = Inr (rp_target_key r, rp_handshake r)"
      "read_reply_handshake (rp_flags r) (rp_handshake r) = Inr (rp_handshake r)"
      using ok unfolding read_target_key_Inr read_reply_handshake_Inr
      by (auto simp: RouteReply_ok_def split: option.splits)
    then show ?thesis using ok unfolding enc
      by (simp add: RouteReply_decode_def RouteReply_MIN_LEN_def wire nth_append RouteReply_ok_def
          addr_valid_def Let_def)
  qed
  assume dec: "RouteReply_decode b = Inr r"
  then have len: "16 \<le> length b" by (simp add: RouteReply_decode_def RouteReply_MIN_LEN_def split: if_split_asm)
  have a: "Address_from_bytes (take 8 b) = Inr (rd_addr b 0)" using len by (simp add: Address_from_bytes_take)
  have r: "rp_target r = rd_addr b 0" "rp_req_id r = rd32 b 8" "rp_hops_to_target r = b ! 12"
      "rp_cost r = rd16 b 13" "rp_flags r = b ! 15" "addr_valid (rp_target r)"
      "\<exists>rest. read_target_key (b ! 15) (drop 16 b) = Inr (rp_target_key r, rest) \<and>
         read_reply_handshake (b ! 15) rest = Inr (rp_handshake r)"
    using dec len by (auto simp: RouteReply_decode_def RouteReply_MIN_LEN_def a addr_valid_def Let_def
        res_bind_Inr_iff split: if_split_asm)
  then have tail: "drop 16 b = (case rp_target_key r of Some k \<Rightarrow> k | None \<Rightarrow> []) @ rp_handshake r"
    unfolding read_target_key_Inr read_reply_handshake_Inr by (auto split: option.splits)
  show ok: "RouteReply_ok r"
    using r unfolding RouteReply_ok_def read_target_key_Inr read_reply_handshake_Inr
    by (auto split: option.splits)
  show "RouteReply_encode r = b"
    using len r(1-5) ok rrep_flags_id [of "rp_flags r"] take_drop_join [of 0 8 8 b] take_drop_join [of 8 4 12 b]
      Cons_drop_join [of 12 b] take_drop_join [of 13 2 15 b] Cons_drop_join [of 15 b]
    by (simp add: RouteReply_encode_def RouteReply_ok_def flip: tail)
qed

interpretation rerr: canonical_codec RouteError_encode RouteError_decode RouteError_ok
proof unfold_locales
  fix r b
  show "RouteError_ok r \<Longrightarrow> RouteError_decode (RouteError_encode r) = Inr r"
    using read_write_addrs [of "rerr_unreachable r" "[]"]
    by (cases r) (simp add: RouteError_ok_def RouteError_encode_def RouteError_decode_def list_all_iff
        unat_of_nat Let_def)
  assume dec: "RouteError_decode b = Inr r"
  let ?n = "unat (b ! 0)"
  have n: "b \<noteq> []" "0 < ?n" "?n \<le> 16" "length b = 1 + 8 * ?n"
    and rd: "\<exists>rest. read_addrs ?n (drop 1 b) = Inr (rerr_unreachable r, rest)"
    using dec by (auto simp: RouteError_decode_def Let_def res_bind_Inr_iff split: if_split_asm)
  then obtain rest where rd: "read_addrs ?n (drop 1 b) = Inr (rerr_unreachable r, rest)" by blast
  have "8 * ?n \<le> length (drop 1 b)" using n by simp
  note as = read_addrs_Inr [OF rd this]
  have "length (drop 1 b) = length (write_addrs (rerr_unreachable r) @ rest)" using as(3) by (rule arg_cong)
  then have "rest = []" using n as(1) by simp
  with as n show "RouteError_ok r" "RouteError_encode r = b"
    using Cons_drop_join [of 0 b]
    by (auto simp: RouteError_ok_def RouteError_encode_def list_all_iff)
qed

subsection \<open>Properties\<close>

text \<open>C33. Route messages: the decoders of route requests, replies and errors accept exactly the
  encodings of the well-formed messages, and return the message that was encoded.\<close>

theorem route_messages_canonical:
  "(RouteRequest_decode b = Inr rq \<longleftrightarrow> RouteRequest_ok rq \<and> b = RouteRequest_encode rq) \<and>
   (RouteReply_decode b = Inr rp \<longleftrightarrow> RouteReply_ok rp \<and> b = RouteReply_encode rp) \<and>
   (RouteError_decode b = Inr re \<longleftrightarrow> RouteError_ok re \<and> b = RouteError_encode re)"
  using rreq.dec_iff rrep.dec_iff rerr.dec_iff by blast

end
