(* ===== verification/Beacon.thy ===== *)
theory Beacon
  imports Wire
begin

section \<open>Beacons (\<open>neighbor/beacon.rs\<close>)\<close>

text \<open>
  The beacon payload and its codec, with the signature of a full beacon. The parser keeps the
  slice from its position on (\<open>rest\<close>) in place of the position.
\<close>

definition FLAG_FULL :: u8 where "FLAG_FULL = flag 0"
definition FLAG_ZONE :: u8 where "FLAG_ZONE = flag 1"
definition FLAG_ATTACHED :: u8 where "FLAG_ATTACHED = flag 2"
definition FLAG_MAILBOX :: u8 where "FLAG_MAILBOX = flag 3"
definition ZONE_ENTRY_LEN :: nat where "ZONE_ENTRY_LEN = 11"
definition FIXED_LEN :: nat where "FIXED_LEN = 11"
definition FULL_LEN :: nat where "FULL_LEN = 32 + 4 + 64"

definition SIGN_DOMAIN :: bytes where
  "SIGN_DOMAIN = str_bytes ''MeshStar/beacon/v1''"

definition zflag_LEAF :: u8 where "zflag_LEAF = flag 0"
definition zflag_ANCHOR :: u8 where "zflag_ANCHOR = flag 1"
definition zflag_SLEEPING :: u8 where "zflag_SLEEPING = flag 2"

record zone_entry =
  ze_addr :: address
  ze_distance :: u8
  ze_quality :: u8
  ze_flags :: u8

record full_identity =
  fi_public_key :: bytes
  fi_timestamp :: u32
  fi_signature :: bytes

record beacon =
  bc_role :: role
  bc_seq :: u16
  bc_zone_radius :: u8
  bc_neighbor_count :: u8
  bc_battery_percent :: u8
  bc_sleep_interval_s :: u16
  bc_awake_window_ms :: u16
  bc_mailbox_available :: bool
  bc_full :: "full_identity option"
  bc_attached :: "address list"
  bc_zone :: "zone_entry list"

definition Beacon_short :: "role \<Rightarrow> u16 \<Rightarrow> u8 \<Rightarrow> u8 \<Rightarrow> beacon" where
  "Beacon_short role seq zone_radius neighbor_count =
     \<lparr>bc_role = role, bc_seq = seq, bc_zone_radius = zone_radius, bc_neighbor_count = neighbor_count,
      bc_battery_percent = 255, bc_sleep_interval_s = 0, bc_awake_window_ms = 0,
      bc_mailbox_available = False, bc_full = None, bc_attached = [], bc_zone = []\<rparr>"

definition Beacon_signed_bytes :: "address \<Rightarrow> bytes \<Rightarrow> u16 \<Rightarrow> u32 \<Rightarrow> role \<Rightarrow> bytes" where
  "Beacon_signed_bytes addr pk seq timestamp role =
     SIGN_DOMAIN @ Address_as_bytes addr @ pk @ be16 seq @ be32 timestamp @ [Role_to_u8 role]"

definition Beacon_sign :: "crypto \<Rightarrow> identity \<Rightarrow> u32 \<Rightarrow> beacon \<Rightarrow> beacon" where
  "Beacon_sign c ident timestamp b =
     (let pk = pid_verifying (id_public ident);
          msg = Beacon_signed_bytes (Identity_address ident) pk (bc_seq b) timestamp (bc_role b)
      in b\<lparr>bc_full := Some \<lparr>fi_public_key = pk, fi_timestamp = timestamp,
                            fi_signature = Identity_sign c ident msg\<rparr>\<rparr>)"

definition Beacon_full :: "crypto \<Rightarrow> identity \<Rightarrow> role \<Rightarrow> u16 \<Rightarrow> u8 \<Rightarrow> u8 \<Rightarrow> u32 \<Rightarrow> beacon" where
  "Beacon_full c ident role seq zone_radius neighbor_count timestamp =
     Beacon_sign c ident timestamp (Beacon_short role seq zone_radius neighbor_count)"

definition Beacon_verify_signature :: "crypto \<Rightarrow> address \<Rightarrow> public_identity \<Rightarrow> beacon \<Rightarrow> unit result" where
  "Beacon_verify_signature c src pid b =
     res_bind (ok_or (bc_full b) NotFound) (\<lambda>full.
       let msg = Beacon_signed_bytes src (fi_public_key full) (bc_seq b) (fi_timestamp full) (bc_role b)
       in PublicIdentity_verify c pid msg (fi_signature full))"

definition Beacon_encoded_len :: "beacon \<Rightarrow> nat" where
  "Beacon_encoded_len b =
     FIXED_LEN + (if bc_full b \<noteq> None then FULL_LEN else 0)
     + (if bc_attached b = [] then 0 else 1 + 8 * length (bc_attached b))
     + (if bc_zone b = [] then 0 else 1 + ZONE_ENTRY_LEN * length (bc_zone b))"

definition write_zone :: "zone_entry list \<Rightarrow> bytes" where
  "write_zone zs =
     concat (map (\<lambda>z. Address_as_bytes (ze_addr z) @ [ze_distance z, ze_quality z, ze_flags z]) zs)"

definition Beacon_flags :: "beacon \<Rightarrow> u8" where
  "Beacon_flags b =
     (((0 OR (if bc_full b \<noteq> None then FLAG_FULL else 0))
        OR (if bc_zone b \<noteq> [] then FLAG_ZONE else 0))
        OR (if bc_attached b \<noteq> [] then FLAG_ATTACHED else 0))
        OR (if bc_mailbox_available b then FLAG_MAILBOX else 0)"

definition write_full :: "full_identity option \<Rightarrow> bytes" where
  "write_full f = (case f of
     Some f \<Rightarrow> fi_public_key f @ be32 (fi_timestamp f) @ fi_signature f | None \<Rightarrow> [])"

definition Beacon_encode :: "beacon \<Rightarrow> bytes" where
  "Beacon_encode b =
     [Beacon_flags b, Role_to_u8 (bc_role b)] @ be16 (bc_seq b) @
     [bc_zone_radius b, bc_neighbor_count b, bc_battery_percent b] @
     be16 (bc_sleep_interval_s b) @ be16 (bc_awake_window_ms b) @
     write_full (bc_full b) @
     (if bc_attached b \<noteq> [] then of_nat (length (bc_attached b)) # write_addrs (bc_attached b) else []) @
     (if bc_zone b \<noteq> [] then of_nat (length (bc_zone b)) # write_zone (bc_zone b) else [])"

definition read_full :: "u8 \<Rightarrow> bytes \<Rightarrow> (full_identity option \<times> bytes) result" where
  "read_full flags rest =
     (if flags AND FLAG_FULL \<noteq> 0
      then if length rest < FULL_LEN then Inl Truncated
           else Inr (Some \<lparr>fi_public_key = take 32 rest, fi_timestamp = rd32 rest 32,
                          fi_signature = take 64 (drop 36 rest)\<rparr>, drop FULL_LEN rest)
      else Inr (None, rest))"

definition read_attached :: "u8 \<Rightarrow> bytes \<Rightarrow> (address list \<times> bytes) result" where
  "read_attached flags rest =
     (if flags AND FLAG_ATTACHED \<noteq> 0
      then if length rest < 1 then Inl Truncated
           else let n = unat (rest ! 0); rest' = drop 1 rest
                in if length rest' < n * 8 then Inl Truncated else read_addrs n rest'
      else Inr ([], rest))"

fun read_entries :: "nat \<Rightarrow> bytes \<Rightarrow> (zone_entry list \<times> bytes) result" where
  "read_entries 0 r = Inr ([], r)"
| "read_entries (Suc n) r =
     res_bind (Address_from_bytes (take 8 r)) (\<lambda>addr.
       let distance = r ! 8 in
       if Address_is_null addr \<or> Address_is_broadcast addr \<or> distance = 0 \<or> distance > 4
       then Inl BadField
       else res_bind (read_entries n (drop ZONE_ENTRY_LEN r)) (\<lambda>(zs, r').
         Inr (\<lparr>ze_addr = addr, ze_distance = distance, ze_quality = r ! 9, ze_flags = r ! 10\<rparr> # zs, r')))"

definition read_zone :: "u8 \<Rightarrow> bytes \<Rightarrow> (zone_entry list \<times> bytes) result" where
  "read_zone flags rest =
     (if flags AND FLAG_ZONE \<noteq> 0
      then if length rest < 1 then Inl Truncated
           else let n = unat (rest ! 0); rest' = drop 1 rest
                in if length rest' < n * ZONE_ENTRY_LEN then Inl Truncated else read_entries n rest'
      else Inr ([], rest))"

definition Beacon_decode :: "bytes \<Rightarrow> beacon result" where
  "Beacon_decode b =
     (if length b < FIXED_LEN then Inl Truncated
      else let flags = b ! 0 in
        res_bind (ok_or (Role_from_u8 (b ! 1)) BadField) (\<lambda>role.
        if b ! 4 > 4 then Inl BadField
        else
          res_bind (read_full flags (drop FIXED_LEN b)) (\<lambda>(full, rest1).
          res_bind (read_attached flags rest1) (\<lambda>(attached, rest2).
          res_bind (read_zone flags rest2) (\<lambda>(zone, rest3).
            if rest3 \<noteq> [] then Inl BadField
            else Inr \<lparr>bc_role = role, bc_seq = rd16 b 2, bc_zone_radius = b ! 4,
                      bc_neighbor_count = b ! 5, bc_battery_percent = b ! 6,
                      bc_sleep_interval_s = rd16 b 7, bc_awake_window_ms = rd16 b 9,
                      bc_mailbox_available = (flags AND FLAG_MAILBOX \<noteq> 0),
                      bc_full = full, bc_attached = attached, bc_zone = zone\<rparr>)))))"

subsection \<open>Codec\<close>

definition zone_entry_ok :: "zone_entry \<Rightarrow> bool" where
  "zone_entry_ok z \<longleftrightarrow> addr_valid (ze_addr z) \<and> 0 < ze_distance z \<and> ze_distance z \<le> 4"

definition Beacon_ok :: "beacon \<Rightarrow> bool" where
  "Beacon_ok b \<longleftrightarrow>
     bc_zone_radius b \<le> 4 \<and>
     (case bc_full b of Some f \<Rightarrow> length (fi_public_key f) = 32 \<and> length (fi_signature f) = 64 | None \<Rightarrow> True) \<and>
     length (bc_attached b) < 256 \<and> list_all addr_valid (bc_attached b) \<and>
     length (bc_zone b) < 256 \<and> list_all zone_entry_ok (bc_zone b)"

lemma Beacon_flags_bits:
  "Beacon_flags b AND FLAG_FULL \<noteq> 0 \<longleftrightarrow> bc_full b \<noteq> None"
  "Beacon_flags b AND FLAG_ZONE \<noteq> 0 \<longleftrightarrow> bc_zone b \<noteq> []"
  "Beacon_flags b AND FLAG_ATTACHED \<noteq> 0 \<longleftrightarrow> bc_attached b \<noteq> []"
  "Beacon_flags b AND FLAG_MAILBOX \<noteq> 0 \<longleftrightarrow> bc_mailbox_available b"
  by (auto simp: Beacon_flags_def FLAG_FULL_def FLAG_ZONE_def FLAG_ATTACHED_def FLAG_MAILBOX_def
      and_flag bit_or_iff bit_flag)

lemma length_write_zone [simp]: "length (write_zone zs) = 11 * length zs"
  by (induction zs) (simp_all add: write_zone_def)

lemma read_write_entries:
  "list_all zone_entry_ok zs \<Longrightarrow> read_entries (length zs) (write_zone zs @ r) = Inr (zs, r)"
  by (induction zs)
    (auto simp: write_zone_def zone_entry_ok_def addr_valid_def ZONE_ENTRY_LEN_def nth_append Let_def)

lemma read_full_write:
  assumes "case f of Some f \<Rightarrow> length (fi_public_key f) = 32 \<and> length (fi_signature f) = 64 | None \<Rightarrow> True"
    and "(flags AND FLAG_FULL \<noteq> 0) = (f \<noteq> None)"
  shows "read_full flags (write_full f @ r) = Inr (f, r)"
  using assms by (cases f) (auto simp: read_full_def write_full_def FULL_LEN_def wire)

lemma read_attached_write:
  assumes "list_all addr_valid as" "length as < 256" "(flags AND FLAG_ATTACHED \<noteq> 0) = (as \<noteq> [])"
  shows "read_attached flags ((if as \<noteq> [] then of_nat (length as) # write_addrs as else []) @ r) = Inr (as, r)"
  using assms read_write_addrs [of as r]
  by (auto simp: read_attached_def list_all_iff unat_of_nat Let_def)

lemma read_zone_write:
  assumes "list_all zone_entry_ok zs" "length zs < 256" "(flags AND FLAG_ZONE \<noteq> 0) = (zs \<noteq> [])"
  shows "read_zone flags ((if zs \<noteq> [] then of_nat (length zs) # write_zone zs else []) @ r) = Inr (zs, r)"
  using assms read_write_entries [of zs r]
  by (auto simp: read_zone_def unat_of_nat ZONE_ENTRY_LEN_def Let_def)

lemma Beacon_decode_encode:
  assumes ok: "Beacon_ok b" shows "Beacon_decode (Beacon_encode b) = Inr b"
proof -
  let ?A = "if bc_attached b \<noteq> [] then of_nat (length (bc_attached b)) # write_addrs (bc_attached b) else []"
  let ?Z = "if bc_zone b \<noteq> [] then of_nat (length (bc_zone b)) # write_zone (bc_zone b) else []"
  let ?fixed = "[Beacon_flags b, Role_to_u8 (bc_role b)] @ be16 (bc_seq b) @
     [bc_zone_radius b, bc_neighbor_count b, bc_battery_percent b] @
     be16 (bc_sleep_interval_s b) @ be16 (bc_awake_window_ms b)"
  have enc: "Beacon_encode b = ?fixed @ write_full (bc_full b) @ ?A @ ?Z"
    by (simp add: Beacon_encode_def)
  have fixed: "length ?fixed = 11" by simp
  have nths: "(?fixed @ t) ! 0 = Beacon_flags b" "(?fixed @ t) ! 1 = Role_to_u8 (bc_role b)"
    "rd16 (?fixed @ t) 2 = bc_seq b" "(?fixed @ t) ! 4 = bc_zone_radius b" "(?fixed @ t) ! 5 = bc_neighbor_count b"
    "(?fixed @ t) ! 6 = bc_battery_percent b" "rd16 (?fixed @ t) 7 = bc_sleep_interval_s b"
    "rd16 (?fixed @ t) 9 = bc_awake_window_ms b" "drop 11 (?fixed @ t) = t" for t
    by (simp_all add: wire nth_append nth_Cons')
  have "read_full (Beacon_flags b) (write_full (bc_full b) @ ?A @ ?Z) = Inr (bc_full b, ?A @ ?Z)"
    "read_attached (Beacon_flags b) (?A @ ?Z) = Inr (bc_attached b, ?Z)"
    "read_zone (Beacon_flags b) (?Z @ []) = Inr (bc_zone b, [])"
    using ok Beacon_flags_bits [of b]
    by (intro read_full_write read_attached_write read_zone_write; simp add: Beacon_ok_def)+
  then show ?thesis
    using ok Beacon_flags_bits(4) [of b] fixed unfolding enc Beacon_decode_def FIXED_LEN_def nths Let_def
    by (simp add: Beacon_ok_def not_less)
qed

lemma u8_nat_less [simp]: "unat (w :: u8) < 256"
  using unsigned_less [of w, where 'a = nat] by simp

lemma read_entries_ok:
  "read_entries n r = Inr (zs, r') \<Longrightarrow> n * 11 \<le> length r \<Longrightarrow> length zs = n \<and> list_all zone_entry_ok zs"
proof (induction n arbitrary: r zs)
  case (Suc n)
  have a: "Address_from_bytes (take 8 r) = Inr (rd_addr r 0)"
    using Suc.prems(2) by (simp add: Address_from_bytes_take)
  obtain z zs' where zs: "zs = z # zs'" "zone_entry_ok z" "read_entries n (drop 11 r) = Inr (zs', r')"
    using Suc.prems(1)
    by (auto simp: a ZONE_ENTRY_LEN_def zone_entry_ok_def addr_valid_def Let_def res_bind_Inr_iff not_less
        word_gt_0 split: if_split_asm)
  then show ?case using Suc.IH [OF zs(3)] Suc.prems(2) by simp
qed simp

lemma read_full_ok:
  "read_full flags r = Inr (f, r') \<Longrightarrow>
     case f of Some f \<Rightarrow> length (fi_public_key f) = 32 \<and> length (fi_signature f) = 64 | None \<Rightarrow> True"
  by (auto simp: read_full_def FULL_LEN_def split: if_split_asm)

lemma read_attached_ok:
  "read_attached flags r = Inr (as, r') \<Longrightarrow> length as < 256 \<and> list_all addr_valid as"
  using read_addrs_Inr(1,2) [of "unat (r ! 0)" "drop 1 r" as r']
  by (auto simp: read_attached_def list_all_iff Let_def mult.commute split: if_split_asm)

lemma read_zone_ok:
  "read_zone flags r = Inr (zs, r') \<Longrightarrow> length zs < 256 \<and> list_all zone_entry_ok zs"
  using read_entries_ok [of "unat (r ! 0)" "drop 1 r" zs r']
  by (auto simp: read_zone_def ZONE_ENTRY_LEN_def Let_def split: if_split_asm)

lemma Beacon_decode_ok: "Beacon_decode b = Inr x \<Longrightarrow> Beacon_ok x"
  unfolding Beacon_decode_def Let_def
  by (auto simp: Beacon_ok_def res_bind_Inr_iff not_less dest: read_full_ok read_attached_ok read_zone_ok
      split: if_split_asm)

interpretation bcn: codec Beacon_encode Beacon_decode Beacon_ok
  using Beacon_decode_encode Beacon_decode_ok by unfold_locales

lemma Beacon_encode_length:
  "Beacon_ok b \<Longrightarrow> length (Beacon_encode b) = Beacon_encoded_len b"
  by (auto simp: Beacon_encode_def Beacon_encoded_len_def write_full_def Beacon_ok_def FIXED_LEN_def FULL_LEN_def
      ZONE_ENTRY_LEN_def split: option.splits)

lemma Beacon_sign_ok:
  assumes "sign_law c" "Identity_from_seed c seed = Some ident" "Beacon_ok b"
  shows "Beacon_ok (Beacon_sign c ident ts b)"
    "Beacon_verify_signature c (Identity_address ident) (id_public ident) (Beacon_sign c ident ts b) = Inr ()"
proof -
  have "id_signing ident = seed" "pid_verifying (id_public ident) = ed_public c seed"
    using assms(1,2) by (metis Identity_from_seed_ok option.inject)+
  then show "Beacon_ok (Beacon_sign c ident ts b)"
    "Beacon_verify_signature c (Identity_address ident) (id_public ident) (Beacon_sign c ident ts b) = Inr ()"
    using assms(1,3)
    by (simp_all add: Beacon_ok_def Beacon_sign_def Beacon_verify_signature_def PublicIdentity_verify_def
        Identity_sign_def sign_law_def Let_def)
qed

subsection \<open>Properties\<close>

text \<open>C34. Signed beacons: a well-formed beacon that its sender signed is decoded from its encoding
  unchanged, its signature verifies under the sender's address and identity, and the encoding has the
  announced length.\<close>

theorem beacon_signed_roundtrip:
  assumes "sign_law c" "Identity_from_seed c seed = Some ident" "Beacon_ok b"
  shows "let s = Beacon_sign c ident ts b in
    Beacon_decode (Beacon_encode s) = Inr s \<and>
    Beacon_verify_signature c (Identity_address ident) (id_public ident) s = Inr () \<and>
    length (Beacon_encode s) = Beacon_encoded_len s"
  using Beacon_sign_ok [OF assms] Beacon_decode_encode Beacon_encode_length by (simp add: Let_def)

theorem beacon_signed_roundtrip_witness:
  "\<exists>ident. Identity_from_seed demo_crypto [1] = Some ident \<and>
     (let s = Beacon_sign demo_crypto ident 5 (Beacon_short Normal 1 2 3) in
       Beacon_decode (Beacon_encode s) = Inr s \<and>
       Beacon_verify_signature demo_crypto (Identity_address ident) (id_public ident) s = Inr () \<and>
       length (Beacon_encode s) = Beacon_encoded_len s)"
proof -
  obtain ident where "Identity_from_seed demo_crypto [1] = Some ident"
    using Identity_from_seed_ok [OF demo_crypto_laws(4), of "[1]"] by blast
  moreover have "Beacon_ok (Beacon_short Normal 1 2 3)" by (simp add: Beacon_ok_def Beacon_short_def)
  ultimately show ?thesis using beacon_signed_roundtrip [OF demo_crypto_laws(4)] by blast
qed

end
