(* ===== verification/Radio.thy ===== *)
theory Radio
  imports F32 "HOL-Library.Monad_Syntax"
begin

section \<open>Radio abstraction (\<open>radio/mod.rs\<close>)\<close>

text \<open>
  The modem profile with its derived timings, and the metadata delivered with a frame. The
  signed quantities (\<open>i8\<close>, \<open>i16\<close>, \<open>i32\<close>) are integers: for frames of at most 255 bytes none
  of the intermediate results leaves its type. A division by zero panics, which is \<open>None\<close>; a shift
  takes its distance modulo the width, as the release build does. The driver trait has no code of its own.
\<close>

record lora_profile =
  lp_frequency_hz :: u32
  lp_bandwidth_hz :: u32
  lp_spreading_factor :: u8
  lp_coding_rate :: u8
  lp_sync_word :: u8
  lp_preamble_symbols :: u16
  lp_crc :: bool
  lp_implicit_header :: bool
  lp_tx_power_dbm :: int

definition MESHSTAR_EU868 :: lora_profile where
  "MESHSTAR_EU868 =
     \<lparr>lp_frequency_hz = 869525000, lp_bandwidth_hz = 125000, lp_spreading_factor = 8,
      lp_coding_rate = 5, lp_sync_word = 0x1A, lp_preamble_symbols = 32, lp_crc = True,
      lp_implicit_header = False, lp_tx_power_dbm = 14\<rparr>"

definition MESHSTAR_US915 :: lora_profile where
  "MESHSTAR_US915 = MESHSTAR_EU868\<lparr>lp_frequency_hz := 915000000, lp_tx_power_dbm := 20\<rparr>"

definition MESHSTAR_EU868_LONG :: lora_profile where
  "MESHSTAR_EU868_LONG = MESHSTAR_EU868\<lparr>lp_spreading_factor := 10, lp_coding_rate := 6\<rparr>"

definition MESHSTAR_EU868_FAST :: lora_profile where
  "MESHSTAR_EU868_FAST = MESHSTAR_EU868\<lparr>lp_spreading_factor := 7, lp_bandwidth_hz := 250000\<rparr>"

definition LoRaProfile_sync_word_sx126x :: "lora_profile \<Rightarrow> u16" where
  "LoRaProfile_sync_word_sx126x p =
     (let hi = (ucast (drop_bit 4 (lp_sync_word p)) :: u16);
          lo = (ucast (lp_sync_word p AND 0x0F) :: u16)
      in push_bit 12 hi OR push_bit 8 0x4 OR push_bit 4 lo OR 0x4)"

definition checked_div :: "u64 \<Rightarrow> u64 \<Rightarrow> u64 option" where
  "checked_div a b = (if b = 0 then None else Some (a div b))"

definition LoRaProfile_symbol_time_us :: "lora_profile \<Rightarrow> u32 option" where
  "LoRaProfile_symbol_time_us p =
     map_option ucast (checked_div (push_bit (unat (lp_spreading_factor p) mod 64) (1 :: u64) * 1000000)
       (ucast (lp_bandwidth_hz p)))"

definition LoRaProfile_low_data_rate_optimize :: "lora_profile \<Rightarrow> bool option" where
  "LoRaProfile_low_data_rate_optimize p = map_option (\<lambda>t. t > 16000) (LoRaProfile_symbol_time_us p)"

text \<open>\<open>div_euclid\<close>: the remainder is never negative, whatever the sign of the divisor.\<close>

definition div_euclid :: "int \<Rightarrow> int \<Rightarrow> int option" where
  "div_euclid a b = (if b = 0 then None else Some (if b > 0 then a div b else - (a div (- b))))"

definition LoRaProfile_payload_symbols :: "lora_profile \<Rightarrow> nat \<Rightarrow> int option" where
  "LoRaProfile_payload_symbols p len = do {
     let sf = int (unat (lp_spreading_factor p));
     ldro \<leftarrow> LoRaProfile_low_data_rate_optimize p;
     let de = (if ldro then 1 else 0);
     let ih = (if lp_implicit_header p then 1 else 0);
     let crc = (if lp_crc p then 1 else 0);
     let cr = min (max (int (unat (lp_coding_rate p)) - 4) 1) 4;
     let num = 8 * int len - 4 * sf + 28 + 16 * crc - 20 * ih;
     let den = 4 * (sf - 2 * de);
     q \<leftarrow> div_euclid (num + den - 1) den;
     Some (8 + max q 0 * (cr + 4)) }"

definition LoRaProfile_airtime_us :: "lora_profile \<Rightarrow> nat \<Rightarrow> u32 option" where
  "LoRaProfile_airtime_us p len = do {
     payload_symbols \<leftarrow> LoRaProfile_payload_symbols p len;
     t \<leftarrow> LoRaProfile_symbol_time_us p;
     let ts = (ucast t :: u64);
     let preamble = (ucast (lp_preamble_symbols p) * 4 + 17) * ts div 4;
     Some (ucast (preamble + of_int payload_symbols * ts)) }"

definition LoRaProfile_airtime_ms :: "lora_profile \<Rightarrow> nat \<Rightarrow> u32 option" where
  "LoRaProfile_airtime_ms p len =
     map_option (\<lambda>us. of_nat ((unat us + 999) div 1000)) (LoRaProfile_airtime_us p len)"

definition LoRaProfile_bitrate_bps :: "lora_profile \<Rightarrow> u32 option" where
  "LoRaProfile_bitrate_bps p =
     map_option ucast (checked_div ((ucast (lp_spreading_factor p) :: u64) * ucast (lp_bandwidth_hz p) * 4)
        (push_bit (unat (lp_spreading_factor p) mod 64) 1 * ucast (lp_coding_rate p)))"

definition LoRaProfile_demod_snr_db :: "lora_profile \<Rightarrow> f32" where
  "LoRaProfile_demod_snr_db p =
     (let sf = lp_spreading_factor p in
      if sf = 5 then - 5 / 2 else if sf = 6 then - 5 else if sf = 7 then - 15 / 2
      else if sf = 8 then - 10 else if sf = 9 then - 25 / 2 else if sf = 10 then - 15
      else if sf = 11 then - 35 / 2 else - 20)"

text \<open>Integer division of the source truncates towards zero.\<close>

definition tdiv :: "int \<Rightarrow> int \<Rightarrow> int" where
  "tdiv a b = sgn a * sgn b * (\<bar>a\<bar> div \<bar>b\<bar>)"

definition LoRaProfile_sensitivity_dbm :: "lora_profile \<Rightarrow> int" where
  "LoRaProfile_sensitivity_dbm p =
     (let b = lp_bandwidth_hz p;
          base = (if b \<le> 62500 then - 129 else if b \<le> 125000 then - 126
                  else if b \<le> 250000 then - 123 else - 120)
      in base - tdiv ((int (unat (lp_spreading_factor p)) - 7) * 5) 2 + 5)"

record rx_meta =
  rm_rssi_dbm :: int
  rm_snr_db :: f32
  rm_timestamp_ms :: time
  rm_freq_error_hz :: int

definition RxMeta_new :: "int \<Rightarrow> f32 \<Rightarrow> time \<Rightarrow> rx_meta" where
  "RxMeta_new rssi_dbm snr_db timestamp_ms =
     \<lparr>rm_rssi_dbm = rssi_dbm, rm_snr_db = snr_db, rm_timestamp_ms = timestamp_ms, rm_freq_error_hz = 0\<rparr>"

subsection \<open>Airtime\<close>

text \<open>
  The profiles whose airtime can be computed: the bandwidth is not zero, nor is the divisor of the
  number of symbols. With a spreading factor of at least 5, as the radios have, only the bandwidth
  matters. Whether the computation panics does not depend on the length of the frame.
\<close>

definition LoRaProfile_ok :: "lora_profile \<Rightarrow> bool" where
  "LoRaProfile_ok p \<longleftrightarrow> lp_bandwidth_hz p \<noteq> 0 \<and>
     (if LoRaProfile_low_data_rate_optimize p = Some True then lp_spreading_factor p \<noteq> 2
      else lp_spreading_factor p \<noteq> 0)"

lemma ucast_u64_eq_0: "(ucast (x :: u32) :: u64) = 0 \<longleftrightarrow> x = 0"
  by transfer simp

lemma symbol_time_Some: "lp_bandwidth_hz p \<noteq> 0 \<longleftrightarrow> (\<exists>t. LoRaProfile_symbol_time_us p = Some t)"
  by (simp add: LoRaProfile_symbol_time_us_def checked_div_def ucast_u64_eq_0)

lemma airtime_us_Some_iff: "(\<exists>t. LoRaProfile_airtime_us p len = Some t) \<longleftrightarrow> LoRaProfile_ok p"
proof (cases "LoRaProfile_symbol_time_us p")
  case None
  then show ?thesis
    using symbol_time_Some [of p] by (auto simp: LoRaProfile_airtime_us_def LoRaProfile_ok_def)
next
  case (Some t)
  let ?sf = "lp_spreading_factor p"
  have "?sf = 2 \<longleftrightarrow> uint ?sf = 2" "?sf = 0 \<longleftrightarrow> uint ?sf = 0" by (auto simp: word_uint_eq_iff)
  then show ?thesis
    using Some symbol_time_Some [of p]
    by (auto simp: LoRaProfile_airtime_us_def LoRaProfile_payload_symbols_def LoRaProfile_low_data_rate_optimize_def
        LoRaProfile_ok_def div_euclid_def Let_def split: if_splits)
qed

lemma airtime_ms_Some:
  assumes "LoRaProfile_ok p"
  obtains t where "LoRaProfile_airtime_ms p len = Some t"
  using assms airtime_us_Some_iff [of p len] by (auto simp: LoRaProfile_airtime_ms_def)

lemma airtime_ms_None: "LoRaProfile_airtime_ms p len = None \<longleftrightarrow> \<not> LoRaProfile_ok p"
  using airtime_us_Some_iff [of p len] by (cases "LoRaProfile_airtime_us p len") (auto simp: LoRaProfile_airtime_ms_def)

lemma default_profile_ok: "LoRaProfile_ok MESHSTAR_EU868"
  by (simp add: LoRaProfile_ok_def MESHSTAR_EU868_def)

end
