(* ===== verification/Neighbor.thy ===== *)
theory Neighbor
  imports Beacon Radio SmallMap
begin

section \<open>Neighbour table (\<open>neighbor/mod.rs\<close>)\<close>

text \<open>
  Direct neighbours, their link quality and the observation of beacons, in the build without the
  feature \<open>tiny\<close>, which verifies the identity part of full beacons. Link quality is computed in
  single precision.
\<close>

record neighbor_config =
  nc_beacon_interval_ms :: time
  nc_beacon_jitter_ms :: time
  nc_full_beacon_every :: u8
  nc_timeout_intervals :: u8
  nc_max_neighbors :: nat
  nc_ewma_alpha :: f32
  nc_snr_floor_db :: f32

definition NeighborConfig_default :: neighbor_config where
  "NeighborConfig_default =
     \<lparr>nc_beacon_interval_ms = 120000, nc_beacon_jitter_ms = 20000, nc_full_beacon_every = 6,
      nc_timeout_intervals = 4, nc_max_neighbors = 48, nc_ewma_alpha = rnd32 (3 / 10), nc_snr_floor_db = - 10\<rparr>"

record neighbor =
  nb_addr :: address
  nb_role :: role
  nb_identity :: "public_identity option"
  nb_first_seen :: time
  nb_last_seen :: time
  nb_last_beacon_seq :: "u16 option"
  nb_beacons_received :: u32
  nb_beacons_expected :: u32
  nb_rssi_dbm :: f32
  nb_snr_db :: f32
  nb_advertised_neighbors :: u8
  nb_zone_radius :: u8
  nb_battery_percent :: u8
  nb_sleep_interval_s :: u16
  nb_awake_until :: "time option"
  nb_attached :: "address list"
  nb_attached_to_me :: bool
  nb_packets :: u32
  nb_failures :: u8
  nb_snr_floor_db :: f32
  nb_tx_attempts :: u32
  nb_tx_confirmed :: u32

definition Neighbor_new :: "address \<Rightarrow> role \<Rightarrow> time \<Rightarrow> rx_meta \<Rightarrow> neighbor" where
  "Neighbor_new addr role now meta =
     \<lparr>nb_addr = addr, nb_role = role, nb_identity = None, nb_first_seen = now, nb_last_seen = now,
      nb_last_beacon_seq = None, nb_beacons_received = 0, nb_beacons_expected = 0,
      nb_rssi_dbm = f32_of_int (rm_rssi_dbm meta), nb_snr_db = rm_snr_db meta,
      nb_advertised_neighbors = 0, nb_zone_radius = 0, nb_battery_percent = 255,
      nb_sleep_interval_s = 0, nb_awake_until = None, nb_attached = [], nb_attached_to_me = False,
      nb_packets = 0, nb_failures = 0, nb_snr_floor_db = - 10, nb_tx_attempts = 0, nb_tx_confirmed = 0\<rparr>"

definition Neighbor_delivery_ratio :: "neighbor \<Rightarrow> f32" where
  "Neighbor_delivery_ratio n =
     f32_clamp (f32_div (f32_add (f32_of_nat (unat (nb_beacons_received n))) 1)
                        (f32_add (f32_of_nat (unat (nb_beacons_expected n))) 2))
       (rnd32 (5 / 100)) 1"

definition Neighbor_snr_margin_db :: "neighbor \<Rightarrow> f32" where
  "Neighbor_snr_margin_db n = f32_sub (nb_snr_db n) (nb_snr_floor_db n)"

definition Neighbor_etx :: "neighbor \<Rightarrow> f32" where
  "Neighbor_etx n =
     f32_div (f32_add (f32_of_nat (unat (nb_tx_attempts n))) 4)
             (f32_add (f32_of_nat (unat (nb_tx_confirmed n))) 4)"

definition Neighbor_link_quality :: "neighbor \<Rightarrow> u8" where
  "Neighbor_link_quality n =
     (let margin = f32_clamp (f32_div (Neighbor_snr_margin_db n) 12) 0 1;
          dr = Neighbor_delivery_ratio n;
          fail = f32_sub 1 (min (f32_mul (f32_of_nat (unat (nb_failures n))) (rnd32 (15 / 100))) (rnd32 (8 / 10)));
          etx = f32_clamp (f32_div 1 (Neighbor_etx n)) (rnd32 (1 / 10)) 1;
          q = f32_mul (f32_add (f32_add (f32_mul (rnd32 (45 / 100)) margin) (f32_mul (rnd32 (35 / 100)) dr))
                               (f32_mul (rnd32 (2 / 10)) etx)) fail
      in f32_to_u8 (f32_mul (f32_clamp q 0 1) 255))"

definition Neighbor_record_tx_attempt :: "neighbor \<Rightarrow> neighbor" where
  "Neighbor_record_tx_attempt n =
     (let attempts = sat_add (nb_tx_attempts n) 1
      in if attempts > 200
         then n\<lparr>nb_tx_attempts := attempts div 2, nb_tx_confirmed := nb_tx_confirmed n div 2\<rparr>
         else n\<lparr>nb_tx_attempts := attempts\<rparr>)"

definition Neighbor_record_tx_confirmed :: "neighbor \<Rightarrow> neighbor" where
  "Neighbor_record_tx_confirmed n =
     n\<lparr>nb_tx_confirmed := min (sat_add (nb_tx_confirmed n) 1) (nb_tx_attempts n)\<rparr>"

definition Neighbor_is_leaf :: "neighbor \<Rightarrow> bool" where
  "Neighbor_is_leaf n \<longleftrightarrow> nb_role n = Leaf"

definition Neighbor_is_sleeping :: "time \<Rightarrow> neighbor \<Rightarrow> bool" where
  "Neighbor_is_sleeping now n \<longleftrightarrow>
     Neighbor_is_leaf n \<and> (case nb_awake_until n of Some t \<Rightarrow> now > t | None \<Rightarrow> True)"

record beacon_observation =
  bo_is_new :: bool
  bo_identity_verified :: bool
  bo_identity_rejected :: bool

record neighbor_table =
  nt_cfg :: neighbor_config
  nt_map :: "(address, neighbor) small_map"
  nt_rejected_beacons :: u32

definition NeighborTable_new :: "neighbor_config \<Rightarrow> neighbor_table" where
  "NeighborTable_new cfg = \<lparr>nt_cfg = cfg, nt_map = SmallMap_new, nt_rejected_beacons = 0\<rparr>"

definition NeighborTable_len :: "neighbor_table \<Rightarrow> nat" where
  "NeighborTable_len t = length (nt_map t)"

definition NeighborTable_get :: "neighbor_table \<Rightarrow> address \<Rightarrow> neighbor option" where
  "NeighborTable_get t a = SmallMap_get (nt_map t) a"

definition NeighborTable_update :: "address \<Rightarrow> (neighbor \<Rightarrow> neighbor) \<Rightarrow> neighbor_table \<Rightarrow> neighbor_table" where
  "NeighborTable_update a f t = t\<lparr>nt_map := SmallMap_modify (nt_map t) a f\<rparr>"

definition NeighborTable_contains :: "neighbor_table \<Rightarrow> address \<Rightarrow> bool" where
  "NeighborTable_contains t a = SmallMap_contains_key (nt_map t) a"

definition NeighborTable_iter :: "neighbor_table \<Rightarrow> neighbor list" where
  "NeighborTable_iter t = SmallMap_values (nt_map t)"

definition NeighborTable_addresses :: "neighbor_table \<Rightarrow> address list" where
  "NeighborTable_addresses t = SmallMap_keys (nt_map t)"

definition NeighborTable_resolve_short :: "neighbor_table \<Rightarrow> u16 \<Rightarrow> neighbor option" where
  "NeighborTable_resolve_short t short =
     max_by_key Neighbor_link_quality (filter (\<lambda>n. Address_short (nb_addr n) = short) (NeighborTable_iter t))"

definition NeighborTable_timeout_ms :: "neighbor_table \<Rightarrow> u64" where
  "NeighborTable_timeout_ms t =
     (nc_beacon_interval_ms (nt_cfg t) + nc_beacon_jitter_ms (nt_cfg t)) * ucast (nc_timeout_intervals (nt_cfg t))"

text \<open>The check of the identity of a full beacon: the verified identity, or a rejection.\<close>

definition beacon_identity :: "crypto \<Rightarrow> address \<Rightarrow> beacon \<Rightarrow> public_identity option option" where
  "beacon_identity c src b =
     (case bc_full b of
        None \<Rightarrow> Some None
      | Some full \<Rightarrow>
          (case PublicIdentity_from_bytes c (fi_public_key full) of
             Inr ident \<Rightarrow>
               if pid_address ident = src \<and> is_ok (Beacon_verify_signature c src ident b)
               then Some (Some ident) else None
           | Inl _ \<Rightarrow> None))"

text \<open>Making room for a new neighbour: \<open>None\<close> when every link is too good to be dropped.\<close>

definition NeighborTable_make_room :: "neighbor_table \<Rightarrow> (address, neighbor) small_map option" where
  "NeighborTable_make_room t =
     (if length (nt_map t) \<ge> nc_max_neighbors (nt_cfg t)
      then (case min_by_key Neighbor_link_quality (NeighborTable_iter t) of
              Some worst \<Rightarrow>
                if Neighbor_link_quality worst < 64 then Some (sm_del (nt_map t) (nb_addr worst)) else None
            | None \<Rightarrow> Some (nt_map t))
      else Some (nt_map t))"

definition f32_ewma :: "f32 \<Rightarrow> f32 \<Rightarrow> f32 \<Rightarrow> f32" where
  "f32_ewma a old new = f32_add (f32_mul old (f32_sub 1 a)) (f32_mul new a)"

text \<open>What an accepted beacon does to the entry of its sender.\<close>

definition Neighbor_observe_beacon ::
  "f32 \<Rightarrow> time \<Rightarrow> beacon \<Rightarrow> rx_meta \<Rightarrow> address option \<Rightarrow> public_identity option \<Rightarrow> neighbor \<Rightarrow> neighbor" where
  "Neighbor_observe_beacon a now b meta me verified n0 =
     (let n1 = (if verified \<noteq> None then n0\<lparr>nb_identity := verified\<rparr> else n0);
          n2 = n1\<lparr>nb_role := bc_role b, nb_last_seen := now, nb_packets := nb_packets n1 + 1,
                  nb_rssi_dbm := f32_ewma a (nb_rssi_dbm n1) (f32_of_int (rm_rssi_dbm meta)),
                  nb_snr_db := f32_ewma a (nb_snr_db n1) (rm_snr_db meta),
                  nb_advertised_neighbors := bc_neighbor_count b, nb_zone_radius := bc_zone_radius b,
                  nb_battery_percent := bc_battery_percent b,
                  nb_sleep_interval_s := bc_sleep_interval_s b, nb_attached := bc_attached b\<rparr>;
          n3 = (if bc_role b = Leaf
                then n2\<lparr>nb_attached_to_me := (case me of Some m \<Rightarrow> m \<in> set (bc_attached b) | None \<Rightarrow> False)\<rparr>
                else n2);
          restart = n3\<lparr>nb_beacons_expected := 1, nb_beacons_received := 1\<rparr>;
          n4 = (case nb_last_beacon_seq n3 of
                  Some prev \<Rightarrow>
                    let gap = bc_seq b - prev
                    in if gap = 0 then n3
                       else if gap < 64
                       then n3\<lparr>nb_beacons_expected := nb_beacons_expected n3 + ucast gap,
                               nb_beacons_received := nb_beacons_received n3 + 1\<rparr>
                       else restart
                | None \<Rightarrow> restart);
          n5 = n4\<lparr>nb_last_beacon_seq := Some (bc_seq b)\<rparr>;
          n6 = (if bc_role b = Leaf then n5\<lparr>nb_awake_until := Some (now + ucast (bc_awake_window_ms b))\<rparr> else n5)
      in n6\<lparr>nb_failures := sat_sub (nb_failures n6) 1\<rparr>)"

definition NeighborTable_observe_beacon_as ::
  "crypto \<Rightarrow> time \<Rightarrow> address \<Rightarrow> beacon \<Rightarrow> rx_meta \<Rightarrow> address option \<Rightarrow> neighbor_table \<Rightarrow> neighbor_table \<times> beacon_observation" where
  "NeighborTable_observe_beacon_as c now src b meta me t =
     (let obs = \<lparr>bo_is_new = False, bo_identity_verified = False, bo_identity_rejected = False\<rparr> in
      case beacon_identity c src b of
        None \<Rightarrow> (t\<lparr>nt_rejected_beacons := nt_rejected_beacons t + 1\<rparr>, obs\<lparr>bo_identity_rejected := True\<rparr>)
      | Some verified \<Rightarrow>
          let obs1 = obs\<lparr>bo_identity_verified := (verified \<noteq> None)\<rparr>;
              is_new = (\<not> SmallMap_contains_key (nt_map t) src);
              room = (if is_new then NeighborTable_make_room t else Some (nt_map t))
          in (case room of
                None \<Rightarrow> (t, obs1)
              | Some m \<Rightarrow>
                  let m1 = (if is_new
                            then sm_put m src ((Neighbor_new src (bc_role b) now meta)
                                                 \<lparr>nb_snr_floor_db := nc_snr_floor_db (nt_cfg t)\<rparr>)
                            else m);
                      t1 = t\<lparr>nt_map := m1\<rparr>;
                      obs2 = obs1\<lparr>bo_is_new := is_new\<rparr>;
                      known = (case SmallMap_get m1 src of Some n \<Rightarrow> nb_identity n | None \<Rightarrow> None)
                  in if known \<noteq> None \<and> verified \<noteq> None \<and> known \<noteq> verified
                     then (t1\<lparr>nt_rejected_beacons := nt_rejected_beacons t + 1\<rparr>,
                           obs2\<lparr>bo_identity_rejected := True, bo_identity_verified := False\<rparr>)
                     else (NeighborTable_update src
                             (Neighbor_observe_beacon (nc_ewma_alpha (nt_cfg t)) now b meta me verified) t1,
                           obs2)))"

definition NeighborTable_observe_beacon ::
  "crypto \<Rightarrow> time \<Rightarrow> address \<Rightarrow> beacon \<Rightarrow> rx_meta \<Rightarrow> neighbor_table \<Rightarrow> neighbor_table \<times> beacon_observation" where
  "NeighborTable_observe_beacon c now src b meta t = NeighborTable_observe_beacon_as c now src b meta None t"

definition NeighborTable_observe_packet :: "time \<Rightarrow> address \<Rightarrow> rx_meta \<Rightarrow> neighbor_table \<Rightarrow> neighbor_table" where
  "NeighborTable_observe_packet now src meta t =
     NeighborTable_update src (\<lambda>n.
       let a = nc_ewma_alpha (nt_cfg t);
           n1 = n\<lparr>nb_last_seen := now, nb_packets := nb_packets n + 1,
                  nb_rssi_dbm := f32_ewma a (nb_rssi_dbm n) (f32_of_int (rm_rssi_dbm meta)),
                  nb_snr_db := f32_ewma a (nb_snr_db n) (rm_snr_db meta)\<rparr>
       in if Neighbor_is_leaf n1 then n1\<lparr>nb_awake_until := Some (now + 2000)\<rparr> else n1) t"

definition NeighborTable_record_failure :: "address \<Rightarrow> neighbor_table \<Rightarrow> neighbor_table \<times> bool" where
  "NeighborTable_record_failure next_hop t =
     (let t1 = NeighborTable_update next_hop (\<lambda>n. n\<lparr>nb_failures := sat_add (nb_failures n) 1\<rparr>) t
      in (t1, case NeighborTable_get t1 next_hop of Some n \<Rightarrow> nb_failures n \<ge> 4 | None \<Rightarrow> False))"

definition NeighborTable_record_success :: "address \<Rightarrow> neighbor_table \<Rightarrow> neighbor_table" where
  "NeighborTable_record_success next_hop t =
     NeighborTable_update next_hop (\<lambda>n. n\<lparr>nb_failures := 0\<rparr>) t"

definition Neighbor_dead :: "neighbor_table \<Rightarrow> time \<Rightarrow> neighbor \<Rightarrow> bool" where
  "Neighbor_dead t now n \<longleftrightarrow>
     (let timeout = NeighborTable_timeout_ms t;
          announced = (ucast (nb_sleep_interval_s n) :: u64) * 1000;
          tm = (if announced > 0
                then max timeout ((announced + nc_beacon_jitter_ms (nt_cfg t)) * ucast (nc_timeout_intervals (nt_cfg t)))
                else timeout)
      in sat_sub now (nb_last_seen n) > tm)"

definition NeighborTable_expire :: "time \<Rightarrow> neighbor_table \<Rightarrow> neighbor_table \<times> address list" where
  "NeighborTable_expire now t =
     (let dead = map nb_addr (filter (Neighbor_dead t now) (NeighborTable_iter t))
      in (t\<lparr>nt_map := sm_dels dead (nt_map t)\<rparr>, dead))"

definition NeighborTable_remove :: "address \<Rightarrow> neighbor_table \<Rightarrow> neighbor_table \<times> neighbor option" where
  "NeighborTable_remove a t =
     (case SmallMap_remove (nt_map t) a of (m, old) \<Rightarrow> (t\<lparr>nt_map := m\<rparr>, old))"

definition NeighborTable_best_anchor :: "neighbor_table \<Rightarrow> neighbor option" where
  "NeighborTable_best_anchor t =
     max_by_key Neighbor_link_quality (filter (\<lambda>n. nb_role n = Anchor) (NeighborTable_iter t))"

definition NeighborTable_best_relay :: "neighbor_table \<Rightarrow> neighbor option" where
  "NeighborTable_best_relay t =
     max_by_key (\<lambda>n. (nb_role n = Anchor, Neighbor_link_quality n))
       (filter (\<lambda>n. Role_relays (nb_role n)) (NeighborTable_iter t))"

definition NeighborTable_leaves :: "neighbor_table \<Rightarrow> neighbor list" where
  "NeighborTable_leaves t = filter Neighbor_is_leaf (NeighborTable_iter t)"

definition NeighborTable_best_host :: "neighbor_table \<Rightarrow> neighbor option" where
  "NeighborTable_best_host t =
     max_by_key (\<lambda>n. (ucast (Neighbor_link_quality n) :: u32) + (if nb_role n = Anchor then 60 else 0))
       (filter (\<lambda>n. Role_relays (nb_role n)) (NeighborTable_iter t))"

definition Neighbor_hosted :: "neighbor \<Rightarrow> bool" where
  "Neighbor_hosted n \<longleftrightarrow> Neighbor_is_leaf n \<and> (nb_attached_to_me n \<or> nb_attached n = [])"

definition NeighborTable_hosted_leaves :: "neighbor_table \<Rightarrow> neighbor list" where
  "NeighborTable_hosted_leaves t = filter Neighbor_hosted (NeighborTable_iter t)"

definition NeighborTable_hosts :: "neighbor_table \<Rightarrow> address \<Rightarrow> bool" where
  "NeighborTable_hosts t a = (case NeighborTable_get t a of Some n \<Rightarrow> Neighbor_hosted n | None \<Rightarrow> False)"

subsection \<open>Invariant\<close>

text \<open>
  Every entry is filed under its address; an identity stored for it has that address and is the
  one derived from a valid key; the table respects its bound.
\<close>

definition nb_ok :: "crypto \<Rightarrow> address \<Rightarrow> neighbor \<Rightarrow> bool" where
  "nb_ok c a n \<longleftrightarrow> nb_addr n = a \<and>
     (case nb_identity n of
        Some pid \<Rightarrow> pid_address pid = a \<and> PublicIdentity_from_bytes c (pid_verifying pid) = Inr pid
      | None \<Rightarrow> True)"

definition nt_inv :: "crypto \<Rightarrow> neighbor_table \<Rightarrow> bool" where
  "nt_inv c t \<longleftrightarrow> sm_wf (nt_map t) \<and> length (nt_map t) \<le> max 1 (nc_max_neighbors (nt_cfg t)) \<and>
     (\<forall>(a, n) \<in> set (nt_map t). nb_ok c a n)"

lemma nt_invD:
  assumes "nt_inv c t"
  shows "sm_wf (nt_map t)" "length (nt_map t) \<le> max 1 (nc_max_neighbors (nt_cfg t))"
    "(a, n) \<in> set (nt_map t) \<Longrightarrow> nb_ok c a n" "map_of (nt_map t) a = Some n \<Longrightarrow> nb_ok c a n"
  using assms by (auto simp: nt_inv_def dest: map_of_SomeD)

lemma nt_inv_update:
  assumes inv: "nt_inv c t" and f: "\<And>n. nb_ok c a n \<Longrightarrow> nb_ok c a (f n)"
  shows "nt_inv c (NeighborTable_update a f t)"
  using inv f nt_invD [OF inv]
  by (auto simp: nt_inv_def NeighborTable_update_def SmallMap_modify_set split: if_splits)

lemma beacon_identity_ok:
  assumes "beacon_identity c src b = Some (Some pid)"
  shows "pid_address pid = src \<and> PublicIdentity_from_bytes c (pid_verifying pid) = Inr pid"
  using assms
  by (auto simp: beacon_identity_def PublicIdentity_from_bytes_def Let_def
      split: option.splits sum.splits if_split_asm)

lemma nb_ok_observe:
  assumes "nb_ok c a n" "case verified of Some pid \<Rightarrow> pid_address pid = a \<and> PublicIdentity_from_bytes c (pid_verifying pid) = Inr pid | None \<Rightarrow> True"
  shows "nb_ok c a (Neighbor_observe_beacon alpha now b meta me verified n)"
proof -
  have "nb_addr (Neighbor_observe_beacon alpha now b meta me verified n) = nb_addr n"
    "nb_identity (Neighbor_observe_beacon alpha now b meta me verified n) =
      (if verified \<noteq> None then verified else nb_identity n)"
    by (auto simp: Neighbor_observe_beacon_def Let_def split: option.split)
  then show ?thesis using assms by (simp add: nb_ok_def split: option.splits)
qed

lemma make_room_ok:
  assumes inv: "nt_inv c t" and room: "NeighborTable_make_room t = Some m" and new: "map_of (nt_map t) src = None"
  shows "sm_wf m" "set m \<subseteq> set (nt_map t)" "map_of m src = None"
    "length m < max 1 (nc_max_neighbors (nt_cfg t))"
proof -
  note wf = nt_invD(1) [OF inv] and len = nt_invD(2) [OF inv]
  have "sm_wf m \<and> set m \<subseteq> set (nt_map t) \<and> map_of m src = None \<and> length m < max 1 (nc_max_neighbors (nt_cfg t))"
  proof (cases "length (nt_map t) \<ge> nc_max_neighbors (nt_cfg t)")
    case False
    then show ?thesis using room wf new by (simp add: NeighborTable_make_room_def)
  next
    case True
    show ?thesis
    proof (cases "min_by_key Neighbor_link_quality (NeighborTable_iter t)")
      case None
      then have "nt_map t = []" by (simp add: NeighborTable_iter_def SmallMap_values_def)
      with None True room show ?thesis by (simp add: NeighborTable_make_room_def less_max_iff_disj)
    next
      case (Some worst)
      then have "worst \<in> snd ` set (nt_map t)"
        using min_by_key_mem [OF Some] by (auto simp: NeighborTable_iter_def SmallMap_values_def)
      then obtain a where a: "(a, worst) \<in> set (nt_map t)" by auto
      then have "nb_addr worst = a" using nt_invD(3) [OF inv] by (auto simp: nb_ok_def)
      then have m: "m = sm_del (nt_map t) a"
        using room True Some by (auto simp: NeighborTable_make_room_def split: if_split_asm)
      show ?thesis using sm_del_mem [OF wf a] len new wf unfolding m by auto
    qed
  qed
  then show "sm_wf m" "set m \<subseteq> set (nt_map t)" "map_of m src = None"
    "length m < max 1 (nc_max_neighbors (nt_cfg t))" by blast+
qed

lemma nb_ok_new: "nb_ok c src ((Neighbor_new src role now meta)\<lparr>nb_snr_floor_db := f\<rparr>)"
  by (simp add: nb_ok_def Neighbor_new_def)

text \<open>The table after the sender of a beacon has been given an entry.\<close>

lemma nt_inv_enter:
  assumes inv: "nt_inv c t" and room: "NeighborTable_make_room t = Some m" and new: "map_of (nt_map t) src = None"
    and ok: "nb_ok c src n"
  shows "nt_inv c (t\<lparr>nt_map := sm_put m src n\<rparr>)"
proof -
  note m = make_room_ok [OF inv room new]
  have "src \<notin> fst ` set m" using m(3) by (simp add: map_of_eq_None_iff)
  then show ?thesis
    using m ok nt_invD(3) [OF inv] by (auto simp: nt_inv_def SmallMap_insert_length SmallMap_insert_set)
qed

lemma nt_inv_observe_beacon:
  assumes inv: "nt_inv c t"
  shows "nt_inv c (fst (NeighborTable_observe_beacon_as c now src b meta me t))"
proof (cases "beacon_identity c src b")
  case None
  then show ?thesis using inv by (simp add: NeighborTable_observe_beacon_as_def nt_inv_def)
next
  case (Some verified)
  then have ver: "case verified of Some pid \<Rightarrow>
      pid_address pid = src \<and> PublicIdentity_from_bytes c (pid_verifying pid) = Inr pid | None \<Rightarrow> True"
    using beacon_identity_ok by (auto split: option.split)
  let ?f = "Neighbor_observe_beacon (nc_ewma_alpha (nt_cfg t)) now b meta me verified"
  have upd: "nt_inv c (NeighborTable_update src ?f (t\<lparr>nt_map := m\<rparr>))" if "nt_inv c (t\<lparr>nt_map := m\<rparr>)" for m
    using that nb_ok_observe [OF _ ver] by (rule nt_inv_update)
  have rej: "nt_inv c (t\<lparr>nt_map := m, nt_rejected_beacons := k\<rparr>) = nt_inv c (t\<lparr>nt_map := m\<rparr>)" for m k
    by (simp add: nt_inv_def)
  have has: "SmallMap_contains_key (nt_map t) src \<longleftrightarrow> map_of (nt_map t) src \<noteq> None"
    using nt_invD(1) [OF inv] by (rule SmallMap_contains_map_of)
  show ?thesis
  proof (cases "map_of (nt_map t) src")
    case None
    then show ?thesis
      using Some inv upd rej nt_inv_enter [OF inv _ None nb_ok_new]
      by (auto simp: NeighborTable_observe_beacon_as_def has Let_def split: option.split)
  next
    case (Some n)
    have "nt_inv c (NeighborTable_update src ?f t)" using inv upd [of "nt_map t"] by simp
    moreover have "nt_inv c (t\<lparr>nt_rejected_beacons := k\<rparr>)" for k using inv by (simp add: nt_inv_def)
    ultimately show ?thesis
      using Some \<open>beacon_identity c src b = Some verified\<close>
      by (auto simp: NeighborTable_observe_beacon_as_def has Let_def)
  qed
qed

datatype nt_op =
    NtBeacon time address beacon rx_meta "address option"
  | NtPacket time address rx_meta
  | NtFailure address
  | NtSuccess address
  | NtTxAttempt address
  | NtTxConfirmed address
  | NtExpire time
  | NtRemove address

fun nt_step :: "crypto \<Rightarrow> nt_op \<Rightarrow> neighbor_table \<Rightarrow> neighbor_table" where
  "nt_step c (NtBeacon now src b meta me) t = fst (NeighborTable_observe_beacon_as c now src b meta me t)"
| "nt_step c (NtPacket now src meta) t = NeighborTable_observe_packet now src meta t"
| "nt_step c (NtFailure a) t = fst (NeighborTable_record_failure a t)"
| "nt_step c (NtSuccess a) t = NeighborTable_record_success a t"
| "nt_step c (NtTxAttempt a) t = NeighborTable_update a Neighbor_record_tx_attempt t"
| "nt_step c (NtTxConfirmed a) t = NeighborTable_update a Neighbor_record_tx_confirmed t"
| "nt_step c (NtExpire now) t = fst (NeighborTable_expire now t)"
| "nt_step c (NtRemove a) t = fst (NeighborTable_remove a t)"

lemma nt_inv_dels: "nt_inv c t \<Longrightarrow> nt_inv c (t\<lparr>nt_map := sm_dels ks (nt_map t)\<rparr>)"
  using sm_dels(1,3,4) [of "nt_map t" ks] by (auto simp: nt_inv_def)

lemma nt_inv_remove: "nt_inv c t \<Longrightarrow> nt_inv c (fst (NeighborTable_remove a t))"
  using nt_inv_dels [of c t "[a]"] by (simp add: NeighborTable_remove_def case_prod_unfold sm_dels_def)

interpretation nt: invariant_machine "nt_step c" "nt_inv c" for c
proof
  fix t op
  assume inv: "nt_inv c t"
  show "nt_inv c (nt_step c op t)"
    using inv nt_inv_observe_beacon nt_inv_remove nt_inv_dels
    by (cases op)
      (auto simp: NeighborTable_observe_packet_def NeighborTable_record_failure_def NeighborTable_record_success_def
        NeighborTable_expire_def Neighbor_record_tx_attempt_def Neighbor_record_tx_confirmed_def nb_ok_def Let_def
        intro!: nt_inv_update)
qed

lemma nt_inv_new: "nt_inv c (NeighborTable_new cfg)"
  by (simp add: nt_inv_def NeighborTable_new_def SmallMap_new_def)

subsection \<open>Expiry\<close>

lemma expire_exact:
  assumes inv: "nt_inv c t"
  shows "map_of (nt_map (fst (NeighborTable_expire now t))) a =
    (case map_of (nt_map t) a of Some n \<Rightarrow> if Neighbor_dead t now n then None else Some n | None \<Rightarrow> None)"
proof -
  note wf = nt_invD(1) [OF inv]
  let ?dead = "map nb_addr (filter (Neighbor_dead t now) (NeighborTable_iter t))"
  have "a \<in> set ?dead \<longleftrightarrow> Neighbor_dead t now n" if n: "map_of (nt_map t) a = Some n" for n
  proof
    assume "a \<in> set ?dead"
    then obtain k m where "(k, m) \<in> set (nt_map t)" "Neighbor_dead t now m" "nb_addr m = a"
      by (auto simp: NeighborTable_iter_def SmallMap_values_def)
    moreover from this have "k = a" using nt_invD(3) [OF inv] by (auto simp: nb_ok_def)
    ultimately show "Neighbor_dead t now n" using n wf by (auto simp: sm_mem_iff)
  next
    assume "Neighbor_dead t now n"
    then show "a \<in> set ?dead"
      using map_of_SomeD [OF n] nt_invD(4) [OF inv n]
      by (force simp: NeighborTable_iter_def SmallMap_values_def nb_ok_def)
  qed
  then show ?thesis
    using sm_dels(2) [OF wf, of ?dead]
    by (auto simp: NeighborTable_expire_def Let_def restrict_map_def split: option.split)
qed

subsection \<open>Properties\<close>

text \<open>C35. Neighbour identities: after any sequence of beacons, packets, failures and expiries every
  neighbour is filed under its own address, an identity stored for it is derived from a valid
  public key that hashes to this address, and the table respects its bound.\<close>

theorem neighbor_table_sound: "nt_inv c (fold (nt_step c) ops (NeighborTable_new cfg))"
  by (rule nt.run_inv) (rule nt_inv_new)

end
