(* ===== verification/Routing.thy ===== *)
theory Routing
  imports Identity SmallMap
begin

section \<open>Route cache (\<open>routing/mod.rs\<close>)\<close>

text \<open>
  Up to \<open>alternatives\<close> routes per destination, selected by accumulated link cost with
  penalties for age and failures. The table is a \<open>SmallMap\<close> from destination to a list of
  routes.
\<close>

datatype route_source = Zone | Discovery | Reverse | AnchorProxy | Static

record route_entry =
  re_dst :: address
  re_next_hop :: address
  re_hops :: u8
  re_cost :: u16
  re_learned_at :: time
  re_expires_at :: time
  re_last_used :: time
  re_failures :: u8
  re_source :: route_source
  re_via_anchor :: "address option"

definition RouteEntry_effective_cost :: "route_entry \<Rightarrow> time \<Rightarrow> u32" where
  "RouteEntry_effective_cost r now =
     (let age_h = sat_sub now (re_learned_at r) div 3600000;
          penalty = ucast (min age_h 10) * ucast (re_cost r) div 10
      in ucast (re_cost r) + penalty + ucast (re_failures r) * 50)"

record routing_config =
  rt_max_destinations :: nat
  rt_alternatives :: nat
  rt_route_ttl_ms :: time
  rt_max_failures :: u8

definition RoutingConfig_default :: routing_config where
  "RoutingConfig_default =
     \<lparr>rt_max_destinations = 128, rt_alternatives = 2, rt_route_ttl_ms = 30 * 60 * 1000, rt_max_failures = 3\<rparr>"

definition link_cost :: "u8 \<Rightarrow> u8 \<Rightarrow> u16" where
  "link_cost quality congestion =
     (let q = (ucast (max quality 1) :: u64);
          ratio = 255 * 256 div q;
          base = drop_bit 16 (100 * ratio * ratio);
          c = (ucast congestion :: u64) * 100 div 255
      in ucast (min (base + c) 65535))"

record route_cache =
  rt_cfg :: routing_config
  rt_routes :: "(address, route_entry list) small_map"
  rt_route_errors_received :: u32

definition RouteCache_new :: "routing_config \<Rightarrow> route_cache" where
  "RouteCache_new cfg = \<lparr>rt_cfg = cfg, rt_routes = SmallMap_new, rt_route_errors_received = 0\<rparr>"

definition RouteCache_len :: "route_cache \<Rightarrow> nat" where
  "RouteCache_len c = sum_list (map length (SmallMap_values (rt_routes c)))"

definition RouteCache_is_empty :: "route_cache \<Rightarrow> bool" where
  "RouteCache_is_empty c = SmallMap_is_empty (rt_routes c)"

definition RouteCache_destinations :: "route_cache \<Rightarrow> nat" where
  "RouteCache_destinations c = length (rt_routes c)"

text \<open>The eviction of the least recently used destination.\<close>

definition routes_last_used :: "route_entry list \<Rightarrow> time" where
  "routes_last_used l = (case list_max (map re_last_used l) of Some t \<Rightarrow> t | None \<Rightarrow> 0)"

definition RouteCache_make_room :: "route_cache \<Rightarrow> address \<Rightarrow> (address, route_entry list) small_map" where
  "RouteCache_make_room c dst =
     evict_min (\<lambda>(_, v). routes_last_used v) (rt_max_destinations (rt_cfg c)) dst (rt_routes c)"

text \<open>What \<open>insert\<close> does to the route list of the destination.\<close>

definition route_list_insert ::
  "nat \<Rightarrow> route_entry \<Rightarrow> time \<Rightarrow> route_entry list \<Rightarrow> route_entry list \<times> bool" where
  "route_list_insert alternatives e now l =
     (case position (\<lambda>r. re_next_hop r = re_next_hop e) l of
        Some i \<Rightarrow>
          let better = (re_cost e \<le> re_cost (l ! i) \<or> re_source e = Discovery);
              l' = l[i := if better then e
                          else (l ! i)\<lparr>re_expires_at := max (re_expires_at (l ! i)) (re_expires_at e)\<rparr>]
          in (sort_by_key (\<lambda>r. RouteEntry_effective_cost r now) l', better)
      | None \<Rightarrow>
          let l' = take alternatives (sort_by_key (\<lambda>r. RouteEntry_effective_cost r now) (l @ [e]))
          in (l', list_ex (\<lambda>r. re_next_hop r = re_next_hop e) l'))"

definition RouteCache_insert :: "route_cache \<Rightarrow> route_entry \<Rightarrow> time \<Rightarrow> route_cache \<times> bool" where
  "RouteCache_insert c e0 now =
     (let e = e0\<lparr>re_learned_at := now, re_last_used := now,
                 re_expires_at := if re_expires_at e0 = 0 then now + rt_route_ttl_ms (rt_cfg c)
                                  else re_expires_at e0\<rparr>;
          routes = RouteCache_make_room c (re_dst e)
      in case SmallMap_get_or_default [] routes (re_dst e) of (routes', l) \<Rightarrow>
         (case route_list_insert (rt_alternatives (rt_cfg c)) e now l of (l', better) \<Rightarrow>
           (c\<lparr>rt_routes := SmallMap_modify routes' (re_dst e) (\<lambda>_. l')\<rparr>, better)))"

definition RouteCache_lookup :: "route_cache \<Rightarrow> address \<Rightarrow> time \<Rightarrow> route_entry option" where
  "RouteCache_lookup c dst now =
     (case SmallMap_get (rt_routes c) dst of
        None \<Rightarrow> None
      | Some l \<Rightarrow> min_by_key (\<lambda>r. RouteEntry_effective_cost r now)
                    (filter (\<lambda>r. re_expires_at r > now) l))"

definition RouteCache_alternatives :: "route_cache \<Rightarrow> address \<Rightarrow> time \<Rightarrow> route_entry list" where
  "RouteCache_alternatives c dst now =
     sort_by_key (\<lambda>r. RouteEntry_effective_cost r now)
       (case SmallMap_get (rt_routes c) dst of
          None \<Rightarrow> []
        | Some l \<Rightarrow> filter (\<lambda>r. re_expires_at r > now) l)"

definition RouteCache_touch :: "route_cache \<Rightarrow> address \<Rightarrow> address \<Rightarrow> time \<Rightarrow> route_cache" where
  "RouteCache_touch c dst next_hop now =
     c\<lparr>rt_routes := SmallMap_modify (rt_routes c) dst
         (update_first (\<lambda>r. re_next_hop r = next_hop)
            (\<lambda>r. r\<lparr>re_last_used := now,
                  re_expires_at := max (re_expires_at r) (now + rt_route_ttl_ms (rt_cfg c) div 2)\<rparr>))\<rparr>"

definition RouteCache_mark_failure :: "route_cache \<Rightarrow> address \<Rightarrow> address \<Rightarrow> route_cache \<times> bool" where
  "RouteCache_mark_failure c dst next_hop =
     (case SmallMap_get (rt_routes c) dst of
        None \<Rightarrow> (c, False)
      | Some l \<Rightarrow>
          let l1 = update_first (\<lambda>r. re_next_hop r = next_hop)
                     (\<lambda>r. r\<lparr>re_failures := sat_add (re_failures r) 1\<rparr>) l;
              removed = (case position (\<lambda>r. re_next_hop r = next_hop) l1 of
                           Some i \<Rightarrow> re_failures (l1 ! i) \<ge> rt_max_failures (rt_cfg c)
                         | None \<Rightarrow> False);
              l2 = (if removed then filter (\<lambda>r. re_next_hop r \<noteq> next_hop) l1 else l1);
              routes = SmallMap_modify (rt_routes c) dst (\<lambda>_. l2)
          in (c\<lparr>rt_routes := if l2 = [] then sm_del routes dst else routes\<rparr>, removed))"

definition RouteCache_mark_success :: "route_cache \<Rightarrow> address \<Rightarrow> address \<Rightarrow> time \<Rightarrow> route_cache" where
  "RouteCache_mark_success c dst next_hop now =
     c\<lparr>rt_routes := SmallMap_modify (rt_routes c) dst
         (update_first (\<lambda>r. re_next_hop r = next_hop)
            (\<lambda>r. r\<lparr>re_failures := 0, re_last_used := now,
                  re_expires_at := now + rt_route_ttl_ms (rt_cfg c)\<rparr>))\<rparr>"

definition RouteCache_invalidate_via :: "route_cache \<Rightarrow> address \<Rightarrow> route_cache \<times> address list" where
  "RouteCache_invalidate_via c next_hop =
     (let keep = filter (\<lambda>r. re_next_hop r \<noteq> next_hop);
          affected = map fst (filter (\<lambda>(_, l). length (keep l) \<noteq> length l) (rt_routes c));
          routes = SmallMap_map_values keep (rt_routes c)
      in (c\<lparr>rt_routes := SmallMap_retain (\<lambda>_ l. l \<noteq> []) routes\<rparr>, affected))"

definition RouteCache_remove :: "route_cache \<Rightarrow> address \<Rightarrow> route_cache \<times> bool" where
  "RouteCache_remove c dst =
     (case SmallMap_remove (rt_routes c) dst of
        (routes, old) \<Rightarrow> (c\<lparr>rt_routes := routes\<rparr>, old \<noteq> None))"

definition RouteCache_expire :: "route_cache \<Rightarrow> time \<Rightarrow> route_cache \<times> nat" where
  "RouteCache_expire c now =
     (let keep = filter (\<lambda>r. re_expires_at r > now);
          n = sum_list (map (\<lambda>(_, l). length l - length (keep l)) (rt_routes c));
          routes = SmallMap_map_values keep (rt_routes c)
      in (c\<lparr>rt_routes := SmallMap_retain (\<lambda>_ l. l \<noteq> []) routes\<rparr>, n))"

definition RouteCache_iter :: "route_cache \<Rightarrow> route_entry list" where
  "RouteCache_iter c = concat (SmallMap_values (rt_routes c))"

subsection \<open>Invariant\<close>

definition rt_list_ok :: "routing_config \<Rightarrow> address \<Rightarrow> route_entry list \<Rightarrow> bool" where
  "rt_list_ok cfg d l \<longleftrightarrow>
     l \<noteq> [] \<and> length l \<le> rt_alternatives cfg \<and> distinct (map re_next_hop l) \<and> (\<forall>r \<in> set l. re_dst r = d)"

definition rt_inv :: "route_cache \<Rightarrow> bool" where
  "rt_inv c \<longleftrightarrow>
     sm_wf (rt_routes c) \<and> length (rt_routes c) \<le> rt_max_destinations (rt_cfg c) \<and>
     (\<forall>(d, l) \<in> set (rt_routes c). rt_list_ok (rt_cfg c) d l)"

definition RoutingConfig_ok :: "routing_config \<Rightarrow> bool" where
  "RoutingConfig_ok cfg \<longleftrightarrow> 1 \<le> rt_max_destinations cfg \<and> 1 \<le> rt_alternatives cfg"

lemma rt_invD:
  assumes "rt_inv c"
  shows "sm_wf (rt_routes c)" "map_of (rt_routes c) d = Some l \<Longrightarrow> rt_list_ok (rt_cfg c) d l"
    "length (rt_routes c) \<le> rt_max_destinations (rt_cfg c)"
    "SmallMap_get (rt_routes c) d = map_of (rt_routes c) d"
  using assms by (auto simp: rt_inv_def SmallMap_get_map_of dest: map_of_SomeD)

lemma rt_inv_new: "rt_inv (RouteCache_new cfg)"
  by (simp add: rt_inv_def RouteCache_new_def SmallMap_new_def)

text \<open>A change of one list in place, and a change of every list that may empty some.\<close>

lemma rt_inv_modify:
  assumes inv: "rt_inv c" and ok: "\<And>l. map_of (rt_routes c) d = Some l \<Longrightarrow> rt_list_ok (rt_cfg c) d (f l)"
  shows "rt_inv (c\<lparr>rt_routes := SmallMap_modify (rt_routes c) d f\<rparr>)"
  using inv ok rt_invD(1) [OF inv]
  by (auto simp: rt_inv_def SmallMap_modify_set split: if_splits simp flip: sm_mem_iff)

lemma rt_list_ok_update:
  assumes "rt_list_ok cfg d l" "\<And>r. re_next_hop (f r) = re_next_hop r" "\<And>r. re_dst (f r) = re_dst r"
  shows "rt_list_ok cfg d (update_first p f l)"
proof -
  have "re_dst r = d" if "r \<in> set (update_first p f l)" for r
    using update_first_set [OF that] assms by (auto simp: rt_list_ok_def)
  moreover have "update_first p f l \<noteq> []" using assms(1) length_update_first [of p f l]
    by (metis length_0_conv rt_list_ok_def)
  ultimately show ?thesis using assms by (simp add: rt_list_ok_def)
qed

lemma rt_list_ok_filter:
  "rt_list_ok cfg d l \<Longrightarrow> filter p l \<noteq> [] \<Longrightarrow> rt_list_ok cfg d (filter p l)"
  using order_trans [OF length_filter_le [of p l]] by (auto simp: rt_list_ok_def distinct_map_filter)

lemma rt_inv_keep:
  assumes "rt_inv c"
  shows "rt_inv (c\<lparr>rt_routes := SmallMap_retain (\<lambda>_ l. l \<noteq> []) (SmallMap_map_values (filter p) (rt_routes c))\<rparr>)"
proof -
  have "length (SmallMap_retain (\<lambda>_ l. l \<noteq> []) (SmallMap_map_values (filter p) (rt_routes c)))
      \<le> length (rt_routes c)"
    using SmallMap_retain_length [of "\<lambda>_ l. l \<noteq> []" "SmallMap_map_values (filter p) (rt_routes c)"]
    by (simp add: SmallMap_map_values_def)
  then show ?thesis
    using assms by (auto simp: rt_inv_def map_values_set intro!: rt_list_ok_filter)
qed

subsection \<open>Insertion\<close>

lemma sort_by_key_Nil [simp]: "sort_by_key f xs = [] \<longleftrightarrow> xs = []"
  by (metis length_0_conv sort_by_key_perm(2))

lemma rt_list_ok_sort [simp]: "rt_list_ok cfg d (sort_by_key f l) = rt_list_ok cfg d l"
  by (simp add: rt_list_ok_def sort_by_key_perm sort_by_key_distinct_map)

lemma rt_list_ok_take:
  assumes "l \<noteq> []" "distinct (map re_next_hop l)" "\<forall>r \<in> set l. re_dst r = d" "1 \<le> rt_alternatives cfg"
  shows "rt_list_ok cfg d (take (rt_alternatives cfg) l)"
  using assms set_take_subset [of "rt_alternatives cfg" l]
  by (auto simp: rt_list_ok_def simp flip: take_map)

lemma rt_list_ok_list_update:
  assumes "rt_list_ok cfg d l" "i < length l" "re_next_hop x = re_next_hop (l ! i)" "re_dst x = d"
  shows "rt_list_ok cfg d (l[i := x])"
proof -
  have "map re_next_hop (l[i := x]) = map re_next_hop l"
    using assms(2,3) by (simp add: map_update list_update_same_conv)
  then show ?thesis
    using assms set_update_subset_insert [of l i x] by (auto simp: rt_list_ok_def)
qed

lemma rt_list_ok_snoc:
  assumes "l = [] \<or> rt_list_ok cfg (re_dst e) l" "1 \<le> rt_alternatives cfg"
    and "\<forall>r \<in> set l. re_next_hop r \<noteq> re_next_hop e"
  shows "rt_list_ok cfg (re_dst e) (take (rt_alternatives cfg) (sort_by_key f (l @ [e])))"
  using assms
  by (intro rt_list_ok_take) (auto simp: rt_list_ok_def sort_by_key_perm sort_by_key_distinct_map)

lemma route_list_insert_ok:
  assumes l: "l = [] \<or> rt_list_ok cfg (re_dst e) l" and alt: "1 \<le> rt_alternatives cfg"
  shows "rt_list_ok cfg (re_dst e) (fst (route_list_insert (rt_alternatives cfg) e now l))"
proof (cases "position (\<lambda>r. re_next_hop r = re_next_hop e) l")
  case None
  then have "\<forall>r \<in> set l. re_next_hop r \<noteq> re_next_hop e" by (simp add: position_None)
  with None show ?thesis using rt_list_ok_snoc [OF l alt] by (simp add: route_list_insert_def Let_def)
next
  case (Some i)
  then have i: "i < length l" "re_next_hop (l ! i) = re_next_hop e" by (simp_all add: position_Some)
  with l have ok: "rt_list_ok cfg (re_dst e) l" by auto
  then have "re_dst (l ! i) = re_dst e" using i(1) by (simp add: rt_list_ok_def)
  then show ?thesis
    using i Some rt_list_ok_list_update [OF ok i(1)] by (simp add: route_list_insert_def Let_def)
qed

lemma make_room:
  assumes "rt_inv c" "RoutingConfig_ok (rt_cfg c)"
  shows "sm_wf (RouteCache_make_room c d)" "set (RouteCache_make_room c d) \<subseteq> set (rt_routes c)"
    "map_of (RouteCache_make_room c d) d = map_of (rt_routes c) d"
    "map_of (RouteCache_make_room c d) d = None \<Longrightarrow>
       length (RouteCache_make_room c d) < rt_max_destinations (rt_cfg c)"
    "length (RouteCache_make_room c d) \<le> rt_max_destinations (rt_cfg c)"
proof -
  have cap: "max 1 (rt_max_destinations (rt_cfg c)) = rt_max_destinations (rt_cfg c)"
    using assms(2) by (simp add: RoutingConfig_ok_def)
  have "length (rt_routes c) \<le> max 1 (rt_max_destinations (rt_cfg c))"
    using rt_invD(3) [OF assms(1)] by simp
  note ev = evict_min [OF rt_invD(1) [OF assms(1)] this, unfolded cap,
      where k = d and rank = "\<lambda>(_, v). routes_last_used v", folded RouteCache_make_room_def]
  then show "sm_wf (RouteCache_make_room c d)" "set (RouteCache_make_room c d) \<subseteq> set (rt_routes c)"
    "map_of (RouteCache_make_room c d) d = map_of (rt_routes c) d"
    "map_of (RouteCache_make_room c d) d = None \<Longrightarrow>
       length (RouteCache_make_room c d) < rt_max_destinations (rt_cfg c)"
    "length (RouteCache_make_room c d) \<le> rt_max_destinations (rt_cfg c)" by simp_all
qed

text \<open>The entry as \<open>insert\<close> stores it, and the table it leaves.\<close>

definition stamped :: "route_cache \<Rightarrow> route_entry \<Rightarrow> time \<Rightarrow> route_entry" where
  "stamped c e now = e\<lparr>re_learned_at := now, re_last_used := now,
     re_expires_at := if re_expires_at e = 0 then now + rt_route_ttl_ms (rt_cfg c) else re_expires_at e\<rparr>"

lemma stamped_simps [simp]:
  "re_dst (stamped c e now) = re_dst e" "re_next_hop (stamped c e now) = re_next_hop e"
  "re_cost (stamped c e now) = re_cost e" "re_source (stamped c e now) = re_source e"
  "re_failures (stamped c e now) = re_failures e" "re_learned_at (stamped c e now) = now"
  by (simp_all add: stamped_def)

definition old_list :: "route_cache \<Rightarrow> address \<Rightarrow> route_entry list" where
  "old_list c d = (case map_of (rt_routes c) d of Some l \<Rightarrow> l | None \<Rightarrow> [])"

lemma RouteCache_insert_eq:
  assumes "rt_inv c" "RoutingConfig_ok (rt_cfg c)"
  shows "RouteCache_insert c e now =
    (case route_list_insert (rt_alternatives (rt_cfg c)) (stamped c e now) now (old_list c (re_dst e)) of
       (l, better) \<Rightarrow> (c\<lparr>rt_routes := sm_put (RouteCache_make_room c (re_dst e)) (re_dst e) l\<rparr>, better))"
proof -
  let ?R = "RouteCache_make_room c (re_dst e)"
  have R: "sm_wf ?R" "map_of ?R (re_dst e) = map_of (rt_routes c) (re_dst e)"
    using make_room [OF assms] by blast+
  have eq: "RouteCache_insert c e now =
    (case SmallMap_get_or_default [] ?R (re_dst e) of (routes', l) \<Rightarrow>
      (case route_list_insert (rt_alternatives (rt_cfg c)) (stamped c e now) now l of (l', better) \<Rightarrow>
        (c\<lparr>rt_routes := SmallMap_modify routes' (re_dst e) (\<lambda>_. l')\<rparr>, better)))"
    by (simp only: RouteCache_insert_def Let_def stamped_def [symmetric] stamped_simps)
  have "SmallMap_modify (fst (SmallMap_get_or_default [] ?R (re_dst e))) (re_dst e) (\<lambda>_. l')
      = sm_put ?R (re_dst e) l'" for l'
    by (cases "map_of ?R (re_dst e)")
      (simp_all add: SmallMap_get_or_default_eq R(1) SmallMap_modify_put sm_put_put)
  moreover have "snd (SmallMap_get_or_default [] ?R (re_dst e)) = old_list c (re_dst e)"
    by (simp add: SmallMap_get_or_default_eq R old_list_def split: option.split)
  ultimately show ?thesis unfolding eq by (simp add: case_prod_unfold)
qed

lemma rt_inv_insert:
  assumes "rt_inv c" "RoutingConfig_ok (rt_cfg c)"
  shows "rt_inv (fst (RouteCache_insert c e now))"
proof -
  let ?R = "RouteCache_make_room c (re_dst e)"
  note room = make_room [OF assms, of "re_dst e"]
  have old: "old_list c (re_dst e) = [] \<or> rt_list_ok (rt_cfg c) (re_dst (stamped c e now)) (old_list c (re_dst e))"
    using rt_invD(2) [OF assms(1)] by (simp add: old_list_def split: option.split)
  have alt: "1 \<le> rt_alternatives (rt_cfg c)" using assms(2) by (simp add: RoutingConfig_ok_def)
  have new: "rt_list_ok (rt_cfg c) (re_dst e)
      (fst (route_list_insert (rt_alternatives (rt_cfg c)) (stamped c e now) now (old_list c (re_dst e))))"
    using route_list_insert_ok [OF old alt] by simp
  have "length (sm_put ?R (re_dst e) l) \<le> rt_max_destinations (rt_cfg c)" for l
    using room(1,4,5) by (auto simp: SmallMap_insert_length map_of_eq_None_iff Suc_le_eq)
  then show ?thesis
    using assms(1) room(1) subsetD [OF room(2)] new
    by (fastforce simp: RouteCache_insert_eq [OF assms] rt_inv_def SmallMap_insert_set case_prod_unfold)
qed

lemma RouteCache_insert_cfg [simp]: "rt_cfg (fst (RouteCache_insert c e now)) = rt_cfg c"
  by (simp add: RouteCache_insert_def Let_def case_prod_unfold)

subsection \<open>The other operations\<close>

lemma rt_inv_touch: "rt_inv c \<Longrightarrow> rt_inv (RouteCache_touch c d nh now)"
  unfolding RouteCache_touch_def by (rule rt_inv_modify) (auto intro: rt_list_ok_update rt_invD)

lemma rt_inv_mark_success: "rt_inv c \<Longrightarrow> rt_inv (RouteCache_mark_success c d nh now)"
  unfolding RouteCache_mark_success_def by (rule rt_inv_modify) (auto intro: rt_list_ok_update rt_invD)

lemma rt_inv_del:
  assumes "rt_inv c" shows "rt_inv (c\<lparr>rt_routes := sm_del (rt_routes c) d\<rparr>)"
  using assms SmallMap_remove_length_le [of "rt_routes c" d]
  by (auto simp: rt_inv_def SmallMap_remove_set)

lemma rt_inv_remove: "rt_inv c \<Longrightarrow> rt_inv (fst (RouteCache_remove c d))"
  using rt_inv_del [of c d] by (simp add: RouteCache_remove_def case_prod_unfold)

lemma rt_inv_invalidate_via: "rt_inv c \<Longrightarrow> rt_inv (fst (RouteCache_invalidate_via c nh))"
  by (simp add: RouteCache_invalidate_via_def Let_def rt_inv_keep)

lemma rt_inv_expire: "rt_inv c \<Longrightarrow> rt_inv (fst (RouteCache_expire c now))"
  by (simp add: RouteCache_expire_def Let_def rt_inv_keep)

text \<open>What \<open>mark_failure\<close> leaves of the list of a destination.\<close>

definition failed_list :: "u8 \<Rightarrow> address \<Rightarrow> route_entry list \<Rightarrow> route_entry list \<times> bool" where
  "failed_list mf nh l =
     (let l1 = update_first (\<lambda>r. re_next_hop r = nh) (\<lambda>r. r\<lparr>re_failures := sat_add (re_failures r) 1\<rparr>) l;
          removed = (case position (\<lambda>r. re_next_hop r = nh) l1 of
                       Some i \<Rightarrow> re_failures (l1 ! i) \<ge> mf | None \<Rightarrow> False)
      in (if removed then filter (\<lambda>r. re_next_hop r \<noteq> nh) l1 else l1, removed))"

lemma RouteCache_mark_failure_eq:
  assumes "sm_wf (rt_routes c)"
  shows "RouteCache_mark_failure c d nh =
    (case map_of (rt_routes c) d of
       None \<Rightarrow> (c, False)
     | Some l \<Rightarrow> (case failed_list (rt_max_failures (rt_cfg c)) nh l of (l2, removed) \<Rightarrow>
         (c\<lparr>rt_routes := if l2 = [] then sm_del (rt_routes c) d else sm_put (rt_routes c) d l2\<rparr>, removed)))"
  by (simp add: RouteCache_mark_failure_def failed_list_def Let_def SmallMap_get_map_of assms
      SmallMap_modify_put split: option.split)

lemma failed_list_ok:
  assumes "rt_list_ok cfg d l" "fst (failed_list mf nh l) \<noteq> []"
  shows "rt_list_ok cfg d (fst (failed_list mf nh l))"
proof -
  have "rt_list_ok cfg d (update_first (\<lambda>r. re_next_hop r = nh) (\<lambda>r. r\<lparr>re_failures := sat_add (re_failures r) 1\<rparr>) l)"
    using assms(1) by (rule rt_list_ok_update) simp_all
  then show ?thesis using assms(2) by (auto simp: failed_list_def Let_def intro: rt_list_ok_filter)
qed

lemma rt_inv_mark_failure:
  assumes "rt_inv c" shows "rt_inv (fst (RouteCache_mark_failure c d nh))"
proof (cases "map_of (rt_routes c) d")
  case None
  then show ?thesis using assms by (simp add: RouteCache_mark_failure_eq rt_invD)
next
  case (Some l)
  let ?l = "fst (failed_list (rt_max_failures (rt_cfg c)) nh l)"
  show ?thesis
  proof (cases "?l = []")
    case True
    with Some show ?thesis using rt_inv_del [OF assms, of d]
      by (simp add: RouteCache_mark_failure_eq rt_invD assms case_prod_unfold)
  next
    case False
    then have "rt_list_ok (rt_cfg c) d ?l" using failed_list_ok rt_invD(2) [OF assms Some] by blast
    then have "rt_inv (c\<lparr>rt_routes := SmallMap_modify (rt_routes c) d (\<lambda>_. ?l)\<rparr>)"
      using assms by (intro rt_inv_modify)
    with Some False show ?thesis
      by (simp add: RouteCache_mark_failure_eq rt_invD assms case_prod_unfold SmallMap_modify_put)
  qed
qed

lemma RouteCache_mark_failure_cfg [simp]: "rt_cfg (fst (RouteCache_mark_failure c d nh)) = rt_cfg c"
  by (simp add: RouteCache_mark_failure_def Let_def split: option.split)

lemma update_first_hit:
  assumes "distinct (map re_next_hop l)" "r \<in> set (update_first (\<lambda>r. re_next_hop r = nh) f l)"
    "re_next_hop r = nh" "\<And>r. re_next_hop (f r) = re_next_hop r"
  shows "\<exists>r0 \<in> set l. re_next_hop r0 = nh \<and> r = f r0"
  using assms by (induction l) (auto split: if_splits)

lemma failed_list_counts:
  assumes dist: "distinct (map re_next_hop l)"
    and k: "\<forall>r \<in> set l. re_next_hop r = nh \<longrightarrow> k \<le> unat (re_failures r)"
    and r: "r \<in> set (fst (failed_list mf nh l))" "re_next_hop r = nh"
  shows "Suc k \<le> unat (re_failures r) \<and> re_failures r < mf"
proof -
  let ?f = "\<lambda>r. r\<lparr>re_failures := sat_add (re_failures r) 1\<rparr>"
  let ?l1 = "update_first (\<lambda>r. re_next_hop r = nh) ?f l"
  have r1: "r \<in> set ?l1" using r(1) by (auto simp: failed_list_def Let_def split: if_splits)
  then obtain r0 where r0: "r0 \<in> set l" "re_next_hop r0 = nh" "r = ?f r0"
    using update_first_hit [OF dist r1 r(2)] by auto
  obtain i where i: "position (\<lambda>r. re_next_hop r = nh) ?l1 = Some i"
    using r1 r(2) by (metis (mono_tags, lifting) not_Some_eq position_None)
  then have "i < length ?l1" "re_next_hop (?l1 ! i) = nh" by (simp_all add: position_Some)
  moreover have "distinct (map re_next_hop ?l1)" using dist by simp
  ultimately have "?l1 ! i = r"
    using r1 r(2) by (metis (no_types, lifting) distinct_map inj_onD nth_mem)
  moreover have "\<not> mf \<le> re_failures (?l1 ! i)"
    using r i by (auto simp: failed_list_def Let_def split: if_splits)
  ultimately have lt: "re_failures r < mf" by simp
  then have "unat (re_failures r) < 255" using unsigned_less [of mf, where 'a = nat] by (simp add: word_less_nat_alt)
  then have "unat (re_failures r) = Suc (unat (re_failures r0))"
    using r0(3) unat_sat_add [of "re_failures r0" 1] by (simp add: min_def split: if_splits)
  with k r0 lt show ?thesis by simp
qed

definition failures_at_least :: "route_cache \<Rightarrow> address \<Rightarrow> address \<Rightarrow> nat \<Rightarrow> bool" where
  "failures_at_least c d nh k \<longleftrightarrow>
     (\<forall>r \<in> set (old_list c d). re_next_hop r = nh \<longrightarrow> k \<le> unat (re_failures r))"

lemma mark_failure_counts:
  assumes "rt_inv c" "failures_at_least c d nh k" "c' = fst (RouteCache_mark_failure c d nh)"
  shows "failures_at_least c' d nh (Suc k)"
    "r \<in> set (old_list c' d) \<Longrightarrow> re_next_hop r = nh \<Longrightarrow> re_failures r < rt_max_failures (rt_cfg c)"
proof -
  have *: "Suc k \<le> unat (re_failures r) \<and> re_failures r < rt_max_failures (rt_cfg c)"
    if r: "r \<in> set (old_list c' d)" "re_next_hop r = nh" for r
  proof (cases "map_of (rt_routes c) d")
    case None
    with r show ?thesis by (simp add: assms(3) RouteCache_mark_failure_eq rt_invD(1) [OF assms(1)] old_list_def)
  next
    case (Some l)
    then have "distinct (map re_next_hop l)" using rt_invD(2) [OF assms(1)] by (simp add: rt_list_ok_def)
    moreover have "old_list c d = l" using Some by (simp add: old_list_def)
    moreover have "r \<in> set (fst (failed_list (rt_max_failures (rt_cfg c)) nh l))"
      using r Some by (simp add: assms(3) RouteCache_mark_failure_eq rt_invD(1) [OF assms(1)] old_list_def
          case_prod_unfold split: if_splits)
    ultimately show ?thesis
      using failed_list_counts assms(2) r(2) unfolding failures_at_least_def by blast
  qed
  then show "failures_at_least c' d nh (Suc k)"
    "r \<in> set (old_list c' d) \<Longrightarrow> re_next_hop r = nh \<Longrightarrow> re_failures r < rt_max_failures (rt_cfg c)"
    unfolding failures_at_least_def by blast+
qed

lemma mark_failure_repeat:
  fixes c d nh
  assumes "rt_inv c"
  defines "C n \<equiv> ((\<lambda>c. fst (RouteCache_mark_failure c d nh)) ^^ n) c"
  shows "rt_inv (C n) \<and> rt_cfg (C n) = rt_cfg c \<and> failures_at_least (C n) d nh n"
proof (induction n)
  case 0
  then show ?case using assms by (simp add: failures_at_least_def)
next
  case (Suc n)
  then show ?case using mark_failure_counts(1) rt_inv_mark_failure by (simp add: C_def)
qed

lemma mark_failure_removes:
  assumes "rt_inv c" "unat (rt_max_failures (rt_cfg c)) \<le> Suc n"
    "r \<in> set (old_list (((\<lambda>c. fst (RouteCache_mark_failure c d nh)) ^^ Suc n) c) d)"
  shows "re_next_hop r \<noteq> nh"
proof
  assume nh: "re_next_hop r = nh"
  let ?c = "((\<lambda>c. fst (RouteCache_mark_failure c d nh)) ^^ n) c"
  have c: "rt_inv ?c" "rt_cfg ?c = rt_cfg c" "failures_at_least ?c d nh n"
    using mark_failure_repeat [OF assms(1)] by blast+
  have r: "r \<in> set (old_list (fst (RouteCache_mark_failure ?c d nh)) d)" using assms(3) by simp
  have "Suc n \<le> unat (re_failures r)"
    using mark_failure_counts(1) [OF c(1,3) refl] r nh unfolding failures_at_least_def by blast
  moreover have "re_failures r < rt_max_failures (rt_cfg c)"
    using mark_failure_counts(2) [OF c(1,3) refl r nh] c(2) by simp
  ultimately show False using assms(2) by (simp add: word_less_nat_alt)
qed

subsection \<open>Lookup\<close>

lemma min_by_key_hd_sort:
  "min_by_key f xs = (case sort_key f xs of [] \<Rightarrow> None | x # _ \<Rightarrow> Some x)"
  by (induction xs) (auto split: list.split)

lemma lookup_alternatives:
  "RouteCache_lookup c dst now =
     (case RouteCache_alternatives c dst now of [] \<Rightarrow> None | r # _ \<Rightarrow> Some r)"
  by (simp add: RouteCache_lookup_def RouteCache_alternatives_def sort_by_key_sort_key
      min_by_key_hd_sort split: option.split)

lemma alternatives_old_list:
  assumes "rt_inv c"
  shows "set (RouteCache_alternatives c dst now) = {r \<in> set (old_list c dst). now < re_expires_at r}"
  by (auto simp: RouteCache_alternatives_def old_list_def rt_invD(4) [OF assms] sort_by_key_perm
      split: option.split)

subsection \<open>Sequences of operations\<close>

datatype rt_op =
    RtInsert route_entry time
  | RtTouch address address time
  | RtFailure address address
  | RtSuccess address address time
  | RtInvalidate address
  | RtRemove address
  | RtExpire time

fun rt_step :: "rt_op \<Rightarrow> route_cache \<Rightarrow> route_cache" where
  "rt_step (RtInsert e now) c = fst (RouteCache_insert c e now)"
| "rt_step (RtTouch d nh now) c = RouteCache_touch c d nh now"
| "rt_step (RtFailure d nh) c = fst (RouteCache_mark_failure c d nh)"
| "rt_step (RtSuccess d nh now) c = RouteCache_mark_success c d nh now"
| "rt_step (RtInvalidate nh) c = fst (RouteCache_invalidate_via c nh)"
| "rt_step (RtRemove d) c = fst (RouteCache_remove c d)"
| "rt_step (RtExpire now) c = fst (RouteCache_expire c now)"

lemma rt_step_cfg [simp]: "rt_cfg (rt_step op c) = rt_cfg c"
  by (cases op) (simp_all add: RouteCache_touch_def RouteCache_mark_success_def
      RouteCache_invalidate_via_def RouteCache_remove_def RouteCache_expire_def Let_def case_prod_unfold)

interpretation rt: invariant_machine rt_step "\<lambda>c. rt_inv c \<and> RoutingConfig_ok (rt_cfg c)"
proof (unfold_locales, elim conjE, intro conjI)
  fix op c
  assume "rt_inv c" "RoutingConfig_ok (rt_cfg c)"
  then show "rt_inv (rt_step op c)"
    by (cases op) (simp_all add: rt_inv_insert rt_inv_touch rt_inv_mark_failure rt_inv_mark_success
        rt_inv_invalidate_via rt_inv_remove rt_inv_expire)
qed simp

lemma rt_reachable:
  assumes "RoutingConfig_ok cfg"
  shows "rt_inv (fold rt_step ops (RouteCache_new cfg))"
  using rt.run_inv [of "RouteCache_new cfg" ops] assms rt_inv_new by (simp add: RouteCache_new_def)

lemma rt_fold_cfg [simp]: "rt_cfg (fold rt_step ops c) = rt_cfg c"
  by (induction ops arbitrary: c) simp_all

subsection \<open>Properties\<close>

text \<open>C27. Route table: under a configuration with room for one destination and one route, after
  any sequence of operations the table holds at most the configured number of destinations, at
  most the configured number of routes for each, every route under its own destination, and never
  two routes to a destination through the same next hop.\<close>

theorem route_table_bounded:
  assumes "RoutingConfig_ok cfg"
  shows "rt_inv (fold rt_step ops (RouteCache_new cfg))"
  using assms by (rule rt_reachable)

theorem route_table_bounded_witness:
  "RoutingConfig_ok RoutingConfig_default \<and>
   rt_inv (fold rt_step [RtExpire 5, RtFailure BROADCAST BROADCAST] (RouteCache_new RoutingConfig_default))"
proof
  show "RoutingConfig_ok RoutingConfig_default" by (simp add: RoutingConfig_ok_def RoutingConfig_default_def)
  then show "rt_inv (fold rt_step [RtExpire 5, RtFailure BROADCAST BROADCAST] (RouteCache_new RoutingConfig_default))"
    by (rule route_table_bounded)
qed

text \<open>C28. Route choice: \<open>lookup\<close> returns the head of the live alternatives, which are exactly the
  unexpired routes cached for the destination in order of effective cost.\<close>

theorem route_lookup_best:
  "RouteCache_lookup c dst now =
     (case RouteCache_alternatives c dst now of [] \<Rightarrow> None | r # _ \<Rightarrow> Some r) \<and>
   sorted (map (\<lambda>r. RouteEntry_effective_cost r now) (RouteCache_alternatives c dst now)) \<and>
   mset (RouteCache_alternatives c dst now) =
     (case SmallMap_get (rt_routes c) dst of
        None \<Rightarrow> {#} | Some l \<Rightarrow> filter_mset (\<lambda>r. now < re_expires_at r) (mset l))"
proof (intro conjI)
  show "RouteCache_lookup c dst now =
      (case RouteCache_alternatives c dst now of [] \<Rightarrow> None | r # _ \<Rightarrow> Some r)"
    by (rule lookup_alternatives)
qed (simp_all add: RouteCache_alternatives_def sort_by_key_sort_key mset_filter split: option.split)

text \<open>C29. Failing routes go away: in a table reached by any sequence of operations, after as many
  consecutive failures of a route as the configuration tolerates, that route is no longer used.\<close>

theorem route_failures_remove:
  assumes "RoutingConfig_ok cfg" "unat (rt_max_failures cfg) \<le> Suc n"
    and "c = fold rt_step ops (RouteCache_new cfg)"
  shows "list_all (\<lambda>r. re_next_hop r \<noteq> nh)
    (RouteCache_alternatives (((\<lambda>c. fst (RouteCache_mark_failure c dst nh)) ^^ Suc n) c) dst now)"
proof -
  have inv: "rt_inv c" "rt_cfg c = cfg" using assms(1,3) rt_reachable by (auto simp: RouteCache_new_def)
  have "rt_inv (((\<lambda>c. fst (RouteCache_mark_failure c dst nh)) ^^ Suc n) c)"
    using mark_failure_repeat [OF inv(1)] by blast
  then show ?thesis
    unfolding list_all_iff using mark_failure_removes [OF inv(1), of n _ dst nh] assms(2) inv(2)
    by (auto simp add: alternatives_old_list simp del: funpow.simps)
qed

definition demo_route :: route_entry where
  "demo_route = \<lparr>re_dst = BROADCAST, re_next_hop = BROADCAST, re_hops = 1, re_cost = 100,
     re_learned_at = 0, re_expires_at = 0, re_last_used = 0, re_failures = 0, re_source = Discovery,
     re_via_anchor = None\<rparr>"

theorem route_failures_remove_witness:
  "list_all (\<lambda>r. re_next_hop r \<noteq> BROADCAST)
    (RouteCache_alternatives (((\<lambda>c. fst (RouteCache_mark_failure c BROADCAST BROADCAST)) ^^ Suc 2)
      (fold rt_step [RtInsert demo_route 5] (RouteCache_new RoutingConfig_default))) BROADCAST 7)"
  by (rule route_failures_remove [OF _ _ refl])
    (simp_all add: RoutingConfig_ok_def RoutingConfig_default_def)

end
