(* ===== verification/Zone.thy ===== *)
theory Zone
  imports Neighbor Routing
begin

section \<open>Intra-zone routing table (\<open>zrp/zone.rs\<close>)\<close>

text \<open>
  The bounded distance-vector table built from beacons. The loop of \<open>enforce_bound\<close> removes one
  entry per round; it runs here with as many rounds as there are entries, and the invariant shows
  that it ends with its condition met.
\<close>

record zone_node =
  zn_addr :: address
  zn_distance :: u8
  zn_next_hop :: address
  zn_quality :: u8
  zn_flags :: u8
  zn_updated_at :: time

definition ZoneNode_is_leaf :: "zone_node \<Rightarrow> bool" where
  "ZoneNode_is_leaf n \<longleftrightarrow> zn_flags n AND zflag_LEAF \<noteq> 0"

definition ZoneNode_is_anchor :: "zone_node \<Rightarrow> bool" where
  "ZoneNode_is_anchor n \<longleftrightarrow> zn_flags n AND zflag_ANCHOR \<noteq> 0"

definition ZoneNode_is_sleeping :: "zone_node \<Rightarrow> bool" where
  "ZoneNode_is_sleeping n \<longleftrightarrow> zn_flags n AND zflag_SLEEPING \<noteq> 0"

definition ZoneNode_cost :: "zone_node \<Rightarrow> u32" where
  "ZoneNode_cost n = ucast (zn_distance n) * ucast (link_cost (zn_quality n) 0)"

record zone_table =
  zt_radius :: u8
  zt_max_entries :: nat
  zt_entry_ttl_ms :: time
  zt_nodes :: "(address, zone_node) small_map"
  zt_adjacency :: "(address, address list) small_map"

definition ZoneTable_new :: "u8 \<Rightarrow> nat \<Rightarrow> time \<Rightarrow> zone_table" where
  "ZoneTable_new radius max_entries entry_ttl_ms =
     \<lparr>zt_radius = min (max radius 1) 4, zt_max_entries = max_entries, zt_entry_ttl_ms = entry_ttl_ms,
      zt_nodes = SmallMap_new, zt_adjacency = SmallMap_new\<rparr>"

definition ZoneTable_get :: "zone_table \<Rightarrow> address \<Rightarrow> zone_node option" where
  "ZoneTable_get z a = SmallMap_get (zt_nodes z) a"

definition ZoneTable_contains :: "zone_table \<Rightarrow> address \<Rightarrow> bool" where
  "ZoneTable_contains z a = SmallMap_contains_key (zt_nodes z) a"

definition ZoneTable_iter :: "zone_table \<Rightarrow> zone_node list" where
  "ZoneTable_iter z = SmallMap_values (zt_nodes z)"

definition ZoneTable_merge :: "time \<Rightarrow> zone_node \<Rightarrow> zone_table \<Rightarrow> zone_table" where
  "ZoneTable_merge now cand z =
     (let put = z\<lparr>zt_nodes := sm_put (zt_nodes z) (zn_addr cand) cand\<rparr> in
      case SmallMap_get (zt_nodes z) (zn_addr cand) of
        Some cur \<Rightarrow>
          if zn_next_hop cur \<noteq> zn_next_hop cand
          then let stale = (sat_sub now (zn_updated_at cur) > zt_entry_ttl_ms z div 2)
               in if ZoneNode_cost cand < ZoneNode_cost cur \<or> stale then put else z
          else put
      | None \<Rightarrow> put)"

fun enforce_loop :: "nat \<Rightarrow> nat \<Rightarrow> (address, zone_node) small_map \<Rightarrow> (address, zone_node) small_map" where
  "enforce_loop 0 max_entries m = m"
| "enforce_loop (Suc fuel) max_entries m =
     (if length m > max_entries
      then (case max_by_key (\<lambda>n. (zn_distance n, 255 - zn_quality n)) (SmallMap_values m) of
              Some victim \<Rightarrow> enforce_loop fuel max_entries (sm_del m (zn_addr victim))
            | None \<Rightarrow> m)
      else m)"

definition ZoneTable_enforce_bound :: "zone_table \<Rightarrow> zone_table" where
  "ZoneTable_enforce_bound z =
     z\<lparr>zt_nodes := enforce_loop (length (zt_nodes z)) (zt_max_entries z) (zt_nodes z)\<rparr>"

definition merge_attached :: "time \<Rightarrow> address \<Rightarrow> address \<Rightarrow> u8 \<Rightarrow> address \<Rightarrow> zone_table \<Rightarrow> zone_table" where
  "merge_attached now me from lq a z =
     (if a = me then z
      else ZoneTable_merge now \<lparr>zn_addr = a, zn_distance = 2, zn_next_hop = from, zn_quality = lq,
                                zn_flags = zflag_LEAF OR zflag_SLEEPING, zn_updated_at = now\<rparr> z)"

definition merge_entry :: "time \<Rightarrow> address \<Rightarrow> address \<Rightarrow> u8 \<Rightarrow> zone_entry \<Rightarrow> zone_table \<Rightarrow> zone_table" where
  "merge_entry now me from lq e z =
     (if ze_addr e = me then z
      else let d = sat_add (ze_distance e) 1
           in if d > zt_radius z then z
              else ZoneTable_merge now \<lparr>zn_addr = ze_addr e, zn_distance = d, zn_next_hop = from,
                     zn_quality = min (ze_quality e) lq, zn_flags = ze_flags e, zn_updated_at = now\<rparr> z)"

definition ZoneTable_update_from_beacon ::
  "time \<Rightarrow> address \<Rightarrow> neighbor_table \<Rightarrow> address \<Rightarrow> zone_entry list \<Rightarrow> address list \<Rightarrow> zone_table \<Rightarrow> zone_table" where
  "ZoneTable_update_from_beacon now me neighbors from entries attached z =
     (case NeighborTable_get neighbors from of
        None \<Rightarrow> z
      | Some n \<Rightarrow>
          let lq = Neighbor_link_quality n;
              flags = (0 OR (if Neighbor_is_leaf n then zflag_LEAF else 0))
                      OR (if nb_role n = Anchor then zflag_ANCHOR else 0);
              z1 = ZoneTable_merge now \<lparr>zn_addr = from, zn_distance = 1, zn_next_hop = from,
                     zn_quality = lq, zn_flags = flags, zn_updated_at = now\<rparr> z;
              adj = map ze_addr (filter (\<lambda>e. ze_distance e = 1) entries) @ attached;
              z2 = z1\<lparr>zt_adjacency := sm_put (zt_adjacency z1) from adj\<rparr>;
              z3 = fold (merge_attached now me from lq) attached z2;
              z4 = fold (merge_entry now me from lq) entries z3
          in ZoneTable_enforce_bound z4)"

definition ZoneTable_remove_via :: "address \<Rightarrow> zone_table \<Rightarrow> zone_table \<times> address list" where
  "ZoneTable_remove_via neighbor z =
     (let gone = map zn_addr (filter (\<lambda>n. zn_next_hop n = neighbor) (ZoneTable_iter z))
      in (z\<lparr>zt_nodes := sm_dels gone (zt_nodes z), zt_adjacency := sm_del (zt_adjacency z) neighbor\<rparr>, gone))"

definition ZoneTable_expire :: "time \<Rightarrow> zone_table \<Rightarrow> zone_table \<times> nat" where
  "ZoneTable_expire now z =
     (let nodes = SmallMap_retain (\<lambda>_ n. sat_sub now (zn_updated_at n) \<le> zt_entry_ttl_ms z) (zt_nodes z);
          adj = SmallMap_retain (\<lambda>a _. SmallMap_contains_key nodes a) (zt_adjacency z)
      in (z\<lparr>zt_nodes := nodes, zt_adjacency := adj\<rparr>, length (zt_nodes z) - length nodes))"

definition ZoneNode_entry :: "zone_node \<Rightarrow> zone_entry" where
  "ZoneNode_entry n =
     \<lparr>ze_addr = zn_addr n, ze_distance = zn_distance n, ze_quality = zn_quality n, ze_flags = zn_flags n\<rparr>"

definition ZoneTable_advertised :: "zone_table \<Rightarrow> zone_node list" where
  "ZoneTable_advertised z =
     sort_by_key zn_addr (filter (\<lambda>n. zn_distance n < max (zt_radius z) 2) (ZoneTable_iter z))"

text \<open>\<open>cycle().skip(start).take(k)\<close> of a non-empty list.\<close>

definition cycle_take :: "nat \<Rightarrow> nat \<Rightarrow> 'a list \<Rightarrow> 'a list" where
  "cycle_take start k v = map (\<lambda>i. v ! ((start + i) mod length v)) [0..<k]"

definition ZoneTable_advertisement :: "nat \<Rightarrow> u32 \<Rightarrow> zone_table \<Rightarrow> zone_entry list" where
  "ZoneTable_advertisement mx rnd z =
     (let v = ZoneTable_advertised z in
      if v = [] \<or> mx = 0 then []
      else let len = length v;
               windows = div_ceil len mx;
               start = (unat rnd mod windows) * mx
           in map ZoneNode_entry (cycle_take start (min mx len) v))"

definition ZoneTable_neighbors_of :: "address \<Rightarrow> zone_table \<Rightarrow> address list option" where
  "ZoneTable_neighbors_of node z = SmallMap_get (zt_adjacency z) node"

fun covered_loop :: "address \<Rightarrow> address list \<Rightarrow> bool \<Rightarrow> neighbor list \<Rightarrow> bool option" where
  "covered_loop transmitter adj any [] = Some any"
| "covered_loop transmitter adj any (n # ns) =
     (if \<not> Role_relays (nb_role n) \<or> nb_addr n = transmitter then covered_loop transmitter adj any ns
      else if nb_addr n \<notin> set adj then None
      else covered_loop transmitter adj True ns)"

definition ZoneTable_covered_by :: "address \<Rightarrow> neighbor_table \<Rightarrow> zone_table \<Rightarrow> bool" where
  "ZoneTable_covered_by transmitter neighbors z =
     (case SmallMap_get (zt_adjacency z) transmitter of
        None \<Rightarrow> False
      | Some adj \<Rightarrow>
          (case covered_loop transmitter adj False (NeighborTable_iter neighbors) of
             None \<Rightarrow> False
           | Some any \<Rightarrow> any \<or> list_all (\<lambda>n. nb_addr n = transmitter \<or> \<not> Role_relays (nb_role n))
                                      (NeighborTable_iter neighbors)))"

definition ZoneTable_anchor_for :: "address \<Rightarrow> zone_table \<Rightarrow> address option" where
  "ZoneTable_anchor_for leaf z =
     (case ZoneTable_get z leaf of
        None \<Rightarrow> None
      | Some n \<Rightarrow>
          if ZoneNode_is_leaf n \<and> zn_distance n \<ge> 2 \<and> ZoneNode_is_sleeping n
          then (case ZoneTable_get z (zn_next_hop n) of
                  None \<Rightarrow> None
                | Some via \<Rightarrow> if \<not> ZoneNode_is_leaf via then Some (zn_addr via) else None)
          else None)"

subsection \<open>Invariant\<close>

text \<open>
  A node is kept under its own address, at a distance within the radius; only a leaf attached to
  an anchor that is a neighbour may be at distance two where the radius is one.
\<close>

definition zn_ok :: "zone_table \<Rightarrow> address \<Rightarrow> zone_node \<Rightarrow> bool" where
  "zn_ok z a n \<longleftrightarrow> zn_addr n = a \<and> 1 \<le> zn_distance n \<and>
     (zn_distance n \<le> zt_radius z \<or>
      zn_distance n = 2 \<and> zn_flags n = zflag_LEAF OR zflag_SLEEPING)"

definition zt_wf :: "zone_table \<Rightarrow> bool" where
  "zt_wf z \<longleftrightarrow> zt_radius z \<le> 4 \<and> 1 \<le> zt_radius z \<and> sm_wf (zt_nodes z) \<and> sm_wf (zt_adjacency z) \<and>
     (\<forall>(a, n) \<in> set (zt_nodes z). zn_ok z a n)"

definition zt_inv :: "zone_table \<Rightarrow> bool" where
  "zt_inv z \<longleftrightarrow> zt_wf z \<and> length (zt_nodes z) \<le> zt_max_entries z"

lemma merge_wf:
  assumes "zt_wf z" "zn_ok z (zn_addr cand) cand"
  shows "zt_wf (ZoneTable_merge now cand z)"
  using assms
  by (auto simp: ZoneTable_merge_def zt_wf_def zn_ok_def SmallMap_insert_set Let_def split: option.split)

lemma merge_attached_wf: "zt_wf z \<Longrightarrow> zt_wf (merge_attached now me from lq a z)"
  using merge_wf [of z] by (auto simp: merge_attached_def zn_ok_def)

lemma merge_entry_wf:
  assumes "zt_wf z" shows "zt_wf (merge_entry now me from lq e z)"
proof -
  have "1 \<le> sat_add (ze_distance e) 1" by (simp add: word_le_nat_alt unat_sat_add)
  then show ?thesis
    using assms merge_wf [of z] by (auto simp: merge_entry_def zn_ok_def Let_def not_less)
qed

lemma fold_attached_wf: "zt_wf z \<Longrightarrow> zt_wf (fold (merge_attached now me from lq) as z)"
  by (induction as arbitrary: z) (auto intro: merge_attached_wf)

lemma fold_entries_wf: "zt_wf z \<Longrightarrow> zt_wf (fold (merge_entry now me from lq) es z)"
  by (induction es arbitrary: z) (auto intro: merge_entry_wf)

lemma enforce_loop_ok:
  assumes "sm_wf m" "\<forall>(a, n) \<in> set m. zn_addr n = a" "length m \<le> fuel"
  shows "sm_wf (enforce_loop fuel mx m) \<and> set (enforce_loop fuel mx m) \<subseteq> set m \<and>
    length (enforce_loop fuel mx m) \<le> mx"
  using assms
proof (induction fuel arbitrary: m)
  case (Suc fuel)
  show ?case
  proof (cases "length m > mx")
    case True
    then have "SmallMap_values m \<noteq> []" by (auto simp: SmallMap_values_def)
    then obtain v where v: "max_by_key (\<lambda>n. (zn_distance n, 255 - zn_quality n)) (SmallMap_values m) = Some v"
      by (cases "max_by_key (\<lambda>n. (zn_distance n, 255 - zn_quality n)) (SmallMap_values m)") auto
    then have "v \<in> snd ` set m" using max_by_key_mem [OF v] by (simp add: SmallMap_values_def)
    then have mem: "(zn_addr v, v) \<in> set m" using Suc.prems(2) by auto
    note d = sm_del_mem [OF Suc.prems(1) mem]
    have "sm_wf (sm_del m (zn_addr v))" "length (sm_del m (zn_addr v)) \<le> fuel"
      "\<forall>(a, n) \<in> set (sm_del m (zn_addr v)). zn_addr n = a"
      using Suc.prems d by auto
    from Suc.IH [OF this(1,3,2)] show ?thesis using True v d(3) by auto
  next
    case False
    then show ?thesis using Suc.prems by simp
  qed
qed simp

lemma enforce_bound_inv: "zt_wf z \<Longrightarrow> zt_inv (ZoneTable_enforce_bound z)"
  using enforce_loop_ok [of "zt_nodes z" "length (zt_nodes z)" "zt_max_entries z"]
  by (fastforce simp: zt_inv_def zt_wf_def ZoneTable_enforce_bound_def zn_ok_def)

lemma zt_inv_update:
  assumes "zt_inv z" shows "zt_inv (ZoneTable_update_from_beacon now me nbs from es as z)"
proof (cases "NeighborTable_get nbs from")
  case None
  then show ?thesis using assms by (simp add: ZoneTable_update_from_beacon_def)
next
  case (Some n)
  let ?lq = "Neighbor_link_quality n"
  let ?c = "\<lparr>zn_addr = from, zn_distance = 1, zn_next_hop = from, zn_quality = ?lq,
     zn_flags = (0 OR (if Neighbor_is_leaf n then zflag_LEAF else 0)) OR (if nb_role n = Anchor then zflag_ANCHOR else 0),
     zn_updated_at = now\<rparr>"
  let ?adj = "map ze_addr (filter (\<lambda>e. ze_distance e = 1) es) @ as"
  let ?z1 = "ZoneTable_merge now ?c z"
  let ?z2 = "?z1\<lparr>zt_adjacency := sm_put (zt_adjacency ?z1) from ?adj\<rparr>"
  have wf: "zt_wf z" using assms by (simp add: zt_inv_def)
  then have "zt_wf ?z1" by (intro merge_wf) (simp_all add: zn_ok_def zt_wf_def)
  then have "zt_wf ?z2" by (auto simp: zt_wf_def zn_ok_def)
  then have "zt_wf (fold (merge_entry now me from ?lq) es (fold (merge_attached now me from ?lq) as ?z2))"
    by (intro fold_entries_wf fold_attached_wf)
  then show ?thesis using Some enforce_bound_inv by (simp add: ZoneTable_update_from_beacon_def Let_def)
qed

lemma zt_inv_remove_via: "zt_inv z \<Longrightarrow> zt_inv (fst (ZoneTable_remove_via nb z))"
  using sm_dels(1,3,4) [of "zt_nodes z" "map zn_addr (filter (\<lambda>n. zn_next_hop n = nb) (ZoneTable_iter z))"]
  by (auto simp: zt_inv_def zt_wf_def ZoneTable_remove_via_def zn_ok_def Let_def)

lemma zt_inv_expire: "zt_inv z \<Longrightarrow> zt_inv (fst (ZoneTable_expire now z))"
  using SmallMap_retain_length [of "\<lambda>_ n. sat_sub now (zn_updated_at n) \<le> zt_entry_ttl_ms z" "zt_nodes z"]
  by (auto simp: zt_inv_def zt_wf_def ZoneTable_expire_def zn_ok_def Let_def)

datatype zt_op =
    ZtBeacon time address neighbor_table address "zone_entry list" "address list"
  | ZtRemoveVia address
  | ZtExpire time

fun zt_step :: "zt_op \<Rightarrow> zone_table \<Rightarrow> zone_table" where
  "zt_step (ZtBeacon now me nbs from es as) z = ZoneTable_update_from_beacon now me nbs from es as z"
| "zt_step (ZtRemoveVia nb) z = fst (ZoneTable_remove_via nb z)"
| "zt_step (ZtExpire now) z = fst (ZoneTable_expire now z)"

interpretation zt: invariant_machine zt_step zt_inv
proof
  fix z op
  assume "zt_inv z"
  then show "zt_inv (zt_step op z)"
    by (cases op) (simp_all add: zt_inv_update zt_inv_remove_via zt_inv_expire)
qed

lemma zt_inv_new: "zt_inv (ZoneTable_new radius mx ttl)"
  by (simp add: zt_inv_def zt_wf_def ZoneTable_new_def SmallMap_new_def le_max_iff_disj min_le_iff_disj)

subsection \<open>Advertisement\<close>

lemma cycle_take_covers:
  assumes "i < length v" "0 < mx" "w = i div mx"
  shows "v ! i \<in> set (cycle_take (w * mx) (min mx (length v)) v)"
proof -
  let ?j = "i mod mx"
  have i: "i = w * mx + ?j" using assms(3) by simp
  then have "?j < min mx (length v)" using assms(1,2) by (metis add_leD2 le_less_trans min_less_iff_conj mod_less_divisor order_refl)
  moreover have "v ! ((w * mx + ?j) mod length v) = v ! i" using i assms(1) by simp
  ultimately show ?thesis unfolding cycle_take_def
    by (metis (mono_tags, lifting) add.left_neutral atLeast0LessThan atLeastLessThan_upt image_eqI lessThan_iff list.set_map)
qed

lemma div_ceil_window:
  assumes "i < len" "0 < mx" shows "i div mx < div_ceil len mx"
proof -
  have "len = len div mx * mx + len mod mx" "len mod mx < mx" using assms(2) by simp_all
  then have "i < mx + len div mx * mx" "len mod mx = 0 \<Longrightarrow> i < len div mx * mx" using assms(1) by linarith+
  then show ?thesis using assms(2) by (simp add: div_ceil_def div_less_iff_less_mult)
qed

lemma advertisement_window:
  assumes "n \<in> set (ZoneTable_advertised z)" "0 < mx"
  shows "\<exists>w < div_ceil (length (ZoneTable_advertised z)) mx. \<forall>rnd.
    unat rnd mod div_ceil (length (ZoneTable_advertised z)) mx = w \<longrightarrow>
      ZoneNode_entry n \<in> set (ZoneTable_advertisement mx rnd z)"
proof -
  let ?v = "ZoneTable_advertised z"
  obtain i where i: "i < length ?v" "n = ?v ! i" using assms(1) by (metis in_set_conv_nth)
  have "ZoneNode_entry n \<in> set (ZoneTable_advertisement mx rnd z)"
    if "unat rnd mod div_ceil (length ?v) mx = i div mx" for rnd
    using cycle_take_covers [OF i(1) assms(2) refl] that i assms
    by (auto simp: ZoneTable_advertisement_def Let_def)
  then show ?thesis using div_ceil_window [OF i(1) assms(2)] by blast
qed

lemma window_hit:
  fixes r :: u32
  assumes "w < k" "unat r + k \<le> 2 ^ 32"
  obtains j where "j < k" "unat (r + of_nat j) mod k = w"
proof -
  define j where "j = (w + (k - unat r mod k)) mod k"
  have "0 < k" using assms(1) by simp
  then have j: "j < k" by (simp add: j_def)
  have "unat r + j < 2 ^ 32" using j assms(2) by simp
  then have "unat (r + of_nat j) = unat r + j"
    by (simp add: unat_word_ariths(1) unat_of_nat take_bit_nat_eq_self_iff less_imp_le_nat)
  moreover have "(unat r + j) mod k = w"
  proof -
    have "(unat r + j) mod k = (unat r mod k + (w + (k - unat r mod k))) mod k"
      by (metis j_def mod_add_eq mod_mod_trivial)
    also have "unat r mod k + (w + (k - unat r mod k)) = w + k"
      using mod_less_divisor [OF \<open>0 < k\<close>, of "unat r"] by simp
    finally show ?thesis using assms(1) by simp
  qed
  ultimately show ?thesis using that j by metis
qed

subsection \<open>Coverage\<close>

lemma covered_loop_eq:
  "covered_loop tx adj any ns =
     (if \<exists>n \<in> set ns. Role_relays (nb_role n) \<and> nb_addr n \<noteq> tx \<and> nb_addr n \<notin> set adj then None
      else Some (any \<or> (\<exists>n \<in> set ns. Role_relays (nb_role n) \<and> nb_addr n \<noteq> tx)))"
  by (induction ns arbitrary: any) auto

lemma covered_by_iff:
  "ZoneTable_covered_by tx nbs z \<longleftrightarrow>
     (case SmallMap_get (zt_adjacency z) tx of
        None \<Rightarrow> False
      | Some adj \<Rightarrow> list_all (\<lambda>n. \<not> Role_relays (nb_role n) \<or> nb_addr n = tx \<or> nb_addr n \<in> set adj)
                     (NeighborTable_iter nbs))"
  by (auto simp: ZoneTable_covered_by_def covered_loop_eq list_all_iff split: option.split)

subsection \<open>Properties\<close>

text \<open>C36. Zone table: after any sequence of beacons, lost neighbours and expiries the table holds at
  most the configured number of nodes, each under its own address and at a distance between one hop
  and the zone radius, or two hops for an attached leaf when the radius is one.\<close>

theorem zone_table_bounded: "zt_inv (fold zt_step ops (ZoneTable_new radius mx ttl))"
  by (rule zt.run_inv) (rule zt_inv_new)


definition demo_node :: zone_node where
  "demo_node = \<lparr>zn_addr = Address 1 2 3 4 5 6 7 8, zn_distance = 1, zn_next_hop = Address 1 2 3 4 5 6 7 8,
     zn_quality = 200, zn_flags = 0, zn_updated_at = 0\<rparr>"


text \<open>Coverage: a relay is pruned exactly when the neighbours of the transmitter are known and
  include every relaying neighbour of ours other than the transmitter itself.\<close>

theorem zone_covered_exact:
  "ZoneTable_covered_by tx nbs z \<longleftrightarrow>
     (case SmallMap_get (zt_adjacency z) tx of
        None \<Rightarrow> False
      | Some adj \<Rightarrow> list_all (\<lambda>n. \<not> Role_relays (nb_role n) \<or> nb_addr n = tx \<or> nb_addr n \<in> set adj)
                     (NeighborTable_iter nbs))"
  by (rule covered_by_iff)

end
