(* ===== verification/Ierp.thy ===== *)
theory Ierp
  imports Packet SmallMap "HOL-Library.Stream"
begin

section \<open>Inter-zone routing (\<open>zrp/mod.rs\<close>)\<close>

text \<open>
  The reactive half of zone routing: discoveries with an expanding ring, the replies waiting for
  their slot, and the requests a relay has seen. The closure that \<open>tick\<close> takes to draw request
  numbers is the stream of the numbers it returns.
\<close>

record zrp_config =
  zc_zone_radius :: u8
  zc_discovery_attempts :: u8
  zc_discovery_timeout_ms :: u64
  zc_discovery_per_hop_ms :: u64
  zc_max_pending_discoveries :: nat
  zc_max_queued_per_discovery :: nat
  zc_max_zone_entries :: nat
  zc_max_advertised_entries :: nat
  zc_better_cost_percent :: u8
  zc_discovery_holdoff_ms :: u64

definition ZrpConfig_default :: zrp_config where
  "ZrpConfig_default =
     \<lparr>zc_zone_radius = 2, zc_discovery_attempts = of_nat (length DISCOVERY_TTL_STEPS),
      zc_discovery_timeout_ms = 3000, zc_discovery_per_hop_ms = 1600, zc_max_pending_discoveries = 8,
      zc_max_queued_per_discovery = 4, zc_max_zone_entries = 96, zc_max_advertised_entries = 6,
      zc_better_cost_percent = 70, zc_discovery_holdoff_ms = 20000\<rparr>"

record discovery =
  d_target :: address
  d_started_at :: time
  d_attempt :: u8
  d_deadline :: time
  d_req_id :: u32
  d_queued :: "packet list"

definition Discovery_ttl :: "discovery \<Rightarrow> u8" where
  "Discovery_ttl d = DISCOVERY_TTL_STEPS ! min (unat (d_attempt d)) (length DISCOVERY_TTL_STEPS - 1)"

subsection \<open>Replies waiting for their slot\<close>

type_synonym reply_item = "address \<times> u32 \<times> u16 \<times> time \<times> packet"

record pending_replies =
  pr_items :: "reply_item list"
  pr_suppressed :: u32

definition PendingReplies_default :: pending_replies where
  "PendingReplies_default = \<lparr>pr_items = [], pr_suppressed = 0\<rparr>"

definition PendingReplies_schedule ::
  "address \<Rightarrow> u32 \<Rightarrow> u16 \<Rightarrow> time \<Rightarrow> packet \<Rightarrow> pending_replies \<Rightarrow> pending_replies" where
  "PendingReplies_schedule origin req_id cost due p r =
     (if length (pr_items r) < 16
      then r\<lparr>pr_items := pr_items r @ [(origin, req_id, cost, due, p)]\<rparr> else r)"

definition PendingReplies_heard :: "address \<Rightarrow> u32 \<Rightarrow> u16 \<Rightarrow> pending_replies \<Rightarrow> pending_replies" where
  "PendingReplies_heard origin req_id cost r =
     (let items = filter (\<lambda>(o', r', c, _, _). \<not> (o' = origin \<and> r' = req_id \<and> c \<ge> cost)) (pr_items r)
      in r\<lparr>pr_items := items,
           pr_suppressed := pr_suppressed r + of_nat (length (pr_items r) - length items)\<rparr>)"

definition ri_due :: "reply_item \<Rightarrow> time" where
  "ri_due = (\<lambda>(_, _, _, due, _). due)"

definition ri_packet :: "reply_item \<Rightarrow> packet" where
  "ri_packet = (\<lambda>(_, _, _, _, p). p)"

function due_loop :: "time \<Rightarrow> nat \<Rightarrow> reply_item list \<Rightarrow> packet list \<Rightarrow> reply_item list \<times> packet list" where
  "due_loop now i items out =
     (if i < length items
      then if ri_due (items ! i) \<le> now
           then due_loop now i (remove_at i items) (out @ [ri_packet (items ! i)])
           else due_loop now (i + 1) items out
      else (items, out))"
  by pat_completeness auto
termination
  by (relation "measure (\<lambda>(now, i, items, out). length items - i)") (auto simp: remove_at_def)

declare due_loop.simps [simp del]

definition PendingReplies_due :: "time \<Rightarrow> pending_replies \<Rightarrow> pending_replies \<times> packet list" where
  "PendingReplies_due now r =
     (case due_loop now 0 (pr_items r) [] of (items, out) \<Rightarrow> (r\<lparr>pr_items := items\<rparr>, out))"

definition PendingReplies_next_due :: "pending_replies \<Rightarrow> time option" where
  "PendingReplies_next_due r = list_min (map ri_due (pr_items r))"

subsection \<open>Discoveries and seen requests\<close>

record seen_request =
  sr_best_cost :: u16
  sr_relays :: u8
  sr_first_seen :: time
  sr_replied :: bool

record ierp =
  ie_cfg :: zrp_config
  ie_pending :: "(address, discovery) small_map"
  ie_seen_requests :: "(address \<times> u32, seen_request) small_map"
  ie_last_finished :: "(address, time \<times> bool) small_map"
  ie_discoveries_started :: u32
  ie_discoveries_succeeded :: u32
  ie_discoveries_failed :: u32
  ie_proxy_replies_sent :: u32

definition Ierp_new :: "zrp_config \<Rightarrow> ierp" where
  "Ierp_new cfg =
     \<lparr>ie_cfg = cfg, ie_pending = SmallMap_new, ie_seen_requests = SmallMap_new,
      ie_last_finished = SmallMap_new, ie_discoveries_started = 0, ie_discoveries_succeeded = 0,
      ie_discoveries_failed = 0, ie_proxy_replies_sent = 0\<rparr>"

definition Ierp_is_pending :: "ierp \<Rightarrow> address \<Rightarrow> bool" where
  "Ierp_is_pending s target = SmallMap_contains_key (ie_pending s) target"

definition Ierp_may_start :: "ierp \<Rightarrow> address \<Rightarrow> time \<Rightarrow> bool" where
  "Ierp_may_start s target now =
     (if SmallMap_contains_key (ie_pending s) target then False
      else if length (ie_pending s) \<ge> zc_max_pending_discoveries (ie_cfg s) then False
      else (case SmallMap_get (ie_last_finished s) target of
              Some (t, ok) \<Rightarrow>
                if \<not> ok then sat_sub now t \<ge> zc_discovery_holdoff_ms (ie_cfg s)
                else sat_sub now t \<ge> zc_discovery_holdoff_ms (ie_cfg s) div 4
            | None \<Rightarrow> True))"

definition Ierp_timeout_for :: "zrp_config \<Rightarrow> u8 \<Rightarrow> u64" where
  "Ierp_timeout_for cfg ttl = zc_discovery_timeout_ms cfg + ucast ttl * zc_discovery_per_hop_ms cfg"

definition Ierp_start :: "address \<Rightarrow> u32 \<Rightarrow> time \<Rightarrow> ierp \<Rightarrow> ierp \<times> u8" where
  "Ierp_start target req_id now s =
     (let d = \<lparr>d_target = target, d_started_at = now, d_attempt = 0, d_deadline = 0,
               d_req_id = req_id, d_queued = []\<rparr>;
          ttl = Discovery_ttl d;
          d' = d\<lparr>d_deadline := now + Ierp_timeout_for (ie_cfg s) ttl\<rparr>
      in (s\<lparr>ie_pending := sm_put (ie_pending s) target d',
            ie_discoveries_started := ie_discoveries_started s + 1\<rparr>, ttl))"

definition Ierp_queue :: "address \<Rightarrow> packet \<Rightarrow> ierp \<Rightarrow> ierp \<times> bool" where
  "Ierp_queue target p s =
     (case SmallMap_get (ie_pending s) target of
        Some d \<Rightarrow>
          if length (d_queued d) < zc_max_queued_per_discovery (ie_cfg s)
          then (s\<lparr>ie_pending := SmallMap_modify (ie_pending s) target
                    (\<lambda>d. d\<lparr>d_queued := d_queued d @ [p]\<rparr>)\<rparr>, True)
          else (s, False)
      | None \<Rightarrow> (s, False))"

definition Ierp_succeed :: "address \<Rightarrow> time \<Rightarrow> ierp \<Rightarrow> ierp \<times> packet list" where
  "Ierp_succeed target now s =
     (let s1 = s\<lparr>ie_last_finished := sm_put (ie_last_finished s) target (now, True)\<rparr>
      in case SmallMap_remove (ie_pending s1) target of
           (m, Some d) \<Rightarrow>
             (s1\<lparr>ie_pending := m, ie_discoveries_succeeded := ie_discoveries_succeeded s1 + 1\<rparr>, d_queued d)
         | (m, None) \<Rightarrow> (s1\<lparr>ie_pending := m\<rparr>, []))"

record advance_result =
  av_pending :: "(address, discovery) small_map"
  av_ids :: "u32 stream"
  av_retries :: "(address \<times> u32 \<times> u8) list"
  av_done :: "address list"

fun advance_loop ::
  "zrp_config \<Rightarrow> time \<Rightarrow> u32 stream \<Rightarrow> (address, discovery) small_map \<Rightarrow> advance_result" where
  "advance_loop cfg now ids [] = \<lparr>av_pending = [], av_ids = ids, av_retries = [], av_done = []\<rparr>"
| "advance_loop cfg now ids ((t, d) # m) =
     (if now < d_deadline d
      then let k = advance_loop cfg now ids m in k\<lparr>av_pending := (t, d) # av_pending k\<rparr>
      else let d1 = d\<lparr>d_attempt := d_attempt d + 1\<rparr>
           in if d_attempt d1 \<ge> zc_discovery_attempts cfg
              then let k = advance_loop cfg now ids m
                   in k\<lparr>av_pending := (t, d1) # av_pending k, av_done := t # av_done k\<rparr>
              else let d2 = d1\<lparr>d_req_id := shd ids\<rparr>;
                       ttl = Discovery_ttl d2;
                       d3 = d2\<lparr>d_deadline := now + zc_discovery_timeout_ms cfg + ucast ttl * zc_discovery_per_hop_ms cfg\<rparr>;
                       k = advance_loop cfg now (stl ids) m
                   in k\<lparr>av_pending := (t, d3) # av_pending k,
                        av_retries := (t, d_req_id d3, ttl) # av_retries k\<rparr>)"

text \<open>
  The second loop removes the discoveries that gave up. Its \<open>unwrap\<close> is reached with keys of the
  map only (lemma \<open>fail_all_eq\<close>), so the case of a missing key does not occur.
\<close>

definition fail_discovery ::
  "time \<Rightarrow> address \<Rightarrow> ierp \<times> (address \<times> packet list) list \<Rightarrow> ierp \<times> (address \<times> packet list) list" where
  "fail_discovery now t r =
     (case r of (s, failures) \<Rightarrow>
        (case SmallMap_remove (ie_pending s) t of
           (m, Some d) \<Rightarrow>
             (s\<lparr>ie_pending := m, ie_last_finished := sm_put (ie_last_finished s) t (now, False),
                ie_discoveries_failed := ie_discoveries_failed s + 1\<rparr>, failures @ [(t, d_queued d)])
         | (m, None) \<Rightarrow> (s, failures)))"

definition Ierp_tick ::
  "time \<Rightarrow> u32 stream \<Rightarrow> ierp \<Rightarrow>
     ierp \<times> u32 stream \<times> (address \<times> u32 \<times> u8) list \<times> (address \<times> packet list) list" where
  "Ierp_tick now ids s =
     (let k = advance_loop (ie_cfg s) now ids (ie_pending s)
      in case fold (fail_discovery now) (av_done k) (s\<lparr>ie_pending := av_pending k\<rparr>, []) of
           (s', failures) \<Rightarrow> (s', av_ids k, av_retries k, failures))"

definition Ierp_next_deadline :: "ierp \<Rightarrow> time option" where
  "Ierp_next_deadline s = list_min (map d_deadline (SmallMap_values (ie_pending s)))"

definition Ierp_observe_request :: "address \<Rightarrow> u32 \<Rightarrow> u16 \<Rightarrow> time \<Rightarrow> ierp \<Rightarrow> ierp \<times> bool" where
  "Ierp_observe_request origin req_id cost now s =
     (let key = (origin, req_id);
          m = (if length (ie_seen_requests s) > 512
               then SmallMap_retain (\<lambda>_ r. sr_first_seen r > sat_sub now 60000) (ie_seen_requests s)
               else ie_seen_requests s)
      in case SmallMap_get m key of
           None \<Rightarrow>
             (s\<lparr>ie_seen_requests := sm_put m key
                  \<lparr>sr_best_cost = cost, sr_relays = 1, sr_first_seen = now, sr_replied = False\<rparr>\<rparr>, True)
         | Some r \<Rightarrow>
             let much_better =
               ((ucast cost :: u32) * 100 < ucast (sr_best_cost r) * ucast (zc_better_cost_percent (ie_cfg s)))
             in if much_better \<and> sr_relays r < 2
                then (s\<lparr>ie_seen_requests := SmallMap_modify m key
                          (\<lambda>r. r\<lparr>sr_best_cost := cost, sr_relays := sr_relays r + 1\<rparr>)\<rparr>, True)
                else (s\<lparr>ie_seen_requests := if cost < sr_best_cost r
                          then SmallMap_modify m key (\<lambda>r. r\<lparr>sr_best_cost := cost\<rparr>) else m\<rparr>, False))"

definition Ierp_mark_replied :: "address \<Rightarrow> u32 \<Rightarrow> ierp \<Rightarrow> ierp \<times> bool" where
  "Ierp_mark_replied origin req_id s =
     (case SmallMap_get (ie_seen_requests s) (origin, req_id) of
        Some r \<Rightarrow>
          if sr_replied r then (s, False)
          else (s\<lparr>ie_seen_requests := SmallMap_modify (ie_seen_requests s) (origin, req_id)
                    (\<lambda>r. r\<lparr>sr_replied := True\<rparr>)\<rparr>, True)
      | None \<Rightarrow> (s, True))"

definition Ierp_seen_request :: "ierp \<Rightarrow> address \<Rightarrow> u32 \<Rightarrow> seen_request option" where
  "Ierp_seen_request s origin req_id = SmallMap_get (ie_seen_requests s) (origin, req_id)"

definition Ierp_expire :: "time \<Rightarrow> ierp \<Rightarrow> ierp" where
  "Ierp_expire now s =
     s\<lparr>ie_seen_requests := SmallMap_retain (\<lambda>_ r. sr_first_seen r > sat_sub now 120000) (ie_seen_requests s),
       ie_last_finished := SmallMap_retain (\<lambda>_ (t, _). sat_sub now t < zc_discovery_holdoff_ms (ie_cfg s) * 4)
                             (ie_last_finished s)\<rparr>"

subsection \<open>The reply queue\<close>

lemma drop_remove_at: "i < length xs \<Longrightarrow> drop i (remove_at i xs) = drop (Suc i) xs"
  "i < length xs \<Longrightarrow> take i (remove_at i xs) = take i xs"
  by (simp_all add: remove_at_def)

lemma due_loop_eq:
  "due_loop now i items out =
     (take i items @ filter (\<lambda>x. \<not> ri_due x \<le> now) (drop i items),
      out @ map ri_packet (filter (\<lambda>x. ri_due x \<le> now) (drop i items)))"
proof (induction now i items out rule: due_loop.induct)
  case (1 now i items out)
  show ?case
  proof (cases "i < length items")
    case True
    then have "drop i items = items ! i # drop (Suc i) items" by (simp add: Cons_nth_drop_Suc)
    then show ?thesis using 1 True
      by (subst due_loop.simps) (auto simp: drop_remove_at take_Suc_conv_app_nth)
  qed (simp add: due_loop.simps)
qed

subsection \<open>Discoveries that time out\<close>

lemma advance_keys:
  "map (\<lambda>(t, d). (t, d_queued d)) (av_pending (advance_loop cfg now ids m)) = map (\<lambda>(t, d). (t, d_queued d)) m"
  "map fst (av_pending (advance_loop cfg now ids m)) = map fst m"
  by (induction m arbitrary: ids) (auto simp: Let_def)

lemma advance_wf [simp]: "sm_wf (av_pending (advance_loop cfg now ids m)) = sm_wf m"
  by (simp add: sm_wf_def advance_keys(2))

lemma advance_done:
  "av_done (advance_loop cfg now ids m) =
     map fst (filter (\<lambda>(t, d). d_deadline d \<le> now \<and> zc_discovery_attempts cfg \<le> d_attempt d + 1) m)"
proof (induction m arbitrary: ids)
  case (Cons x m)
  then show ?case by (cases x; cases "now < d_deadline (snd x)") (simp_all add: Let_def linorder_not_less [symmetric])
qed simp

lemma advance_done_wf:
  assumes "sm_wf m"
  shows "distinct (av_done (advance_loop cfg now ids m))"
    "set (av_done (advance_loop cfg now ids m)) \<subseteq> fst ` set (av_pending (advance_loop cfg now ids m))"
proof -
  show "distinct (av_done (advance_loop cfg now ids m))"
    unfolding advance_done by (rule sm_wf_distinct) (simp add: assms)
  have "fst ` set (av_pending (advance_loop cfg now ids m)) = fst ` set m"
    by (metis advance_keys(2) list.set_map)
  then show "set (av_done (advance_loop cfg now ids m)) \<subseteq> fst ` set (av_pending (advance_loop cfg now ids m))"
    by (auto simp: advance_done)
qed

lemma advance_kept:
  assumes "(t, d') \<in> set (av_pending (advance_loop cfg now ids m))"
    "t \<notin> set (av_done (advance_loop cfg now ids m))"
  shows "\<exists>d. (t, d) \<in> set m \<and> d_target d' = d_target d \<and> d_queued d' = d_queued d \<and>
    (d' = d \<and> now < d_deadline d \<or> d_attempt d' = d_attempt d + 1 \<and> d_attempt d' < zc_discovery_attempts cfg)"
  using assms
proof (induction m arbitrary: ids)
  case (Cons x m)
  obtain u d where x: "x = (u, d)" by (cases x)
  note IH = Cons.IH [of ids] Cons.IH [of "stl ids"]
  consider "now < d_deadline d" | "\<not> now < d_deadline d" "zc_discovery_attempts cfg \<le> d_attempt d + 1"
    | "\<not> now < d_deadline d" "\<not> zc_discovery_attempts cfg \<le> d_attempt d + 1" by blast
  then show ?case
  proof cases
    case 1
    then show ?thesis using Cons.prems IH(1) by (auto simp: x Let_def)
  next
    case 2
    then show ?thesis using Cons.prems IH(1) by (auto simp: x Let_def)
  next
    case 3
    then show ?thesis using Cons.prems IH(2) by (auto simp: x Let_def)
  qed
qed simp

lemma fail_all_eq:
  assumes "sm_wf (ie_pending s)" "distinct ts" "set ts \<subseteq> fst ` set (ie_pending s)"
  shows "snd (fold (fail_discovery now) ts (s, fs)) =
      fs @ map (\<lambda>t. (t, d_queued (the (map_of (ie_pending s) t)))) ts \<and>
    ie_pending (fst (fold (fail_discovery now) ts (s, fs))) = sm_dels ts (ie_pending s) \<and>
    ie_cfg (fst (fold (fail_discovery now) ts (s, fs))) = ie_cfg s \<and>
    ie_seen_requests (fst (fold (fail_discovery now) ts (s, fs))) = ie_seen_requests s \<and>
    (sm_wf (ie_last_finished s) \<longrightarrow> sm_wf (ie_last_finished (fst (fold (fail_discovery now) ts (s, fs)))))"
  using assms
proof (induction ts arbitrary: s fs)
  case (Cons t ts)
  obtain d where d: "map_of (ie_pending s) t = Some d"
    using Cons.prems(3) by (cases "map_of (ie_pending s) t") (auto simp: map_of_eq_None_iff)
  define s1 where "s1 = s\<lparr>ie_pending := sm_del (ie_pending s) t,
    ie_last_finished := sm_put (ie_last_finished s) t (now, False),
    ie_discoveries_failed := ie_discoveries_failed s + 1\<rparr>"
  have step: "fail_discovery now t (s, fs) = (s1, fs @ [(t, d_queued d)])"
    using SmallMap_remove_old [OF Cons.prems(1), of t] d
    by (cases "SmallMap_remove (ie_pending s) t") (simp add: fail_discovery_def s1_def)
  have s1: "sm_wf (ie_pending s1)" "set ts \<subseteq> fst ` set (ie_pending s1)"
    "map_of (ie_pending s1) = (map_of (ie_pending s))(t := None)"
    using Cons.prems by (force simp: s1_def SmallMap_remove_set)+
  have "map (\<lambda>u. (u, d_queued (the (map_of (ie_pending s1) u)))) ts =
      map (\<lambda>u. (u, d_queued (the (map_of (ie_pending s) u)))) ts"
    using Cons.prems(2) s1(3) by (auto intro: map_cong)
  moreover have "sm_dels ts (ie_pending s1) = sm_dels (t # ts) (ie_pending s)"
    by (simp add: sm_dels_def s1_def)
  moreover have "ie_cfg s1 = ie_cfg s" "ie_seen_requests s1 = ie_seen_requests s"
    "sm_wf (ie_last_finished s) \<longrightarrow> sm_wf (ie_last_finished s1)" by (simp_all add: s1_def)
  ultimately show ?case using Cons.IH [OF s1(1) _ s1(2)] Cons.prems(2) d by (simp add: step)
qed (simp add: sm_dels_def)

definition queued_set :: "ierp \<Rightarrow> (address \<times> packet list) set" where
  "queued_set s = (\<lambda>(t, d). (t, d_queued d)) ` set (ie_pending s)"

lemma Ierp_tick_parts:
  fixes now :: time and ids :: "u32 stream"
  assumes "sm_wf (ie_pending s)"
  defines "k \<equiv> advance_loop (ie_cfg s) now ids (ie_pending s)"
  shows "ie_pending (fst (Ierp_tick now ids s)) = sm_dels (av_done k) (av_pending k)"
    "ie_cfg (fst (Ierp_tick now ids s)) = ie_cfg s"
    "ie_seen_requests (fst (Ierp_tick now ids s)) = ie_seen_requests s"
    "sm_wf (ie_last_finished s) \<Longrightarrow> sm_wf (ie_last_finished (fst (Ierp_tick now ids s)))"
    "fst (snd (Ierp_tick now ids s)) = av_ids k" "fst (snd (snd (Ierp_tick now ids s))) = av_retries k"
    "snd (snd (snd (Ierp_tick now ids s))) = map (\<lambda>t. (t, d_queued (the (map_of (av_pending k) t)))) (av_done k)"
proof -
  have "sm_wf (av_pending k)" using assms(1) by (simp add: k_def)
  then have "snd (fold (fail_discovery now) (av_done k) (s\<lparr>ie_pending := av_pending k\<rparr>, [])) =
      map (\<lambda>t. (t, d_queued (the (map_of (av_pending k) t)))) (av_done k) \<and>
    ie_pending (fst (fold (fail_discovery now) (av_done k) (s\<lparr>ie_pending := av_pending k\<rparr>, []))) =
      sm_dels (av_done k) (av_pending k) \<and>
    ie_cfg (fst (fold (fail_discovery now) (av_done k) (s\<lparr>ie_pending := av_pending k\<rparr>, []))) = ie_cfg s \<and>
    ie_seen_requests (fst (fold (fail_discovery now) (av_done k) (s\<lparr>ie_pending := av_pending k\<rparr>, []))) =
      ie_seen_requests s \<and>
    (sm_wf (ie_last_finished s) \<longrightarrow> sm_wf (ie_last_finished
      (fst (fold (fail_discovery now) (av_done k) (s\<lparr>ie_pending := av_pending k\<rparr>, [])))))"
    using fail_all_eq [of "s\<lparr>ie_pending := av_pending k\<rparr>" "av_done k" now "[]"]
      advance_done_wf [OF assms(1), of "ie_cfg s" now ids, folded k_def] by simp
  then show "ie_pending (fst (Ierp_tick now ids s)) = sm_dels (av_done k) (av_pending k)"
    "ie_cfg (fst (Ierp_tick now ids s)) = ie_cfg s"
    "ie_seen_requests (fst (Ierp_tick now ids s)) = ie_seen_requests s"
    "sm_wf (ie_last_finished s) \<Longrightarrow> sm_wf (ie_last_finished (fst (Ierp_tick now ids s)))"
    "fst (snd (Ierp_tick now ids s)) = av_ids k" "fst (snd (snd (Ierp_tick now ids s))) = av_retries k"
    "snd (snd (snd (Ierp_tick now ids s))) = map (\<lambda>t. (t, d_queued (the (map_of (av_pending k) t)))) (av_done k)"
    by (simp_all add: Ierp_tick_def case_prod_unfold k_def [symmetric])
qed

lemma Ierp_tick_accounts:
  fixes now :: time and ids :: "u32 stream"
  assumes "sm_wf (ie_pending s)"
  defines "s' \<equiv> fst (Ierp_tick now ids s)" and "failures \<equiv> snd (snd (snd (Ierp_tick now ids s)))"
  shows "sm_wf (ie_pending s')" "queued_set s = queued_set s' \<union> set failures"
    "fst ` queued_set s' \<inter> fst ` set failures = {}" "distinct (map fst failures)"
proof -
  define k where "k = advance_loop (ie_cfg s) now ids (ie_pending s)"
  have wf: "sm_wf (av_pending k)" using assms(1) by (simp add: k_def)
  note parts = Ierp_tick_parts [OF assms(1), of now ids, folded k_def, folded s'_def failures_def]
  note dn = advance_done_wf [OF assms(1), of "ie_cfg s" now ids, folded k_def]
  have q: "queued_set s = (\<lambda>(t, d). (t, d_queued d)) ` set (av_pending k)"
    unfolding queued_set_def k_def by (simp only: advance_keys(1) set_map [symmetric])
  have q': "queued_set s' = {(t, x) \<in> queued_set s. t \<notin> set (av_done k)}"
    unfolding q by (auto simp: queued_set_def parts(1) sm_dels [OF wf])
  have f: "set failures = {(t, x) \<in> queued_set s. t \<in> set (av_done k)}"
  proof -
    have "(t, x) \<in> set failures \<longleftrightarrow> t \<in> set (av_done k) \<and> (t, x) \<in> queued_set s" for t x
    proof -
      have "(t, x) \<in> queued_set s \<longleftrightarrow> (\<exists>d. map_of (av_pending k) t = Some d \<and> x = d_queued d)"
        unfolding q using sm_mem_iff [OF wf] by force
      moreover have "t \<in> set (av_done k) \<Longrightarrow> map_of (av_pending k) t \<noteq> None"
        using dn(2) by (auto simp: map_of_eq_None_iff)
      moreover have "(t, x) \<in> set failures \<longleftrightarrow>
          t \<in> set (av_done k) \<and> x = d_queued (the (map_of (av_pending k) t))"
        unfolding parts(7) by (simp add: image_iff)
      ultimately show ?thesis by (cases "map_of (av_pending k) t") auto
    qed
    then show ?thesis by auto
  qed
  show "sm_wf (ie_pending s')" by (simp add: parts(1) sm_dels wf)
  show "queued_set s = queued_set s' \<union> set failures" unfolding q' f by auto
  show "fst ` queued_set s' \<inter> fst ` set failures = {}" unfolding q' f by auto
  show "distinct (map fst failures)" unfolding parts(7) using dn(1) by (simp add: comp_def)
qed

lemma attempt_inc: "a + 1 < m \<Longrightarrow> a < m \<Longrightarrow> unat (a + 1) = unat a + 1" for a m :: u8
  using unsigned_less [of m, where 'a = nat] by (auto simp: word_less_nat_alt unat_word_ariths(1))

text \<open>A run of ticks with all the failures reported, and the condition that each tick comes when
  every discovery has reached its deadline.\<close>

fun disc_run :: "time list \<Rightarrow> u32 stream \<Rightarrow> ierp \<Rightarrow> ierp \<times> (address \<times> packet list) list" where
  "disc_run [] ids s = (s, [])"
| "disc_run (now # nows) ids s =
     (case Ierp_tick now ids s of (s1, ids1, _, failures) \<Rightarrow>
        (case disc_run nows ids1 s1 of (s2, failures') \<Rightarrow> (s2, failures @ failures')))"

definition deadlines_passed :: "time \<Rightarrow> ierp \<Rightarrow> bool" where
  "deadlines_passed now s = list_all (\<lambda>(_, d). d_deadline d \<le> now) (ie_pending s)"

fun disc_due :: "time list \<Rightarrow> u32 stream \<Rightarrow> ierp \<Rightarrow> bool" where
  "disc_due [] ids s \<longleftrightarrow> True"
| "disc_due (now # nows) ids s \<longleftrightarrow> deadlines_passed now s \<and>
     disc_due nows (fst (snd (Ierp_tick now ids s))) (fst (Ierp_tick now ids s))"

definition attempts_in :: "nat \<Rightarrow> ierp \<Rightarrow> bool" where
  "attempts_in n s \<longleftrightarrow> (\<forall>(t, d) \<in> set (ie_pending s).
     n \<le> unat (d_attempt d) \<and> (d_attempt d = 0 \<or> d_attempt d < zc_discovery_attempts (ie_cfg s)))"

lemma tick_attempts_in:
  assumes "sm_wf (ie_pending s)" "attempts_in n s" "deadlines_passed now s"
  shows "attempts_in (Suc n) (fst (Ierp_tick now ids s))"
proof -
  define k where "k = advance_loop (ie_cfg s) now ids (ie_pending s)"
  note parts = Ierp_tick_parts [OF assms(1), of now ids, folded k_def]
  have wf: "sm_wf (av_pending k)" using assms(1) by (simp add: k_def)
  have "Suc n \<le> unat (d_attempt d') \<and> d_attempt d' < zc_discovery_attempts (ie_cfg s)"
    if mem: "(t, d') \<in> set (av_pending k)" "t \<notin> set (av_done k)" for t d'
  proof -
    obtain d where d: "(t, d) \<in> set (ie_pending s)"
      "d' = d \<and> now < d_deadline d \<or> d_attempt d' = d_attempt d + 1 \<and> d_attempt d' < zc_discovery_attempts (ie_cfg s)"
      using advance_kept mem unfolding k_def by blast
    moreover have "d_deadline d \<le> now" "n \<le> unat (d_attempt d)"
      "d_attempt d = 0 \<or> d_attempt d < zc_discovery_attempts (ie_cfg s)"
      using assms(2,3) d(1) by (auto simp: deadlines_passed_def attempts_in_def list_all_iff)
    ultimately show ?thesis
      using attempt_inc [of "d_attempt d" "zc_discovery_attempts (ie_cfg s)"] by auto
  qed
  then show ?thesis unfolding attempts_in_def parts(1,2) sm_dels(3) [OF wf] by auto
qed

lemma disc_run_due:
  assumes "sm_wf (ie_pending s)" "attempts_in n s" "disc_due nows ids s"
  defines "s' \<equiv> fst (disc_run nows ids s)" and "failures \<equiv> snd (disc_run nows ids s)"
  shows "sm_wf (ie_pending s') \<and> attempts_in (n + length nows) s' \<and> ie_cfg s' = ie_cfg s \<and>
    queued_set s = queued_set s' \<union> set failures \<and>
    fst ` queued_set s' \<inter> fst ` set failures = {} \<and> distinct (map fst failures)"
  using assms(1-3) unfolding s'_def failures_def
proof (induction nows arbitrary: n ids s)
  case (Cons now nows)
  let ?s = "fst (Ierp_tick now ids s)" and ?ids = "fst (snd (Ierp_tick now ids s))"
    and ?f = "snd (snd (snd (Ierp_tick now ids s)))"
  note acc = Ierp_tick_accounts [OF Cons.prems(1), of now ids]
  have "deadlines_passed now s" "disc_due nows ?ids ?s" using Cons.prems(3) by auto
  from Cons.IH [OF acc(1) tick_attempts_in [OF Cons.prems(1,2) this(1)] this(2)]
  have IH: "sm_wf (ie_pending (fst (disc_run nows ?ids ?s)))" "attempts_in (Suc n + length nows) (fst (disc_run nows ?ids ?s))"
    "ie_cfg (fst (disc_run nows ?ids ?s)) = ie_cfg ?s"
    "queued_set ?s = queued_set (fst (disc_run nows ?ids ?s)) \<union> set (snd (disc_run nows ?ids ?s))"
    "fst ` queued_set (fst (disc_run nows ?ids ?s)) \<inter> fst ` set (snd (disc_run nows ?ids ?s)) = {}"
    "distinct (map fst (snd (disc_run nows ?ids ?s)))" by blast+
  have run: "disc_run (now # nows) ids s = (fst (disc_run nows ?ids ?s), ?f @ snd (disc_run nows ?ids ?s))"
    by (simp add: case_prod_unfold)
  have "fst ` set ?f \<inter> fst ` set (snd (disc_run nows ?ids ?s)) = {}"
    "fst ` queued_set (fst (disc_run nows ?ids ?s)) \<inter> fst ` set ?f = {}"
    using acc(3) IH(4) by auto
  then show ?case unfolding run fst_conv snd_conv
    using IH acc(2,4) Ierp_tick_parts(2) [OF Cons.prems(1), of now ids]
    by (simp add: image_Un Int_Un_distrib Un_assoc Un_commute Un_left_commute)
qed simp

subsection \<open>Invariant\<close>

definition disc_ok :: "zrp_config \<Rightarrow> address \<Rightarrow> discovery \<Rightarrow> bool" where
  "disc_ok cfg t d \<longleftrightarrow> d_target d = t \<and> (d_attempt d = 0 \<or> d_attempt d < zc_discovery_attempts cfg) \<and>
     length (d_queued d) \<le> zc_max_queued_per_discovery cfg"

definition ie_inv :: "ierp \<Rightarrow> bool" where
  "ie_inv s \<longleftrightarrow> sm_wf (ie_pending s) \<and> sm_wf (ie_seen_requests s) \<and> sm_wf (ie_last_finished s) \<and>
     sm_all (disc_ok (ie_cfg s)) (ie_pending s) \<and>
     sm_all (\<lambda>_ r. 1 \<le> sr_relays r \<and> sr_relays r \<le> 2) (ie_seen_requests s)"

datatype ie_op =
    IeStart address u32 time
  | IeQueue address packet
  | IeSucceed address time
  | IeTick time "u32 stream"
  | IeObserve address u32 u16 time
  | IeReplied address u32
  | IeExpire time

fun ie_step :: "ie_op \<Rightarrow> ierp \<Rightarrow> ierp" where
  "ie_step (IeStart target req_id now) s = fst (Ierp_start target req_id now s)"
| "ie_step (IeQueue target p) s = fst (Ierp_queue target p s)"
| "ie_step (IeSucceed target now) s = fst (Ierp_succeed target now s)"
| "ie_step (IeTick now ids) s = fst (Ierp_tick now ids s)"
| "ie_step (IeObserve origin req_id cost now) s = fst (Ierp_observe_request origin req_id cost now s)"
| "ie_step (IeReplied origin req_id) s = fst (Ierp_mark_replied origin req_id s)"
| "ie_step (IeExpire now) s = Ierp_expire now s"

lemma Ierp_succeed_state:
  "ie_pending (fst (Ierp_succeed target now s)) = sm_del (ie_pending s) target"
  "ie_cfg (fst (Ierp_succeed target now s)) = ie_cfg s"
  "ie_seen_requests (fst (Ierp_succeed target now s)) = ie_seen_requests s"
  "ie_last_finished (fst (Ierp_succeed target now s)) = sm_put (ie_last_finished s) target (now, True)"
  by (cases "SmallMap_remove (ie_pending s) target"; cases "snd (SmallMap_remove (ie_pending s) target)";
      simp add: Ierp_succeed_def)+

lemma relays_inc: "1 \<le> r \<Longrightarrow> r < 2 \<Longrightarrow> 1 \<le> r + 1 \<and> r + 1 \<le> 2" for r :: u8
  using unsigned_less [of r, where 'a = nat] by (auto simp: word_le_nat_alt word_less_nat_alt unat_word_ariths(1))

lemma ie_inv_observe:
  assumes "ie_inv s" shows "ie_inv (fst (Ierp_observe_request origin req_id cost now s))"
proof -
  define m where "m = (if length (ie_seen_requests s) > 512
     then SmallMap_retain (\<lambda>_ r. sr_first_seen r > sat_sub now 60000) (ie_seen_requests s) else ie_seen_requests s)"
  have m: "sm_wf m" "sm_all (\<lambda>_ r. 1 \<le> sr_relays r \<and> sr_relays r \<le> 2) m"
    using assms by (auto simp: m_def ie_inv_def sm_all_retain)
  show ?thesis
    using assms m relays_inc
    by (auto simp: Ierp_observe_request_def m_def [symmetric] Let_def ie_inv_def SmallMap_get_map_of
        intro!: sm_all_put sm_all_modify split: option.split)
qed

lemma ie_inv_tick:
  assumes "ie_inv s" shows "ie_inv (fst (Ierp_tick now ids s))"
proof -
  define k where "k = advance_loop (ie_cfg s) now ids (ie_pending s)"
  have p: "sm_wf (ie_pending s)" using assms by (simp add: ie_inv_def)
  have wf: "sm_wf (av_pending k)" using p by (simp add: k_def)
  have "disc_ok (ie_cfg s) t d'" if mem: "(t, d') \<in> set (av_pending k)" "t \<notin> set (av_done k)" for t d'
  proof -
    obtain d where "(t, d) \<in> set (ie_pending s)" "d_target d' = d_target d" "d_queued d' = d_queued d"
      "d' = d \<or> d_attempt d' < zc_discovery_attempts (ie_cfg s)"
      using advance_kept mem unfolding k_def by blast
    then show ?thesis using assms by (auto simp: ie_inv_def disc_ok_def sm_all_def list_all_iff)
  qed
  then show ?thesis
    using assms sm_dels(1,3) [OF wf, of "av_done k"]
    by (auto simp: ie_inv_def sm_all_def list_all_iff Ierp_tick_parts [OF p, of now ids, folded k_def])
qed

interpretation ie: invariant_machine ie_step ie_inv
proof
  fix s a
  assume inv: "ie_inv s"
  show "ie_inv (ie_step a s)"
  proof (cases a)
    case (IeStart target req_id now)
    then show ?thesis using inv
      by (auto simp: Ierp_start_def Let_def ie_inv_def disc_ok_def intro!: sm_all_put)
  next
    case (IeQueue target p)
    then show ?thesis using inv
      by (auto simp: Ierp_queue_def ie_inv_def disc_ok_def SmallMap_get_map_of
          intro!: sm_all_modify split: option.split)
  next
    case (IeSucceed target now)
    then show ?thesis using inv by (simp add: Ierp_succeed_state ie_inv_def sm_all_del)
  next
    case (IeTick now ids)
    then show ?thesis using ie_inv_tick inv by simp
  next
    case (IeObserve origin req_id cost now)
    then show ?thesis using ie_inv_observe inv by simp
  next
    case (IeReplied origin req_id)
    then show ?thesis using inv
      by (auto simp: Ierp_mark_replied_def ie_inv_def intro!: sm_all_modify split: option.split)
  next
    case (IeExpire now)
    then show ?thesis using inv by (simp add: Ierp_expire_def ie_inv_def sm_all_retain)
  qed
qed

lemma ie_inv_new: "ie_inv (Ierp_new cfg)"
  by (simp add: ie_inv_def Ierp_new_def SmallMap_new_def sm_all_def)

subsection \<open>Request copies\<close>

text \<open>The copies of one request that a run of operations relays, and the times it is answered.\<close>

datatype rq_op = RqObserve address u32 u16 time | RqReplied address u32 | RqExpire time

fun rq_step :: "rq_op \<Rightarrow> ierp \<Rightarrow> ierp \<times> bool" where
  "rq_step (RqObserve origin req_id cost now) s = Ierp_observe_request origin req_id cost now s"
| "rq_step (RqReplied origin req_id) s = Ierp_mark_replied origin req_id s"
| "rq_step (RqExpire now) s = (Ierp_expire now s, False)"

fun rq_observes :: "address \<Rightarrow> u32 \<Rightarrow> rq_op \<Rightarrow> bool" where
  "rq_observes origin req_id (RqObserve o' r' _ _) \<longleftrightarrow> o' = origin \<and> r' = req_id"
| "rq_observes origin req_id _ \<longleftrightarrow> False"

fun rq_answers :: "address \<Rightarrow> u32 \<Rightarrow> rq_op \<Rightarrow> bool" where
  "rq_answers origin req_id (RqReplied o' r') \<longleftrightarrow> o' = origin \<and> r' = req_id"
| "rq_answers origin req_id _ \<longleftrightarrow> False"

fun rq_within :: "time \<Rightarrow> rq_op \<Rightarrow> bool" where
  "rq_within t0 (RqObserve _ _ _ now) \<longleftrightarrow> t0 \<le> now \<and> unat now < unat t0 + 60000"
| "rq_within t0 (RqReplied _ _) \<longleftrightarrow> True"
| "rq_within t0 (RqExpire now) \<longleftrightarrow> t0 \<le> now \<and> unat now < unat t0 + 60000"

fun rq_count :: "(rq_op \<Rightarrow> bool) \<Rightarrow> rq_op list \<Rightarrow> ierp \<Rightarrow> nat" where
  "rq_count sel [] s = 0"
| "rq_count sel (op # ops) s =
     (case rq_step op s of (s', yes) \<Rightarrow> (if sel op \<and> yes then 1 else 0) + rq_count sel ops s')"

definition rq_held :: "time \<Rightarrow> address \<times> u32 \<Rightarrow> ierp \<Rightarrow> seen_request \<Rightarrow> bool" where
  "rq_held t0 k s r \<longleftrightarrow> map_of (ie_seen_requests s) k = Some r \<and> t0 \<le> sr_first_seen r"

lemma rq_fresh: "0 < t0 \<Longrightarrow> unat now < unat t0 + d \<Longrightarrow> d \<le> unat w \<Longrightarrow> t0 \<le> r \<Longrightarrow> sat_sub now w < r"
  for t0 now r w :: time
  by (auto simp: word_less_nat_alt word_le_nat_alt unat_sat_sub)

lemma map_of_retain_keep:
  "sm_wf m \<Longrightarrow> map_of m k = Some v \<Longrightarrow> f k v \<Longrightarrow> map_of (SmallMap_retain f m) k = Some v"
  by (metis SmallMap_retain_set SmallMap_retain_wf sm_mem_iff)

lemma rq_observe_held:
  assumes "ie_inv s" "rq_held t0 k s r" "0 < t0" "t0 \<le> now" "unat now < unat t0 + 60000"
    "(s', yes) = Ierp_observe_request origin req_id cost now s"
  shows "\<exists>r'. rq_held t0 k s' r' \<and> sr_replied r' = sr_replied r \<and>
    unat (sr_relays r') = unat (sr_relays r) + (if k = (origin, req_id) \<and> yes then 1 else 0)"
proof -
  define m where "m = (if length (ie_seen_requests s) > 512
     then SmallMap_retain (\<lambda>_ r. sr_first_seen r > sat_sub now 60000) (ie_seen_requests s) else ie_seen_requests s)"
  have "sm_wf (ie_seen_requests s)" using assms(1) by (simp add: ie_inv_def)
  moreover have "sat_sub now 60000 < sr_first_seen r"
    using rq_fresh [OF assms(3,5)] assms(2) by (simp add: rq_held_def)
  ultimately have m: "sm_wf m" "map_of m k = Some r"
    using assms(2) map_of_retain_keep [of "ie_seen_requests s" k r]
    by (auto simp: m_def rq_held_def)
  have inc: "sr_relays r < 2 \<Longrightarrow> unat (sr_relays r + 1) = unat (sr_relays r) + 1"
    by (auto simp: word_less_nat_alt unat_word_ariths(1))
  show ?thesis
    using assms(2,6) m inc
    by (cases "map_of m (origin, req_id)"; cases "k = (origin, req_id)")
      (auto simp: Ierp_observe_request_def m_def [symmetric] rq_held_def SmallMap_get_map_of
        SmallMap_modify_map_of Let_def split: if_splits)
qed

lemma rq_replied_held:
  assumes "ie_inv s" "rq_held t0 k s r" "(s', yes) = Ierp_mark_replied origin req_id s"
  shows "\<exists>r'. rq_held t0 k s' r' \<and> sr_relays r' = sr_relays r \<and>
    (if k = (origin, req_id) then sr_replied r' \<and> yes = (\<not> sr_replied r) else sr_replied r' = sr_replied r)"
  using assms
  by (cases "map_of (ie_seen_requests s) (origin, req_id)"; cases "k = (origin, req_id)")
    (auto simp: Ierp_mark_replied_def rq_held_def ie_inv_def SmallMap_get_map_of SmallMap_modify_map_of
      split: if_splits)

lemma rq_expire_held:
  assumes "ie_inv s" "rq_held t0 k s r" "0 < t0" "unat now < unat t0 + 60000"
  shows "rq_held t0 k (Ierp_expire now s) r"
proof -
  have "sat_sub now 120000 < sr_first_seen r"
    using rq_fresh [OF assms(3,4), of 120000] assms(2) by (simp add: rq_held_def)
  then show ?thesis
    using assms(1,2) map_of_retain_keep [of "ie_seen_requests s" k r]
    by (auto simp: Ierp_expire_def rq_held_def ie_inv_def)
qed

lemma rq_step_inv: "ie_inv s \<Longrightarrow> ie_inv (fst (rq_step op s))"
  using ie.step_inv [of s] by (cases op) (metis ie_step.simps(5-7) rq_step.simps fst_conv)+

lemma rq_counts:
  assumes "ie_inv s" "rq_held t0 (origin, req_id) s r" "0 < t0" "list_all (rq_within t0) ops"
  shows "rq_count (rq_observes origin req_id) ops s + unat (sr_relays r) \<le> 2 \<and>
    rq_count (rq_answers origin req_id) ops s + (if sr_replied r then 1 else 0) \<le> 1"
  using assms
proof (induction ops arbitrary: s r)
  case Nil
  then have "sr_relays r \<le> 2"
    by (auto simp: rq_held_def ie_inv_def SmallMap_get_map_of [symmetric] dest: sm_all_get)
  then show ?case by (simp add: word_le_nat_alt)
next
  case (Cons op ops)
  obtain s' yes where st: "rq_step op s = (s', yes)" by (cases "rq_step op s")
  have "ie_inv s'" using rq_step_inv [OF Cons.prems(1), of op] st by simp
  have "\<exists>r'. rq_held t0 (origin, req_id) s' r' \<and>
      unat (sr_relays r') = unat (sr_relays r) + (if rq_observes origin req_id op \<and> yes then 1 else 0) \<and>
      (if rq_answers origin req_id op then sr_replied r' \<and> yes = (\<not> sr_replied r) else sr_replied r' = sr_replied r)"
  proof (cases op)
    case (RqObserve o' i' cost now)
    then show ?thesis
      using rq_observe_held [OF Cons.prems(1-3), of now s' yes o' i' cost] Cons.prems(4) st by auto
  next
    case (RqReplied o' i')
    then show ?thesis using rq_replied_held [OF Cons.prems(1,2), of s' yes o' i'] st by auto
  next
    case (RqExpire now)
    then show ?thesis using rq_expire_held [OF Cons.prems(1-3), of now] Cons.prems(4) st by auto
  qed
  then obtain r' where r': "rq_held t0 (origin, req_id) s' r'"
      "unat (sr_relays r') = unat (sr_relays r) + (if rq_observes origin req_id op \<and> yes then 1 else 0)"
      "if rq_answers origin req_id op then sr_replied r' \<and> yes = (\<not> sr_replied r) else sr_replied r' = sr_replied r"
    by blast
  have "list_all (rq_within t0) ops" using Cons.prems(4) by simp
  from Cons.IH [OF \<open>ie_inv s'\<close> r'(1) Cons.prems(3) this] show ?case
    using r'(2,3) by (auto simp: st split: if_splits)
qed

subsection \<open>Properties\<close>

text \<open>C38. Discoveries end: when every tick comes after the deadlines of the pending discoveries, then
  after as many ticks as there are attempts no discovery is pending, and the failures reported are
  exactly the discoveries with the packets queued for them, each once.\<close>

theorem discovery_ends:
  assumes "s = fold ie_step ops (Ierp_new cfg)" "disc_due nows ids s"
    and "max 1 (unat (zc_discovery_attempts (ie_cfg s))) \<le> length nows"
  shows "case disc_run nows ids s of (s', failures) \<Rightarrow>
    ie_pending s' = [] \<and> distinct (map fst failures) \<and>
    set failures = (\<lambda>(t, d). (t, d_queued d)) ` set (ie_pending s)"
proof -
  have inv: "ie_inv s" using ie.run_inv [OF ie_inv_new] assms(1) by simp
  then have "sm_wf (ie_pending s)" "attempts_in 0 s"
    by (auto simp: ie_inv_def attempts_in_def disc_ok_def sm_all_def list_all_iff)
  note run = disc_run_due [OF this assms(2)]
  then have "ie_pending (fst (disc_run nows ids s)) = []"
    using assms(3) by (cases "ie_pending (fst (disc_run nows ids s))")
      (auto simp: attempts_in_def word_less_nat_alt)
  then show ?thesis using run by (simp add: case_prod_unfold queued_set_def)
qed

text \<open>C39. Flood control: of all the copies of one request that arrive within a minute of the first, a
  node relays at most two, and it answers the request at most once, whatever else it hears.\<close>

theorem request_relayed_at_most_twice:
  assumes "s = fold ie_step past (Ierp_new cfg)" "SmallMap_get (ie_seen_requests s) (origin, req_id) = None"
    and "0 < t0" "list_all (rq_within t0) rest" "ops = RqObserve origin req_id cost t0 # rest"
  shows "rq_count (rq_observes origin req_id) ops s \<le> 2 \<and> rq_count (rq_answers origin req_id) ops s \<le> 1"
proof -
  have inv: "ie_inv s" using ie.run_inv [OF ie_inv_new] assms(1) by simp
  then have wf: "sm_wf (ie_seen_requests s)" by (simp add: ie_inv_def)
  have none: "SmallMap_get (SmallMap_retain f (ie_seen_requests s)) (origin, req_id) = None" for f
    using assms(2) wf by (auto simp: SmallMap_get_map_of map_of_eq_None_iff image_iff)
  define s' where "s' = fst (Ierp_observe_request origin req_id cost t0 s)"
  have s': "Ierp_observe_request origin req_id cost t0 s = (s', True)"
    "rq_held t0 (origin, req_id) s'
       \<lparr>sr_best_cost = cost, sr_relays = 1, sr_first_seen = t0, sr_replied = False\<rparr>"
    using assms(2) none wf by (simp_all add: s'_def Ierp_observe_request_def Let_def rq_held_def)
  then have "ie_inv s'" using ie_inv_observe [OF inv, of origin req_id cost t0] by simp
  from rq_counts [OF this s'(2) assms(3,4)] show ?thesis by (simp add: assms(5) s'(1))
qed

text \<open>C40. Staggered replies: the loop that removes entries from the vector it walks ends, hands out every
  reply that is due, in order and once, and keeps the others as they were.\<close>

theorem pending_replies_due:
  "PendingReplies_due now r =
     (r\<lparr>pr_items := filter (\<lambda>x. now < ri_due x) (pr_items r)\<rparr>,
      map ri_packet (filter (\<lambda>x. ri_due x \<le> now) (pr_items r)))"
  by (simp add: PendingReplies_due_def due_loop_eq not_le)

definition demo_target :: address where "demo_target = Address 1 2 3 4 5 6 7 8"

definition demo_queued :: packet where
  "demo_queued = \<lparr>p_header = Header_new Data demo_target demo_target 1 1 4, p_payload = [42]\<rparr>"

theorem discovery_ends_witness:
  "case disc_run [10000] (sconst 5) (fold ie_step [IeStart demo_target 7 0, IeQueue demo_target demo_queued]
       (Ierp_new (ZrpConfig_default\<lparr>zc_discovery_attempts := 1\<rparr>))) of (s', failures) \<Rightarrow>
     ie_pending s' = [] \<and> distinct (map fst failures) \<and> set failures = {(demo_target, [demo_queued])}"
proof -
  let ?s = "fold ie_step [IeStart demo_target 7 0, IeQueue demo_target demo_queued]
       (Ierp_new (ZrpConfig_default\<lparr>zc_discovery_attempts := 1\<rparr>))"
  have s: "ie_pending ?s = [(demo_target, \<lparr>d_target = demo_target, d_started_at = 0, d_attempt = 0,
      d_deadline = 9400, d_req_id = 7, d_queued = [demo_queued]\<rparr>)]"
    "zc_discovery_attempts (ie_cfg ?s) = 1"
    by (simp_all add: Ierp_start_def Ierp_queue_def Ierp_new_def SmallMap_new_def SmallMap_insert_def
        SmallMap_get_def SmallMap_modify_def SmallMap_find_def binary_search_by_def bisect.simps cmp_def insert_at_def
        Ierp_timeout_for_def Discovery_ttl_def DISCOVERY_TTL_STEPS_def ZrpConfig_default_def Let_def)
  then have "disc_due [10000] (sconst 5) ?s" by (simp add: deadlines_passed_def)
  from discovery_ends [OF refl this] show ?thesis unfolding s by simp
qed

theorem request_relayed_at_most_twice_witness:
  "rq_count (rq_observes demo_target 7)
     [RqObserve demo_target 7 100 1, RqObserve demo_target 7 50 2, RqReplied demo_target 7]
     (Ierp_new ZrpConfig_default) \<le> 2 \<and>
   rq_count (rq_answers demo_target 7)
     [RqObserve demo_target 7 100 1, RqObserve demo_target 7 50 2, RqReplied demo_target 7]
     (Ierp_new ZrpConfig_default) \<le> 1"
  by (rule request_relayed_at_most_twice [where past = "[]" and cfg = ZrpConfig_default and ?t0.0 = 1 and cost = 100
    and rest = "[RqObserve demo_target 7 50 2, RqReplied demo_target 7]"])
    (simp_all add: Ierp_new_def SmallMap_new_def SmallMap_get_def SmallMap_find_def binary_search_by_def)

end
