(* ===== verification/Node_State.thy ===== *)
theory Node_State
  imports Session Fragmentation Storm Power_Manager Mailbox Transport Zone_Messages Zone Ierp
    "HOL-Library.Monad_Syntax"
begin

section \<open>The node engine: state and shared helpers (\<open>node/mod.rs\<close>, \<open>node/tx.rs\<close>, \<open>node/diag.rs\<close>)\<close>

text \<open>
  The node owns one instance of every component. A method is a function of the state; it returns
  an option, where \<open>None\<close> stands for a call that does not return: a panic of a component, or the
  loop that draws packet numbers until one is not zero. The generator (ChaCha20, a third-party
  crate) is the sequence of the words it returns and, for \<open>fill_bytes\<close>, the sequence of the
  ephemeral secrets; every run of the real generator is such a pair of sequences.
  The \<open>BTreeMap\<close>s are the sorted maps of \<open>SmallMap\<close>, which have the same operations.
\<close>

subsection \<open>Configuration, events and state\<close>

datatype routing_mode = Zrp | Flood

record node_config =
  ncf_role :: role
  ncf_name :: string
  ncf_routing_mode :: routing_mode
  ncf_profile :: lora_profile
  ncf_max_ttl :: u8
  ncf_default_ttl :: u8
  ncf_network_key :: "network_key option"
  ncf_neighbor :: neighbor_config
  ncf_routing :: routing_config
  ncf_zrp :: zrp_config
  ncf_storm :: storm_config
  ncf_transport :: transport_config
  ncf_mailbox :: mailbox_config
  ncf_power :: power_config
  ncf_session :: session_limits
  ncf_reassembly :: reassembly_config
  ncf_handshake_timeout_ms :: u64
  ncf_max_tx_queue :: nat
  ncf_envelope_ttl_s :: u32
  ncf_unicast_forward_jitter_ms :: u32
  ncf_hop_ack_timeout_ms :: u32
  ncf_hop_retries :: u8

definition NodeConfig_default :: node_config where
  "NodeConfig_default =
     \<lparr>ncf_role = Normal, ncf_name = [], ncf_routing_mode = Zrp, ncf_profile = MESHSTAR_EU868,
      ncf_max_ttl = 64, ncf_default_ttl = DEFAULT_TTL, ncf_network_key = None,
      ncf_neighbor = NeighborConfig_default, ncf_routing = RoutingConfig_default,
      ncf_zrp = ZrpConfig_default, ncf_storm = StormConfig_default,
      ncf_transport = TransportConfig_default, ncf_mailbox = MailboxConfig_default,
      ncf_power = PowerConfig_default, ncf_session = SessionLimits_default,
      ncf_reassembly = ReassemblyConfig_default, ncf_handshake_timeout_ms = 120000,
      ncf_max_tx_queue = 32, ncf_envelope_ttl_s = 24 * 3600, ncf_unicast_forward_jitter_ms = 60,
      ncf_hop_ack_timeout_ms = 1500, ncf_hop_retries = 2\<rparr>"

definition NodeConfig_leaf :: "u16 \<Rightarrow> u16 \<Rightarrow> node_config" where
  "NodeConfig_leaf wake_s window_ms =
     NodeConfig_default\<lparr>ncf_role := Leaf,
       ncf_power := PowerConfig_default\<lparr>pc_mode := LeafMode wake_s window_ms\<rparr>\<rparr>"

definition NodeConfig_anchor :: node_config where
  "NodeConfig_anchor = NodeConfig_default\<lparr>ncf_role := Anchor\<rparr>"

datatype protection = Prot_Session | Prot_Envelope | Prot_Group | Prot_Plaintext

datatype fail_reason =
    Fail_NoRoute | Fail_NoAck | Fail_NoSession | Fail_NoKey | Fail_QueueFull | Fail_TooLarge | Fail_Rejected

datatype node_event =
    MessageReceived address u16 bytes protection u8 int f32 "address option"
  | Delivered u32 address u64
  | Stored u32 address
  | Failed u32 address fail_reason
  | NeighborUp address
  | NeighborDown address
  | SessionEstablished address
  | SessionClosed address
  | RouteFound address u8 u16
  | RouteLost address
  | PowerState bool
  | MailboxDelivered address u32
  | TraceResult address bool "u16 list" u64

record tx_item =
  ti_frame :: bytes
  ti_not_before :: time
  ti_ptype :: packet_type
  ti_priority :: u8
  ti_is_relay :: bool
  ti_dst :: address

definition QUEUED_CONTROL :: u32 where "QUEUED_CONTROL = - 1 - 1"

record queued_send =
  qs_dst :: address
  qs_payload :: bytes
  qs_reliability :: reliability
  qs_handle :: u32
  qs_queued_at :: time

record pending_handshake =
  ph_hs :: handshake
  ph_started_at :: time
  ph_epoch :: u8
  ph_queued :: "queued_send list"
  ph_attempts :: u8
  ph_m1 :: bytes
  ph_re :: bytes
  ph_m2 :: bytes

record pending_envelope =
  pe_dst :: address
  pe_payload :: bytes
  pe_handle :: u32
  pe_queued_at :: time

record hop_pending =
  hp_key :: packet_key
  hp_next_hop :: address
  hp_packet :: packet
  hp_attempts :: u8
  hp_due :: time
  hp_is_relay :: bool
  hp_rerouted :: bool

record counters =
  cn_rx_packets :: u32
  cn_rx_bytes :: u64
  cn_rx_bad :: u32
  cn_rx_duplicates :: u32
  cn_rx_for_us :: u32
  cn_rx_ttl_exhausted :: u32
  cn_tx_packets :: u32
  cn_tx_bytes :: u64
  cn_tx_control :: u32
  cn_tx_errors :: u32
  cn_tx_dropped :: u32
  cn_relayed :: u32
  cn_relay_suppressed_covered :: u32
  cn_relay_suppressed_probabilistic :: u32
  cn_relay_no_route :: u32
  cn_beacons_sent :: u32
  cn_beacons_received :: u32
  cn_rreq_sent :: u32
  cn_rreq_received :: u32
  cn_rrep_sent :: u32
  cn_rrep_received :: u32
  cn_rerr_sent :: u32
  cn_rerr_received :: u32
  cn_discovery_failures :: u32
  cn_handshakes_started :: u32
  cn_handshakes_completed :: u32
  cn_handshake_failures :: u32
  cn_auth_failures :: u32
  cn_replays :: u32
  cn_app_sent :: u32
  cn_app_received :: u32
  cn_retries :: u32
  cn_fragments_sent :: u32
  cn_fragments_received :: u32
  cn_fetch_sent :: u32
  cn_store_sent :: u32
  cn_store_received :: u32
  cn_envelopes_opened :: u32
  cn_neighbors_lost :: u32
  cn_loops_detected :: u32
  cn_rx_no_session :: u32
  cn_hs_read_failures :: u32
  cn_hop_retransmissions :: u32
  cn_hop_failures :: u32
  cn_hop_reroutes :: u32
  cn_m3_resends :: u32
  cn_sessions_reset :: u32
  cn_keys_from_replies :: u32
  cn_key_requests_sent :: u32
  cn_no_session_notices :: u32
  cn_link_acks_sent :: u32

definition Counters_default :: counters where
  "Counters_default =
     \<lparr>cn_rx_packets = 0, cn_rx_bytes = 0, cn_rx_bad = 0, cn_rx_duplicates = 0, cn_rx_for_us = 0,
      cn_rx_ttl_exhausted = 0, cn_tx_packets = 0, cn_tx_bytes = 0, cn_tx_control = 0, cn_tx_errors = 0,
      cn_tx_dropped = 0, cn_relayed = 0, cn_relay_suppressed_covered = 0, cn_relay_suppressed_probabilistic = 0, cn_relay_no_route = 0,
      cn_beacons_sent = 0, cn_beacons_received = 0, cn_rreq_sent = 0, cn_rreq_received = 0, cn_rrep_sent = 0,
      cn_rrep_received = 0, cn_rerr_sent = 0, cn_rerr_received = 0, cn_discovery_failures = 0, cn_handshakes_started = 0,
      cn_handshakes_completed = 0, cn_handshake_failures = 0, cn_auth_failures = 0, cn_replays = 0, cn_app_sent = 0,
      cn_app_received = 0, cn_retries = 0, cn_fragments_sent = 0, cn_fragments_received = 0, cn_fetch_sent = 0,
      cn_store_sent = 0, cn_store_received = 0, cn_envelopes_opened = 0, cn_neighbors_lost = 0, cn_loops_detected = 0,
      cn_rx_no_session = 0, cn_hs_read_failures = 0, cn_hop_retransmissions = 0, cn_hop_failures = 0, cn_hop_reroutes = 0,
      cn_m3_resends = 0, cn_sessions_reset = 0, cn_keys_from_replies = 0, cn_key_requests_sent = 0, cn_no_session_notices = 0,
      cn_link_acks_sent = 0\<rparr>"

record node =
  nd_cfg :: node_config
  nd_id :: identity
  nd_rng :: rng
  nd_keys :: "bytes stream"
  nd_now :: time
  nd_neighbors :: neighbor_table
  nd_zone :: zone_table
  nd_routes :: route_cache
  nd_ierp :: ierp
  nd_rrep_pending :: pending_replies
  nd_seen :: seen_cache
  nd_sched :: rebroadcast_scheduler
  nd_transport :: transport
  nd_mailbox :: "mailbox option"
  nd_power :: power_manager
  nd_reassembler :: reassembler
  nd_sessions :: "(address, session) small_map"
  nd_handshakes :: "(address, pending_handshake) small_map"
  nd_key_dir :: "(address, public_identity) small_map"
  nd_pending_envelopes :: "pending_envelope list"
  nd_tx_queue :: "tx_item list"
  nd_events :: "node_event list"
  nd_beacon_seq :: u16
  nd_next_beacon :: time
  nd_beacons_sent :: u32
  nd_last_beacon_at :: time
  nd_last_neighbor_count :: nat
  nd_next_handle :: u32
  nd_frag_id :: u16
  nd_counters :: counters
  nd_opened_envelopes :: "(address \<times> u32) list"
  nd_attached_anchor :: "address option"
  nd_rx_airtime_ms :: u64
  nd_last_housekeeping :: time
  nd_last_wake :: time
  nd_slept_at :: time
  nd_pending_fetch :: "(address \<times> time \<times> u32) option"
  nd_pending_traces :: "(address \<times> time) list"
  nd_held_for_sleeping :: "(address \<times> packet \<times> time) list"
  nd_hop_pending :: "hop_pending list"

text \<open>The generator: every call takes the next draw.\<close>

definition next_u64 :: "node \<Rightarrow> u64 \<times> node" where
  "next_u64 n = (shd (nd_rng n), n\<lparr>nd_rng := stl (nd_rng n)\<rparr>)"

definition next_u32 :: "node \<Rightarrow> u32 \<times> node" where
  "next_u32 n = (ucast (shd (nd_rng n)), n\<lparr>nd_rng := stl (nd_rng n)\<rparr>)"

definition fill_bytes :: "node \<Rightarrow> bytes \<times> node" where
  "fill_bytes n = (shd (nd_keys n), n\<lparr>nd_keys := stl (nd_keys n)\<rparr>)"

definition Node_mailbox :: "node_config \<Rightarrow> mailbox option" where
  "Node_mailbox cfg =
     (case ncf_role cfg of
        Anchor \<Rightarrow> Some (Mailbox_new (ncf_mailbox cfg))
      | Normal \<Rightarrow> Some (Mailbox_new ((ncf_mailbox cfg)\<lparr>
          mc_max_entries := mc_max_entries (ncf_mailbox cfg) div 8,
          mc_max_bytes := mc_max_bytes (ncf_mailbox cfg) div 8,
          mc_max_per_destination := max 2 (mc_max_per_destination (ncf_mailbox cfg) div 4)\<rparr>))
      | Leaf \<Rightarrow> None)"

definition clamp :: "'a::linorder \<Rightarrow> 'a \<Rightarrow> 'a \<Rightarrow> 'a" where
  "clamp x lo hi = (if x < lo then lo else if x > hi then hi else x)"

definition Node_new :: "node_config \<Rightarrow> identity \<Rightarrow> rng \<Rightarrow> bytes stream \<Rightarrow> time \<Rightarrow> node" where
  "Node_new cfg0 ident r keys now =
     (let first_seq = (ucast (ucast (r !! 0) :: u32) :: u16) OR 1;
          cfg1 = cfg0\<lparr>ncf_max_ttl := max (ncf_max_ttl cfg0) 1\<rparr>;
          cfg2 = cfg1\<lparr>ncf_default_ttl := clamp (ncf_default_ttl cfg1) 1 (ncf_max_ttl cfg1)\<rparr>;
          jitter = r !! 1 mod max (nc_beacon_jitter_ms (ncf_neighbor cfg2)) 1;
          cfg = cfg2\<lparr>ncf_neighbor := (ncf_neighbor cfg2)
                      \<lparr>nc_snr_floor_db := LoRaProfile_demod_snr_db (ncf_profile cfg2)\<rparr>\<rparr>
      in \<lparr>nd_cfg = cfg, nd_id = ident, nd_rng = sdrop 4 r, nd_keys = keys, nd_now = now,
          nd_neighbors = NeighborTable_new (ncf_neighbor cfg),
          nd_zone = ZoneTable_new (zc_zone_radius (ncf_zrp cfg)) (zc_max_zone_entries (ncf_zrp cfg))
            (nc_beacon_interval_ms (ncf_neighbor cfg) * ucast (nc_timeout_intervals (ncf_neighbor cfg)) * 2),
          nd_routes = RouteCache_new (ncf_routing cfg), nd_ierp = Ierp_new (ncf_zrp cfg),
          nd_rrep_pending = PendingReplies_default,
          nd_seen = SeenCache_new (st_seen_cache_size (ncf_storm cfg)) (st_seen_ttl_ms (ncf_storm cfg)),
          nd_sched = RebroadcastScheduler_new,
          nd_transport = Transport_new (ncf_transport cfg) first_seq,
          nd_mailbox = Node_mailbox cfg0, nd_power = PowerManager_new (ncf_power cfg) now,
          nd_reassembler = Reassembler_new (ncf_reassembly cfg),
          nd_sessions = SmallMap_new, nd_handshakes = SmallMap_new, nd_key_dir = SmallMap_new,
          nd_pending_envelopes = [], nd_tx_queue = [], nd_events = [],
          nd_beacon_seq = ucast (ucast (r !! 2) :: u32), nd_next_beacon = now + 500 + jitter,
          nd_beacons_sent = 0, nd_last_beacon_at = 0, nd_last_neighbor_count = 0, nd_next_handle = 1,
          nd_frag_id = ucast (ucast (r !! 3) :: u32), nd_counters = Counters_default,
          nd_opened_envelopes = [], nd_attached_anchor = None, nd_rx_airtime_ms = 0,
          nd_last_housekeeping = now, nd_last_wake = now, nd_slept_at = now, nd_pending_fetch = None,
          nd_pending_traces = [], nd_held_for_sleeping = [], nd_hop_pending = []\<rparr>)"

subsection \<open>Small helpers\<close>

definition Node_address :: "node \<Rightarrow> address" where
  "Node_address n = Identity_address (nd_id n)"

text \<open>\<open>count f\<close> increments the counter whose update function is \<open>f\<close>.\<close>

definition count :: "((u32 \<Rightarrow> u32) \<Rightarrow> counters \<Rightarrow> counters) \<Rightarrow> node \<Rightarrow> node" where
  "count f n = n\<lparr>nd_counters := f (\<lambda>x. x + 1) (nd_counters n)\<rparr>"

definition emit :: "node_event \<Rightarrow> node \<Rightarrow> node" where
  "emit e n = (if length (nd_events n) < 256 then n\<lparr>nd_events := nd_events n @ [e]\<rparr> else n)"

partial_function (option) first_nonzero :: "rng \<Rightarrow> (u32 \<times> rng) option" where
  "first_nonzero r =
     (let i = (ucast (shd r) :: u32)
      in if i \<noteq> 0 then Some (i, stl r) else first_nonzero (stl r))"

definition new_packet_id :: "node \<Rightarrow> (u32 \<times> node) option" where
  "new_packet_id n = do { (i, r) \<leftarrow> first_nonzero (nd_rng n); Some (i, n\<lparr>nd_rng := r\<rparr>) }"

definition new_handle :: "node \<Rightarrow> u32 \<times> node" where
  "new_handle n = (nd_next_handle n, n\<lparr>nd_next_handle := max (nd_next_handle n + 1) 1\<rparr>)"

definition congestion :: "node \<Rightarrow> u8 \<times> node" where
  "congestion n =
     (case PowerManager_airtime_permille (nd_now n) (nd_power n) of (pw, tx) \<Rightarrow>
        let window = max (pc_airtime_window_ms (ncf_power (nd_cfg n))) 1;
            rx = nd_rx_airtime_ms n * 1000 div window
        in (ucast (min ((ucast tx + rx) * 255 div 250) 255 :: u64), n\<lparr>nd_power := pw\<rparr>))"

definition link_cost_to :: "address \<Rightarrow> node \<Rightarrow> u16 \<times> node" where
  "link_cost_to a n =
     (let q = (case NeighborTable_get (nd_neighbors n) a of Some nb \<Rightarrow> Neighbor_link_quality nb | None \<Rightarrow> 96)
      in case congestion n of (c, n') \<Rightarrow> (link_cost q c, n'))"

definition learn_route ::
  "address \<Rightarrow> address \<Rightarrow> u8 \<Rightarrow> u16 \<Rightarrow> route_source \<Rightarrow> address option \<Rightarrow> time \<Rightarrow> node \<Rightarrow> node" where
  "learn_route dst next_hop hops cost source via_anchor now n =
     (if dst = Node_address n \<or> Address_is_broadcast dst \<or> next_hop = Node_address n then n
      else let e = \<lparr>re_dst = dst, re_next_hop = next_hop, re_hops = hops, re_cost = cost, re_learned_at = now,
                    re_expires_at = 0, re_last_used = now, re_failures = 0, re_source = source,
                    re_via_anchor = via_anchor\<rparr>
           in n\<lparr>nd_routes := fst (RouteCache_insert (nd_routes n) e now)\<rparr>)"

definition ttl_for :: "address \<Rightarrow> node \<Rightarrow> u8" where
  "ttl_for dst n =
     (if NeighborTable_contains (nd_neighbors n) dst then min 2 (ncf_max_ttl (nd_cfg n))
      else case ZoneTable_get (nd_zone n) dst of
        Some z \<Rightarrow> min (zn_distance z + 2) (ncf_max_ttl (nd_cfg n))
      | None \<Rightarrow>
          (case RouteCache_lookup (nd_routes n) dst (nd_now n) of
             Some r \<Rightarrow> min (sat_add (re_hops r) 4) (ncf_max_ttl (nd_cfg n))
           | None \<Rightarrow> ncf_default_ttl (nd_cfg n)))"

definition base_header :: "packet_type \<Rightarrow> address \<Rightarrow> u8 \<Rightarrow> node \<Rightarrow> (header \<times> node) option" where
  "base_header ptype dst ttl n = do {
     (i, n) \<leftarrow> new_packet_id n;
     let h = (Header_new ptype (Node_address n) dst i 0 (clamp ttl 1 (ncf_max_ttl (nd_cfg n))))
               \<lparr>h_relay := Address_short (Node_address n)\<rparr>;
     Some (if ncf_network_key (nd_cfg n) \<noteq> None then Header_set h NET_AUTH True else h, n) }"

definition prio_CONTROL :: u8 where "prio_CONTROL = 0"
definition prio_DATA :: u8 where "prio_DATA = 1"
definition prio_BEACON :: u8 where "prio_BEACON = 2"
definition prio_RELAY :: u8 where "prio_RELAY = 3"

text \<open>The place freed for a new frame: the least urgent relayed frame goes first.\<close>

definition tx_queue_room :: "nat \<Rightarrow> tx_item list \<Rightarrow> tx_item list option" where
  "tx_queue_room cap q =
     (if length q \<ge> cap
      then (case max_by_key (\<lambda>(_, i). ti_priority i) (filter (\<lambda>(_, i). ti_is_relay i) (enumerate 0 q)) of
              Some (i, _) \<Rightarrow> Some (remove_at i q)
            | None \<Rightarrow> None)
      else Some q)"

definition enqueue_packet :: "crypto \<Rightarrow> packet \<Rightarrow> time \<Rightarrow> u8 \<Rightarrow> bool \<Rightarrow> node \<Rightarrow> bool \<times> node" where
  "enqueue_packet c p not_before priority is_relay n =
     (case Packet_encode c p (ncf_network_key (nd_cfg n)) of
        Inl _ \<Rightarrow> (False, count cn_tx_errors_update n)
      | Inr frame \<Rightarrow>
          let n1 = (if length (nd_tx_queue n) \<ge> ncf_max_tx_queue (nd_cfg n)
                    then count cn_tx_dropped_update n else n)
          in case tx_queue_room (ncf_max_tx_queue (nd_cfg n)) (nd_tx_queue n) of
               None \<Rightarrow> (False, n1)
             | Some q \<Rightarrow>
                 (True, n1\<lparr>nd_tx_queue := q @ [\<lparr>ti_frame = frame, ti_not_before = not_before,
                    ti_ptype = h_ptype (p_header p), ti_priority = priority, ti_is_relay = is_relay,
                    ti_dst = h_dst (p_header p)\<rparr>]\<rparr>))"

definition hop_timeout :: "node_config \<Rightarrow> nat \<Rightarrow> u64 option" where
  "hop_timeout cfg wire_len = do {
     airtime \<leftarrow> LoRaProfile_airtime_ms (ncf_profile cfg) wire_len;
     Some (3 * ucast airtime + ucast (ncf_unicast_forward_jitter_ms cfg) + ucast (ncf_hop_ack_timeout_ms cfg)) }"

definition track_hop :: "packet \<Rightarrow> address \<Rightarrow> time \<Rightarrow> bool \<Rightarrow> node \<Rightarrow> node option" where
  "track_hop p next_hop now is_relay n =
     (if ncf_hop_retries (nd_cfg n) = 0 \<or> length (nd_hop_pending n) \<ge> 24 then Some n
      else do {
        timeout \<leftarrow> hop_timeout (nd_cfg n) (Packet_wire_len p);
        let key = Header_key (p_header p);
        let hops = filter (\<lambda>h. hp_key h \<noteq> key) (nd_hop_pending n);
        let n1 = n\<lparr>nd_neighbors := NeighborTable_update next_hop Neighbor_record_tx_attempt (nd_neighbors n)\<rparr>;
        let (draw, n2) = next_u64 n1;
        let due = now + timeout + draw mod 200;
        Some (n2\<lparr>nd_hop_pending := hops @ [\<lparr>hp_key = key, hp_next_hop = next_hop, hp_packet = p,
                   hp_attempts = 1, hp_due = due, hp_is_relay = is_relay, hp_rerouted = False\<rparr>]\<rparr>) })"

definition hop_confirmed :: "packet_key \<Rightarrow> address \<Rightarrow> node \<Rightarrow> node" where
  "hop_confirmed key from n =
     (let hops = filter (\<lambda>h. \<not> (hp_key h = key \<and> hp_next_hop h = from)) (nd_hop_pending n)
      in if length hops \<noteq> length (nd_hop_pending n)
         then n\<lparr>nd_hop_pending := hops,
                nd_neighbors := NeighborTable_update from Neighbor_record_tx_confirmed
                                  (NeighborTable_record_success from (nd_neighbors n))\<rparr>
         else n\<lparr>nd_hop_pending := hops\<rparr>)"

text \<open>The candidates for the next hop, in the order the source considers them.\<close>

definition consider_hop :: "u32 \<Rightarrow> address \<Rightarrow> (u32 \<times> address) option \<Rightarrow> (u32 \<times> address) option" where
  "consider_hop cost nh best =
     (case best of
        Some (c, _) \<Rightarrow> if cost < c then Some (cost, nh) else best
      | None \<Rightarrow> Some (cost, nh))"

definition consider_neighbor :: "address \<Rightarrow> time \<Rightarrow> node \<Rightarrow> (u32 \<times> address) option \<Rightarrow> (u32 \<times> address) option" where
  "consider_neighbor dst now n best =
     (case NeighborTable_get (nd_neighbors n) dst of
        Some nb \<Rightarrow>
          if \<not> Neighbor_is_sleeping now nb \<or> ncf_role (nd_cfg n) = Anchor
          then consider_hop (ucast (link_cost (Neighbor_link_quality nb) 0)) dst best else best
      | None \<Rightarrow> best)"

definition consider_zone :: "address \<Rightarrow> node \<Rightarrow> (u32 \<times> address) option \<Rightarrow> (u32 \<times> address) option" where
  "consider_zone dst n best =
     (case ZoneTable_get (nd_zone n) dst of
        Some z \<Rightarrow>
          (case NeighborTable_get (nd_neighbors n) (zn_next_hop z) of
             Some nh \<Rightarrow>
               let per_hop = ucast (link_cost (min (zn_quality z) (Neighbor_link_quality nh)) 0)
               in consider_hop (per_hop * ucast (zn_distance z)) (zn_next_hop z) best
           | None \<Rightarrow> best)
      | None \<Rightarrow> best)"

definition consider_route :: "address \<Rightarrow> time \<Rightarrow> node \<Rightarrow> (u32 \<times> address) option \<Rightarrow> (u32 \<times> address) option" where
  "consider_route dst now n best =
     (case RouteCache_lookup (nd_routes n) dst now of
        Some r \<Rightarrow>
          (case NeighborTable_get (nd_neighbors n) (re_next_hop r) of
             Some nh \<Rightarrow>
               let first = ucast (link_cost (Neighbor_link_quality nh) 0)
               in consider_hop (max (RouteEntry_effective_cost r now) first) (re_next_hop r) best
           | None \<Rightarrow>
               if re_hops r \<le> 1 then consider_hop (RouteEntry_effective_cost r now) (re_next_hop r) best else best)
      | None \<Rightarrow> best)"

definition next_hop_for :: "address \<Rightarrow> time \<Rightarrow> node \<Rightarrow> address option" where
  "next_hop_for dst now n =
     (case consider_route dst now n (consider_zone dst n (consider_neighbor dst now n None)) of
        Some (_, nh) \<Rightarrow> Some nh
      | None \<Rightarrow>
          if ncf_role (nd_cfg n) = Leaf
          then (case nd_attached_anchor n of
                  Some a \<Rightarrow>
                    if NeighborTable_contains (nd_neighbors n) a then Some a
                    else map_option nb_addr (NeighborTable_best_relay (nd_neighbors n))
                | None \<Rightarrow> map_option nb_addr (NeighborTable_best_relay (nd_neighbors n)))
          else None)"

subsection \<open>The queue towards the radio\<close>

text \<open>The choice of \<open>next_tx\<close>: the index of the frame to send among those whose time has come.\<close>

fun best_tx :: "time \<Rightarrow> nat \<Rightarrow> tx_item list \<Rightarrow> (nat \<times> tx_item) option \<Rightarrow> (nat \<times> tx_item) option" where
  "best_tx now i [] best = best"
| "best_tx now i (item # q) best =
     (if ti_not_before item > now then best_tx now (Suc i) q best
      else case best of
        None \<Rightarrow> best_tx now (Suc i) q (Some (i, item))
      | Some (b, cur) \<Rightarrow>
          if ti_priority item < ti_priority cur
             \<or> (ti_priority item = ti_priority cur \<and> ti_not_before item < ti_not_before cur)
          then best_tx now (Suc i) q (Some (i, item))
          else best_tx now (Suc i) q best)"

definition next_tx :: "time \<Rightarrow> node \<Rightarrow> (tx_item option \<times> node) option" where
  "next_tx now n0 =
     (let n = n0\<lparr>nd_now := max (nd_now n0) now\<rparr> in
      if \<not> pm_awake (nd_power n) then Some (None, n)
      else case best_tx now 0 (nd_tx_queue n) None of
        None \<Rightarrow> Some (None, n)
      | Some (i, item) \<Rightarrow> do {
          airtime \<leftarrow> LoRaProfile_airtime_ms (ncf_profile (nd_cfg n)) (length (ti_frame item));
          Some (case PowerManager_can_transmit now airtime (nd_power n) of
               (pw, False) \<Rightarrow> (None, n\<lparr>nd_power := pw\<rparr>)
             | (pw, True) \<Rightarrow>
                 let n1 = n\<lparr>nd_tx_queue := remove_at i (nd_tx_queue n),
                            nd_power := PowerManager_record_tx now airtime pw\<rparr>;
                     n2 = count cn_tx_packets_update n1;
                     n3 = n2\<lparr>nd_counters := (nd_counters n2)
                            \<lparr>cn_tx_bytes := cn_tx_bytes (nd_counters n2) + of_nat (length (ti_frame item))\<rparr>\<rparr>;
                     n4 = (if ti_is_relay item then count cn_relayed_update n3 else n3);
                     n5 = (if ti_ptype item \<noteq> Data then count cn_tx_control_update n4 else n4)
                 in (Some item, n5)) })"

definition min_opt :: "time option \<Rightarrow> time \<Rightarrow> time" where
  "min_opt d t = (case d of Some d \<Rightarrow> min t d | None \<Rightarrow> t)"

definition next_wakeup :: "node \<Rightarrow> time" where
  "next_wakeup n =
     (let t1 = min_opt (RebroadcastScheduler_next_due (nd_sched n)) (nd_next_beacon n);
          t2 = min_opt (Ierp_next_deadline (nd_ierp n)) t1;
          t3 = min_opt (PendingReplies_next_due (nd_rrep_pending n)) t2;
          t4 = min_opt (list_min (map hp_due (nd_hop_pending n))) t3;
          t5 = min_opt (Transport_next_deadline (nd_transport n)) t4;
          t6 = min_opt (list_min (map ti_not_before (nd_tx_queue n))) t5;
          t7 = min t6 (PowerManager_next_event (nd_power n))
      in min t7 (nd_last_housekeeping n + 1000))"

definition next_event :: "node \<Rightarrow> node_event option \<times> node" where
  "next_event n =
     (case nd_events n of [] \<Rightarrow> (None, n) | e # es \<Rightarrow> (Some e, n\<lparr>nd_events := es\<rparr>))"

definition add_known_identity :: "public_identity \<Rightarrow> node \<Rightarrow> node" where
  "add_known_identity pid n = n\<lparr>nd_key_dir := sm_put (nd_key_dir n) (pid_address pid) pid\<rparr>"

end
