(* ===== verification/Node_Tx.thy ===== *)
theory Node_Tx
  imports Node_State
begin

section \<open>The node engine: transmit path (\<open>node/tx.rs\<close>, \<open>node/session.rs\<close>)\<close>

text \<open>
  From the choice of the next hop up to the sending of messages and envelopes. The methods are in
  the order of their calls, so that the part of \<open>node/session.rs\<close> that starts a handshake comes
  before the sends that queue behind it.
\<close>

definition transport_aad :: "header \<Rightarrow> u16 option \<Rightarrow> bytes" where
  "transport_aad h frag =
     (let hh = h\<lparr>h_flags := h_flags h AND NOT FRAGMENTED\<rparr>
      in case frag of
           Some f \<Rightarrow> Header_aad (hh\<lparr>h_packet_id := ucast f\<rparr>) 0
         | None \<Rightarrow> Header_aad hh 0)"

definition Packet_new :: "header \<Rightarrow> bytes \<Rightarrow> packet" where
  "Packet_new h payload = \<lparr>p_header = h, p_payload = payload\<rparr>"

definition send_link_ack :: "crypto \<Rightarrow> address \<Rightarrow> u32 \<Rightarrow> time \<Rightarrow> node \<Rightarrow> node option" where
  "send_link_ack c to packet_id now n = do {
     (h, n) \<leftarrow> base_header Control to 1 n;
     let h = h\<lparr>h_next_hop := Address_short to\<rparr>;
     let n = count cn_link_acks_sent_update n;
     Some (snd (enqueue_packet c (Packet_new h (LINK_ACK # be32 packet_id)) now prio_CONTROL False n)) }"

subsection \<open>Route requests and unicast\<close>

definition request_handshake :: "address \<Rightarrow> node \<Rightarrow> bytes" where
  "request_handshake target n =
     (case SmallMap_get (nd_handshakes n) target of
        Some h \<Rightarrow> if hx_role (ph_hs h) = Initiator then ph_m1 h else []
      | None \<Rightarrow> [])"

definition send_route_request :: "crypto \<Rightarrow> address \<Rightarrow> u32 \<Rightarrow> u8 \<Rightarrow> time \<Rightarrow> node \<Rightarrow> node option" where
  "send_route_request c target req_id ttl now n = do {
     (h, n) \<leftarrow> base_header RouteRequest BROADCAST ttl n;
     let h = h\<lparr>h_packet_id := req_id\<rparr>;
     let want_key = (list_ex (\<lambda>p. pe_dst p = target) (nd_pending_envelopes n)
                     \<or> \<not> SmallMap_contains_key (nd_key_dir n) target);
     let rflags = (if want_key then rreq_PROXY_OK OR rreq_WANT_KEY else rreq_PROXY_OK);
     let handshake = request_handshake target n;
     let n = (if rflags AND rreq_WANT_KEY \<noteq> 0 then count cn_key_requests_sent_update n else n);
     let q = \<lparr>rq_target = target, rq_cost = 0, rq_flags = rflags, rq_handshake = handshake\<rparr>;
     let n = count cn_rreq_sent_update n;
     Some (snd (enqueue_packet c (Packet_new h (RouteRequest_encode q)) now prio_BEACON False n)) }"

text \<open>The start of a discovery, with the packet to park when there is one.\<close>

definition start_discovery :: "crypto \<Rightarrow> address \<Rightarrow> packet option \<Rightarrow> time \<Rightarrow> node \<Rightarrow> node option" where
  "start_discovery c dst p now n = do {
     (req_id, n) \<leftarrow> new_packet_id n;
     let (ie, ttl) = Ierp_start dst req_id now (nd_ierp n);
     let ie = (case p of Some p \<Rightarrow> fst (Ierp_queue dst p ie) | None \<Rightarrow> ie);
     send_route_request c dst req_id ttl now (n\<lparr>nd_ierp := ie\<rparr>) }"

definition route_unicast :: "crypto \<Rightarrow> packet \<Rightarrow> time \<Rightarrow> node \<Rightarrow> (unit result \<times> node) option" where
  "route_unicast c p now n =
     (let dst = h_dst (p_header p) in
      if ncf_routing_mode (nd_cfg n) = Flood
      then let p = p\<lparr>p_header := (p_header p)\<lparr>h_next_hop := NEXT_HOP_ANY\<rparr>\<rparr>
           in Some (Inr (), snd (enqueue_packet c p now prio_DATA False n))
      else case next_hop_for dst now n of
        Some nh \<Rightarrow>
          let p = p\<lparr>p_header := (p_header p)\<lparr>h_next_hop := Address_short nh\<rparr>\<rparr>;
              n = n\<lparr>nd_routes := RouteCache_touch (nd_routes n) dst nh now\<rparr>;
              pr = (if h_ptype (p_header p) = Data then prio_DATA else prio_CONTROL)
          in do { n \<leftarrow> track_hop p nh now False n;
                  Some (Inr (), snd (enqueue_packet c p now pr False n)) }
      | None \<Rightarrow>
          if Ierp_is_pending (nd_ierp n) dst
          then (case Ierp_queue dst p (nd_ierp n) of (ie, ok) \<Rightarrow>
                  Some (if ok then Inr () else Inl Full, n\<lparr>nd_ierp := ie\<rparr>))
          else if \<not> Ierp_may_start (nd_ierp n) dst now then Some (Inl NoRoute, n)
          else do { n \<leftarrow> start_discovery c dst (Some p) now n; Some (Inr (), n) })"

text \<open>\<open>let _ = self.route_unicast(p, now)\<close>: the result is ignored.\<close>

definition route_unicast_ign :: "crypto \<Rightarrow> packet \<Rightarrow> time \<Rightarrow> node \<Rightarrow> node option" where
  "route_unicast_ign c p now n = do { (_, n) \<leftarrow> route_unicast c p now n; Some n }"

subsection \<open>Session packets\<close>

definition fragment_header :: "header \<Rightarrow> nat \<Rightarrow> node \<Rightarrow> (header \<times> node) option" where
  "fragment_header h i n =
     (if i > 0 then do { (pid, n) \<leftarrow> new_packet_id n; Some (h\<lparr>h_packet_id := pid\<rparr>, n) }
      else Some (h, n))"

fun send_fragments ::
  "crypto \<Rightarrow> header \<Rightarrow> time \<Rightarrow> nat \<Rightarrow> (frag_header \<times> bytes) list \<Rightarrow> node \<Rightarrow> (unit result \<times> node) option" where
  "send_fragments c h now i [] n = Some (Inr (), n)"
| "send_fragments c h now i ((fh, data) # parts) n = do {
     (hh, n) \<leftarrow> fragment_header h i n;
     (r, n) \<leftarrow> route_unicast c (Packet_new hh (frame_fragment fh data)) now n;
     (case r of Inl e \<Rightarrow> Some (Inl e, n) | Inr _ \<Rightarrow> send_fragments c h now (Suc i) parts n) }"

definition session_header :: "packet_type \<Rightarrow> address \<Rightarrow> u16 \<Rightarrow> bool \<Rightarrow> node \<Rightarrow> (header \<times> node) option" where
  "session_header ptype dst seq ack_request n = do {
     let ttl = ttl_for dst n;
     (h, n) \<leftarrow> base_header ptype dst ttl n;
     let h = Header_set (Header_set (h\<lparr>h_seq := seq\<rparr>) ENCRYPTED True) ACK_REQUEST ack_request;
     Some (if ncf_role (nd_cfg n) = Leaf then Header_set h LEAF_SOURCE True else h, n) }"

definition send_session_packet ::
  "crypto \<Rightarrow> address \<Rightarrow> packet_type \<Rightarrow> bytes \<Rightarrow> u16 \<Rightarrow> bool \<Rightarrow> time \<Rightarrow> node \<Rightarrow> (unit result \<times> node) option" where
  "send_session_packet c dst ptype body seq ack_request now n = do {
     (h, n) \<leftarrow> session_header ptype dst seq ack_request n;
     let single_max = max_payload (Header_has h NET_AUTH);
     let fragmented = (length body + TRANSPORT_OVERHEAD > single_max);
     let n = (if fragmented then n\<lparr>nd_frag_id := nd_frag_id n + 1\<rparr> else n);
     let frag_id = (if fragmented then Some (nd_frag_id n) else None);
     let h = (if fragmented then Header_set h FRAGMENTED True else h);
     let aad = transport_aad h frag_id;
     (case SmallMap_get (nd_sessions n) dst of
        None \<Rightarrow> Some (Inl NoSession, n)
      | Some s \<Rightarrow>
          (case Session_encrypt c now aad body s of (s, r) \<Rightarrow>
            let n = n\<lparr>nd_sessions := SmallMap_modify (nd_sessions n) dst (\<lambda>_. s)\<rparr> in
            (case r of
               Inl e \<Rightarrow> Some (Inl e, n)
             | Inr ct \<Rightarrow>
                 if \<not> fragmented then route_unicast c (Packet_new h ct) now n
                 else (case split_body (nd_frag_id n) ct (single_max - FRAG_HEADER_LEN) of
                         None \<Rightarrow> Some (Inl TooLarge, n)
                       | Some parts \<Rightarrow> do {
                           (r, n) \<leftarrow> send_fragments c h now 0 parts n;
                           Some (r, if is_ok r
                             then n\<lparr>nd_counters := (nd_counters n)\<lparr>cn_fragments_sent :=
                                    cn_fragments_sent (nd_counters n) + of_nat (length parts)\<rparr>\<rparr>
                             else n) })))) }"

text \<open>A session packet with the next sequence number, its result ignored.\<close>

definition next_seq :: "node \<Rightarrow> u16 \<times> node" where
  "next_seq n = (case Transport_next_seq (nd_transport n) of (t, s) \<Rightarrow> (s, n\<lparr>nd_transport := t\<rparr>))"

definition send_in_session ::
  "crypto \<Rightarrow> address \<Rightarrow> packet_type \<Rightarrow> bytes \<Rightarrow> time \<Rightarrow> node \<Rightarrow> node option" where
  "send_in_session c dst ptype body now n = do {
     let (s, n) = next_seq n;
     (_, n) \<leftarrow> send_session_packet c dst ptype body s False now n;
     Some n }"

subsection \<open>Handshake initiation\<close>

definition xx_prologue :: "address \<Rightarrow> address \<Rightarrow> bytes" where
  "xx_prologue initiator responder =
     str_bytes ''MeshStar/xx/v1'' @ Address_as_bytes initiator @ Address_as_bytes responder"

fun HandshakeMessage_to_u8 :: "handshake_message \<Rightarrow> u8" where
  "HandshakeMessage_to_u8 One = 1"
| "HandshakeMessage_to_u8 Two = 2"
| "HandshakeMessage_to_u8 Three = 3"

definition send_handshake_packet ::
  "crypto \<Rightarrow> address \<Rightarrow> handshake_message \<Rightarrow> bytes \<Rightarrow> time \<Rightarrow> node \<Rightarrow> node option" where
  "send_handshake_packet c peer no msg now n = do {
     let ttl = ttl_for peer n;
     (h, n) \<leftarrow> base_header Handshake peer ttl n;
     route_unicast_ign c (Packet_new h (HandshakeMessage_to_u8 no # msg)) now n }"

definition start_handshake :: "crypto \<Rightarrow> address \<Rightarrow> time \<Rightarrow> node \<Rightarrow> node option" where
  "start_handshake c peer now n =
     (if SmallMap_contains_key (nd_handshakes n) peer \<or> peer = Node_address n then Some n
      else let epoch = (case SmallMap_get (nd_sessions n) peer of Some s \<Rightarrow> se_epoch s + 1 | None \<Rightarrow> 0);
               (e, n) = fill_bytes n;
               hs = HandshakeXX_new c Initiator (nd_id n) (xx_prologue (Node_address n) peer) e
           in case HandshakeXX_write_message_1 c [Role_to_u8 (ncf_role (nd_cfg n)), epoch] hs of
                (_, Inl _) \<Rightarrow> Some n
              | (hs, Inr m1) \<Rightarrow>
                  let ph = \<lparr>ph_hs = hs, ph_started_at = now, ph_epoch = epoch, ph_queued = [],
                            ph_attempts = 1, ph_m1 = m1, ph_re = replicate 32 0, ph_m2 = []\<rparr>;
                      n = n\<lparr>nd_handshakes := sm_put (nd_handshakes n) peer ph\<rparr>;
                      n = count cn_handshakes_started_update n
                  in send_handshake_packet c peer One m1 now n)"

text \<open>\<open>h.queued.push(q)\<close> for the handshake with \<open>peer\<close>, when there is one.\<close>

definition queue_behind_handshake :: "address \<Rightarrow> queued_send \<Rightarrow> node \<Rightarrow> node" where
  "queue_behind_handshake peer q n =
     n\<lparr>nd_handshakes := SmallMap_modify (nd_handshakes n) peer (\<lambda>h. h\<lparr>ph_queued := ph_queued h @ [q]\<rparr>)\<rparr>"

subsection \<open>Acknowledgements and control messages\<close>

definition has_session :: "address \<Rightarrow> node \<Rightarrow> bool" where
  "has_session a n = SmallMap_contains_key (nd_sessions n) a"

definition bump_acks_sent :: "node \<Rightarrow> node" where
  "bump_acks_sent n =
     n\<lparr>nd_transport := (nd_transport n)\<lparr>t_stats := (t_stats (nd_transport n))
        \<lparr>ts_acks_sent := ts_acks_sent (t_stats (nd_transport n)) + 1\<rparr>\<rparr>\<rparr>"

definition send_ack :: "crypto \<Rightarrow> address \<Rightarrow> u16 \<Rightarrow> u8 \<Rightarrow> time \<Rightarrow> node \<Rightarrow> node option" where
  "send_ack c to seq status now n =
     (if has_session to n
      then do { n \<leftarrow> send_in_session c to Ack (Ack_encode \<lparr>ack_seq = seq, ack_status = status\<rparr>) now n;
                Some (bump_acks_sent n) }
      else Some n)"

definition send_control :: "crypto \<Rightarrow> address \<Rightarrow> u8 \<Rightarrow> bytes \<Rightarrow> time \<Rightarrow> node \<Rightarrow> node option" where
  "send_control c to sub body now n =
     (if has_session to n then send_in_session c to Control (sub # body) now n else Some n)"

definition send_fetch :: "crypto \<Rightarrow> address \<Rightarrow> time \<Rightarrow> node \<Rightarrow> node option" where
  "send_fetch c anchor now n =
     (if (case NeighborTable_get (nd_neighbors n) anchor of
            Some nb \<Rightarrow> \<not> Role_relays (nb_role nb) | None \<Rightarrow> False) then Some n
      else do {
        n \<leftarrow> (if has_session anchor n then send_in_session c anchor Fetch [8] now n
              else do {
                n \<leftarrow> start_handshake c anchor now n;
                Some (queue_behind_handshake anchor \<lparr>qs_dst = anchor, qs_payload = [],
                        qs_reliability = Unreliable, qs_handle = 0, qs_queued_at = now\<rparr> n) });
        Some (count cn_fetch_sent_update n) })"

subsection \<open>Store and forward\<close>

definition send_store ::
  "crypto \<Rightarrow> address \<Rightarrow> address \<Rightarrow> u32 \<Rightarrow> bytes \<Rightarrow> time \<Rightarrow> node \<Rightarrow> node option" where
  "send_store c anchor dst envelope_id envelope now n =
     (let payload = StoreRequest_encode \<lparr>sr_dst = dst, sr_envelope_id = envelope_id,
                      sr_ttl_s = ncf_envelope_ttl_s (nd_cfg n), sr_envelope = envelope\<rparr> in
      if has_session anchor n
      then do { n \<leftarrow> send_in_session c anchor Store payload now n; Some (count cn_store_sent_update n) }
      else do {
        n \<leftarrow> start_handshake c anchor now n;
        Some (queue_behind_handshake anchor \<lparr>qs_dst = anchor, qs_payload = payload,
                qs_reliability = Unreliable, qs_handle = - 1, qs_queued_at = now\<rparr> n) })"

fun envelope_fragments ::
  "crypto \<Rightarrow> header \<Rightarrow> time \<Rightarrow> nat \<Rightarrow> (frag_header \<times> bytes) list \<Rightarrow> node \<Rightarrow> node option" where
  "envelope_fragments c h now i [] n = Some n"
| "envelope_fragments c h now i ((fh, data) # parts) n = do {
     (hh, n) \<leftarrow> fragment_header h i n;
     n \<leftarrow> route_unicast_ign c (Packet_new hh (frame_fragment fh data)) now n;
     envelope_fragments c h now (Suc i) parts (count cn_fragments_sent_update n) }"

definition send_envelope_data :: "crypto \<Rightarrow> address \<Rightarrow> u32 \<Rightarrow> bytes \<Rightarrow> time \<Rightarrow> node \<Rightarrow> node option" where
  "send_envelope_data c dst envelope_id envelope now n = do {
     let ttl = ttl_for dst n;
     (h, n) \<leftarrow> base_header Data dst ttl n;
     let (s, n) = next_seq n;
     let h = (Header_set (Header_set h ENVELOPE True) STORE_FORWARD True)\<lparr>h_seq := s\<rparr>;
     let body = frame_envelope envelope_id envelope;
     let single_max = max_payload (Header_has h NET_AUTH);
     (if length body \<le> single_max then route_unicast_ign c (Packet_new h body) now n
      else let h = Header_set h FRAGMENTED True;
               n = n\<lparr>nd_frag_id := nd_frag_id n + 1\<rparr>
           in case split_body (nd_frag_id n) body (single_max - FRAG_HEADER_LEN) of
                Some parts \<Rightarrow> envelope_fragments c h now 0 parts n
              | None \<Rightarrow> Some n) }"

definition flush_mailbox_to :: "crypto \<Rightarrow> address \<Rightarrow> time \<Rightarrow> node \<Rightarrow> node option" where
  "flush_mailbox_to c dst now n =
     (case nd_mailbox n of
        None \<Rightarrow> Some n
      | Some m \<Rightarrow>
          (case Mailbox_take_deliverable dst now 4 m of (m, items) \<Rightarrow>
            ofold (\<lambda>(i, env). send_envelope_data c dst i env now) items (n\<lparr>nd_mailbox := Some m\<rparr>)))"

definition route_unicast_envelope ::
  "crypto \<Rightarrow> address \<Rightarrow> u32 \<Rightarrow> bytes \<Rightarrow> time \<Rightarrow> node \<Rightarrow> (unit result \<times> node) option" where
  "route_unicast_envelope c dst envelope_id env now n =
     (if next_hop_for dst now n = None \<and> ncf_routing_mode (nd_cfg n) = Zrp
      then do {
        (h, n) \<leftarrow> base_header Data dst (ncf_default_ttl (nd_cfg n)) n;
        let h = Header_set (Header_set h ENVELOPE True) STORE_FORWARD True;
        let body = frame_envelope envelope_id env;
        (if length body > max_payload (Header_has h NET_AUTH) then Some (Inl TooLarge, n)
         else route_unicast c (Packet_new h body) now n) }
      else do { n \<leftarrow> send_envelope_data c dst envelope_id env now n; Some (Inr (), n) })"

text \<open>The mailbox of the node takes an envelope for a leaf it hosts; the flag tells whether it did.\<close>

definition store_hosted ::
  "crypto \<Rightarrow> address \<Rightarrow> u32 \<Rightarrow> bytes \<Rightarrow> time \<Rightarrow> node \<Rightarrow> (bool \<times> node) option" where
  "store_hosted c dst envelope_id env now n =
     (case NeighborTable_get (nd_neighbors n) dst of
        None \<Rightarrow> Some (False, n)
      | Some nb \<Rightarrow>
          if \<not> (Role_relays (ncf_role (nd_cfg n)) \<and> Neighbor_hosted nb) then Some (False, n)
          else case nd_mailbox n of
            None \<Rightarrow> Some (False, n)
          | Some m \<Rightarrow>
              (case Mailbox_store now (Node_address n) \<lparr>sr_dst = dst, sr_envelope_id = envelope_id,
                      sr_ttl_s = ncf_envelope_ttl_s (nd_cfg n), sr_envelope = env\<rparr> m of (m, r) \<Rightarrow>
                let n = n\<lparr>nd_mailbox := Some m\<rparr> in
                if \<not> is_ok r then Some (False, n)
                else let n = n\<lparr>nd_transport := fst (Transport_on_store_accepted envelope_id (nd_transport n))\<rparr>
                     in do {
                       n \<leftarrow> (if \<not> Neighbor_is_sleeping now nb then flush_mailbox_to c dst now n else Some n);
                       Some (True, n) }))"

definition deliver_envelope :: "crypto \<Rightarrow> address \<Rightarrow> u32 \<Rightarrow> bytes \<Rightarrow> time \<Rightarrow> node \<Rightarrow> node option" where
  "deliver_envelope c dst envelope_id env now n = do {
     (done', n) \<leftarrow> store_hosted c dst envelope_id env now n;
     (if done' then Some n
      else let anchor = (case ZoneTable_anchor_for dst (nd_zone n) of
                           Some a \<Rightarrow> Some a
                         | None \<Rightarrow> Option.bind (RouteCache_lookup (nd_routes n) dst now) re_via_anchor)
           in case anchor of
                Some a \<Rightarrow> send_store c a dst envelope_id env now n
              | None \<Rightarrow> do {
                  (r, n) \<leftarrow> route_unicast_envelope c dst envelope_id env now n;
                  (case r of
                     Inr _ \<Rightarrow> Some n
                   | Inl _ \<Rightarrow>
                       (case NeighborTable_best_anchor (nd_neighbors n) of
                          Some nb \<Rightarrow> send_store c (nb_addr nb) dst envelope_id env now n
                        | None \<Rightarrow> Some n)) }) }"

definition seal_and_send_envelope ::
  "crypto \<Rightarrow> address \<Rightarrow> bytes \<Rightarrow> u32 \<Rightarrow> time \<Rightarrow> node \<Rightarrow> node option" where
  "seal_and_send_envelope c dst payload handle now n =
     (case SmallMap_get (nd_key_dir n) dst of
        None \<Rightarrow> Some (emit (Failed handle dst Fail_NoKey) n)
      | Some pk \<Rightarrow> do {
          (envelope_id, n) \<leftarrow> new_packet_id n;
          let (e, n) = fill_bytes n;
          (case seal_envelope c (nd_id n) pk envelope_id payload e of
             Inl _ \<Rightarrow> Some (emit (Failed handle dst Fail_NoKey) n)
           | Inr env \<Rightarrow>
               if length env + 4 > 1500 then Some (emit (Failed handle dst Fail_TooLarge) n)
               else let ob = \<lparr>o_dst = dst, o_seq = 0, o_handle = handle, o_reliability = StoreAndForward,
                              o_body = env, o_attempts = 0, o_next_retry = 0, o_started_at = now,
                              o_envelope_id = Some envelope_id, o_stored = False, o_last_packet = None\<rparr>
                    in case Transport_track ob now (nd_transport n) of (t, r) \<Rightarrow>
                         let n = n\<lparr>nd_transport := t\<rparr> in
                         if \<not> is_ok r then Some (emit (Failed handle dst Fail_QueueFull) n)
                         else deliver_envelope c dst envelope_id env now n) })"

definition try_pending_envelopes :: "crypto \<Rightarrow> address \<Rightarrow> time \<Rightarrow> node \<Rightarrow> node option" where
  "try_pending_envelopes c dst now n =
     (let pend = filter (\<lambda>p. pe_dst p = dst) (nd_pending_envelopes n);
          n = n\<lparr>nd_pending_envelopes := filter (\<lambda>p. pe_dst p \<noteq> dst) (nd_pending_envelopes n)\<rparr>
      in ofold (\<lambda>p. seal_and_send_envelope c dst (pe_payload p) (pe_handle p) now) pend n)"

definition queue_envelope :: "crypto \<Rightarrow> address \<Rightarrow> bytes \<Rightarrow> u32 \<Rightarrow> time \<Rightarrow> node \<Rightarrow> node option" where
  "queue_envelope c dst payload handle now n =
     (if SmallMap_contains_key (nd_key_dir n) dst then seal_and_send_envelope c dst payload handle now n
      else if length (nd_pending_envelopes n) \<ge> 16 then Some (emit (Failed handle dst Fail_QueueFull) n)
      else let n = n\<lparr>nd_pending_envelopes := nd_pending_envelopes n @
                       [\<lparr>pe_dst = dst, pe_payload = payload, pe_handle = handle, pe_queued_at = now\<rparr>]\<rparr>
           in if Ierp_may_start (nd_ierp n) dst now then start_discovery c dst None now n else Some n)"

subsection \<open>Messages\<close>

definition fail_send :: "queued_send \<Rightarrow> fail_reason \<Rightarrow> node \<Rightarrow> node" where
  "fail_send q reason n = emit (Failed (qs_handle q) (qs_dst q) reason) n"

definition send_data_in_session :: "crypto \<Rightarrow> queued_send \<Rightarrow> time \<Rightarrow> node \<Rightarrow> node option" where
  "send_data_in_session c q now n = do {
     let (seq, n) = next_seq n;
     let ack = (qs_reliability q = Acknowledged);
     (r, n) \<leftarrow> send_session_packet c (qs_dst q) Data (qs_payload q) seq ack now n;
     Some (case r of
        Inr _ \<Rightarrow>
          if ack
          then (case Transport_track \<lparr>o_dst = qs_dst q, o_seq = seq, o_handle = qs_handle q,
                       o_reliability = qs_reliability q, o_body = qs_payload q, o_attempts = 0,
                       o_next_retry = 0, o_started_at = now, o_envelope_id = None, o_stored = False,
                       o_last_packet = None\<rparr> now (nd_transport n) of (t, r) \<Rightarrow>
                  let n = n\<lparr>nd_transport := t\<rparr>
                  in if is_ok r then n else fail_send q Fail_QueueFull n)
          else n
      | Inl e \<Rightarrow>
          if e = TooLarge then fail_send q Fail_TooLarge n
          else if e = NoRoute then fail_send q Fail_NoRoute n
          else fail_send q Fail_NoSession n) }"

definition send_or_queue :: "crypto \<Rightarrow> queued_send \<Rightarrow> time \<Rightarrow> node \<Rightarrow> node option" where
  "send_or_queue c q now n =
     (if has_session (qs_dst q) n then send_data_in_session c q now n
      else case SmallMap_get (nd_handshakes n) (qs_dst q) of
        Some h \<Rightarrow>
          if length (ph_queued h) < 8 then Some (queue_behind_handshake (qs_dst q) q n)
          else Some (fail_send q Fail_QueueFull n)
      | None \<Rightarrow> do {
          n \<leftarrow> start_handshake c (qs_dst q) now n;
          Some (if SmallMap_contains_key (nd_handshakes n) (qs_dst q)
                then queue_behind_handshake (qs_dst q) q n else fail_send q Fail_NoSession n) })"

definition send_broadcast :: "crypto \<Rightarrow> bytes \<Rightarrow> node \<Rightarrow> (u32 result \<times> node) option" where
  "send_broadcast c payload n = do {
     let now = nd_now n;
     let (handle, n) = new_handle n;
     (h, n) \<leftarrow> base_header Data BROADCAST (ncf_default_ttl (nd_cfg n)) n;
     let (s, n) = next_seq n;
     let h = h\<lparr>h_seq := s\<rparr>;
     let (h, body) = (case ncf_network_key (nd_cfg n) of
           Some k \<Rightarrow>
             let h = Header_set h GROUP_ENCRYPTED True
             in (h, group_encrypt c (NetworkKey_group_key c k) (Node_address n) (h_packet_id h) (Header_aad h 0) payload)
         | None \<Rightarrow> (h, payload));
     Some (if length body > max_payload (Header_has h NET_AUTH) then (Inl TooLarge, n)
           else (Inr handle, snd (enqueue_packet c (Packet_new h body) now prio_DATA False
                                    (count cn_app_sent_update n)))) }"

definition send_message ::
  "crypto \<Rightarrow> address \<Rightarrow> bytes \<Rightarrow> reliability \<Rightarrow> node \<Rightarrow> (u32 result \<times> node) option" where
  "send_message c dst payload reliability n =
     (let now = nd_now n in
      if Address_is_null dst \<or> dst = Node_address n then Some (Inl BadField, n)
      else if length payload > 2048 then Some (Inl TooLarge, n)
      else if Address_is_broadcast dst then send_broadcast c payload n
      else let (handle, n) = new_handle n;
               n = count cn_app_sent_update n
           in do {
             n \<leftarrow> (case reliability of
                     StoreAndForward \<Rightarrow> queue_envelope c dst payload handle now n
                   | _ \<Rightarrow> send_or_queue c \<lparr>qs_dst = dst, qs_payload = payload, qs_reliability = reliability,
                             qs_handle = handle, qs_queued_at = now\<rparr> now n);
             Some (Inr handle, n) })"

definition trace :: "crypto \<Rightarrow> address \<Rightarrow> node \<Rightarrow> (unit result \<times> node) option" where
  "trace c dst n =
     (if dst = Node_address n \<or> Address_is_broadcast dst then Some (Inl BadField, n)
      else if length (nd_pending_traces n) \<ge> 4 then Some (Inl Full, n)
      else do {
        let now = nd_now n;
        let ttl = ttl_for dst n;
        (h, n) \<leftarrow> base_header Control dst ttl n;
        let n = n\<lparr>nd_pending_traces := filter (\<lambda>(d, _). d \<noteq> dst) (nd_pending_traces n) @ [(dst, now)]\<rparr>;
        route_unicast c (Packet_new h [TRACE_REQ]) now n })"

end
