(* ===== verification/Node_Rx.thy ===== *)
theory Node_Rx
  imports Node_Tx
begin

section \<open>The node engine: receive path (\<open>node/rx.rs\<close>, \<open>node/session.rs\<close>, \<open>node/tx.rs\<close>)\<close>

text \<open>
  The handlers of received frames, one definition per method. A value that the source computes
  and drops (\<open>let _ = ...\<close>) is left out when its computation has no effect.
\<close>

subsection \<open>Route replies and errors\<close>

definition send_route_reply :: "crypto \<Rightarrow> address \<Rightarrow> route_reply_msg \<Rightarrow> time \<Rightarrow> node \<Rightarrow> node option" where
  "send_route_reply c origin reply now n =
     (if next_hop_for origin now n = None \<and> ncf_routing_mode (nd_cfg n) \<noteq> Flood then Some n
      else case Ierp_mark_replied origin (rp_req_id reply) (nd_ierp n) of (ie, fresh) \<Rightarrow>
        let n = n\<lparr>nd_ierp := ie\<rparr> in
        if \<not> fresh then Some n
        else do {
          let ttl = ttl_for origin n;
          (h, n) \<leftarrow> base_header RouteReply origin ttl n;
          let (draw, n) = next_u64 n;
          let jitter = ucast (st_max_delay_ms (ncf_storm (nd_cfg n))) + 50
                       + min (ucast (rp_cost reply)) 1500 + draw mod 400;
          Some (n\<lparr>nd_rrep_pending := PendingReplies_schedule origin (rp_req_id reply) (rp_cost reply)
                    (now + jitter) (Packet_new h (RouteReply_encode reply)) (nd_rrep_pending n)\<rparr>) })"

definition send_route_error :: "crypto \<Rightarrow> address \<Rightarrow> address \<Rightarrow> time \<Rightarrow> node \<Rightarrow> node option" where
  "send_route_error c to unreachable now n =
     (if to = Node_address n then Some n
      else do {
        let ttl = ttl_for to n;
        (h, n) \<leftarrow> base_header RouteError to ttl n;
        let p = Packet_new h (RouteError_encode \<lparr>rerr_unreachable = [unreachable]\<rparr>);
        let n = count cn_rerr_sent_update n;
        (if next_hop_for to now n \<noteq> None then route_unicast_ign c p now n else Some n) })"

subsection \<open>Sessions\<close>

definition install_session ::
  "crypto \<Rightarrow> address \<Rightarrow> u8 \<Rightarrow> transport_keys \<Rightarrow> public_identity \<Rightarrow> time \<Rightarrow> node \<Rightarrow> node option" where
  "install_session c peer epoch keys remote now n = do {
     let n = n\<lparr>nd_key_dir := sm_put (nd_key_dir n) peer remote\<rparr>;
     let n = n\<lparr>nd_sessions := sm_put (nd_sessions n) peer (Session_new remote epoch keys now)\<rparr>;
     let n = count cn_handshakes_completed_update n;
     let n = emit (SessionEstablished peer) n;
     n \<leftarrow> try_pending_envelopes c peer now n;
     Some (if ncf_role (nd_cfg n) = Leaf \<and> nd_attached_anchor n = None
              \<and> (case NeighborTable_get (nd_neighbors n) peer of
                    Some nb \<Rightarrow> Role_relays (nb_role nb) | None \<Rightarrow> False)
           then n\<lparr>nd_attached_anchor := Some peer\<rparr> else n) }"

definition drain_one :: "crypto \<Rightarrow> address \<Rightarrow> time \<Rightarrow> queued_send \<Rightarrow> node \<Rightarrow> node option" where
  "drain_one c peer now q n =
     (if qs_handle q = 0 \<and> qs_payload q = [] then send_in_session c peer Fetch [8] now n
      else if qs_handle q = - 1
      then do { n \<leftarrow> send_in_session c peer Store (qs_payload q) now n; Some (count cn_store_sent_update n) }
      else if qs_handle q = QUEUED_CONTROL
      then (case qs_payload q of sub # body \<Rightarrow> send_control c peer sub body now n | [] \<Rightarrow> Some n)
      else if qs_reliability q = StoreAndForward
      then queue_envelope c (qs_dst q) (qs_payload q) (qs_handle q) now n
      else send_data_in_session c q now n)"

definition drain_queued :: "crypto \<Rightarrow> address \<Rightarrow> queued_send list \<Rightarrow> time \<Rightarrow> node \<Rightarrow> node option" where
  "drain_queued c peer queued now n = ofold (drain_one c peer now) queued n"

definition responder_start :: "crypto \<Rightarrow> address \<Rightarrow> bytes \<Rightarrow> time \<Rightarrow> node \<Rightarrow> bytes option \<times> node" where
  "responder_start c peer msg now n =
     (let me = Node_address n in
      if length msg < 32 then (None, n)
      else let re = take 32 msg;
               start = (\<lambda>n.
                 let queued = (case SmallMap_get (nd_handshakes n) peer of Some h \<Rightarrow> ph_queued h | None \<Rightarrow> []);
                     n = n\<lparr>nd_handshakes := sm_del (nd_handshakes n) peer\<rparr>;
                     (e, n) = fill_bytes n;
                     hs = HandshakeXX_new c Responder (nd_id n) (xx_prologue peer me) e
                 in case HandshakeXX_read_message_1 c msg hs of
                      (_, Inl _) \<Rightarrow> (None, count cn_hs_read_failures_update n)
                    | (hs, Inr m1_payload) \<Rightarrow>
                        let epoch = (if length m1_payload > 1 then m1_payload ! 1 else 0)
                        in case HandshakeXX_write_message_2 c [Role_to_u8 (ncf_role (nd_cfg n))] hs of
                             (_, Inl _) \<Rightarrow> (None, n)
                           | (hs, Inr m2) \<Rightarrow>
                               (Some m2, n\<lparr>nd_handshakes := sm_put (nd_handshakes n) peer
                                  \<lparr>ph_hs = hs, ph_started_at = now, ph_epoch = epoch, ph_queued = queued,
                                   ph_attempts = 1, ph_m1 = [], ph_re = re, ph_m2 = m2\<rparr>\<rparr>))
           in case SmallMap_get (nd_handshakes n) peer of
                Some h \<Rightarrow>
                  if hx_role (ph_hs h) = Initiator
                  then if me < peer then (None, n) else start n
                  else if ph_re h = re then (Some (ph_m2 h), n) else start n
              | None \<Rightarrow> start n)"

text \<open>The state of the handshake with \<open>peer\<close> after a call on it.\<close>

definition set_hs :: "address \<Rightarrow> handshake \<Rightarrow> node \<Rightarrow> node" where
  "set_hs peer hs n =
     n\<lparr>nd_handshakes := SmallMap_modify (nd_handshakes n) peer (\<lambda>h. h\<lparr>ph_hs := hs\<rparr>)\<rparr>"

definition drop_hs :: "address \<Rightarrow> node \<Rightarrow> node" where
  "drop_hs peer n = n\<lparr>nd_handshakes := sm_del (nd_handshakes n) peer\<rparr>"

definition initiator_continue :: "crypto \<Rightarrow> address \<Rightarrow> bytes \<Rightarrow> time \<Rightarrow> node \<Rightarrow> (bool \<times> node) option" where
  "initiator_continue c peer msg now n =
     (case SmallMap_get (nd_handshakes n) peer of
        None \<Rightarrow> Some (False, n)
      | Some h \<Rightarrow>
          if hx_role (ph_hs h) \<noteq> Initiator then Some (False, n)
          else case HandshakeXX_read_message_2 c msg (ph_hs h) of
            (hs, Inl _) \<Rightarrow> Some (False, count cn_hs_read_failures_update (set_hs peer hs n))
          | (hs, Inr _) \<Rightarrow>
              let n = set_hs peer hs n in
              if map_option pid_address (hx_remote hs) \<noteq> Some peer
              then Some (False, drop_hs peer (count cn_auth_failures_update n))
              else case HandshakeXX_write_message_3 c [Role_to_u8 (ncf_role (nd_cfg n))] hs of
                (hs, Inl _) \<Rightarrow> Some (False, set_hs peer hs n)
              | (hs, Inr m3) \<Rightarrow>
                  let n = drop_hs peer n in
                  (case HandshakeXX_finish c hs of
                     Inl _ \<Rightarrow> Some (False, count cn_handshake_failures_update n)
                   | Inr (keys, remote) \<Rightarrow> do {
                       n \<leftarrow> send_handshake_packet c peer Three m3 now n;
                       n \<leftarrow> install_session c peer (ph_epoch h) keys remote now n;
                       let n = n\<lparr>nd_sessions := SmallMap_modify (nd_sessions n) peer (\<lambda>s. s\<lparr>se_m3 := Some m3\<rparr>)\<rparr>;
                       n \<leftarrow> drain_queued c peer (ph_queued h) now n;
                       Some (True, n) }))"

definition handle_message_3 :: "crypto \<Rightarrow> address \<Rightarrow> bytes \<Rightarrow> time \<Rightarrow> node \<Rightarrow> node option" where
  "handle_message_3 c peer msg now n =
     (case SmallMap_get (nd_handshakes n) peer of
        None \<Rightarrow> Some n
      | Some h \<Rightarrow>
          if hx_role (ph_hs h) \<noteq> Responder then Some n
          else case HandshakeXX_read_message_3 c msg (ph_hs h) of
            (hs, Inl _) \<Rightarrow> Some (count cn_hs_read_failures_update (set_hs peer hs n))
          | (hs, Inr _) \<Rightarrow>
              if map_option pid_address (hx_remote hs) \<noteq> Some peer
              then Some (drop_hs peer (count cn_auth_failures_update n))
              else let n = drop_hs peer n in
                (case HandshakeXX_finish c hs of
                   Inl _ \<Rightarrow> Some (count cn_handshake_failures_update n)
                 | Inr (keys, remote) \<Rightarrow> do {
                     n \<leftarrow> install_session c peer (ph_epoch h) keys remote now n;
                     drain_queued c peer (ph_queued h) now n }))"

definition handle_handshake :: "crypto \<Rightarrow> packet \<Rightarrow> time \<Rightarrow> node \<Rightarrow> node option" where
  "handle_handshake c p now n =
     (let peer = h_src (p_header p) in
      case p_payload p of
        [] \<Rightarrow> Some n
      | no # msg \<Rightarrow>
          (case HandshakeMessage_from_u8 no of
             None \<Rightarrow> Some (count cn_rx_bad_update n)
           | Some One \<Rightarrow>
               (case responder_start c peer msg now n of
                  (Some m2, n) \<Rightarrow> send_handshake_packet c peer Two m2 now n
                | (None, n) \<Rightarrow> Some n)
           | Some Two \<Rightarrow> do { (_, n) \<leftarrow> initiator_continue c peer msg now n; Some n }
           | Some Three \<Rightarrow> handle_message_3 c peer msg now n))"

definition remove_session :: "address \<Rightarrow> node \<Rightarrow> node" where
  "remove_session peer n =
     n\<lparr>nd_sessions := sm_del (nd_sessions n) peer, nd_transport := Transport_reset_peer peer (nd_transport n)\<rparr>"

definition on_no_session_notice :: "crypto \<Rightarrow> address \<Rightarrow> time \<Rightarrow> node \<Rightarrow> node option" where
  "on_no_session_notice c peer now n =
     (case SmallMap_get (nd_sessions n) peer of
        None \<Rightarrow> Some n
      | Some s \<Rightarrow>
          let can_resend = (se_m3_resends s < 3
                \<and> sat_sub now (se_established_at s) \<le> ncf_handshake_timeout_ms (nd_cfg n)) in
          (case (if can_resend then se_m3 s else None) of
             Some m3 \<Rightarrow>
               let n = n\<lparr>nd_sessions := SmallMap_modify (nd_sessions n) peer
                          (\<lambda>s. s\<lparr>se_m3_resends := se_m3_resends s + 1\<rparr>)\<rparr>
               in send_handshake_packet c peer Three m3 now (count cn_m3_resends_update n)
           | None \<Rightarrow>
               let n = count cn_sessions_reset_update (remove_session peer n);
                   n = emit (SessionClosed peer) n
               in case Transport_fail_all_to peer (nd_transport n) of (t, pend) \<Rightarrow>
                    let t = t\<lparr>t_stats := (t_stats t)\<lparr>ts_failed :=
                              sat_sub (ts_failed (t_stats t)) (of_nat (length pend))\<rparr>\<rparr>
                    in ofold (\<lambda>ob. send_or_queue c \<lparr>qs_dst = peer, qs_payload = o_body ob,
                               qs_reliability = o_reliability ob, qs_handle = o_handle ob, qs_queued_at = now\<rparr> now)
                         (filter (\<lambda>ob. o_reliability ob \<noteq> StoreAndForward) pend) (n\<lparr>nd_transport := t\<rparr>)))"

definition close_session :: "crypto \<Rightarrow> address \<Rightarrow> node \<Rightarrow> node option" where
  "close_session c peer n =
     (if has_session peer n
      then do {
        n \<leftarrow> send_control c peer SESSION_CLOSE [] (nd_now n) n;
        Some (emit (SessionClosed peer) (remove_session peer n)) }
      else Some n)"

subsection \<open>Timeouts of discoveries and messages\<close>

definition unack_envelope :: "u32 \<Rightarrow> node \<Rightarrow> outstanding option \<times> node" where
  "unack_envelope envelope_id n =
     (case Transport_on_envelope_delivered envelope_id (nd_transport n) of
        (t, None) \<Rightarrow> (None, n\<lparr>nd_transport := t\<rparr>)
      | (t, Some ob) \<Rightarrow>
          (Some ob, n\<lparr>nd_transport := t\<lparr>t_stats := (t_stats t)\<lparr>ts_acked := ts_acked (t_stats t) - 1\<rparr>\<rparr>\<rparr>))"

definition discovery_failed_packet ::
  "crypto \<Rightarrow> address \<Rightarrow> address option \<Rightarrow> time \<Rightarrow> packet \<Rightarrow> node \<Rightarrow> node option" where
  "discovery_failed_packet c target anchor now p n =
     (if Header_has (p_header p) ENVELOPE \<and> Header_has (p_header p) STORE_FORWARD
      then (case parse_envelope_frame (p_payload p) of
              Inl _ \<Rightarrow> Some n
            | Inr (i, env) \<Rightarrow>
                (case anchor of
                   Some a \<Rightarrow> send_store c a target i env now n
                 | None \<Rightarrow>
                     (case unack_envelope i n of
                        (Some ob, n) \<Rightarrow> Some (emit (Failed (o_handle ob) target Fail_NoRoute) n)
                      | (None, n) \<Rightarrow> Some n)))
      else Some n)"

definition on_discovery_failed :: "crypto \<Rightarrow> address \<Rightarrow> packet list \<Rightarrow> time \<Rightarrow> node \<Rightarrow> node option" where
  "on_discovery_failed c target queued now n = do {
     let n = count cn_discovery_failures_update n;
     let anchor = (case NeighborTable_best_anchor (nd_neighbors n) of
                     Some nb \<Rightarrow> if nb_addr nb \<noteq> Node_address n then Some (nb_addr nb) else None
                   | None \<Rightarrow> None);
     n \<leftarrow> ofold (discovery_failed_packet c target anchor now) queued n;
     let lost = (case SmallMap_get (nd_handshakes n) target of
                   Some h \<Rightarrow> filter (\<lambda>q. qs_handle q \<noteq> 0 \<and> qs_handle q \<noteq> - 1) (ph_queued h)
                 | None \<Rightarrow> []);
     let n = drop_hs target n;
     let n = fold (\<lambda>q. fail_send q Fail_NoRoute) lost n;
     let (t, gone) = Transport_fail_all_to target (nd_transport n);
     let n = n\<lparr>nd_transport := t\<rparr>;
     let n = fold (\<lambda>ob. emit (Failed (o_handle ob) target Fail_NoRoute)) gone n;
     let pend = filter (\<lambda>p. pe_dst p = target) (nd_pending_envelopes n);
     let n = n\<lparr>nd_pending_envelopes := filter (\<lambda>p. pe_dst p \<noteq> target) (nd_pending_envelopes n)\<rparr>;
     Some (fold (\<lambda>p. emit (Failed (pe_handle p) (pe_dst p) Fail_NoKey)) pend n) }"

text \<open>Less confidence in the route of a message that was tried three times.\<close>

definition distrust_route :: "outstanding \<Rightarrow> time \<Rightarrow> node \<Rightarrow> node" where
  "distrust_route ob now n =
     (if o_attempts ob \<ge> 3
      then (case RouteCache_lookup (nd_routes n) (o_dst ob) now of
              Some r \<Rightarrow>
                (case RouteCache_mark_failure (nd_routes n) (o_dst ob) (re_next_hop r) of (rt, removed) \<Rightarrow>
                  let n = n\<lparr>nd_routes := rt\<rparr> in
                  if o_reliability ob = StoreAndForward then n
                  else let n = (if removed then emit (RouteLost (o_dst ob)) n else n)
                       in n\<lparr>nd_neighbors := fst (NeighborTable_record_failure (re_next_hop r) (nd_neighbors n))\<rparr>)
            | None \<Rightarrow> n)
      else n)"

definition retry_outstanding :: "crypto \<Rightarrow> outstanding \<Rightarrow> time \<Rightarrow> node \<Rightarrow> node option" where
  "retry_outstanding c ob now n =
     (let n = count cn_retries_update n in
      if o_reliability ob = StoreAndForward
      then (case o_envelope_id ob of
              Some i \<Rightarrow> deliver_envelope c (o_dst ob) i (o_body ob) now (distrust_route ob now n)
            | None \<Rightarrow> Some n)
      else let n = distrust_route ob now n in
        if \<not> has_session (o_dst ob) n
        then let q = \<lparr>qs_dst = o_dst ob, qs_payload = o_body ob, qs_reliability = o_reliability ob,
                      qs_handle = o_handle ob, qs_queued_at = now\<rparr>;
                 t = fst (Transport_fail_all_to (o_dst ob) (nd_transport n));
                 t = t\<lparr>t_stats := (t_stats t)\<lparr>ts_failed := ts_failed (t_stats t) - 1\<rparr>\<rparr>
             in send_or_queue c q now (n\<lparr>nd_transport := t\<rparr>)
        else do {
          (_, n) \<leftarrow> send_session_packet c (o_dst ob) Data (o_body ob) (o_seq ob) True now n;
          Some n })"

subsection \<open>Forwarding\<close>

definition trace_stamp :: "address \<Rightarrow> packet \<Rightarrow> packet" where
  "trace_stamp me p =
     (if h_ptype (p_header p) = Control \<and> p_payload p \<noteq> [] \<and> hd (p_payload p) = TRACE_REQ
         \<and> length (p_payload p) < 1 + 2 * TRACE_MAX_HOPS
      then p\<lparr>p_payload := p_payload p @ be16 (Address_short me)\<rparr> else p)"

definition last_relay_of :: "packet \<Rightarrow> node \<Rightarrow> address option" where
  "last_relay_of p n =
     (if h_hops (p_header p) = 0 then None
      else map_option nb_addr (NeighborTable_resolve_short (nd_neighbors n) (h_relay (p_header p))))"

text \<open>\<open>roll_percent\<close> draws only when the percentage is below 100.\<close>

definition roll :: "u8 \<Rightarrow> node \<Rightarrow> bool \<times> node" where
  "roll percent n =
     (if percent \<ge> 100 then (True, n)
      else case next_u32 n of (draw, n) \<Rightarrow> (roll_percent draw percent, n))"

definition hop_header :: "header \<Rightarrow> u16 \<Rightarrow> header" where
  "hop_header h next_hop = h\<lparr>h_ttl := h_ttl h - 1, h_hops := sat_add (h_hops h) 1, h_next_hop := next_hop\<rparr>"

definition schedule_relay :: "packet_key \<Rightarrow> packet \<Rightarrow> rx_meta \<Rightarrow> time \<Rightarrow> node \<Rightarrow> node" where
  "schedule_relay key p meta now n =
     (case next_u32 n of (draw, n) \<Rightarrow>
        let delay = ucast (forward_delay_ms draw (ncf_storm (nd_cfg n)) (rm_snr_db meta)) in
        case RebroadcastScheduler_schedule (nd_sched n) key p (now + delay) (st_max_pending (ncf_storm (nd_cfg n))) of
          (sc, ok) \<Rightarrow> let n = n\<lparr>nd_sched := sc\<rparr> in if ok then n else count cn_tx_dropped_update n)"

definition prev_covers :: "address option \<Rightarrow> node \<Rightarrow> bool" where
  "prev_covers prev n =
     (case prev of Some pv \<Rightarrow> ZoneTable_covered_by pv (nd_neighbors n) (nd_zone n) | None \<Rightarrow> False)"

definition maybe_relay_flood :: "packet \<Rightarrow> address option \<Rightarrow> rx_meta \<Rightarrow> time \<Rightarrow> node \<Rightarrow> node" where
  "maybe_relay_flood p prev meta now n =
     (if \<not> Role_relays (ncf_role (nd_cfg n)) \<or> h_ttl (p_header p) \<le> 1
      then if h_ttl (p_header p) \<le> 1 then count cn_rx_ttl_exhausted_update n else n
      else if ncf_routing_mode (nd_cfg n) = Zrp \<and> prev_covers prev n
      then count cn_relay_suppressed_covered_update n
      else case roll (forward_percent (ncf_storm (nd_cfg n)) (NeighborTable_len (nd_neighbors n))) n of
        (False, n) \<Rightarrow> count cn_relay_suppressed_probabilistic_update n
      | (True, n) \<Rightarrow>
          schedule_relay (Header_key (p_header p))
            (p\<lparr>p_header := hop_header (p_header p) NEXT_HOP_ANY\<rparr>) meta now n)"

text \<open>A host keeps traffic for a sleeping leaf: in the mailbox when it is an envelope and there is
  room, else the packet itself.\<close>

definition hold_envelope :: "address \<Rightarrow> packet \<Rightarrow> time \<Rightarrow> node \<Rightarrow> bool \<times> node" where
  "hold_envelope dst p now n =
     (if Header_has (p_header p) ENVELOPE \<and> Header_has (p_header p) STORE_FORWARD
         \<and> \<not> Header_has (p_header p) FRAGMENTED
      then (case parse_envelope_frame (p_payload p) of
              Inl _ \<Rightarrow> (False, n)
            | Inr (i, env) \<Rightarrow>
                (case nd_mailbox n of
                   None \<Rightarrow> (False, n)
                 | Some m \<Rightarrow>
                     (case Mailbox_store now (h_src (p_header p)) \<lparr>sr_dst = dst, sr_envelope_id = i,
                             sr_ttl_s = ncf_envelope_ttl_s (nd_cfg n), sr_envelope = env\<rparr> m of (m, r) \<Rightarrow>
                        (r = Inr () \<or> r = Inl reject_DUPLICATE, n\<lparr>nd_mailbox := Some m\<rparr>))))
      else (False, n))"

definition hold_for_leaf :: "address \<Rightarrow> neighbor \<Rightarrow> packet \<Rightarrow> time \<Rightarrow> node \<Rightarrow> node" where
  "hold_for_leaf dst nb p now n =
     (case hold_envelope dst p now n of
        (True, n) \<Rightarrow> n
      | (False, n) \<Rightarrow>
          let hold_ms = max (ucast (nb_sleep_interval_s nb) * 1000) 10000
          in if length (nd_held_for_sleeping n) < 16
             then n\<lparr>nd_held_for_sleeping := nd_held_for_sleeping n @ [(dst, p, now + hold_ms)]\<rparr> else n)"

definition hosted_asleep :: "address \<Rightarrow> time \<Rightarrow> node \<Rightarrow> neighbor option" where
  "hosted_asleep dst now n =
     (case NeighborTable_get (nd_neighbors n) dst of
        Some nb \<Rightarrow> if Neighbor_is_leaf nb \<and> Neighbor_is_sleeping now nb \<and> (nb_attached_to_me nb \<or> nb_attached nb = [])
                   then Some nb else None
      | None \<Rightarrow> None)"

definition relay_no_route :: "crypto \<Rightarrow> packet \<Rightarrow> time \<Rightarrow> node \<Rightarrow> node option" where
  "relay_no_route c p now n =
     (let dst = h_dst (p_header p); n = count cn_relay_no_route_update n in
      if Ierp_is_pending (nd_ierp n) dst
      then Some (n\<lparr>nd_ierp := fst (Ierp_queue dst p (nd_ierp n))\<rparr>)
      else if Ierp_may_start (nd_ierp n) dst now then start_discovery c dst (Some p) now n
      else send_route_error c (h_src (p_header p)) dst now n)"

definition mark_loop :: "address \<Rightarrow> address \<Rightarrow> route_cache \<Rightarrow> route_cache" where
  "mark_loop dst nh rt =
     (let f = (\<lambda>rt. fst (RouteCache_mark_failure rt dst nh)) in f (f (f rt)))"

definition forward_unicast ::
  "crypto \<Rightarrow> packet \<Rightarrow> address option \<Rightarrow> rx_meta \<Rightarrow> time \<Rightarrow> node \<Rightarrow> node option" where
  "forward_unicast c p prev meta now n =
     (let me = Node_address n; h = p_header p; dst = h_dst h in
      if \<not> Role_relays (ncf_role (nd_cfg n)) then Some n
      else if ncf_routing_mode (nd_cfg n) = Flood then Some (maybe_relay_flood p prev meta now n)
      else if h_next_hop h \<noteq> NEXT_HOP_ANY \<and> h_next_hop h \<noteq> Address_short me then Some n
      else if h_ttl h \<le> 1 then Some (count cn_rx_ttl_exhausted_update n)
      else case hosted_asleep dst now n of
        Some nb \<Rightarrow> Some (hold_for_leaf dst nb p now n)
      | None \<Rightarrow>
          (case next_hop_for dst now n of
             Some nh \<Rightarrow>
               if Some nh = prev
               then let n = count cn_loops_detected_update n;
                        n = n\<lparr>nd_routes := mark_loop dst nh (nd_routes n)\<rparr>
                    in send_route_error c (h_src h) dst now n
               else let p = trace_stamp me (p\<lparr>p_header := (hop_header h (Address_short nh))\<lparr>h_relay := Address_short me\<rparr>\<rparr>);
                        n = n\<lparr>nd_routes := RouteCache_touch (nd_routes n) dst nh now\<rparr>;
                        (draw, n) = next_u32 n;
                        jitter = ucast (draw mod max (ncf_unicast_forward_jitter_ms (nd_cfg n)) 1)
                    in do { n \<leftarrow> track_hop p nh (now + jitter) True n;
                            Some (snd (enqueue_packet c p (now + jitter) prio_DATA True n)) }
           | None \<Rightarrow> relay_no_route c p now n))"

subsection \<open>Route discovery messages\<close>

text \<open>The answers of \<open>handle_route_request\<close> by a node that is not the target: as the host of a leaf,
  for a sleeping leaf behind an anchor of the zone, from a fresh cached route.\<close>

definition proxy_reply :: "route_request_msg \<Rightarrow> u32 \<Rightarrow> bytes option \<Rightarrow> u8 \<Rightarrow> u16 \<Rightarrow> u8 \<Rightarrow> route_reply_msg" where
  "proxy_reply q req_id key hops cost flags =
     \<lparr>rp_target = rq_target q, rp_req_id = req_id, rp_hops_to_target = hops, rp_cost = cost, rp_flags = flags,
      rp_target_key = (if rq_flags q AND rreq_WANT_KEY \<noteq> 0 then key else None), rp_handshake = []\<rparr>"

definition host_reply :: "route_request_msg \<Rightarrow> u32 \<Rightarrow> bytes option \<Rightarrow> node \<Rightarrow> route_reply_msg option" where
  "host_reply q req_id key n =
     (if Role_relays (ncf_role (nd_cfg n)) \<and> rq_flags q AND rreq_PROXY_OK \<noteq> 0
      then (case NeighborTable_get (nd_neighbors n) (rq_target q) of
              Some nb \<Rightarrow>
                let i_am_host = (Neighbor_is_leaf nb \<and> (nb_attached_to_me nb \<or> nb_attached nb = []));
                    i_can_host = (Neighbor_is_leaf nb \<and> ncf_role (nd_cfg n) = Anchor \<and> nd_mailbox n \<noteq> None
                                  \<and> rq_flags q AND rreq_WANT_KEY \<noteq> 0 \<and> key \<noteq> None)
                in if i_am_host \<or> i_can_host
                   then Some (proxy_reply q req_id key 1 (link_cost (Neighbor_link_quality nb) 0)
                                (rrep_PROXY OR rrep_TARGET_LEAF))
                   else None
            | None \<Rightarrow> None)
      else None)"

definition zone_reply :: "route_request_msg \<Rightarrow> u32 \<Rightarrow> bytes option \<Rightarrow> node \<Rightarrow> route_reply_msg option" where
  "zone_reply q req_id key n =
     (case ZoneTable_get (nd_zone n) (rq_target q) of
        Some z \<Rightarrow>
          if ZoneTable_anchor_for (rq_target q) (nd_zone n) \<noteq> None
             \<and> (rq_flags q AND rreq_WANT_KEY = 0 \<or> key \<noteq> None)
          then let cost = ucast (min (ucast (zn_distance z) * ucast (link_cost (zn_quality z) 0)) 65535 :: u32)
               in Some (proxy_reply q req_id key (zn_distance z) cost (rrep_PROXY OR rrep_TARGET_LEAF))
          else None
      | None \<Rightarrow> None)"

definition cached_reply :: "route_request_msg \<Rightarrow> u32 \<Rightarrow> bytes option \<Rightarrow> time \<Rightarrow> node \<Rightarrow> route_reply_msg option" where
  "cached_reply q req_id key now n =
     (case RouteCache_lookup (nd_routes n) (rq_target q) now of
        Some r \<Rightarrow>
          let fresh = (sat_sub now (re_learned_at r) < rt_route_ttl_ms (ncf_routing (nd_cfg n)) div 4
                       \<and> re_failures r = 0)
          in if fresh \<and> re_source r = Discovery \<and> (rq_flags q AND rreq_WANT_KEY = 0 \<or> key \<noteq> None)
             then Some (proxy_reply q req_id key (re_hops r) (re_cost r)
                          (if re_via_anchor r \<noteq> None then rrep_PROXY else 0))
             else None
      | None \<Rightarrow> None)"

definition reply_as_target :: "crypto \<Rightarrow> packet \<Rightarrow> route_request_msg \<Rightarrow> time \<Rightarrow> node \<Rightarrow> node option" where
  "reply_as_target c p q now n =
     (let origin = h_src (p_header p);
          rflags = (if ncf_role (nd_cfg n) = Leaf then rrep_TARGET_LEAF else 0);
          (handshake, n) =
            (if rq_handshake q \<noteq> [] \<and> \<not> has_session origin n
             then (case responder_start c origin (rq_handshake q) now n of
                     (Some m2, n) \<Rightarrow> (m2, n) | (None, n) \<Rightarrow> ([], n))
             else ([], n));
          key = (if rq_flags q AND rreq_WANT_KEY \<noteq> 0 \<and> handshake = []
                 then Some (pid_verifying (id_public (nd_id n))) else None)
      in send_route_reply c origin \<lparr>rp_target = Node_address n, rp_req_id = h_packet_id (p_header p),
           rp_hops_to_target = 0, rp_cost = 0, rp_flags = rflags, rp_target_key = key,
           rp_handshake = handshake\<rparr> now n)"

definition relay_request ::
  "packet \<Rightarrow> route_request_msg \<Rightarrow> u16 \<Rightarrow> address option \<Rightarrow> rx_meta \<Rightarrow> time \<Rightarrow> node \<Rightarrow> node" where
  "relay_request p q my_cost prev meta now n =
     (let key = Header_key (p_header p) in
      if \<not> Role_relays (ncf_role (nd_cfg n)) \<or> h_ttl (p_header p) \<le> 1 then n
      else if prev_covers prev n then count cn_relay_suppressed_covered_update n
      else case roll (forward_percent (ncf_storm (nd_cfg n)) (NeighborTable_len (nd_neighbors n))) n of
        (False, n) \<Rightarrow> count cn_relay_suppressed_probabilistic_update n
      | (True, n) \<Rightarrow>
          let fp = p\<lparr>p_header := hop_header (p_header p) NEXT_HOP_ANY,
                     p_payload := RouteRequest_encode (q\<lparr>rq_cost := my_cost\<rparr>)\<rparr>
          in case next_u32 n of (draw, n) \<Rightarrow>
               let delay = ucast (forward_delay_ms draw (ncf_storm (nd_cfg n)) (rm_snr_db meta));
                   sc = (if RebroadcastScheduler_is_pending (nd_sched n) key
                         then fst (RebroadcastScheduler_cancel (nd_sched n) key) else nd_sched n)
               in case RebroadcastScheduler_schedule sc key fp (now + delay) (st_max_pending (ncf_storm (nd_cfg n))) of
                    (sc, ok) \<Rightarrow> let n = n\<lparr>nd_sched := sc\<rparr> in if ok then n else count cn_tx_dropped_update n)"

definition heard_again :: "packet_key \<Rightarrow> node \<Rightarrow> node" where
  "heard_again key n =
     (count cn_rx_duplicates_update n)\<lparr>nd_sched := fst (RebroadcastScheduler_heard (nd_sched n) key)\<rparr>"

definition first_some :: "'a option \<Rightarrow> 'a option \<Rightarrow> 'a option" where
  "first_some x y = (case x of Some a \<Rightarrow> Some a | None \<Rightarrow> y)"

definition handle_route_request ::
  "crypto \<Rightarrow> packet \<Rightarrow> address option \<Rightarrow> rx_meta \<Rightarrow> time \<Rightarrow> node \<Rightarrow> node option" where
  "handle_route_request c p prev meta now n =
     (case RouteRequest_decode (p_payload p) of
        Inl _ \<Rightarrow> Some (count cn_rx_bad_update n)
      | Inr q \<Rightarrow>
          let n = count cn_rreq_received_update n;
              origin = h_src (p_header p);
              req_id = h_packet_id (p_header p);
              (link, n) = (case prev of Some pv \<Rightarrow> link_cost_to pv n | None \<Rightarrow> (400, n));
              my_cost = sat_add (rq_cost q) link;
              (ie, fresh) = Ierp_observe_request origin req_id my_cost now (nd_ierp n);
              n = n\<lparr>nd_ierp := ie\<rparr>
          in if \<not> fresh then Some (heard_again (Header_key (p_header p)) n)
             else let n = (case prev of
                        Some pv \<Rightarrow> learn_route origin pv (sat_add (h_hops (p_header p)) 1) my_cost Reverse None now n
                      | None \<Rightarrow> n)
             in if rq_target q = origin then Some n
             else if rq_target q = Node_address n then reply_as_target c p q now n
             else let known_key = map_option pid_verifying (SmallMap_get (nd_key_dir n) (rq_target q))
             in case host_reply q req_id known_key n of
                  Some reply \<Rightarrow>
                    send_route_reply c origin reply now
                      (n\<lparr>nd_ierp := (nd_ierp n)\<lparr>ie_proxy_replies_sent := ie_proxy_replies_sent (nd_ierp n) + 1\<rparr>\<rparr>)
                | None \<Rightarrow>
                    (case first_some (zone_reply q req_id known_key n) (cached_reply q req_id known_key now n) of
                       Some reply \<Rightarrow> send_route_reply c origin reply now n
                     | None \<Rightarrow> Some (relay_request p q my_cost prev meta now n)))"

definition absorb_key :: "crypto \<Rightarrow> route_reply_msg \<Rightarrow> time \<Rightarrow> node \<Rightarrow> node option" where
  "absorb_key c r now n =
     (case rp_target_key r of
        None \<Rightarrow> Some n
      | Some k \<Rightarrow>
          (case PublicIdentity_from_bytes c k of
             Inl _ \<Rightarrow> Some n
           | Inr pid \<Rightarrow>
               if pid_address pid = rp_target r
               then let n = count cn_keys_from_replies_update n;
                        n = n\<lparr>nd_key_dir := sm_put (nd_key_dir n) (rp_target r) pid\<rparr>
                    in try_pending_envelopes c (rp_target r) now n
               else Some (count cn_auth_failures_update n)))"

definition reply_hops :: "packet \<Rightarrow> route_reply_msg \<Rightarrow> u8" where
  "reply_hops p r = sat_add (sat_add (rp_hops_to_target r) (h_hops (p_header p))) 1"

definition absorb_route_reply ::
  "crypto \<Rightarrow> packet \<Rightarrow> route_reply_msg \<Rightarrow> address option \<Rightarrow> time \<Rightarrow> node \<Rightarrow> (u16 \<times> node) option" where
  "absorb_route_reply c p r prev now n =
     (let via = (case prev of Some pv \<Rightarrow> pv | None \<Rightarrow> h_src (p_header p));
          (link, n) = link_cost_to via n;
          cost = sat_add (rp_cost r) link;
          via_anchor = (if rp_flags r AND rrep_PROXY \<noteq> 0 then Some (h_src (p_header p)) else None);
          n = learn_route (rp_target r) via (reply_hops p r) cost Discovery via_anchor now n
      in do { n \<leftarrow> absorb_key c r now n; Some (cost, n) })"

definition handle_route_reply :: "crypto \<Rightarrow> packet \<Rightarrow> address option \<Rightarrow> time \<Rightarrow> node \<Rightarrow> node option" where
  "handle_route_reply c p prev now n =
     (case RouteReply_decode (p_payload p) of
        Inl _ \<Rightarrow> Some (count cn_rx_bad_update n)
      | Inr r \<Rightarrow> do {
          let n = count cn_rrep_received_update n;
          (cost, n) \<leftarrow> absorb_route_reply c p r prev now n;
          let (ie, queued) = Ierp_succeed (rp_target r) now (nd_ierp n);
          let n = emit (RouteFound (rp_target r) (reply_hops p r) cost) (n\<lparr>nd_ierp := ie\<rparr>);
          (opened, n) \<leftarrow> (if rp_handshake r \<noteq> [] \<and> h_src (p_header p) = rp_target r
                          then initiator_continue c (rp_target r) (rp_handshake r) now n else Some (False, n));
          let queued = (if opened then filter (\<lambda>q. h_ptype (p_header q) \<noteq> Handshake) queued else queued);
          ofold (\<lambda>q. route_unicast_ign c q now) queued n })"

definition forward_route_reply ::
  "crypto \<Rightarrow> packet \<Rightarrow> address option \<Rightarrow> rx_meta \<Rightarrow> time \<Rightarrow> node \<Rightarrow> node option" where
  "forward_route_reply c p prev meta now n =
     (case RouteReply_decode (p_payload p) of
        Inl _ \<Rightarrow> Some (count cn_rx_bad_update n)
      | Inr r \<Rightarrow> do {
          (cost, n) \<leftarrow> absorb_route_reply c p r prev now n;
          forward_unicast c (p\<lparr>p_payload := RouteReply_encode (r\<lparr>rp_cost := cost\<rparr>)\<rparr>) prev meta now n })"

text \<open>\<open>mark_failure\<close> up to \<open>k\<close> times, until the route is removed.\<close>

fun fail_until_removed :: "nat \<Rightarrow> address \<Rightarrow> address \<Rightarrow> route_cache \<Rightarrow> route_cache \<times> bool" where
  "fail_until_removed 0 u via rt = (rt, False)"
| "fail_until_removed (Suc k) u via rt =
     (case RouteCache_mark_failure rt u via of
        (rt, True) \<Rightarrow> (rt, True)
      | (rt, False) \<Rightarrow> fail_until_removed k u via rt)"

definition unreachable_via :: "address \<Rightarrow> address \<Rightarrow> node \<Rightarrow> node" where
  "unreachable_via via u n =
     (case fail_until_removed (unat (max (rt_max_failures (ncf_routing (nd_cfg n))) 1)) u via (nd_routes n) of
        (rt, removed) \<Rightarrow>
          let n = n\<lparr>nd_routes := rt\<rparr> in if removed then emit (RouteLost u) n else n)"

definition handle_route_error :: "packet \<Rightarrow> address option \<Rightarrow> node \<Rightarrow> node" where
  "handle_route_error p prev n =
     (case RouteError_decode (p_payload p) of
        Inl _ \<Rightarrow> count cn_rx_bad_update n
      | Inr e \<Rightarrow>
          let n = count cn_rerr_received_update n;
              n = n\<lparr>nd_routes := (nd_routes n)\<lparr>rt_route_errors_received := rt_route_errors_received (nd_routes n) + 1\<rparr>\<rparr>;
              via = (case prev of Some pv \<Rightarrow> pv | None \<Rightarrow> h_src (p_header p))
          in fold (unreachable_via via) (rerr_unreachable e) n)"

subsection \<open>Data\<close>

text \<open>The event of a message that was received.\<close>

definition received :: "address \<Rightarrow> bytes \<Rightarrow> protection \<Rightarrow> packet \<Rightarrow> rx_meta \<Rightarrow> node \<Rightarrow> node" where
  "received from payload prot p meta n =
     (let n = count cn_app_received_update n
      in emit (MessageReceived from (h_seq (p_header p)) payload prot (h_hops (p_header p)) (rm_rssi_dbm meta)
                 (rm_snr_db meta) (last_relay_of p n)) n)"

definition handle_broadcast_data :: "crypto \<Rightarrow> packet \<Rightarrow> rx_meta \<Rightarrow> node \<Rightarrow> node" where
  "handle_broadcast_data c p meta n =
     (let h = p_header p in
      if Header_has h GROUP_ENCRYPTED
      then (case ncf_network_key (nd_cfg n) of
              None \<Rightarrow> count cn_rx_bad_update n
            | Some k \<Rightarrow>
                (case group_decrypt c (NetworkKey_group_key c k) (h_src h) (h_packet_id h) (Header_aad h 0) (p_payload p) of
                   Inr pt \<Rightarrow> received (h_src h) pt Prot_Group p meta n
                 | Inl _ \<Rightarrow> count cn_auth_failures_update n))
      else received (h_src h) (p_payload p) Prot_Plaintext p meta n)"

definition reassemble :: "packet \<Rightarrow> time \<Rightarrow> node \<Rightarrow> ((bytes \<times> u16 option) option \<times> node) option" where
  "reassemble p now n =
     (case Packet_frag_header p of
        None \<Rightarrow> Some (Some (p_payload p, None), n)
      | Some fh \<Rightarrow> do {
          let n = count cn_fragments_received_update n;
          (ra, r) \<leftarrow> Reassembler_push (nd_reassembler n) now (h_src (p_header p)) fh (Packet_body p);
          let n = n\<lparr>nd_reassembler := ra\<rparr>;
          Some (case r of Inr (Some full) \<Rightarrow> Some (full, Some (fh_frag_id fh)) | _ \<Rightarrow> None, n) })"

definition notice_no_session :: "crypto \<Rightarrow> address \<Rightarrow> time \<Rightarrow> node \<Rightarrow> node option" where
  "notice_no_session c src now n =
     (case SmallMap_get (nd_handshakes n) src of
        Some h \<Rightarrow>
          if hx_role (ph_hs h) = Responder \<and> ph_attempts h < 4
          then do {
            let n = n\<lparr>nd_handshakes := SmallMap_modify (nd_handshakes n) src
                        (\<lambda>h. h\<lparr>ph_attempts := ph_attempts h + 1\<rparr>)\<rparr>;
            let n = count cn_no_session_notices_update n;
            let ttl = ttl_for src n;
            (hh, n) \<leftarrow> base_header Control src ttl n;
            route_unicast_ign c (Packet_new hh [NO_SESSION]) now n }
          else Some n
      | None \<Rightarrow> Some n)"

definition open_session_payload :: "crypto \<Rightarrow> packet \<Rightarrow> time \<Rightarrow> node \<Rightarrow> (bytes option \<times> node) option" where
  "open_session_payload c p now n = do {
     let src = h_src (p_header p);
     (full, n) \<leftarrow> reassemble p now n;
     (case full of
        None \<Rightarrow> Some (None, n)
      | Some (ct, frag) \<Rightarrow>
          let aad = transport_aad (p_header p) frag in
          (case SmallMap_get (nd_sessions n) src of
             None \<Rightarrow> do { n \<leftarrow> notice_no_session c src now (count cn_rx_no_session_update n); Some (None, n) }
           | Some s \<Rightarrow>
               (case Session_decrypt c now aad ct s of (s, r) \<Rightarrow>
                  let n = n\<lparr>nd_sessions := SmallMap_modify (nd_sessions n) src (\<lambda>_. s)\<rparr> in
                  Some (case r of
                     Inr pt \<Rightarrow> (Some pt, n)
                   | Inl e \<Rightarrow> (None, if e = Replay then count cn_replays_update n
                                     else count cn_auth_failures_update n))))) }"

text \<open>The host of an envelope learns that it was opened, in an authenticated message.\<close>

definition mailbox_ack :: "crypto \<Rightarrow> address \<Rightarrow> u32 \<Rightarrow> time \<Rightarrow> node \<Rightarrow> node option" where
  "mailbox_ack c src envelope_id now n =
     (if has_session src n then send_control c src MAILBOX_ACK (be32 envelope_id) now n
      else do {
        n \<leftarrow> start_handshake c src now n;
        Some (queue_behind_handshake src \<lparr>qs_dst = src, qs_payload = MAILBOX_ACK # be32 envelope_id,
                qs_reliability = Unreliable, qs_handle = QUEUED_CONTROL, qs_queued_at = now\<rparr> n) })"

text \<open>The sealed acknowledgement to the sender of an envelope.\<close>

definition envelope_ack ::
  "crypto \<Rightarrow> public_identity \<Rightarrow> u32 \<Rightarrow> u16 \<Rightarrow> time \<Rightarrow> node \<Rightarrow> node option" where
  "envelope_ack c sender envelope_id seq now n =
     (case fill_bytes n of (e, n) \<Rightarrow>
        case seal_envelope c (nd_id n) sender envelope_id (str_bytes ''D'') e of
          Inl _ \<Rightarrow> Some n
        | Inr ack_env \<Rightarrow> do {
            let from = pid_address sender;
            let ttl = ttl_for from n;
            (h, n) \<leftarrow> base_header Ack from ttl n;
            let h = (Header_set h ENVELOPE True)\<lparr>h_seq := seq\<rparr>;
            n \<leftarrow> route_unicast_ign c (Packet_new h (frame_envelope envelope_id ack_env)) now n;
            Some (bump_acks_sent n) })"

definition remember_envelope :: "address \<times> u32 \<Rightarrow> node \<Rightarrow> node" where
  "remember_envelope key n =
     (let q = nd_opened_envelopes n @ [key]
      in n\<lparr>nd_opened_envelopes := (if length q > 64 then tl q else q)\<rparr>)"

definition bump_duplicates :: "node \<Rightarrow> node" where
  "bump_duplicates n =
     n\<lparr>nd_transport := (nd_transport n)\<lparr>t_stats := (t_stats (nd_transport n))
        \<lparr>ts_duplicates_dropped := ts_duplicates_dropped (t_stats (nd_transport n)) + 1\<rparr>\<rparr>\<rparr>"

definition handle_envelope :: "crypto \<Rightarrow> packet \<Rightarrow> rx_meta \<Rightarrow> time \<Rightarrow> node \<Rightarrow> node option" where
  "handle_envelope c p meta now n = do {
     let src = h_src (p_header p);
     (full, n) \<leftarrow> reassemble p now n;
     (case full of
        None \<Rightarrow> Some n
      | Some (body, _) \<Rightarrow>
          (case parse_envelope_frame body of
             Inl _ \<Rightarrow> Some (count cn_rx_bad_update n)
           | Inr (envelope_id, env) \<Rightarrow>
               (case open_envelope c (nd_id n) envelope_id env of
                  Inl _ \<Rightarrow> Some (count cn_auth_failures_update n)
                | Inr (sender, plaintext) \<Rightarrow> do {
                    let from = pid_address sender;
                    let n = n\<lparr>nd_key_dir := sm_put (nd_key_dir n) from sender\<rparr>;
                    let n = (if (from, envelope_id) \<notin> set (nd_opened_envelopes n)
                             then received from plaintext Prot_Envelope p meta
                                    (count cn_envelopes_opened_update (remember_envelope (from, envelope_id) n))
                             else bump_duplicates n);
                    n \<leftarrow> (if src \<noteq> from then mailbox_ack c src envelope_id now n else Some n);
                    envelope_ack c sender envelope_id (h_seq (p_header p)) now n }))) }"

definition handle_unicast_data :: "crypto \<Rightarrow> packet \<Rightarrow> rx_meta \<Rightarrow> time \<Rightarrow> node \<Rightarrow> node option" where
  "handle_unicast_data c p meta now n =
     (let h = p_header p; src = h_src h in
      if Header_has h ENVELOPE then handle_envelope c p meta now n
      else if \<not> Header_has h ENCRYPTED then Some (count cn_rx_bad_update n)
      else do {
        (body, n) \<leftarrow> open_session_payload c p now n;
        (case body of
           None \<Rightarrow> Some n
         | Some body \<Rightarrow> do {
             let (t, fresh) = Transport_accept_incoming src (h_seq h) now (nd_transport n);
             let n = n\<lparr>nd_transport := t\<rparr>;
             n \<leftarrow> (if Header_has h ACK_REQUEST then send_ack c src (h_seq h) ack_DELIVERED now n else Some n);
             Some (if fresh then received src body Prot_Session p meta n else n) }) })"

subsection \<open>Acknowledgements, mailbox traffic, traces and control\<close>

definition delivered_event :: "outstanding \<Rightarrow> time \<Rightarrow> node_event" where
  "delivered_event ob now = Delivered (o_handle ob) (o_dst ob) (sat_sub now (o_started_at ob))"

definition handle_envelope_ack :: "crypto \<Rightarrow> packet \<Rightarrow> time \<Rightarrow> node \<Rightarrow> node option" where
  "handle_envelope_ack c p now n = do {
     (full, n) \<leftarrow> reassemble p now n;
     Some (case full of
        None \<Rightarrow> n
      | Some (body, _) \<Rightarrow>
          (case parse_envelope_frame body of
             Inl _ \<Rightarrow> count cn_rx_bad_update n
           | Inr (envelope_id, env) \<Rightarrow>
               (case open_envelope c (nd_id n) envelope_id env of
                  Inl _ \<Rightarrow> count cn_auth_failures_update n
                | Inr (sender, _) \<Rightarrow>
                    (case Transport_on_envelope_delivered envelope_id (nd_transport n) of (t, found) \<Rightarrow>
                       let n = n\<lparr>nd_transport := t\<rparr> in
                       (case found of
                          Some ob \<Rightarrow> if o_dst ob = pid_address sender then emit (delivered_event ob now) n else n
                        | None \<Rightarrow> n))))) }"

definition credit_route :: "address \<Rightarrow> time \<Rightarrow> node \<Rightarrow> node" where
  "credit_route src now n =
     (case RouteCache_lookup (nd_routes n) src now of
        Some r \<Rightarrow> n\<lparr>nd_routes := RouteCache_mark_success (nd_routes n) src (re_next_hop r) now,
                    nd_neighbors := NeighborTable_record_success (re_next_hop r) (nd_neighbors n)\<rparr>
      | None \<Rightarrow> n)"

definition handle_session_ack :: "address \<Rightarrow> bytes \<Rightarrow> time \<Rightarrow> node \<Rightarrow> node" where
  "handle_session_ack src body now n =
     (case Ack_decode body of
        Inl _ \<Rightarrow> count cn_rx_bad_update n
      | Inr ack \<Rightarrow>
          (case Transport_on_ack src ack (nd_transport n) of (t, found) \<Rightarrow>
             let n = n\<lparr>nd_transport := t\<rparr> in
             (case found of
                Some ob \<Rightarrow>
                  emit (if ack_status ack = ack_DELIVERED then delivered_event ob now
                        else Failed (o_handle ob) (o_dst ob) Fail_Rejected) (credit_route src now n)
              | None \<Rightarrow>
                  if ack_status ack = ack_STORED
                  then (case List.find (\<lambda>ob. o_dst ob = src \<and> o_seq ob = ack_seq ack) (t_outstanding t) of
                          Some ob \<Rightarrow> emit (Stored (o_handle ob) src) n
                        | None \<Rightarrow> n)
                  else n)))"

definition handle_ack :: "crypto \<Rightarrow> packet \<Rightarrow> time \<Rightarrow> node \<Rightarrow> node option" where
  "handle_ack c p now n =
     (if Header_has (p_header p) ENVELOPE then handle_envelope_ack c p now n
      else do {
        (body, n) \<leftarrow> open_session_payload c p now n;
        Some (case body of None \<Rightarrow> n | Some body \<Rightarrow> handle_session_ack (h_src (p_header p)) body now n) })"

definition store_for :: "address \<Rightarrow> store_request \<Rightarrow> time \<Rightarrow> node \<Rightarrow> (u8 + unit) \<times> node" where
  "store_for src req now n =
     (case nd_mailbox n of
        Some m \<Rightarrow> (case Mailbox_store now src req m of (m, r) \<Rightarrow> (r, n\<lparr>nd_mailbox := Some m\<rparr>))
      | None \<Rightarrow> (Inl reject_NOT_ANCHOR, n))"

definition handle_store :: "crypto \<Rightarrow> packet \<Rightarrow> time \<Rightarrow> node \<Rightarrow> node option" where
  "handle_store c p now n = do {
     let src = h_src (p_header p);
     (body, n) \<leftarrow> open_session_payload c p now n;
     (case body of
        None \<Rightarrow> Some n
      | Some body \<Rightarrow>
          (case StoreRequest_decode body of
             Inl _ \<Rightarrow> Some (count cn_rx_bad_update n)
           | Inr req \<Rightarrow>
               (case store_for src req now (count cn_store_received_update n) of (result, n) \<Rightarrow>
                  (case result of
                     Inr _ \<Rightarrow> do {
                       n \<leftarrow> send_control c src STORE_ACCEPTED (encode_store_result (sr_envelope_id req) None) now n;
                       (case NeighborTable_get (nd_neighbors n) (sr_dst req) of
                          Some nb \<Rightarrow> if \<not> Neighbor_is_sleeping now nb
                                     then flush_mailbox_to c (sr_dst req) now n else Some n
                        | None \<Rightarrow> Some n) }
                   | Inl reason \<Rightarrow>
                       if reason = reject_DUPLICATE
                       then send_control c src STORE_ACCEPTED (encode_store_result (sr_envelope_id req) None) now n
                       else send_control c src STORE_REJECTED
                              (encode_store_result (sr_envelope_id req) (Some reason)) now n)))) }"

definition handle_fetch :: "crypto \<Rightarrow> packet \<Rightarrow> time \<Rightarrow> node \<Rightarrow> node option" where
  "handle_fetch c p now n = do {
     let src = h_src (p_header p);
     (body, n) \<leftarrow> open_session_payload c p now n;
     (if body = None \<or> nd_mailbox n = None then Some n
      else flush_mailbox_to c src now
             (n\<lparr>nd_neighbors := NeighborTable_update src (\<lambda>nb. nb\<lparr>nb_awake_until := Some (now + 5000)\<rparr>)
                                 (nd_neighbors n)\<rparr>)) }"

fun be16_list :: "bytes \<Rightarrow> u16 list" where
  "be16_list (a # b # rest) = from_be16 a b # be16_list rest"
| "be16_list _ = []"

fun remove_trace :: "address \<Rightarrow> (address \<times> time) list \<Rightarrow> (time \<times> (address \<times> time) list) option" where
  "remove_trace src [] = None"
| "remove_trace src ((d, started) # ts) =
     (if d = src then Some (started, ts)
      else map_option (\<lambda>(s, ts). (s, (d, started) # ts)) (remove_trace src ts))"

definition handle_trace :: "crypto \<Rightarrow> packet \<Rightarrow> time \<Rightarrow> node \<Rightarrow> node option" where
  "handle_trace c p now n =
     (let src = h_src (p_header p) in
      case p_payload p of
        [] \<Rightarrow> Some n
      | sub # path \<Rightarrow>
          if sub = TRACE_REQ
          then do {
            let ttl = ttl_for src n;
            (h, n) \<leftarrow> base_header Control src ttl n;
            route_unicast_ign c (Packet_new h (TRACE_REP # path)) now n }
          else if sub = TRACE_REP
          then Some (case remove_trace src (nd_pending_traces n) of
                 Some (started, ts) \<Rightarrow>
                   emit (TraceResult src True (be16_list path) (sat_sub now started)) (n\<lparr>nd_pending_traces := ts\<rparr>)
               | None \<Rightarrow> n)
          else Some n)"

text \<open>The messages of a mailbox host, inside a session.\<close>

definition on_store_accepted :: "address \<Rightarrow> u32 \<Rightarrow> node \<Rightarrow> node" where
  "on_store_accepted src i n =
     (case Transport_on_store_accepted i (nd_transport n) of
        (t, True) \<Rightarrow>
          let n = n\<lparr>nd_transport := t\<rparr> in
          (case List.find (\<lambda>ob. o_envelope_id ob = Some i) (t_outstanding t) of
             Some ob \<Rightarrow> emit (Stored (o_handle ob) src) n
           | None \<Rightarrow> n)
      | (t, False) \<Rightarrow>
          let n = n\<lparr>nd_transport := t\<rparr> in
          (case nd_mailbox n of
             Some m \<Rightarrow>
               (case List.find (\<lambda>e. me_envelope_id e = i) (mb_entries m) of
                  Some e \<Rightarrow> n\<lparr>nd_mailbox := Some (fst (Mailbox_delivered (me_dst e) i m))\<rparr>
                | None \<Rightarrow> n)
           | None \<Rightarrow> n))"

definition on_store_rejected :: "u32 \<Rightarrow> node \<Rightarrow> node" where
  "on_store_rejected i n =
     (case unack_envelope i n of
        (Some ob, n) \<Rightarrow>
          emit (Failed (o_handle ob) (o_dst ob) Fail_Rejected)
            (n\<lparr>nd_transport := (nd_transport n)\<lparr>t_stats := (t_stats (nd_transport n))
               \<lparr>ts_failed := ts_failed (t_stats (nd_transport n)) + 1\<rparr>\<rparr>\<rparr>)
      | (None, n) \<Rightarrow> n)"

definition on_mailbox_ack :: "address \<Rightarrow> bytes \<Rightarrow> node \<Rightarrow> node" where
  "on_mailbox_ack src rest n =
     (if length rest = 4
      then let i = from_be32 (rest ! 0) (rest ! 1) (rest ! 2) (rest ! 3) in
        (case nd_mailbox n of
           Some m \<Rightarrow>
             (case Mailbox_delivered src i m of (m, ok) \<Rightarrow>
                let n = n\<lparr>nd_mailbox := Some m\<rparr> in if ok then emit (MailboxDelivered src i) n else n)
         | None \<Rightarrow> n)
      else n)"

definition control_body :: "crypto \<Rightarrow> address \<Rightarrow> bytes \<Rightarrow> time \<Rightarrow> node \<Rightarrow> node option" where
  "control_body c src body now n =
     (case body of
        [] \<Rightarrow> Some (count cn_rx_bad_update n)
      | sub # rest \<Rightarrow>
          if sub = STORE_ACCEPTED
          then Some (case decode_store_result rest of Inr (i, _) \<Rightarrow> on_store_accepted src i n | Inl _ \<Rightarrow> n)
          else if sub = STORE_REJECTED
          then Some (case decode_store_result rest of Inr (i, _) \<Rightarrow> on_store_rejected i n | Inl _ \<Rightarrow> n)
          else if sub = SESSION_CLOSE then Some (emit (SessionClosed src) (remove_session src n))
          else if sub = PING then send_control c src PONG rest now n
          else if sub = PONG then Some n
          else if sub = MAILBOX_ACK then Some (on_mailbox_ack src rest n)
          else Some (count cn_rx_bad_update n))"

definition handle_control :: "crypto \<Rightarrow> packet \<Rightarrow> time \<Rightarrow> node \<Rightarrow> node option" where
  "handle_control c p now n = do {
     (body, n) \<leftarrow> open_session_payload c p now n;
     (case body of None \<Rightarrow> Some n | Some body \<Rightarrow> control_body c (h_src (p_header p)) body now n) }"

subsection \<open>Beacons\<close>

definition host_score :: "neighbor \<Rightarrow> u32" where
  "host_score nb = ucast (Neighbor_link_quality nb) + (if nb_role nb = Anchor then 60 else 0)"

text \<open>A host releases what it holds for a leaf that is awake.\<close>

definition release_held :: "crypto \<Rightarrow> address \<Rightarrow> time \<Rightarrow> node \<Rightarrow> node" where
  "release_held c src now n =
     (let mine = filter (\<lambda>(a, _, _). a = src) (nd_held_for_sleeping n);
          n1 = n\<lparr>nd_held_for_sleeping := filter (\<lambda>(a, _, _). a \<noteq> src) (nd_held_for_sleeping n)\<rparr>;
          stamp = (\<lambda>p. p\<lparr>p_header := (p_header p)\<lparr>h_next_hop := Address_short src,
                                                  h_relay := Address_short (Node_address n)\<rparr>\<rparr>)
      in fold (\<lambda>(_, p, _) n. snd (enqueue_packet c (stamp p) now prio_DATA True n)) mine n1)"

text \<open>A leaf attaches to the best host in range; it changes only for a clear gain.\<close>

definition choose_host :: "crypto \<Rightarrow> time \<Rightarrow> node \<Rightarrow> node option" where
  "choose_host c now n =
     (let current = map_option host_score (Option.bind (nd_attached_anchor n) (NeighborTable_get (nd_neighbors n))) in
      case NeighborTable_best_host (nd_neighbors n) of
        None \<Rightarrow> Some n
      | Some best \<Rightarrow>
          let better = (case current of Some cur \<Rightarrow> host_score best > cur + 30 | None \<Rightarrow> True) in
          if better \<and> nd_attached_anchor n \<noteq> Some (nb_addr best)
          then send_fetch c (nb_addr best) now (n\<lparr>nd_attached_anchor := Some (nb_addr best)\<rparr>)
          else Some n)"

definition learn_beacon_key :: "crypto \<Rightarrow> address \<Rightarrow> time \<Rightarrow> node \<Rightarrow> node option" where
  "learn_beacon_key c src now n =
     (case Option.bind (NeighborTable_get (nd_neighbors n) src) nb_identity of
        Some pid \<Rightarrow> try_pending_envelopes c src now (n\<lparr>nd_key_dir := sm_put (nd_key_dir n) src pid\<rparr>)
      | None \<Rightarrow> Some n)"

definition answer_leaf :: "beacon \<Rightarrow> time \<Rightarrow> node \<Rightarrow> node" where
  "answer_leaf b now n =
     (if bc_role b = Leaf \<and> Role_relays (ncf_role (nd_cfg n))
         \<and> (bc_attached b = [] \<or> Node_address n \<in> set (bc_attached b))
         \<and> sat_sub now (nd_last_beacon_at n) > 10000
      then (case next_u64 n of (draw, n) \<Rightarrow>
              n\<lparr>nd_next_beacon := min (nd_next_beacon n) (now + (150 + draw mod 900))\<rparr>)
      else n)"

definition handle_beacon :: "crypto \<Rightarrow> packet \<Rightarrow> rx_meta \<Rightarrow> time \<Rightarrow> node \<Rightarrow> node option" where
  "handle_beacon c p meta now n =
     (let src = h_src (p_header p) in
      case Beacon_decode (p_payload p) of
        Inl _ \<Rightarrow> Some (count cn_rx_bad_update n)
      | Inr b \<Rightarrow>
          let n = count cn_beacons_received_update n;
              (t, obs) = NeighborTable_observe_beacon_as c now src b meta (Some (Node_address n)) (nd_neighbors n);
              n = n\<lparr>nd_neighbors := t\<rparr>
          in if bo_identity_rejected obs then Some (count cn_auth_failures_update n)
             else do {
               let n = (if bo_is_new obs then emit (NeighborUp src) n else n);
               n \<leftarrow> (if bo_identity_verified obs then learn_beacon_key c src now n else Some n);
               let n = n\<lparr>nd_zone := ZoneTable_update_from_beacon now (Node_address n) (nd_neighbors n) src
                                    (bc_zone b) (bc_attached b) (nd_zone n)\<rparr>;
               let (cost, n) = link_cost_to src n;
               let n = learn_route src src 1 cost Zone None now n;
               let n = answer_leaf b now n;
               (if Role_relays (ncf_role (nd_cfg n)) \<and> bc_role b = Leaf
                then do { n \<leftarrow> flush_mailbox_to c src now n; Some (release_held c src now n) }
                else if ncf_role (nd_cfg n) = Leaf \<and> Role_relays (bc_role b) then choose_host c now n
                else Some n) })"

subsection \<open>A received frame\<close>

definition confirm_link_ack :: "address \<Rightarrow> bytes \<Rightarrow> node \<Rightarrow> node" where
  "confirm_link_ack pv b n =
     (let i = from_be32 (b ! 1) (b ! 2) (b ! 3) (b ! 4);
          acked = map hp_key (filter (\<lambda>h. pk_id (hp_key h) = i \<and> hp_next_hop h = pv) (nd_hop_pending n))
      in fold (\<lambda>k. hop_confirmed k pv) acked n)"

definition on_duplicate :: "crypto \<Rightarrow> packet \<Rightarrow> address option \<Rightarrow> time \<Rightarrow> node \<Rightarrow> node option" where
  "on_duplicate c p prev now n =
     (let h = p_header p; me = Node_address n; n = heard_again (Header_key h) n in
      if (h_dst h = me \<or> h_next_hop h = Address_short me) \<and> \<not> Address_is_broadcast (h_dst h)
      then (case prev of Some pv \<Rightarrow> send_link_ack c pv (h_packet_id h) now n | None \<Rightarrow> Some n)
      else Some n)"

definition learn_reverse :: "packet \<Rightarrow> address option \<Rightarrow> time \<Rightarrow> node \<Rightarrow> node" where
  "learn_reverse p prev now n =
     (let src = h_src (p_header p) in
      case prev of
        None \<Rightarrow> n
      | Some pv \<Rightarrow>
          if RouteCache_lookup (nd_routes n) src now = None \<and> \<not> NeighborTable_contains (nd_neighbors n) src
          then let hops = sat_add (h_hops (p_header p)) 1;
                   (link, n) = link_cost_to pv n;
                   cost = ucast (min (ucast hops * ucast link) 65535 :: u32)
               in learn_route src pv hops cost Reverse None now n
          else n)"

definition on_activity :: "time \<Rightarrow> node \<Rightarrow> node" where
  "on_activity now n = n\<lparr>nd_power := PowerManager_on_activity now (nd_power n)\<rparr>"

definition handle_for_me :: "crypto \<Rightarrow> packet \<Rightarrow> time \<Rightarrow> node \<Rightarrow> node option" where
  "handle_for_me c p now n =
     (case h_ptype (p_header p) of
        Ack \<Rightarrow> handle_ack c p now n
      | Store \<Rightarrow> handle_store c p now n
      | Fetch \<Rightarrow> handle_fetch c p now n
      | Control \<Rightarrow>
          if p_payload p \<noteq> [] \<and> (hd (p_payload p) = TRACE_REQ \<or> hd (p_payload p) = TRACE_REP)
          then handle_trace c p now n else handle_control c p now n
      | _ \<Rightarrow> handle_control c p now n)"

definition heard_reply :: "packet \<Rightarrow> node \<Rightarrow> node" where
  "heard_reply p n =
     (case RouteReply_decode (p_payload p) of
        Inr r \<Rightarrow> n\<lparr>nd_rrep_pending := PendingReplies_heard (h_dst (p_header p)) (rp_req_id r) (rp_cost r) (nd_rrep_pending n)\<rparr>
      | Inl _ \<Rightarrow> n)"

definition dispatch :: "crypto \<Rightarrow> packet \<Rightarrow> address option \<Rightarrow> rx_meta \<Rightarrow> time \<Rightarrow> node \<Rightarrow> node option" where
  "dispatch c p prev meta now n =
     (let for_me = (h_dst (p_header p) = Node_address n); bcast = Address_is_broadcast (h_dst (p_header p)) in
      case h_ptype (p_header p) of
        Beacon \<Rightarrow> Some n
      | RouteRequest \<Rightarrow>
          if bcast then handle_route_request c p prev meta now n else Some (count cn_rx_bad_update n)
      | RouteReply \<Rightarrow>
          let n = heard_reply p n in
          if for_me then handle_route_reply c p prev now n
          else if \<not> bcast then forward_route_reply c p prev meta now n else Some n
      | RouteError \<Rightarrow>
          if for_me then Some (handle_route_error p prev n)
          else if \<not> bcast then forward_unicast c p prev meta now n else Some n
      | Handshake \<Rightarrow>
          if for_me then handle_handshake c p now (on_activity now n)
          else if \<not> bcast then forward_unicast c p prev meta now n else Some n
      | Data \<Rightarrow>
          if bcast then Some (maybe_relay_flood p prev meta now (handle_broadcast_data c p meta n))
          else if for_me then handle_unicast_data c p meta now (on_activity now n)
          else forward_unicast c p prev meta now n
      | _ \<Rightarrow>
          if for_me then handle_for_me c p now (on_activity now n)
          else if \<not> bcast then forward_unicast c p prev meta now n else Some (count cn_rx_bad_update n))"

definition is_link_ack :: "packet \<Rightarrow> bool" where
  "is_link_ack p \<longleftrightarrow> h_ptype (p_header p) = Control \<and> length (p_payload p) = 5 \<and> p_payload p ! 0 = LINK_ACK"

definition is_no_session :: "packet \<Rightarrow> bool" where
  "is_no_session p \<longleftrightarrow> h_ptype (p_header p) = Control \<and> length (p_payload p) = 1 \<and> p_payload p ! 0 = NO_SESSION"

text \<open>The part of \<open>on_radio_rx\<close> after the beacons and the two plaintext notices: duplicates, the link
  acknowledgement, the reverse route, the handler.\<close>

definition rx_packet :: "crypto \<Rightarrow> packet \<Rightarrow> address option \<Rightarrow> rx_meta \<Rightarrow> time \<Rightarrow> node \<Rightarrow> node option" where
  "rx_packet c p prev meta now n =
     (let h = p_header p; for_me = (h_dst h = Node_address n);
          n = (case prev of Some pv \<Rightarrow> if h_hops h > 0 then hop_confirmed (Header_key h) pv n else n | None \<Rightarrow> n);
          (seen, fresh) = (if h_ptype h \<noteq> RouteRequest then SeenCache_observe (nd_seen n) (Header_key h) now
                           else (nd_seen n, True));
          n = n\<lparr>nd_seen := seen\<rparr>
      in if \<not> fresh then on_duplicate c p prev now n
         else do {
           n \<leftarrow> (if for_me \<and> \<not> PacketType_is_link_local (h_ptype h)
                 then (case prev of Some pv \<Rightarrow> send_link_ack c pv (h_packet_id h) now n | None \<Rightarrow> Some n)
                 else Some n);
           let n = learn_reverse p prev now n;
           let n = (if for_me then count cn_rx_for_us_update n else n);
           dispatch c p prev meta now n })"

definition count_rx :: "bytes \<Rightarrow> node \<Rightarrow> node option" where
  "count_rx frame n = do {
     let n = count cn_rx_packets_update n;
     let n = n\<lparr>nd_counters := (nd_counters n)\<lparr>cn_rx_bytes := cn_rx_bytes (nd_counters n) + of_nat (length frame)\<rparr>\<rparr>;
     airtime \<leftarrow> LoRaProfile_airtime_ms (ncf_profile (nd_cfg n)) (length frame);
     Some (n\<lparr>nd_rx_airtime_ms := nd_rx_airtime_ms n + ucast airtime\<rparr>) }"

definition on_radio_rx :: "crypto \<Rightarrow> bytes \<Rightarrow> rx_meta \<Rightarrow> node \<Rightarrow> node option" where
  "on_radio_rx c frame meta n =
     (let n = n\<lparr>nd_now := max (nd_now n) (rm_timestamp_ms meta)\<rparr>; now = nd_now n; me = Node_address n in
      if \<not> pm_awake (nd_power n) then Some n
      else do {
        n \<leftarrow> count_rx frame n;
        case Packet_decode c frame (ncf_network_key (nd_cfg n)) (ncf_max_ttl (nd_cfg n)) of
          Inl e \<Rightarrow>
            let n = count cn_rx_bad_update n in Some (if e = AuthFailed then count cn_auth_failures_update n else n)
        | Inr p \<Rightarrow>
            let h = p_header p; src = h_src h in
            if src = me then Some n
            else let prev = (if h_hops h = 0 then Some src
                             else map_option nb_addr (NeighborTable_resolve_short (nd_neighbors n) (h_relay h)));
                     n = (case prev of
                            Some pv \<Rightarrow> n\<lparr>nd_neighbors := NeighborTable_observe_packet now pv meta (nd_neighbors n)\<rparr>
                          | None \<Rightarrow> n);
                     for_me = (h_dst h = me)
                 in if h_ptype h = Beacon then handle_beacon c p meta now n
                    else let n = (if for_me then on_activity now n else n) in
                      if for_me \<and> is_link_ack p
                      then Some (case prev of Some pv \<Rightarrow> confirm_link_ack pv (p_payload p) n | None \<Rightarrow> n)
                      else if for_me \<and> is_no_session p then on_no_session_notice c src now n
                      else rx_packet c p prev meta now n })"

end
