(* ===== verification/Node.thy ===== *)
theory Node
  imports Node_Rx
begin

section \<open>The node engine: beacons and timers (\<open>node/mod.rs\<close>, \<open>node/tx.rs\<close>)\<close>

text \<open>
  \<open>poll\<close> and what it calls: the beacon, the hop retransmissions, the timers of discoveries,
  messages and handshakes, the housekeeping. The loop over the hop entries changes the list while
  it walks it; it is a total function here, so its termination is proved with its definition.
\<close>

subsection \<open>The beacon\<close>

definition div_ceil_u64 :: "u64 \<Rightarrow> u64 \<Rightarrow> u64" where
  "div_ceil_u64 x d = x div d + (if x mod d = 0 then 0 else 1)"

function trim_zone :: "nat \<Rightarrow> beacon \<Rightarrow> beacon" where
  "trim_zone budget b =
     (if Beacon_encoded_len b > budget \<and> bc_zone b \<noteq> []
      then trim_zone budget (b\<lparr>bc_zone := butlast (bc_zone b)\<rparr>) else b)"
  by pat_completeness auto
termination
  by (relation "measure (\<lambda>(_, b). length (bc_zone b))") auto

function trim_attached :: "nat \<Rightarrow> beacon \<Rightarrow> beacon" where
  "trim_attached budget b =
     (if Beacon_encoded_len b > budget \<and> bc_attached b \<noteq> []
      then trim_attached budget (b\<lparr>bc_attached := butlast (bc_attached b)\<rparr>) else b)"
  by pat_completeness auto
termination
  by (relation "measure (\<lambda>(_, b). length (bc_attached b))") auto

declare trim_zone.simps [simp del] trim_attached.simps [simp del]

text \<open>The next time to beacon and the sequence numbers.\<close>

definition schedule_beacon :: "time \<Rightarrow> node \<Rightarrow> node" where
  "schedule_beacon now n =
     (let ncount = NeighborTable_len (nd_neighbors n);
          changed = (ncount \<noteq> nd_last_neighbor_count n);
          (pw, mult) = PowerManager_beacon_multiplier changed (nd_power n);
          interval = nc_beacon_interval_ms (ncf_neighbor (nd_cfg n));
          (draw, n) = next_u64 (n\<lparr>nd_last_neighbor_count := ncount, nd_power := pw\<rparr>);
          jitter = draw mod max (nc_beacon_jitter_ms (ncf_neighbor (nd_cfg n))) 1
      in n\<lparr>nd_next_beacon := (if ncf_role (nd_cfg n) = Leaf then now + interval
                              else now + interval * ucast mult + jitter),
           nd_last_beacon_at := now, nd_beacon_seq := nd_beacon_seq n + 1\<rparr>)"

text \<open>The content of the beacon before it is cut to the size of a frame; \<open>n\<close> is the state after
  \<open>schedule_beacon\<close> and \<open>sent\<close> the number of beacons sent before this one.\<close>

definition beacon_is_full :: "u32 \<Rightarrow> node \<Rightarrow> bool" where
  "beacon_is_full sent n \<longleftrightarrow>
     sent mod max (ucast (nc_full_beacon_every (ncf_neighbor (nd_cfg n)))) 1 = 0 \<or> ncf_role (nd_cfg n) = Leaf"

definition beacon_base :: "crypto \<Rightarrow> time \<Rightarrow> u32 \<Rightarrow> node \<Rightarrow> beacon" where
  "beacon_base c now sent n =
     (let b = Beacon_short (ncf_role (nd_cfg n)) (nd_beacon_seq n) (zt_radius (nd_zone n))
                (of_nat (min (NeighborTable_len (nd_neighbors n)) 255));
          b = (if beacon_is_full sent n then Beacon_sign c (nd_id n) (ucast (now div 1000)) b else b)
      in b\<lparr>bc_sleep_interval_s := ucast (min (div_ceil_u64 (nd_next_beacon n - now) 1000) 65535)\<rparr>)"

definition beacon_power :: "time \<Rightarrow> node \<Rightarrow> beacon \<Rightarrow> beacon" where
  "beacon_power now n b =
     (case pc_mode (ncf_power (nd_cfg n)) of
        LeafMode wake_s window_ms \<Rightarrow>
          let remaining = (ucast (min (sat_sub (pm_awake_until (nd_power n)) now) 65535) :: u16);
              b = b\<lparr>bc_sleep_interval_s := wake_s,
                    bc_awake_window_ms := max remaining (min window_ms (max remaining 1))\<rparr>
          in (case nd_attached_anchor n of
                Some a \<Rightarrow> b\<lparr>bc_attached := bc_attached b @ [a]\<rparr> | None \<Rightarrow> b)
      | _ \<Rightarrow> b)"

definition beacon_host :: "node \<Rightarrow> beacon \<Rightarrow> beacon" where
  "beacon_host n b =
     (if Role_relays (ncf_role (nd_cfg n))
      then b\<lparr>bc_mailbox_available := (case nd_mailbox n of Some m \<Rightarrow> Mailbox_has_space m | None \<Rightarrow> False),
             bc_attached := take 8 (map nb_addr (NeighborTable_hosted_leaves (nd_neighbors n)))\<rparr>
      else b)"

definition beacon_fit :: "nat \<Rightarrow> node \<Rightarrow> beacon \<Rightarrow> beacon" where
  "beacon_fit budget n b =
     (let b = (if ncf_role (nd_cfg n) \<noteq> Leaf
               then trim_zone budget (b\<lparr>bc_zone :=
                      ZoneTable_advertisement (zc_max_advertised_entries (ncf_zrp (nd_cfg n))) (nd_beacons_sent n) (nd_zone n)\<rparr>)
               else b)
      in trim_attached budget b)"

definition send_beacon :: "crypto \<Rightarrow> time \<Rightarrow> node \<Rightarrow> node option" where
  "send_beacon c now n = do {
     let n = schedule_beacon now n;
     let sent = nd_beacons_sent n;
     let n = n\<lparr>nd_beacons_sent := sent + 1\<rparr>;
     let budget = max_payload (ncf_network_key (nd_cfg n) \<noteq> None);
     let b = beacon_fit budget n (beacon_host n (beacon_power now n (beacon_base c now sent n)));
     (h, n) \<leftarrow> base_header Beacon BROADCAST 1 n;
     let n = count cn_beacons_sent_update n;
     let pr = (if ncf_role (nd_cfg n) = Leaf then prio_CONTROL else prio_BEACON);
     Some (snd (enqueue_packet c (Packet_new h (Beacon_encode b)) now pr False n)) }"

subsection \<open>Sleep and wake-up\<close>

definition shift_timers :: "u64 \<Rightarrow> node \<Rightarrow> node" where
  "shift_timers slept n =
     (if slept = 0 then n
      else n\<lparr>nd_handshakes := SmallMap_map_values (\<lambda>h. h\<lparr>ph_started_at := sat_add (ph_started_at h) slept\<rparr>)
                                (nd_handshakes n),
             nd_ierp := (nd_ierp n)\<lparr>ie_pending := SmallMap_map_values
               (\<lambda>d. d\<lparr>d_deadline := sat_add (d_deadline d) slept, d_started_at := sat_add (d_started_at d) slept\<rparr>)
               (ie_pending (nd_ierp n))\<rparr>,
             nd_transport := Transport_shift_timers slept (nd_transport n),
             nd_pending_envelopes := map (\<lambda>p. p\<lparr>pe_queued_at := sat_add (pe_queued_at p) slept\<rparr>)
               (nd_pending_envelopes n)\<rparr>)"

definition wake_host :: "node \<Rightarrow> address option" where
  "wake_host n =
     first_some
       (case nd_attached_anchor n of
          Some a \<Rightarrow>
            (case NeighborTable_get (nd_neighbors n) a of
               Some nb \<Rightarrow> if Role_relays (nb_role nb) then Some a else None
             | None \<Rightarrow> Some a)
        | None \<Rightarrow> None)
       (map_option nb_addr (NeighborTable_best_host (nd_neighbors n)))"

definition on_wake :: "time \<Rightarrow> node \<Rightarrow> node option" where
  "on_wake now n =
     (let n = n\<lparr>nd_next_beacon := now\<rparr> in
      if ncf_role (nd_cfg n) = Leaf
      then (case wake_host n of
              Some anchor \<Rightarrow> do {
                let n = n\<lparr>nd_attached_anchor := Some anchor\<rparr>;
                airtime \<leftarrow> LoRaProfile_airtime_ms (ncf_profile (nd_cfg n)) 160;
                Some (n\<lparr>nd_pending_fetch :=
                  Some (anchor, now + ucast airtime + 1500, cn_rx_for_us (nd_counters n))\<rparr>) }
            | None \<Rightarrow> Some n)
      else Some n)"

definition fall_asleep :: "time \<Rightarrow> node \<Rightarrow> node" where
  "fall_asleep now n =
     (let n = n\<lparr>nd_slept_at := now\<rparr>;
          n = (case pc_mode (ncf_power (nd_cfg n)) of
                 LeafMode wake_s _ \<Rightarrow>
                   let span = max (ucast wake_s * 1000 div 5) 1;
                       (draw, n) = next_u64 n
                   in n\<lparr>nd_power := PowerManager_delay_wake (draw mod span) (nd_power n)\<rparr>
               | _ \<Rightarrow> n);
          n = emit (PowerState False) n
      in n\<lparr>nd_tx_queue := filter (\<lambda>i. ti_priority i = 0) (nd_tx_queue n)\<rparr>)"

definition power_step :: "time \<Rightarrow> node \<Rightarrow> node option" where
  "power_step now n =
     (case PowerManager_tick now (nd_power n) of (pw, change) \<Rightarrow>
        let n = n\<lparr>nd_power := pw\<rparr> in
        case change of
          Some True \<Rightarrow>
            let slept = sat_sub now (nd_slept_at n)
            in on_wake now (emit (PowerState True) (shift_timers slept (n\<lparr>nd_last_wake := now\<rparr>)))
        | Some False \<Rightarrow> Some (fall_asleep now n)
        | None \<Rightarrow> Some n)"

subsection \<open>Hop retransmissions\<close>

definition lose_routes_via :: "address \<Rightarrow> node \<Rightarrow> node" where
  "lose_routes_via nh n =
     (case RouteCache_invalidate_via (nd_routes n) nh of (rt, gone) \<Rightarrow>
        fold (\<lambda>dst. emit (RouteLost dst)) gone (n\<lparr>nd_routes := rt\<rparr>))"

definition hop_failed :: "hop_pending \<Rightarrow> node \<Rightarrow> node" where
  "hop_failed h n =
     (let n = count cn_hop_failures_update n in
      case NeighborTable_record_failure (hp_next_hop h) (nd_neighbors n) of (t, dead) \<Rightarrow>
        let n = n\<lparr>nd_neighbors := t\<rparr> in
        if dead then lose_routes_via (hp_next_hop h) n
        else n\<lparr>nd_routes := fst (RouteCache_mark_failure (nd_routes n) (h_dst (p_header (hp_packet h))) (hp_next_hop h))\<rparr>)"

text \<open>\<open>np.rerouted = true\<close> for the first entry with the key.\<close>

fun mark_rerouted :: "packet_key \<Rightarrow> hop_pending list \<Rightarrow> hop_pending list" where
  "mark_rerouted key [] = []"
| "mark_rerouted key (x # xs) =
     (if hp_key x = key then x\<lparr>hp_rerouted := True\<rparr> # xs else x # mark_rerouted key xs)"

definition hop_reroute :: "crypto \<Rightarrow> time \<Rightarrow> hop_pending \<Rightarrow> node \<Rightarrow> node option" where
  "hop_reroute c now h n =
     (if hp_rerouted h then Some n
      else case next_hop_for (h_dst (p_header (hp_packet h))) now n of
        None \<Rightarrow> Some n
      | Some alt \<Rightarrow>
          if alt = hp_next_hop h then Some n
          else let p = (hp_packet h)\<lparr>p_header := (p_header (hp_packet h))\<lparr>h_next_hop := Address_short alt\<rparr>\<rparr>;
                   n = count cn_hop_reroutes_update n
               in do {
                 n \<leftarrow> track_hop p alt now (hp_is_relay h) n;
                 let n = n\<lparr>nd_hop_pending := mark_rerouted (Header_key (p_header p)) (nd_hop_pending n)\<rparr>;
                 Some (snd (enqueue_packet c p now prio_DATA (hp_is_relay h) n)) })"

definition hop_give_up :: "crypto \<Rightarrow> time \<Rightarrow> nat \<Rightarrow> node \<Rightarrow> node option" where
  "hop_give_up c now i n =
     (let h = nd_hop_pending n ! i
      in hop_reroute c now h (hop_failed h (n\<lparr>nd_hop_pending := remove_at i (nd_hop_pending n)\<rparr>)))"

definition hop_resend :: "crypto \<Rightarrow> time \<Rightarrow> nat \<Rightarrow> node \<Rightarrow> node option" where
  "hop_resend c now i n = do {
     let h = nd_hop_pending n ! i;
     timeout \<leftarrow> hop_timeout (nd_cfg n) (Packet_wire_len (hp_packet h));
     let n = n\<lparr>nd_neighbors := NeighborTable_update (hp_next_hop h) Neighbor_record_tx_attempt (nd_neighbors n)\<rparr>;
     let (draw, n) = next_u64 n;
     let jitter = draw mod 300;
     let due = now + timeout + jitter;
     let n = n\<lparr>nd_hop_pending := (nd_hop_pending n)[i := h\<lparr>hp_attempts := hp_attempts h + 1, hp_due := due\<rparr>]\<rparr>;
     let n = count cn_hop_retransmissions_update n;
     Some (snd (enqueue_packet c (hp_packet h) (now + jitter) prio_DATA (hp_is_relay h) n)) }"

text \<open>Every entry that is given up either was rerouted before or leaves one entry less that may be.\<close>

definition fresh_hops :: "hop_pending list \<Rightarrow> nat" where
  "fresh_hops hs = length (filter (\<lambda>h. \<not> hp_rerouted h) hs)"

lemma hops_count [simp]: "nd_hop_pending (count f n) = nd_hop_pending n"
  by (simp add: count_def)

lemma hops_emit [simp]: "nd_hop_pending (emit e n) = nd_hop_pending n"
  by (simp add: emit_def)

lemma hops_fold_emit [simp]: "nd_hop_pending (fold (\<lambda>x. emit (f x)) xs n) = nd_hop_pending n"
  by (induction xs arbitrary: n) simp_all

lemma hops_enqueue [simp]: "nd_hop_pending (snd (enqueue_packet c p t pr rl n)) = nd_hop_pending n"
  by (simp add: enqueue_packet_def Let_def split: sum.split option.split)

lemma hops_failed [simp]: "nd_hop_pending (hop_failed h n) = nd_hop_pending n"
  by (simp add: hop_failed_def lose_routes_via_def split_beta Let_def)

lemma mark_rerouted_append:
  "hp_key h = key \<Longrightarrow> \<forall>x \<in> set hs. hp_key x \<noteq> key \<Longrightarrow>
   mark_rerouted key (hs @ [h]) = hs @ [h\<lparr>hp_rerouted := True\<rparr>]"
  by (induction hs) auto

lemma mark_rerouted_length [simp]: "length (mark_rerouted key hs) = length hs"
  by (induction hs) auto

lemma mark_rerouted_fresh: "fresh_hops (mark_rerouted key hs) \<le> fresh_hops hs"
  by (induction hs) (auto simp: fresh_hops_def)

lemma length_filter_filter_le: "length (filter P (filter Q xs)) \<le> length (filter P xs)"
  by (induction xs) auto

lemma fresh_track_hop:
  assumes "track_hop p nh now r n = Some n'"
  shows "fresh_hops (mark_rerouted (Header_key (p_header p)) (nd_hop_pending n')) \<le> fresh_hops (nd_hop_pending n)"
proof -
  let ?key = "Header_key (p_header p)"
  let ?hops = "filter (\<lambda>h. hp_key h \<noteq> ?key) (nd_hop_pending n)"
  show ?thesis
  proof (cases "ncf_hop_retries (nd_cfg n) = 0 \<or> length (nd_hop_pending n) \<ge> 24")
    case True
    then show ?thesis using assms mark_rerouted_fresh by (simp add: track_hop_def)
  next
    case False
    let ?h = "last (nd_hop_pending n')"
    from False have "hp_key ?h = ?key \<and> nd_hop_pending n' = ?hops @ [?h]"
      using assms by (auto simp: track_hop_def Let_def next_u64_def split: bind_splits)
    then obtain h where "hp_key h = ?key" "nd_hop_pending n' = ?hops @ [h]" by blast
    then show ?thesis
      using length_filter_filter_le [of "\<lambda>h. \<not> hp_rerouted h" "\<lambda>h. hp_key h \<noteq> ?key" "nd_hop_pending n"]
      by (simp add: mark_rerouted_append fresh_hops_def)
  qed
qed

lemma header_key_next_hop [simp]: "Header_key (h\<lparr>h_next_hop := x\<rparr>) = Header_key h"
  by (simp add: Header_key_def)

lemma fresh_hop_reroute:
  assumes "\<not> hp_rerouted h" "hop_reroute c now h n = Some n'"
  shows "fresh_hops (nd_hop_pending n') \<le> fresh_hops (nd_hop_pending n)"
  using assms fresh_track_hop [where n = "count cn_hop_reroutes_update n"
      and p = "hp_packet h\<lparr>p_header := p_header (hp_packet h)\<lparr>h_next_hop := Address_short nh\<rparr>\<rparr>" for nh]
  by (auto simp: hop_reroute_def Let_def split: option.splits if_splits bind_splits)

lemma fresh_remove_at:
  "i < length hs \<Longrightarrow> fresh_hops (remove_at i hs) + (if hp_rerouted (hs ! i) then 0 else 1) = fresh_hops hs"
  by (subst (2) id_take_nth_drop [of i hs]) (simp_all add: remove_at_def fresh_hops_def)

lemma hop_give_up_less:
  assumes "i < length (nd_hop_pending n)" "hop_give_up c now i n = Some n'"
  shows "(n', n) \<in>
    measures [\<lambda>n. fresh_hops (nd_hop_pending n), \<lambda>n. length (nd_hop_pending n) - i]"
proof (cases "hp_rerouted (nd_hop_pending n ! i)")
  case True
  then show ?thesis
    using assms fresh_remove_at [OF assms(1)] by (auto simp: hop_give_up_def hop_reroute_def Let_def remove_at_def)
next
  case False
  let ?n = "hop_failed (nd_hop_pending n ! i) (n\<lparr>nd_hop_pending := remove_at i (nd_hop_pending n)\<rparr>)"
  have "fresh_hops (nd_hop_pending n') \<le> fresh_hops (nd_hop_pending ?n)"
    using fresh_hop_reroute [OF False] assms(2) by (simp only: hop_give_up_def Let_def)
  then show ?thesis using fresh_remove_at [OF assms(1)] False by simp
qed

lemma hop_resend_hops:
  assumes "i < length (nd_hop_pending n)" "hop_resend c now i n = Some n'"
  shows "length (nd_hop_pending n') = length (nd_hop_pending n)"
    and "fresh_hops (nd_hop_pending n') = fresh_hops (nd_hop_pending n)"
proof -
  let ?hs = "nd_hop_pending n"
  obtain due where "nd_hop_pending n'
      = ?hs[i := (?hs ! i)\<lparr>hp_attempts := hp_attempts (?hs ! i) + 1, hp_due := due\<rparr>]"
    using assms(2) by (auto simp: hop_resend_def Let_def next_u64_def split: bind_splits)
  moreover have "fresh_hops (?hs[i := (?hs ! i)\<lparr>hp_attempts := a, hp_due := d\<rparr>]) = fresh_hops ?hs" for a d
    by (subst (3) id_take_nth_drop [OF assms(1)]) (simp add: upd_conv_take_nth_drop assms(1) fresh_hops_def)
  ultimately show "length (nd_hop_pending n') = length ?hs"
    and "fresh_hops (nd_hop_pending n') = fresh_hops ?hs" by simp_all
qed

function hop_loop :: "crypto \<Rightarrow> time \<Rightarrow> u8 \<Rightarrow> nat \<Rightarrow> node \<Rightarrow> node option" where
  "hop_loop c now max_retries i n =
     (if i < length (nd_hop_pending n)
      then if hp_due (nd_hop_pending n ! i) > now then hop_loop c now max_retries (Suc i) n
           else if hp_attempts (nd_hop_pending n ! i) > max_retries
           then do { n \<leftarrow> hop_give_up c now i n; hop_loop c now max_retries i n }
           else do { n \<leftarrow> hop_resend c now i n; hop_loop c now max_retries (Suc i) n }
      else Some n)"
  by pat_completeness auto
termination
proof (relation "measures [\<lambda>(_, _, _, i, n). fresh_hops (nd_hop_pending n),
                           \<lambda>(_, _, _, i, n). length (nd_hop_pending n) - i]")
  fix c :: crypto and now :: time and k :: u8 and i and n n' :: node
  assume "i < length (nd_hop_pending n)" "hop_give_up c now i n = Some n'"
  from hop_give_up_less [OF this]
  show "((c, now, k, i, n'), (c, now, k, i, n)) \<in> measures
    [\<lambda>(_, _, _, i, n). fresh_hops (nd_hop_pending n), \<lambda>(_, _, _, i, n). length (nd_hop_pending n) - i]"
    by simp
qed (simp_all add: hop_resend_hops)

declare hop_loop.simps [simp del]

subsection \<open>Housekeeping\<close>

definition on_neighbor_lost :: "address \<Rightarrow> node \<Rightarrow> node" where
  "on_neighbor_lost a n =
     (let n = emit (NeighborDown a) (count cn_neighbors_lost_update n);
          n = lose_routes_via a (n\<lparr>nd_zone := fst (ZoneTable_remove_via a (nd_zone n))\<rparr>)
      in if nd_attached_anchor n = Some a then n\<lparr>nd_attached_anchor := None\<rparr> else n)"

definition expire_tables :: "time \<Rightarrow> node \<Rightarrow> node" where
  "expire_tables now n =
     n\<lparr>nd_last_housekeeping := now, nd_seen := SeenCache_expire (nd_seen n) now,
       nd_ierp := Ierp_expire now (nd_ierp n), nd_routes := fst (RouteCache_expire (nd_routes n) now),
       nd_zone := fst (ZoneTable_expire now (nd_zone n)),
       nd_reassembler := fst (Reassembler_expire (nd_reassembler n) now)\<rparr>"

definition expire_neighbors :: "time \<Rightarrow> node \<Rightarrow> node" where
  "expire_neighbors now n =
     (if ncf_role (nd_cfg n) = Leaf \<and> sat_sub now (nd_last_wake n) < NeighborTable_timeout_ms (nd_neighbors n)
      then n
      else case NeighborTable_expire now (nd_neighbors n) of (t, dead) \<Rightarrow>
        fold on_neighbor_lost dead (n\<lparr>nd_neighbors := t\<rparr>))"

definition expire_sessions :: "time \<Rightarrow> node \<Rightarrow> node" where
  "expire_sessions now n =
     (let dead = map fst (filter (\<lambda>(_, s). Session_is_expired s now (ncf_session (nd_cfg n))) (nd_sessions n))
      in fold (\<lambda>a n. emit (SessionClosed a) (remove_session a n)) dead n)"

definition start_rekey :: "crypto \<Rightarrow> time \<Rightarrow> address \<Rightarrow> node \<Rightarrow> node option" where
  "start_rekey c now a n =
     start_handshake c a now
       (n\<lparr>nd_sessions := SmallMap_modify (nd_sessions n) a (\<lambda>s. s\<lparr>se_rekey_in_progress := True\<rparr>)\<rparr>)"

definition rekey_sessions :: "crypto \<Rightarrow> time \<Rightarrow> node \<Rightarrow> node option" where
  "rekey_sessions c now n =
     ofold (start_rekey c now)
       (map fst (filter (\<lambda>(_, s). Session_needs_rekey s now (ncf_session (nd_cfg n))) (nd_sessions n))) n"

definition want_keys :: "node \<Rightarrow> address list" where
  "want_keys n =
     fold (\<lambda>p v. if \<not> SmallMap_contains_key (nd_key_dir n) (pe_dst p) \<and> pe_dst p \<notin> set v then v @ [pe_dst p] else v)
       (nd_pending_envelopes n) []"

definition rearm_keys :: "crypto \<Rightarrow> time \<Rightarrow> node \<Rightarrow> node option" where
  "rearm_keys c now n =
     ofold (\<lambda>dst n. if Ierp_may_start (nd_ierp n) dst now then start_discovery c dst None now n else Some n)
       (want_keys n) n"

definition expire_envelopes :: "time \<Rightarrow> node \<Rightarrow> node" where
  "expire_envelopes now n =
     (let stale = filter (\<lambda>p. sat_sub now (pe_queued_at p) > 180000) (nd_pending_envelopes n);
          n = n\<lparr>nd_pending_envelopes := filter (\<lambda>p. sat_sub now (pe_queued_at p) \<le> 180000) (nd_pending_envelopes n)\<rparr>
      in fold (\<lambda>p. emit (Failed (pe_handle p) (pe_dst p) Fail_NoKey)) stale n)"

definition tend_mail :: "crypto \<Rightarrow> time \<Rightarrow> address \<Rightarrow> node \<Rightarrow> node option" where
  "tend_mail c now d n =
     (case NeighborTable_get (nd_neighbors n) d of
        Some nb \<Rightarrow> if \<not> Neighbor_is_sleeping now nb then flush_mailbox_to c d now n else Some n
      | None \<Rightarrow>
          (case ZoneTable_anchor_for d (nd_zone n) of
             None \<Rightarrow> Some n
           | Some host \<Rightarrow>
               if host = Node_address n then Some n
               else (case nd_mailbox n of
                       None \<Rightarrow> Some n
                     | Some m \<Rightarrow>
                         (case Mailbox_take_deliverable d now 2 m of (m, items) \<Rightarrow>
                            ofold (\<lambda>(i, env). send_store c host d i env now) items (n\<lparr>nd_mailbox := Some m\<rparr>)))))"

definition tend_mailbox :: "crypto \<Rightarrow> time \<Rightarrow> node \<Rightarrow> node option" where
  "tend_mailbox c now n =
     (case nd_mailbox n of
        None \<Rightarrow> Some n
      | Some m \<Rightarrow>
          let m = fst (Mailbox_gc now m)
          in ofold (tend_mail c now) (Mailbox_destinations m) (n\<lparr>nd_mailbox := Some m\<rparr>))"

definition decay :: "time \<Rightarrow> node \<Rightarrow> node" where
  "decay now n =
     n\<lparr>nd_rx_airtime_ms := sat_sub (nd_rx_airtime_ms n) (nd_rx_airtime_ms n div 64 + 1),
       nd_held_for_sleeping := filter (\<lambda>(_, _, exp). exp > now) (nd_held_for_sleeping n),
       nd_tx_queue := filter (\<lambda>i. sat_sub now (ti_not_before i) < 60000) (nd_tx_queue n)\<rparr>"

definition housekeeping :: "crypto \<Rightarrow> time \<Rightarrow> node \<Rightarrow> node option" where
  "housekeeping c now n = do {
     let n = expire_sessions now (expire_neighbors now (expire_tables now n));
     n \<leftarrow> rekey_sessions c now n;
     n \<leftarrow> rearm_keys c now n;
     n \<leftarrow> tend_mailbox c now (expire_envelopes now n);
     Some (decay now n) }"

subsection \<open>Timers\<close>

definition poll_fetch :: "crypto \<Rightarrow> time \<Rightarrow> node \<Rightarrow> node option" where
  "poll_fetch c now n =
     (case nd_pending_fetch n of
        Some (host, due, rx_before) \<Rightarrow>
          if now \<ge> due
          then let n = n\<lparr>nd_pending_fetch := None\<rparr>
               in if cn_rx_for_us (nd_counters n) = rx_before then send_fetch c host now n else Some n
          else Some n
      | None \<Rightarrow> Some n)"

definition poll_relays :: "crypto \<Rightarrow> time \<Rightarrow> node \<Rightarrow> node" where
  "poll_relays c now n =
     (case RebroadcastScheduler_due (nd_sched n) now (st_counter_threshold (ncf_storm (nd_cfg n))) of (sc, due) \<Rightarrow>
        fold (\<lambda>(key, p) n.
            let n = n\<lparr>nd_seen := SeenCache_mark_forwarded (nd_seen n) key\<rparr>;
                p = p\<lparr>p_header := (p_header p)\<lparr>h_relay := Address_short (Node_address n)\<rparr>\<rparr>
            in snd (enqueue_packet c p now prio_RELAY True n)) due (n\<lparr>nd_sched := sc\<rparr>))"

definition poll_replies :: "crypto \<Rightarrow> time \<Rightarrow> node \<Rightarrow> node option" where
  "poll_replies c now n =
     (case PendingReplies_due now (nd_rrep_pending n) of (r, due) \<Rightarrow>
        ofold (\<lambda>p n. route_unicast_ign c p now (count cn_rrep_sent_update n)) due (n\<lparr>nd_rrep_pending := r\<rparr>))"

text \<open>\<open>Ierp::tick\<close> takes a draw for each retry.\<close>

definition poll_discoveries :: "crypto \<Rightarrow> time \<Rightarrow> node \<Rightarrow> node option" where
  "poll_discoveries c now n =
     (case Ierp_tick now (smap ucast (nd_rng n)) (nd_ierp n) of (ie, _, retries, failures) \<Rightarrow> do {
        let n = n\<lparr>nd_ierp := ie, nd_rng := sdrop (length retries) (nd_rng n)\<rparr>;
        n \<leftarrow> ofold (\<lambda>(target, req_id, ttl). send_route_request c target req_id ttl now) retries n;
        ofold (\<lambda>(target, queued). on_discovery_failed c target queued now) failures n })"

definition no_ack :: "outstanding \<Rightarrow> node \<Rightarrow> node" where
  "no_ack ob n =
     (if o_stored ob then n
      else emit (Failed (o_handle ob) (o_dst ob) Fail_NoAck)
             (n\<lparr>nd_routes := fst (RouteCache_mark_failure (nd_routes n) (o_dst ob) (o_dst ob))\<rparr>))"

definition poll_transport :: "crypto \<Rightarrow> time \<Rightarrow> node \<Rightarrow> node option" where
  "poll_transport c now n =
     (case Transport_tick now (nd_rng n) (nd_transport n) of (t, r, retries, failed) \<Rightarrow> do {
        n \<leftarrow> ofold (\<lambda>ob. retry_outstanding c ob now) retries (n\<lparr>nd_transport := t, nd_rng := r\<rparr>);
        Some (fold no_ack failed n) })"

definition resend_m1 :: "crypto \<Rightarrow> time \<Rightarrow> address \<times> bytes \<Rightarrow> node \<Rightarrow> node option" where
  "resend_m1 c now am n =
     (case am of (a, m1) \<Rightarrow>
        send_handshake_packet c a One m1 now
          (n\<lparr>nd_handshakes := SmallMap_modify (nd_handshakes n) a (\<lambda>h. h\<lparr>ph_attempts := ph_attempts h + 1\<rparr>)\<rparr>))"

definition handshakes_to_resend :: "time \<Rightarrow> node \<Rightarrow> (address \<times> bytes) list" where
  "handshakes_to_resend now n =
     map (\<lambda>(a, h). (a, ph_m1 h)) (filter (\<lambda>(a, h).
        ph_m1 h \<noteq> [] \<and> ph_attempts h < 3 \<and> \<not> Ierp_is_pending (nd_ierp n) a
        \<and> sat_sub now (ph_started_at h) > ncf_handshake_timeout_ms (nd_cfg n) div 3 * ucast (ph_attempts h))
      (nd_handshakes n))"

definition leaf_timeout :: "u64 \<Rightarrow> neighbor option \<Rightarrow> u64" where
  "leaf_timeout timeout nb =
     (case nb of
        Some nb \<Rightarrow> if Neighbor_is_leaf nb \<and> nb_sleep_interval_s nb > 0
                   then ucast (nb_sleep_interval_s nb) * 1000 * 2 + timeout else timeout
      | None \<Rightarrow> timeout)"

definition handshakes_expired :: "time \<Rightarrow> node \<Rightarrow> address list" where
  "handshakes_expired now n =
     map fst (filter (\<lambda>(a, h).
        sat_sub now (ph_started_at h) >
          leaf_timeout (ncf_handshake_timeout_ms (nd_cfg n)) (NeighborTable_get (nd_neighbors n) a)
          * (if hx_role (ph_hs h) = Responder then 2 else 1))
      (nd_handshakes n))"

definition expire_handshake :: "address \<Rightarrow> node \<Rightarrow> node" where
  "expire_handshake a n =
     (case SmallMap_get (nd_handshakes n) a of
        Some h \<Rightarrow>
          count cn_handshake_failures_update (fold (\<lambda>q. fail_send q Fail_NoSession) (ph_queued h) (drop_hs a n))
      | None \<Rightarrow> n)"

definition poll_handshakes :: "crypto \<Rightarrow> time \<Rightarrow> node \<Rightarrow> node option" where
  "poll_handshakes c now n = do {
     n \<leftarrow> ofold (resend_m1 c now) (handshakes_to_resend now n) n;
     Some (fold expire_handshake (handshakes_expired now n) n) }"

definition poll_traces :: "time \<Rightarrow> node \<Rightarrow> node" where
  "poll_traces now n =
     fold (\<lambda>d n. emit (TraceResult d False [] 0)
                   (n\<lparr>nd_pending_traces := filter (\<lambda>(x, _). x \<noteq> d) (nd_pending_traces n)\<rparr>))
       (map fst (filter (\<lambda>(_, t). sat_sub now t > 30000) (nd_pending_traces n))) n"

definition poll :: "crypto \<Rightarrow> time \<Rightarrow> node \<Rightarrow> node option" where
  "poll c t n =
     (let n = n\<lparr>nd_now := max (nd_now n) t\<rparr>; now = nd_now n in do {
      n \<leftarrow> power_step now n;
      if \<not> pm_awake (nd_power n) then Some n
      else do {
        n \<leftarrow> (if now \<ge> nd_next_beacon n then send_beacon c now n else Some n);
        n \<leftarrow> poll_fetch c now n;
        let n = poll_relays c now n;
        n \<leftarrow> hop_loop c now (ncf_hop_retries (nd_cfg n)) 0 n;
        n \<leftarrow> poll_replies c now n;
        n \<leftarrow> poll_discoveries c now n;
        n \<leftarrow> poll_transport c now n;
        n \<leftarrow> poll_handshakes c now n;
        let n = poll_traces now n;
        (if sat_sub now (nd_last_housekeeping n) \<ge> 1000 then housekeeping c now n else Some n) } })"

end
