(* ===== verification/Relay.thy ===== *)
theory Relay
  imports Node
begin

section \<open>The relay engine (\<open>relay/mod.rs\<close>)\<close>

text \<open>
  A relay forwards for others and has no sessions, mailbox or transport of its own. It keeps the same
  tables as a node. Its methods are in the option monad: \<open>base_header\<close> clamps a TTL and
  \<open>clamp\<close> panics when the upper bound is below the lower one, which is the value \<open>None\<close>.
\<close>

subsection \<open>State\<close>

datatype relay_identity = SignedIdentity identity | UnsignedIdentity address

fun RelayIdentity_address :: "relay_identity \<Rightarrow> address" where
  "RelayIdentity_address (SignedIdentity i) = Identity_address i"
| "RelayIdentity_address (UnsignedIdentity a) = a"

fun RelayIdentity_sign_beacon :: "crypto \<Rightarrow> u32 \<Rightarrow> relay_identity \<Rightarrow> beacon \<Rightarrow> beacon" where
  "RelayIdentity_sign_beacon c timestamp (SignedIdentity i) b = Beacon_sign c i timestamp b"
| "RelayIdentity_sign_beacon c timestamp (UnsignedIdentity a) b = b"

definition UnsignedIdentity_from_public_key :: "crypto \<Rightarrow> bytes \<Rightarrow> relay_identity" where
  "UnsignedIdentity_from_public_key c pk = UnsignedIdentity (Address_from_public_key c pk)"

record relay_config =
  rlc_profile :: lora_profile
  rlc_network_key :: "network_key option"
  rlc_max_ttl :: u8
  rlc_neighbor :: neighbor_config
  rlc_zrp :: zrp_config
  rlc_routing :: routing_config
  rlc_storm :: storm_config
  rlc_hop_retries :: u8
  rlc_hop_ack_timeout_ms :: u32
  rlc_unicast_forward_jitter_ms :: u32
  rlc_max_tx_queue :: nat
  rlc_max_held :: nat
  rlc_max_hop_pending :: nat

definition RelayConfig_default :: relay_config where
  "RelayConfig_default =
     \<lparr>rlc_profile = MESHSTAR_EU868, rlc_network_key = None, rlc_max_ttl = 32,
      rlc_neighbor = NeighborConfig_default\<lparr>nc_max_neighbors := 12,
        nc_snr_floor_db := LoRaProfile_demod_snr_db MESHSTAR_EU868\<rparr>,
      rlc_zrp = ZrpConfig_default\<lparr>zc_max_zone_entries := 24, zc_max_advertised_entries := 6,
        zc_max_pending_discoveries := 2, zc_max_queued_per_discovery := 2\<rparr>,
      rlc_routing = RoutingConfig_default\<lparr>rt_max_destinations := 16, rt_alternatives := 1\<rparr>,
      rlc_storm = StormConfig_default\<lparr>st_seen_cache_size := 48, st_max_pending := 3\<rparr>,
      rlc_hop_retries = 2, rlc_hop_ack_timeout_ms = 1500, rlc_unicast_forward_jitter_ms = 60,
      rlc_max_tx_queue = 4, rlc_max_held = 2, rlc_max_hop_pending = 4\<rparr>"

record relay_stats =
  rst_rx_packets :: u32
  rst_rx_bad :: u32
  rst_rx_duplicates :: u32
  rst_tx_packets :: u32
  rst_relayed :: u32
  rst_beacons_sent :: u32
  rst_rreq_relayed :: u32
  rst_hop_retransmissions :: u32
  rst_hop_failures :: u32
  rst_suppressed :: u32
  rst_route_repairs :: u32
  rst_tx_dropped :: u32

definition RelayStats_default :: relay_stats where
  "RelayStats_default =
     \<lparr>rst_rx_packets = 0, rst_rx_bad = 0, rst_rx_duplicates = 0, rst_tx_packets = 0, rst_relayed = 0,
      rst_beacons_sent = 0, rst_rreq_relayed = 0, rst_hop_retransmissions = 0, rst_hop_failures = 0,
      rst_suppressed = 0, rst_route_repairs = 0, rst_tx_dropped = 0\<rparr>"

record relay_hop =
  rh_key :: packet_key
  rh_next_hop :: address
  rh_packet :: packet
  rh_attempts :: u8
  rh_due :: time
  rh_rerouted :: bool

record relay =
  rl_cfg :: relay_config
  rl_id :: relay_identity
  rl_rng :: rng
  rl_now :: time
  rl_neighbors :: neighbor_table
  rl_zone :: zone_table
  rl_routes :: route_cache
  rl_ierp :: ierp
  rl_sched :: rebroadcast_scheduler
  rl_seen :: seen_cache
  rl_hop_pending :: "relay_hop list"
  rl_tx_queue :: "tx_item list"
  rl_held :: "(address \<times> packet \<times> time) list"
  rl_next_beacon :: time
  rl_last_beacon_at :: time
  rl_beacon_seq :: u16
  rl_beacons_sent :: u32
  rl_last_neighbor_count :: nat
  rl_packet_ids :: u32
  rl_last_housekeeping :: time
  rl_airtime_ms :: u64
  rl_stats :: relay_stats

text \<open>The draws of \<open>with_identity\<close> in the order of its fields: jitter, beacon number, packet ids.\<close>

definition Relay_with_identity :: "relay_config \<Rightarrow> relay_identity \<Rightarrow> rng \<Rightarrow> time \<Rightarrow> relay" where
  "Relay_with_identity cfg i r now =
     (let jitter = r !! 0 mod 5000;
          zone_ttl = nc_beacon_interval_ms (rlc_neighbor cfg) * ucast (nc_timeout_intervals (rlc_neighbor cfg)) * 2
      in \<lparr>rl_cfg = cfg, rl_id = i, rl_rng = sdrop 3 r, rl_now = now,
          rl_neighbors = NeighborTable_new (rlc_neighbor cfg),
          rl_zone = ZoneTable_new (zc_zone_radius (rlc_zrp cfg)) (zc_max_zone_entries (rlc_zrp cfg)) zone_ttl,
          rl_routes = RouteCache_new (rlc_routing cfg), rl_ierp = Ierp_new (rlc_zrp cfg),
          rl_sched = RebroadcastScheduler_new,
          rl_seen = SeenCache_new (st_seen_cache_size (rlc_storm cfg)) (st_seen_ttl_ms (rlc_storm cfg)),
          rl_hop_pending = [], rl_tx_queue = [], rl_held = [], rl_next_beacon = now + 500 + jitter,
          rl_last_beacon_at = 0, rl_beacon_seq = ucast (ucast (r !! 1) :: u32), rl_beacons_sent = 0,
          rl_last_neighbor_count = 0, rl_packet_ids = ucast (r !! 2), rl_last_housekeeping = now,
          rl_airtime_ms = 0, rl_stats = RelayStats_default\<rparr>)"

definition Relay_new :: "relay_config \<Rightarrow> identity \<Rightarrow> rng \<Rightarrow> time \<Rightarrow> relay" where
  "Relay_new cfg i r now = Relay_with_identity cfg (SignedIdentity i) r now"

definition Relay_address :: "relay \<Rightarrow> address" where
  "Relay_address r = RelayIdentity_address (rl_id r)"

text \<open>\<open>tally f\<close> increments the statistic whose update function is \<open>f\<close>.\<close>

definition tally :: "((u32 \<Rightarrow> u32) \<Rightarrow> relay_stats \<Rightarrow> relay_stats) \<Rightarrow> relay \<Rightarrow> relay" where
  "tally f r = r\<lparr>rl_stats := f (\<lambda>x. x + 1) (rl_stats r)\<rparr>"

definition Relay_next_u64 :: "relay \<Rightarrow> u64 \<times> relay" where
  "Relay_next_u64 r = (shd (rl_rng r), r\<lparr>rl_rng := stl (rl_rng r)\<rparr>)"

definition Relay_next_u32 :: "relay \<Rightarrow> u32 \<times> relay" where
  "Relay_next_u32 r = (ucast (shd (rl_rng r)), r\<lparr>rl_rng := stl (rl_rng r)\<rparr>)"

definition Relay_new_packet_id :: "relay \<Rightarrow> u32 \<times> relay" where
  "Relay_new_packet_id r =
     (let i = (rl_packet_ids r + 1) * 2654435761 in (i, r\<lparr>rl_packet_ids := i\<rparr>))"

definition Relay_congestion :: "relay \<Rightarrow> u8" where
  "Relay_congestion r = ucast (min ((rl_airtime_ms r * 1000 div 64000) * 255 div 250) 255)"

definition Relay_link_cost_to :: "address \<Rightarrow> relay \<Rightarrow> u16" where
  "Relay_link_cost_to a r =
     link_cost (case NeighborTable_get (rl_neighbors r) a of Some nb \<Rightarrow> Neighbor_link_quality nb | None \<Rightarrow> 96)
       (Relay_congestion r)"

definition Relay_base_header :: "packet_type \<Rightarrow> address \<Rightarrow> u8 \<Rightarrow> relay \<Rightarrow> (header \<times> relay) option" where
  "Relay_base_header ptype dst ttl r =
     (case Relay_new_packet_id r of (i, r) \<Rightarrow>
        if rlc_max_ttl (rl_cfg r) < 1 then None
        else let me = Relay_address r;
                 h = (Header_new ptype me dst i 0 (clamp ttl 1 (rlc_max_ttl (rl_cfg r))))\<lparr>h_relay := Address_short me\<rparr>
             in Some (if rlc_network_key (rl_cfg r) \<noteq> None then Header_set h NET_AUTH True else h, r))"

definition Relay_enqueue :: "crypto \<Rightarrow> packet \<Rightarrow> time \<Rightarrow> u8 \<Rightarrow> bool \<Rightarrow> relay \<Rightarrow> bool \<times> relay" where
  "Relay_enqueue c p not_before priority is_relay r =
     (case Packet_encode c p (rlc_network_key (rl_cfg r)) of
        Inl _ \<Rightarrow> (False, r)
      | Inr frame \<Rightarrow>
          let r1 = (if length (rl_tx_queue r) \<ge> rlc_max_tx_queue (rl_cfg r)
                    then tally rst_tx_dropped_update r else r)
          in case tx_queue_room (rlc_max_tx_queue (rl_cfg r)) (rl_tx_queue r) of
               None \<Rightarrow> (False, r1)
             | Some q \<Rightarrow>
                 (True, r1\<lparr>rl_tx_queue := q @ [\<lparr>ti_frame = frame, ti_not_before = not_before,
                    ti_ptype = h_ptype (p_header p), ti_priority = priority, ti_is_relay = is_relay,
                    ti_dst = h_dst (p_header p)\<rparr>]\<rparr>))"

definition Relay_next_tx :: "time \<Rightarrow> relay \<Rightarrow> (tx_item option \<times> relay) option" where
  "Relay_next_tx now r0 =
     (let r = r0\<lparr>rl_now := max (rl_now r0) now\<rparr> in
      case best_tx now 0 (rl_tx_queue r) None of
        None \<Rightarrow> Some (None, r)
      | Some (i, item) \<Rightarrow> do {
          airtime \<leftarrow> LoRaProfile_airtime_ms (rlc_profile (rl_cfg r)) (length (ti_frame item));
          let r = r\<lparr>rl_tx_queue := remove_at i (rl_tx_queue r), rl_airtime_ms := rl_airtime_ms r + ucast airtime\<rparr>;
          let r = tally rst_tx_packets_update r;
          Some (Some item, if ti_is_relay item then tally rst_relayed_update r else r) })"

definition Relay_next_wakeup :: "relay \<Rightarrow> time" where
  "Relay_next_wakeup r =
     (let t1 = min_opt (RebroadcastScheduler_next_due (rl_sched r)) (rl_next_beacon r);
          t2 = min_opt (Ierp_next_deadline (rl_ierp r)) t1;
          t3 = min_opt (list_min (map rh_due (rl_hop_pending r))) t2;
          t4 = min_opt (list_min (map ti_not_before (rl_tx_queue r))) t3
      in min t4 (rl_last_housekeeping r + 1000))"

subsection \<open>Routing helpers\<close>

definition Relay_next_hop_for :: "address \<Rightarrow> time \<Rightarrow> relay \<Rightarrow> address option" where
  "Relay_next_hop_for dst now r =
     (let nt = rl_neighbors r;
          best = (case NeighborTable_get nt dst of
                    Some nb \<Rightarrow> if \<not> Neighbor_is_sleeping now nb
                               then consider_hop (ucast (link_cost (Neighbor_link_quality nb) 0)) dst None else None
                  | None \<Rightarrow> None);
          best = (case ZoneTable_get (rl_zone r) dst of
                    Some z \<Rightarrow>
                      (case NeighborTable_get nt (zn_next_hop z) of
                         Some nh \<Rightarrow>
                           consider_hop (ucast (link_cost (min (zn_quality z) (Neighbor_link_quality nh)) 0)
                                         * ucast (zn_distance z)) (zn_next_hop z) best
                       | None \<Rightarrow> best)
                  | None \<Rightarrow> best);
          best = (case RouteCache_lookup (rl_routes r) dst now of
                    Some e \<Rightarrow>
                      (case NeighborTable_get nt (re_next_hop e) of
                         Some nh \<Rightarrow>
                           consider_hop (max (RouteEntry_effective_cost e now)
                             (ucast (link_cost (Neighbor_link_quality nh) 0))) (re_next_hop e) best
                       | None \<Rightarrow>
                           if re_hops e \<le> 1 then consider_hop (RouteEntry_effective_cost e now) (re_next_hop e) best
                           else best)
                  | None \<Rightarrow> best)
      in map_option snd best)"

definition Relay_learn_route ::
  "address \<Rightarrow> address \<Rightarrow> u8 \<Rightarrow> u16 \<Rightarrow> route_source \<Rightarrow> address option \<Rightarrow> time \<Rightarrow> relay \<Rightarrow> relay" where
  "Relay_learn_route dst next_hop hops cost source via_anchor now r =
     (if dst = Relay_address r \<or> Address_is_broadcast dst \<or> next_hop = Relay_address r then r
      else let e = \<lparr>re_dst = dst, re_next_hop = next_hop, re_hops = hops, re_cost = cost, re_learned_at = now,
                    re_expires_at = 0, re_last_used = now, re_failures = 0, re_source = source,
                    re_via_anchor = via_anchor\<rparr>
           in r\<lparr>rl_routes := fst (RouteCache_insert (rl_routes r) e now)\<rparr>)"

definition Relay_ttl_for :: "address \<Rightarrow> relay \<Rightarrow> u8" where
  "Relay_ttl_for dst r =
     (if NeighborTable_contains (rl_neighbors r) dst then min 2 (rlc_max_ttl (rl_cfg r))
      else case ZoneTable_get (rl_zone r) dst of
        Some z \<Rightarrow> min (zn_distance z + 2) (rlc_max_ttl (rl_cfg r))
      | None \<Rightarrow>
          (case RouteCache_lookup (rl_routes r) dst (rl_now r) of
             Some e \<Rightarrow> min (sat_add (re_hops e) 4) (rlc_max_ttl (rl_cfg r))
           | None \<Rightarrow> min 8 (rlc_max_ttl (rl_cfg r))))"

subsection \<open>Hop-by-hop reliability\<close>

definition Relay_hop_timeout :: "relay_config \<Rightarrow> nat \<Rightarrow> u64 option" where
  "Relay_hop_timeout cfg wire_len = do {
     airtime \<leftarrow> LoRaProfile_airtime_ms (rlc_profile cfg) wire_len;
     Some (3 * ucast airtime + ucast (rlc_unicast_forward_jitter_ms cfg) + ucast (rlc_hop_ack_timeout_ms cfg)) }"

definition Relay_track_hop :: "packet \<Rightarrow> address \<Rightarrow> time \<Rightarrow> relay \<Rightarrow> relay option" where
  "Relay_track_hop p next_hop now r =
     (if rlc_hop_retries (rl_cfg r) = 0 \<or> length (rl_hop_pending r) \<ge> rlc_max_hop_pending (rl_cfg r) then Some r
      else do {
        timeout \<leftarrow> Relay_hop_timeout (rl_cfg r) (Packet_wire_len p);
        let key = Header_key (p_header p);
        let hops = filter (\<lambda>h. rh_key h \<noteq> key) (rl_hop_pending r);
        let r = r\<lparr>rl_neighbors := NeighborTable_update next_hop Neighbor_record_tx_attempt (rl_neighbors r)\<rparr>;
        let (draw, r) = Relay_next_u64 r;
        let due = now + timeout + draw mod 200;
        Some (r\<lparr>rl_hop_pending := hops @ [\<lparr>rh_key = key, rh_next_hop = next_hop, rh_packet = p,
                  rh_attempts = 1, rh_due = due, rh_rerouted = False\<rparr>]\<rparr>) })"

definition Relay_hop_confirmed :: "packet_key \<Rightarrow> address \<Rightarrow> relay \<Rightarrow> relay" where
  "Relay_hop_confirmed key from r =
     (let hops = filter (\<lambda>h. \<not> (rh_key h = key \<and> rh_next_hop h = from)) (rl_hop_pending r)
      in if length hops \<noteq> length (rl_hop_pending r)
         then r\<lparr>rl_hop_pending := hops,
                rl_neighbors := NeighborTable_update from Neighbor_record_tx_confirmed
                                  (NeighborTable_record_success from (rl_neighbors r))\<rparr>
         else r\<lparr>rl_hop_pending := hops\<rparr>)"

subsection \<open>Own packets\<close>

definition Relay_route_unicast :: "crypto \<Rightarrow> packet \<Rightarrow> time \<Rightarrow> relay \<Rightarrow> (bool \<times> relay) option" where
  "Relay_route_unicast c p now r =
     (let dst = h_dst (p_header p) in
      case Relay_next_hop_for dst now r of
        None \<Rightarrow> Some (False, r)
      | Some nh \<Rightarrow>
          let p = p\<lparr>p_header := (p_header p)\<lparr>h_next_hop := Address_short nh,
                                              h_relay := Address_short (Relay_address r)\<rparr>\<rparr>;
              r = r\<lparr>rl_routes := RouteCache_touch (rl_routes r) dst nh now\<rparr>;
              pr = (if h_ptype (p_header p) = Data then prio_DATA else prio_CONTROL)
          in do { r \<leftarrow> Relay_track_hop p nh now r; Some (Relay_enqueue c p now pr True r) })"

text \<open>\<open>let _ = self.route_unicast(p, now)\<close>: the result is ignored.\<close>

definition Relay_route_unicast_ign :: "crypto \<Rightarrow> packet \<Rightarrow> time \<Rightarrow> relay \<Rightarrow> relay option" where
  "Relay_route_unicast_ign c p now r = do { (_, r) \<leftarrow> Relay_route_unicast c p now r; Some r }"

definition Relay_send_route_request :: "crypto \<Rightarrow> address \<Rightarrow> u32 \<Rightarrow> u8 \<Rightarrow> time \<Rightarrow> relay \<Rightarrow> relay option" where
  "Relay_send_route_request c target req_id ttl now r = do {
     (h, r) \<leftarrow> Relay_base_header RouteRequest BROADCAST ttl r;
     let h = h\<lparr>h_packet_id := req_id\<rparr>;
     let q = \<lparr>rq_target = target, rq_cost = 0, rq_flags = rreq_PROXY_OK, rq_handshake = []\<rparr>;
     Some (snd (Relay_enqueue c (Packet_new h (RouteRequest_encode q)) now prio_BEACON False r)) }"

definition Relay_send_route_error :: "crypto \<Rightarrow> address \<Rightarrow> address \<Rightarrow> time \<Rightarrow> relay \<Rightarrow> relay option" where
  "Relay_send_route_error c to unreachable now r =
     (if to = Relay_address r \<or> Relay_next_hop_for to now r = None then Some r
      else do {
        let ttl = Relay_ttl_for to r;
        (h, r) \<leftarrow> Relay_base_header RouteError to ttl r;
        Relay_route_unicast_ign c (Packet_new h (RouteError_encode \<lparr>rerr_unreachable = [unreachable]\<rparr>)) now r })"

definition Relay_send_link_ack :: "crypto \<Rightarrow> address \<Rightarrow> u32 \<Rightarrow> time \<Rightarrow> relay \<Rightarrow> relay option" where
  "Relay_send_link_ack c to packet_id now r = do {
     (h, r) \<leftarrow> Relay_base_header Control to 1 r;
     let h = h\<lparr>h_next_hop := Address_short to\<rparr>;
     Some (snd (Relay_enqueue c (Packet_new h (LINK_ACK # be32 packet_id)) now prio_CONTROL False r)) }"

subsection \<open>Forwarding\<close>

definition Relay_roll :: "u8 \<Rightarrow> relay \<Rightarrow> bool \<times> relay" where
  "Relay_roll percent r =
     (if percent \<ge> 100 then (True, r)
      else case Relay_next_u32 r of (draw, r) \<Rightarrow> (roll_percent draw percent, r))"

definition Relay_prev_covers :: "address option \<Rightarrow> relay \<Rightarrow> bool" where
  "Relay_prev_covers prev r =
     (case prev of Some pv \<Rightarrow> ZoneTable_covered_by pv (rl_neighbors r) (rl_zone r) | None \<Rightarrow> False)"

definition Relay_schedule :: "packet_key \<Rightarrow> packet \<Rightarrow> u64 \<Rightarrow> time \<Rightarrow> relay \<Rightarrow> relay" where
  "Relay_schedule key p delay now r =
     (case RebroadcastScheduler_schedule (rl_sched r) key p (now + delay) (st_max_pending (rlc_storm (rl_cfg r))) of
        (sc, ok) \<Rightarrow> let r = r\<lparr>rl_sched := sc\<rparr> in if ok then r else tally rst_tx_dropped_update r)"

definition Relay_maybe_relay_flood :: "packet \<Rightarrow> address option \<Rightarrow> rx_meta \<Rightarrow> time \<Rightarrow> relay \<Rightarrow> relay" where
  "Relay_maybe_relay_flood p prev meta now r =
     (if h_ttl (p_header p) \<le> 1 then r
      else if Relay_prev_covers prev r then tally rst_suppressed_update r
      else case Relay_roll (forward_percent (rlc_storm (rl_cfg r)) (NeighborTable_len (rl_neighbors r))) r of
        (False, r) \<Rightarrow> tally rst_suppressed_update r
      | (True, r) \<Rightarrow>
          let key = Header_key (p_header p);
              p = p\<lparr>p_header := hop_header (p_header p) NEXT_HOP_ANY\<rparr>;
              (draw, r) = Relay_next_u32 r;
              delay = ucast (forward_delay_ms draw (rlc_storm (rl_cfg r)) (rm_snr_db meta))
          in Relay_schedule key p delay now r)"

definition Relay_repair :: "crypto \<Rightarrow> packet \<Rightarrow> time \<Rightarrow> relay \<Rightarrow> relay option" where
  "Relay_repair c p now r =
     (let dst = h_dst (p_header p) in
      if Ierp_is_pending (rl_ierp r) dst then Some (r\<lparr>rl_ierp := fst (Ierp_queue dst p (rl_ierp r))\<rparr>)
      else if Ierp_may_start (rl_ierp r) dst now
      then (let (req_id, r) = Relay_new_packet_id r;
                (ie, ttl) = Ierp_start dst req_id now (rl_ierp r);
                r = tally rst_route_repairs_update (r\<lparr>rl_ierp := fst (Ierp_queue dst p ie)\<rparr>)
            in Relay_send_route_request c dst req_id ttl now r)
      else Relay_send_route_error c (h_src (p_header p)) dst now r)"

definition Relay_hosted_asleep :: "address \<Rightarrow> time \<Rightarrow> relay \<Rightarrow> neighbor option" where
  "Relay_hosted_asleep dst now r =
     (case NeighborTable_get (rl_neighbors r) dst of
        Some nb \<Rightarrow> if Neighbor_is_leaf nb \<and> Neighbor_is_sleeping now nb \<and> (nb_attached_to_me nb \<or> nb_attached nb = [])
                   then Some nb else None
      | None \<Rightarrow> None)"

definition Relay_forward_unicast :: "crypto \<Rightarrow> packet \<Rightarrow> address option \<Rightarrow> time \<Rightarrow> relay \<Rightarrow> relay option" where
  "Relay_forward_unicast c p prev now r =
     (let me = Relay_address r; h = p_header p; dst = h_dst h in
      if h_next_hop h \<noteq> NEXT_HOP_ANY \<and> h_next_hop h \<noteq> Address_short me then Some r
      else if h_ttl h \<le> 1 then Some r
      else case Relay_hosted_asleep dst now r of
        Some nb \<Rightarrow>
          let hold_ms = max (ucast (nb_sleep_interval_s nb) * 1000) 10000
          in Some (if length (rl_held r) < rlc_max_held (rl_cfg r)
                   then r\<lparr>rl_held := rl_held r @ [(dst, p, now + hold_ms)]\<rparr> else r)
      | None \<Rightarrow>
          (case Relay_next_hop_for dst now r of
             Some nh \<Rightarrow>
               if Some nh = prev
               then Relay_send_route_error c (h_src h) dst now (r\<lparr>rl_routes := mark_loop dst nh (rl_routes r)\<rparr>)
               else let p = trace_stamp me (p\<lparr>p_header := (hop_header h (Address_short nh))\<lparr>h_relay := Address_short me\<rparr>\<rparr>);
                        r = r\<lparr>rl_routes := RouteCache_touch (rl_routes r) dst nh now\<rparr>;
                        (draw, r) = Relay_next_u32 r;
                        jitter = ucast (draw mod max (rlc_unicast_forward_jitter_ms (rl_cfg r)) 1)
                    in do { r \<leftarrow> Relay_track_hop p nh (now + jitter) r;
                            Some (snd (Relay_enqueue c p (now + jitter) prio_DATA True r)) }
           | None \<Rightarrow> Relay_repair c p now r))"

subsection \<open>Handlers\<close>

definition Relay_release_held :: "crypto \<Rightarrow> address \<Rightarrow> time \<Rightarrow> relay \<Rightarrow> relay option" where
  "Relay_release_held c src now r =
     (let mine = filter (\<lambda>(a, _, _). a = src) (rl_held r);
          r1 = r\<lparr>rl_held := filter (\<lambda>(a, _, _). a \<noteq> src) (rl_held r)\<rparr>;
          stamp = (\<lambda>p. p\<lparr>p_header := (p_header p)\<lparr>h_next_hop := Address_short src,
                                                  h_relay := Address_short (Relay_address r)\<rparr>\<rparr>)
      in ofold (\<lambda>(_, p, _) r. do {
           r \<leftarrow> Relay_track_hop (stamp p) src now r;
           Some (snd (Relay_enqueue c (stamp p) now prio_DATA True r)) }) mine r1)"

definition Relay_handle_beacon :: "crypto \<Rightarrow> packet \<Rightarrow> rx_meta \<Rightarrow> time \<Rightarrow> relay \<Rightarrow> relay option" where
  "Relay_handle_beacon c p meta now r =
     (let src = h_src (p_header p); me = Relay_address r in
      case Beacon_decode (p_payload p) of
        Inl _ \<Rightarrow> Some (tally rst_rx_bad_update r)
      | Inr b \<Rightarrow>
          let (t, obs) = NeighborTable_observe_beacon_as c now src b meta (Some me) (rl_neighbors r);
              r = r\<lparr>rl_neighbors := t\<rparr>
          in if bo_identity_rejected obs then Some (tally rst_rx_bad_update r)
             else let r = r\<lparr>rl_zone := ZoneTable_update_from_beacon now me (rl_neighbors r) src
                              (bc_zone b) (bc_attached b) (rl_zone r)\<rparr>;
                      r = Relay_learn_route src src 1 (Relay_link_cost_to src r) Zone None now r;
                      r = (if bc_role b = Leaf \<and> (bc_attached b = [] \<or> me \<in> set (bc_attached b))
                              \<and> sat_sub now (rl_last_beacon_at r) > 10000
                           then (case Relay_next_u64 r of (draw, r) \<Rightarrow>
                                   r\<lparr>rl_next_beacon := min (rl_next_beacon r) (now + (150 + draw mod 900))\<rparr>)
                           else r)
                  in if bc_role b = Leaf then Relay_release_held c src now r else Some r)"

definition Relay_relay_request ::
  "packet \<Rightarrow> route_request_msg \<Rightarrow> u16 \<Rightarrow> address option \<Rightarrow> rx_meta \<Rightarrow> time \<Rightarrow> relay \<Rightarrow> relay" where
  "Relay_relay_request p q my_cost prev meta now r =
     (let key = Header_key (p_header p) in
      if h_ttl (p_header p) \<le> 1 then r
      else if Relay_prev_covers prev r then tally rst_suppressed_update r
      else case Relay_roll (forward_percent (rlc_storm (rl_cfg r)) (NeighborTable_len (rl_neighbors r))) r of
        (False, r) \<Rightarrow> tally rst_suppressed_update r
      | (True, r) \<Rightarrow>
          let fp = p\<lparr>p_header := hop_header (p_header p) NEXT_HOP_ANY,
                     p_payload := RouteRequest_encode (q\<lparr>rq_cost := my_cost\<rparr>)\<rparr>;
              (draw, r) = Relay_next_u32 r;
              delay = ucast (forward_delay_ms draw (rlc_storm (rl_cfg r)) (rm_snr_db meta));
              r = (if RebroadcastScheduler_is_pending (rl_sched r) key
                   then r\<lparr>rl_sched := fst (RebroadcastScheduler_cancel (rl_sched r) key)\<rparr> else r);
              r = tally rst_rreq_relayed_update r
          in Relay_schedule key fp delay now r)"

definition Relay_handle_route_request ::
  "packet \<Rightarrow> address option \<Rightarrow> rx_meta \<Rightarrow> time \<Rightarrow> relay \<Rightarrow> relay" where
  "Relay_handle_route_request p prev meta now r =
     (case RouteRequest_decode (p_payload p) of
        Inl _ \<Rightarrow> tally rst_rx_bad_update r
      | Inr q \<Rightarrow>
          let origin = h_src (p_header p);
              link = (case prev of Some pv \<Rightarrow> Relay_link_cost_to pv r | None \<Rightarrow> 400);
              my_cost = sat_add (rq_cost q) link;
              (ie, fresh) = Ierp_observe_request origin (h_packet_id (p_header p)) my_cost now (rl_ierp r);
              r = r\<lparr>rl_ierp := ie\<rparr>
          in if \<not> fresh
             then (tally rst_rx_duplicates_update r)
                    \<lparr>rl_sched := fst (RebroadcastScheduler_heard (rl_sched r) (Header_key (p_header p)))\<rparr>
             else let r = (case prev of
                        Some pv \<Rightarrow> Relay_learn_route origin pv (sat_add (h_hops (p_header p)) 1) my_cost Reverse None now r
                      | None \<Rightarrow> r)
             in if rq_target q = origin \<or> rq_target q = Relay_address r then r
                else Relay_relay_request p q my_cost prev meta now r)"

definition Relay_forward_route_reply :: "crypto \<Rightarrow> packet \<Rightarrow> address option \<Rightarrow> time \<Rightarrow> relay \<Rightarrow> relay option" where
  "Relay_forward_route_reply c p prev now r =
     (case RouteReply_decode (p_payload p) of
        Inl _ \<Rightarrow> Some (tally rst_rx_bad_update r)
      | Inr m \<Rightarrow>
          let via = (case prev of Some pv \<Rightarrow> pv | None \<Rightarrow> h_src (p_header p));
              cost = sat_add (rp_cost m) (Relay_link_cost_to via r);
              via_anchor = (if rp_flags m AND rrep_PROXY \<noteq> 0 then Some (h_src (p_header p)) else None);
              r = Relay_learn_route (rp_target m) via (reply_hops p m) cost Discovery via_anchor now r
          in Relay_forward_unicast c (p\<lparr>p_payload := RouteReply_encode (m\<lparr>rp_cost := cost\<rparr>)\<rparr>) prev now r)"

definition Relay_handle_route_error :: "packet \<Rightarrow> address option \<Rightarrow> relay \<Rightarrow> relay" where
  "Relay_handle_route_error p prev r =
     (case RouteError_decode (p_payload p) of
        Inl _ \<Rightarrow> tally rst_rx_bad_update r
      | Inr e \<Rightarrow>
          let via = (case prev of Some pv \<Rightarrow> pv | None \<Rightarrow> h_src (p_header p));
              k = unat (max (rt_max_failures (rlc_routing (rl_cfg r))) 1)
          in r\<lparr>rl_routes := fold (\<lambda>u rt. fst (fail_until_removed k u via rt)) (rerr_unreachable e) (rl_routes r)\<rparr>)"

subsection \<open>A received frame\<close>

definition Relay_confirm_link_ack :: "address \<Rightarrow> bytes \<Rightarrow> relay \<Rightarrow> relay" where
  "Relay_confirm_link_ack pv b r =
     (let i = from_be32 (b ! 1) (b ! 2) (b ! 3) (b ! 4);
          acked = map rh_key (filter (\<lambda>h. pk_id (rh_key h) = i \<and> rh_next_hop h = pv) (rl_hop_pending r))
      in fold (\<lambda>k. Relay_hop_confirmed k pv) acked r)"

definition Relay_on_duplicate :: "crypto \<Rightarrow> packet \<Rightarrow> address option \<Rightarrow> time \<Rightarrow> relay \<Rightarrow> relay option" where
  "Relay_on_duplicate c p prev now r =
     (let h = p_header p; me = Relay_address r;
          r = (tally rst_rx_duplicates_update r)
                \<lparr>rl_sched := fst (RebroadcastScheduler_heard (rl_sched r) (Header_key h))\<rparr>
      in if h_next_hop h = Address_short me \<and> \<not> Address_is_broadcast (h_dst h)
         then (case prev of Some pv \<Rightarrow> Relay_send_link_ack c pv (h_packet_id h) now r | None \<Rightarrow> Some r)
         else Some r)"

definition Relay_learn_reverse :: "packet \<Rightarrow> address option \<Rightarrow> time \<Rightarrow> relay \<Rightarrow> relay" where
  "Relay_learn_reverse p prev now r =
     (let src = h_src (p_header p) in
      case prev of
        None \<Rightarrow> r
      | Some pv \<Rightarrow>
          if RouteCache_lookup (rl_routes r) src now = None \<and> \<not> NeighborTable_contains (rl_neighbors r) src
          then let hops = sat_add (h_hops (p_header p)) 1;
                   cost = ucast (min (ucast hops * ucast (Relay_link_cost_to pv r)) 65535 :: u32)
               in Relay_learn_route src pv hops cost Reverse None now r
          else r)"

definition Relay_answer_trace :: "crypto \<Rightarrow> packet \<Rightarrow> time \<Rightarrow> relay \<Rightarrow> relay option" where
  "Relay_answer_trace c p now r = do {
     let src = h_src (p_header p);
     let ttl = Relay_ttl_for src r;
     (h, r) \<leftarrow> Relay_base_header Control src ttl r;
     Relay_route_unicast_ign c (Packet_new h (TRACE_REP # tl (p_payload p))) now r }"

definition Relay_dispatch :: "crypto \<Rightarrow> packet \<Rightarrow> address option \<Rightarrow> rx_meta \<Rightarrow> time \<Rightarrow> relay \<Rightarrow> relay option" where
  "Relay_dispatch c p prev meta now r =
     (let for_me = (h_dst (p_header p) = Relay_address r); bcast = Address_is_broadcast (h_dst (p_header p)) in
      case h_ptype (p_header p) of
        Beacon \<Rightarrow> Some r
      | RouteRequest \<Rightarrow> Some (if bcast then Relay_handle_route_request p prev meta now r else r)
      | RouteReply \<Rightarrow> if \<not> for_me \<and> \<not> bcast then Relay_forward_route_reply c p prev now r else Some r
      | RouteError \<Rightarrow>
          if for_me then Some (Relay_handle_route_error p prev r)
          else if \<not> bcast then Relay_forward_unicast c p prev now r else Some r
      | Data \<Rightarrow>
          if bcast then Some (Relay_maybe_relay_flood p prev meta now r)
          else if \<not> for_me then Relay_forward_unicast c p prev now r else Some r
      | Control \<Rightarrow>
          if for_me \<and> p_payload p \<noteq> [] \<and> hd (p_payload p) = TRACE_REQ then Relay_answer_trace c p now r
          else if \<not> for_me \<and> \<not> bcast then Relay_forward_unicast c p prev now r else Some r
      | _ \<Rightarrow> if \<not> for_me \<and> \<not> bcast then Relay_forward_unicast c p prev now r else Some r)"

definition Relay_rx_packet :: "crypto \<Rightarrow> packet \<Rightarrow> address option \<Rightarrow> rx_meta \<Rightarrow> time \<Rightarrow> relay \<Rightarrow> relay option" where
  "Relay_rx_packet c p prev meta now r =
     (let h = p_header p; key = Header_key h;
          r = (case prev of Some pv \<Rightarrow> if h_hops h > 0 then Relay_hop_confirmed key pv r else r | None \<Rightarrow> r);
          (seen, fresh) = (if h_ptype h \<noteq> RouteRequest then SeenCache_observe (rl_seen r) key now else (rl_seen r, True));
          r = r\<lparr>rl_seen := seen\<rparr>
      in if \<not> fresh then Relay_on_duplicate c p prev now r
         else Relay_dispatch c p prev meta now (Relay_learn_reverse p prev now r))"

definition Relay_on_radio_rx :: "crypto \<Rightarrow> bytes \<Rightarrow> rx_meta \<Rightarrow> relay \<Rightarrow> relay option" where
  "Relay_on_radio_rx c frame meta r =
     (let r = r\<lparr>rl_now := max (rl_now r) (rm_timestamp_ms meta)\<rparr>; now = rl_now r; me = Relay_address r;
          r = tally rst_rx_packets_update r
      in do {
         airtime \<leftarrow> LoRaProfile_airtime_ms (rlc_profile (rl_cfg r)) (length frame);
         let r = r\<lparr>rl_airtime_ms := rl_airtime_ms r + ucast airtime\<rparr>;
         case Packet_decode c frame (rlc_network_key (rl_cfg r)) (rlc_max_ttl (rl_cfg r)) of
           Inl _ \<Rightarrow> Some (tally rst_rx_bad_update r)
         | Inr p \<Rightarrow>
             let h = p_header p; src = h_src h in
             if src = me then Some r
             else let prev = (if h_hops h = 0 then Some src
                              else map_option nb_addr (NeighborTable_resolve_short (rl_neighbors r) (h_relay h)));
                      r = (case prev of
                             Some pv \<Rightarrow> r\<lparr>rl_neighbors := NeighborTable_observe_packet now pv meta (rl_neighbors r)\<rparr>
                           | None \<Rightarrow> r)
                  in if h_ptype h = Beacon then Relay_handle_beacon c p meta now r
                     else if h_dst h = me \<and> is_link_ack p
                     then Some (case prev of Some pv \<Rightarrow> Relay_confirm_link_ack pv (p_payload p) r | None \<Rightarrow> r)
                     else Relay_rx_packet c p prev meta now r })"

subsection \<open>Beacon and housekeeping\<close>

definition Relay_schedule_beacon :: "time \<Rightarrow> relay \<Rightarrow> relay" where
  "Relay_schedule_beacon now r =
     (let ncount = NeighborTable_len (rl_neighbors r);
          mult = (if ncount \<noteq> rl_last_neighbor_count r then 1 else 2);
          base = nc_beacon_interval_ms (rlc_neighbor (rl_cfg r)) * mult;
          (draw, r) = Relay_next_u64 (r\<lparr>rl_last_neighbor_count := ncount\<rparr>);
          jitter = draw mod max (nc_beacon_jitter_ms (rlc_neighbor (rl_cfg r))) 1
      in r\<lparr>rl_next_beacon := now + base + jitter, rl_last_beacon_at := now, rl_beacon_seq := rl_beacon_seq r + 1\<rparr>)"

definition Relay_beacon :: "crypto \<Rightarrow> time \<Rightarrow> u32 \<Rightarrow> relay \<Rightarrow> beacon" where
  "Relay_beacon c now sent r =
     (let b = Beacon_short Normal (rl_beacon_seq r) (zt_radius (rl_zone r))
                (of_nat (min (NeighborTable_len (rl_neighbors r)) 255));
          b = (if sent mod max (ucast (nc_full_beacon_every (rlc_neighbor (rl_cfg r)))) 1 = 0
               then RelayIdentity_sign_beacon c (ucast (now div 1000)) (rl_id r) b else b)
      in b\<lparr>bc_sleep_interval_s := ucast (min (div_ceil_u64 (rl_next_beacon r - now) 1000) 65535),
           bc_attached := take 4 (map nb_addr (NeighborTable_hosted_leaves (rl_neighbors r)))\<rparr>)"

definition Relay_send_beacon :: "crypto \<Rightarrow> time \<Rightarrow> relay \<Rightarrow> relay option" where
  "Relay_send_beacon c now r = do {
     let r = Relay_schedule_beacon now r;
     let sent = rl_beacons_sent r;
     let r = tally rst_beacons_sent_update (r\<lparr>rl_beacons_sent := sent + 1\<rparr>);
     let budget = max_payload (rlc_network_key (rl_cfg r) \<noteq> None);
     let b = (Relay_beacon c now sent r)\<lparr>bc_zone :=
               ZoneTable_advertisement (zc_max_advertised_entries (rlc_zrp (rl_cfg r))) (rl_beacons_sent r) (rl_zone r)\<rparr>;
     let b = trim_attached budget (trim_zone budget b);
     (h, r) \<leftarrow> Relay_base_header Beacon BROADCAST 1 r;
     Some (snd (Relay_enqueue c (Packet_new h (Beacon_encode b)) now prio_BEACON False r)) }"

definition Relay_lost_neighbor :: "address \<Rightarrow> relay \<Rightarrow> relay" where
  "Relay_lost_neighbor a r =
     r\<lparr>rl_zone := fst (ZoneTable_remove_via a (rl_zone r)),
       rl_routes := fst (RouteCache_invalidate_via (rl_routes r) a)\<rparr>"

definition Relay_housekeeping :: "time \<Rightarrow> relay \<Rightarrow> relay" where
  "Relay_housekeeping now r =
     (let r = r\<lparr>rl_last_housekeeping := now, rl_seen := SeenCache_expire (rl_seen r) now,
                rl_ierp := Ierp_expire now (rl_ierp r), rl_routes := fst (RouteCache_expire (rl_routes r) now),
                rl_zone := fst (ZoneTable_expire now (rl_zone r))\<rparr>;
          (t, dead) = NeighborTable_expire now (rl_neighbors r);
          r = fold Relay_lost_neighbor dead (r\<lparr>rl_neighbors := t\<rparr>)
      in r\<lparr>rl_airtime_ms := sat_sub (rl_airtime_ms r) (rl_airtime_ms r div 64 + 1),
           rl_held := filter (\<lambda>(_, _, exp). exp > now) (rl_held r),
           rl_tx_queue := filter (\<lambda>i. sat_sub now (ti_not_before i) < 60000) (rl_tx_queue r)\<rparr>)"

subsection \<open>Hop retransmissions\<close>

definition Relay_hop_failed :: "relay_hop \<Rightarrow> relay \<Rightarrow> relay" where
  "Relay_hop_failed h r =
     (let r = tally rst_hop_failures_update r in
      case NeighborTable_record_failure (rh_next_hop h) (rl_neighbors r) of (t, dead) \<Rightarrow>
        let r = r\<lparr>rl_neighbors := t\<rparr> in
        if dead then r\<lparr>rl_routes := fst (RouteCache_invalidate_via (rl_routes r) (rh_next_hop h))\<rparr>
        else r\<lparr>rl_routes := fst (RouteCache_mark_failure (rl_routes r) (h_dst (p_header (rh_packet h))) (rh_next_hop h))\<rparr>)"

fun Relay_mark_rerouted :: "packet_key \<Rightarrow> relay_hop list \<Rightarrow> relay_hop list" where
  "Relay_mark_rerouted key [] = []"
| "Relay_mark_rerouted key (x # xs) =
     (if rh_key x = key then x\<lparr>rh_rerouted := True\<rparr> # xs else x # Relay_mark_rerouted key xs)"

definition Relay_reroute_hop :: "relay_hop \<Rightarrow> time \<Rightarrow> relay \<Rightarrow> address option" where
  "Relay_reroute_hop h now r =
     (if rh_rerouted h then None
      else case Relay_next_hop_for (h_dst (p_header (rh_packet h))) now r of
        Some alt \<Rightarrow> if alt \<noteq> rh_next_hop h then Some alt else None
      | None \<Rightarrow> None)"

definition Relay_hop_reroute :: "crypto \<Rightarrow> time \<Rightarrow> relay_hop \<Rightarrow> address \<Rightarrow> relay \<Rightarrow> relay option" where
  "Relay_hop_reroute c now h alt r = do {
     let p = (rh_packet h)\<lparr>p_header := (p_header (rh_packet h))\<lparr>h_next_hop := Address_short alt\<rparr>\<rparr>;
     r \<leftarrow> Relay_track_hop p alt now r;
     let r = r\<lparr>rl_hop_pending := Relay_mark_rerouted (Header_key (p_header p)) (rl_hop_pending r)\<rparr>;
     Some (snd (Relay_enqueue c p now prio_DATA True r)) }"

definition Relay_hop_give_up :: "crypto \<Rightarrow> time \<Rightarrow> nat \<Rightarrow> relay \<Rightarrow> relay option" where
  "Relay_hop_give_up c now i r =
     (let h = rl_hop_pending r ! i;
          r = Relay_hop_failed h (r\<lparr>rl_hop_pending := remove_at i (rl_hop_pending r)\<rparr>)
      in case Relay_reroute_hop h now r of
           Some alt \<Rightarrow> Relay_hop_reroute c now h alt r
         | None \<Rightarrow> Relay_send_route_error c (h_src (p_header (rh_packet h))) (h_dst (p_header (rh_packet h))) now r)"

definition Relay_hop_resend :: "crypto \<Rightarrow> time \<Rightarrow> nat \<Rightarrow> relay \<Rightarrow> relay option" where
  "Relay_hop_resend c now i r = do {
     let h = rl_hop_pending r ! i;
     timeout \<leftarrow> Relay_hop_timeout (rl_cfg r) (Packet_wire_len (rh_packet h));
     let r = r\<lparr>rl_neighbors := NeighborTable_update (rh_next_hop h) Neighbor_record_tx_attempt (rl_neighbors r)\<rparr>;
     let (draw, r) = Relay_next_u64 r;
     let jitter = draw mod 300;
     let due = now + timeout + jitter;
     let r = r\<lparr>rl_hop_pending := (rl_hop_pending r)[i := h\<lparr>rh_attempts := rh_attempts h + 1, rh_due := due\<rparr>]\<rparr>;
     let r = tally rst_hop_retransmissions_update r;
     Some (snd (Relay_enqueue c (rh_packet h) (now + jitter) prio_DATA True r)) }"

text \<open>
  The loop appends to the list it walks. Every entry that is given up leaves at most one entry of a
  smaller weight: a packet of others is rerouted once and then answered with an error of the relay's
  own, and an own packet is rerouted once and then dropped.
\<close>

definition hop_weight :: "address \<Rightarrow> relay_hop \<Rightarrow> nat" where
  "hop_weight me h = 1 + (if rh_rerouted h then 0 else 1) + (if h_src (p_header (rh_packet h)) = me then 0 else 2)"

definition hops_weight :: "nat \<Rightarrow> relay \<Rightarrow> nat" where
  "hops_weight i r = sum_list (map (hop_weight (Relay_address r)) (drop i (rl_hop_pending r)))"

lemma relay_hops_simps [simp]:
  "rl_hop_pending (tally f r) = rl_hop_pending r" "rl_id (tally f r) = rl_id r"
  "rl_hop_pending (snd (Relay_enqueue c p t pr b r)) = rl_hop_pending r" "rl_id (snd (Relay_enqueue c p t pr b r)) = rl_id r"
  "rl_hop_pending (Relay_hop_failed h r) = rl_hop_pending r" "rl_id (Relay_hop_failed h r) = rl_id r"
  by (simp_all add: tally_def Relay_enqueue_def Relay_hop_failed_def Let_def
      split: sum.split option.split prod.split)

lemma Relay_address_id: "rl_id r' = rl_id r \<Longrightarrow> Relay_address r' = Relay_address r"
  by (simp add: Relay_address_def)

lemma drop_filter_append_weight:
  "sum_list (map f (drop i (filter P l @ [x]))) \<le> sum_list (map f (drop i l)) + f x" for f :: "'a \<Rightarrow> nat"
proof -
  have le: "sum_list (map f (drop k (filter P m))) \<le> sum_list (map f m)" for k m
  proof (induction m arbitrary: k)
    case (Cons a m)
    show ?case using Cons [of k] Cons [of "k - 1"] by (cases k) auto
  qed simp
  have len: "length (filter P (take i l)) \<le> i"
    using length_filter_le [of P "take i l"] by simp
  have split: "filter P l = filter P (take i l) @ filter P (drop i l)"
    by (metis append_take_drop_id filter_append)
  have "drop i (filter P l) = drop (i - length (filter P (take i l))) (filter P (drop i l))"
    unfolding split using len by simp
  then have "sum_list (map f (drop i (filter P l))) \<le> sum_list (map f (drop i l))" by (simp add: le)
  moreover have "sum_list (map f (drop j [x])) \<le> f x" for j by (cases j) simp_all
  ultimately show ?thesis by (simp add: add_mono)
qed

lemma track_hop_hops:
  assumes "Relay_track_hop p nh now r = Some r'"
  obtains due where "rl_id r' = rl_id r" "rl_hop_pending r' =
     (if rlc_hop_retries (rl_cfg r) = 0 \<or> length (rl_hop_pending r) \<ge> rlc_max_hop_pending (rl_cfg r) then rl_hop_pending r
      else filter (\<lambda>h. rh_key h \<noteq> Header_key (p_header p)) (rl_hop_pending r) @
        [\<lparr>rh_key = Header_key (p_header p), rh_next_hop = nh, rh_packet = p, rh_attempts = 1, rh_due = due, rh_rerouted = False\<rparr>])"
  using assms that by (auto simp: Relay_track_hop_def Relay_next_u64_def Let_def split: if_splits bind_splits)

lemma mark_rerouted_weight:
  "sum_list (map (hop_weight me) (drop i (Relay_mark_rerouted key hs))) \<le> sum_list (map (hop_weight me) (drop i hs))"
proof (induction hs arbitrary: i)
  case (Cons h hs)
  show ?case using Cons [of 0] Cons [of "i - 1"] by (cases i) (auto simp: hop_weight_def)
qed simp

lemma mark_rerouted_last:
  "\<forall>x \<in> set hs. rh_key x \<noteq> key \<Longrightarrow> rh_key h = key \<Longrightarrow>
   Relay_mark_rerouted key (hs @ [h]) = hs @ [h\<lparr>rh_rerouted := True\<rparr>]"
  by (induction hs) auto

lemma track_hop_weight:
  assumes "Relay_track_hop p nh now r = Some r'"
  shows "hops_weight i r' \<le> hops_weight i r + (if h_src (p_header p) = Relay_address r then 2 else 4)"
proof -
  let ?me = "Relay_address r"
  obtain due where same: "rl_id r' = rl_id r" and due: "rl_hop_pending r' =
     (if rlc_hop_retries (rl_cfg r) = 0 \<or> length (rl_hop_pending r) \<ge> rlc_max_hop_pending (rl_cfg r) then rl_hop_pending r
      else filter (\<lambda>h. rh_key h \<noteq> Header_key (p_header p)) (rl_hop_pending r) @
        [\<lparr>rh_key = Header_key (p_header p), rh_next_hop = nh, rh_packet = p, rh_attempts = 1, rh_due = due, rh_rerouted = False\<rparr>])"
    by (rule track_hop_hops [OF assms])
  have me: "Relay_address r' = ?me" using same by (rule Relay_address_id)
  let ?new = "\<lparr>rh_key = Header_key (p_header p), rh_next_hop = nh, rh_packet = p, rh_attempts = 1, rh_due = due, rh_rerouted = False\<rparr>"
  have "hop_weight ?me ?new = (if h_src (p_header p) = ?me then 2 else 4)" by (simp add: hop_weight_def)
  then show ?thesis
    using drop_filter_append_weight [of "hop_weight ?me" i "\<lambda>h. rh_key h \<noteq> Header_key (p_header p)" "rl_hop_pending r" ?new]
    unfolding hops_weight_def me due by (cases "rlc_hop_retries (rl_cfg r) = 0 \<or> length (rl_hop_pending r) \<ge> rlc_max_hop_pending (rl_cfg r)") simp_all
qed

lemma reroute_weight:
  assumes "\<not> rh_rerouted h" and up: "Relay_hop_reroute c now h alt r = Some r'"
  shows "hops_weight i r' < hops_weight i r + hop_weight (Relay_address r) h"
proof -
  let ?p = "(rh_packet h)\<lparr>p_header := (p_header (rh_packet h))\<lparr>h_next_hop := Address_short alt\<rparr>\<rparr>"
  let ?k = "Header_key (p_header (rh_packet h))" and ?me = "Relay_address r"
  have key: "Header_key (p_header ?p) = ?k" by simp
  obtain r1 where r1: "Relay_track_hop ?p alt now r = Some r1" and hops: "rl_hop_pending r' = Relay_mark_rerouted ?k (rl_hop_pending r1)"
      and id: "rl_id r' = rl_id r1"
    using up by (auto simp: Relay_hop_reroute_def Let_def split: bind_splits)
  obtain due where same: "rl_id r1 = rl_id r" and due: "rl_hop_pending r1 =
     (if rlc_hop_retries (rl_cfg r) = 0 \<or> length (rl_hop_pending r) \<ge> rlc_max_hop_pending (rl_cfg r) then rl_hop_pending r
      else filter (\<lambda>h. rh_key h \<noteq> ?k) (rl_hop_pending r) @
        [\<lparr>rh_key = ?k, rh_next_hop = alt, rh_packet = ?p, rh_attempts = 1, rh_due = due, rh_rerouted = False\<rparr>])"
    by (rule track_hop_hops [OF r1, unfolded key])
  have me: "Relay_address r' = ?me" using id same by (simp add: Relay_address_def)
  show ?thesis
  proof (cases "rlc_hop_retries (rl_cfg r) = 0 \<or> length (rl_hop_pending r) \<ge> rlc_max_hop_pending (rl_cfg r)")
    case True
    then have "hops_weight i r' \<le> hops_weight i r"
      using mark_rerouted_weight by (simp add: hops_weight_def me hops due)
    then show ?thesis by (simp add: hop_weight_def)
  next
    case False
    let ?new = "\<lparr>rh_key = ?k, rh_next_hop = alt, rh_packet = ?p, rh_attempts = 1, rh_due = due, rh_rerouted = True\<rparr>"
    have "rl_hop_pending r' = filter (\<lambda>h. rh_key h \<noteq> ?k) (rl_hop_pending r) @ [?new]"
      using False by (simp add: hops due mark_rerouted_last)
    then have "hops_weight i r' \<le> hops_weight i r + hop_weight ?me ?new"
      using drop_filter_append_weight [of "hop_weight ?me" i "\<lambda>h. rh_key h \<noteq> ?k" "rl_hop_pending r" ?new]
      by (simp add: hops_weight_def me)
    also have "hop_weight ?me ?new < hop_weight ?me h" using assms(1) by (simp add: hop_weight_def)
    finally show ?thesis by simp
  qed
qed

lemma base_header_frame:
  assumes "Relay_base_header pt dst ttl r = Some (h, r')"
  shows "rl_hop_pending r' = rl_hop_pending r" "rl_id r' = rl_id r" "h_src h = Relay_address r"
  using assms by (auto simp: Relay_base_header_def Relay_new_packet_id_def Relay_address_def Header_new_def Header_set_def Let_def
      split: if_splits)

lemma route_unicast_weight:
  assumes "Relay_route_unicast_ign c p now r = Some r'"
  shows "rl_id r' = rl_id r \<and> hops_weight i r' \<le> hops_weight i r + (if h_src (p_header p) = Relay_address r then 2 else 4)"
proof (cases "Relay_next_hop_for (h_dst (p_header p)) now r")
  case None
  then show ?thesis using assms by (simp add: Relay_route_unicast_ign_def Relay_route_unicast_def)
next
  case (Some nh)
  define q where "q = p\<lparr>p_header := (p_header p)\<lparr>h_next_hop := Address_short nh, h_relay := Address_short (Relay_address r)\<rparr>\<rparr>"
  define r1 where "r1 = r\<lparr>rl_routes := RouteCache_touch (rl_routes r) (h_dst (p_header p)) nh now\<rparr>"
  obtain r2 pr where r2: "Relay_track_hop q nh now r1 = Some r2" and r': "r' = snd (Relay_enqueue c q now pr True r2)"
    using assms by (auto simp: Relay_route_unicast_ign_def Relay_route_unicast_def Some q_def r1_def Let_def split_beta
        split: bind_splits)
  have id: "rl_id r2 = rl_id r" by (rule track_hop_hops [OF r2]) (simp add: r1_def)
  have "hops_weight i r' = hops_weight i r2" by (simp add: r' hops_weight_def Relay_address_def)
  also have "\<dots> \<le> hops_weight i r1 + (if h_src (p_header q) = Relay_address r1 then 2 else 4)" by (rule track_hop_weight [OF r2])
  finally show ?thesis using id by (simp add: r' q_def r1_def hops_weight_def Relay_address_def)
qed

lemma send_route_error_weight:
  assumes "Relay_send_route_error c to u now r = Some r'"
  shows "hops_weight i r' \<le> hops_weight i r + (if to = Relay_address r then 0 else 2)"
proof (cases "to = Relay_address r \<or> Relay_next_hop_for to now r = None")
  case True
  then show ?thesis using assms by (auto simp: Relay_send_route_error_def)
next
  case False
  let ?p = "\<lambda>h. Packet_new h (RouteError_encode \<lparr>rerr_unreachable = [u]\<rparr>)"
  obtain h r1 where h: "Relay_base_header RouteError to (Relay_ttl_for to r) r = Some (h, r1)"
      "Relay_route_unicast_ign c (?p h) now r1 = Some r'"
    using False assms by (auto simp: Relay_send_route_error_def bind_eq_Some_conv)
  have "hops_weight i r1 = hops_weight i r" "Relay_address r1 = Relay_address r"
    using base_header_frame [OF h(1)] by (simp_all add: hops_weight_def Relay_address_def)
  then show ?thesis
    using False base_header_frame [OF h(1)] route_unicast_weight [OF h(2), of i] by (simp add: Packet_new_def)
qed

lemma hop_give_up_weight:
  assumes i: "i < length (rl_hop_pending r)" and up: "Relay_hop_give_up c now i r = Some r'"
  shows "hops_weight i r' < hops_weight i r"
proof -
  define h where "h = rl_hop_pending r ! i"
  define r1 where "r1 = Relay_hop_failed h (r\<lparr>rl_hop_pending := remove_at i (rl_hop_pending r)\<rparr>)"
  have me: "Relay_address r1 = Relay_address r" by (rule Relay_address_id) (simp add: r1_def)
  have w: "hops_weight i r = hop_weight (Relay_address r) h + hops_weight i r1"
    unfolding hops_weight_def me using Cons_nth_drop_Suc [OF i, symmetric] drop_remove_at [OF i] by (simp add: r1_def h_def)
  show ?thesis
  proof (cases "Relay_reroute_hop h now r1")
    case None
    then have err: "Relay_send_route_error c (h_src (p_header (rh_packet h))) (h_dst (p_header (rh_packet h))) now r1 = Some r'"
      using up by (simp add: Relay_hop_give_up_def Let_def h_def r1_def)
    show ?thesis using send_route_error_weight [OF err, of i] w me by (simp add: hop_weight_def split: if_splits)
  next
    case (Some alt)
    then have "\<not> rh_rerouted h" "Relay_hop_reroute c now h alt r1 = Some r'"
      using up by (auto simp: Relay_hop_give_up_def Relay_reroute_hop_def Let_def h_def r1_def split: if_splits)
    then show ?thesis using reroute_weight [of h c now alt r1 r' i] w me by simp
  qed
qed

lemma hop_resend_weight: "Relay_hop_resend c now i r = Some r' \<Longrightarrow> hops_weight (Suc i) r' = hops_weight (Suc i) r"
  by (auto simp: Relay_hop_resend_def Relay_next_u64_def Let_def hops_weight_def Relay_address_def split: bind_splits)

lemma hops_weight_Suc: "i < length (rl_hop_pending r) \<Longrightarrow> hops_weight (Suc i) r < hops_weight i r"
  unfolding hops_weight_def by (subst (2) Cons_nth_drop_Suc [symmetric]) (simp_all add: hop_weight_def)

function Relay_hop_loop :: "crypto \<Rightarrow> time \<Rightarrow> u8 \<Rightarrow> nat \<Rightarrow> relay \<Rightarrow> relay option" where
  "Relay_hop_loop c now max_retries i r =
     (if i < length (rl_hop_pending r)
      then if rh_due (rl_hop_pending r ! i) > now then Relay_hop_loop c now max_retries (Suc i) r
           else if rh_attempts (rl_hop_pending r ! i) > max_retries
           then do { r \<leftarrow> Relay_hop_give_up c now i r; Relay_hop_loop c now max_retries i r }
           else do { r \<leftarrow> Relay_hop_resend c now i r; Relay_hop_loop c now max_retries (Suc i) r }
      else Some r)"
  by pat_completeness auto
termination
  by (relation "measure (\<lambda>(_, _, _, i, r). hops_weight i r)")
    (auto simp: hop_give_up_weight hop_resend_weight hops_weight_Suc)

declare Relay_hop_loop.simps [simp del]

subsection \<open>Timers\<close>

definition Relay_poll_relays :: "crypto \<Rightarrow> time \<Rightarrow> relay \<Rightarrow> relay" where
  "Relay_poll_relays c now r =
     (case RebroadcastScheduler_due (rl_sched r) now (st_counter_threshold (rlc_storm (rl_cfg r))) of (sc, due) \<Rightarrow>
        fold (\<lambda>(key, p) r.
            let r = r\<lparr>rl_seen := SeenCache_mark_forwarded (rl_seen r) key\<rparr>;
                p = p\<lparr>p_header := (p_header p)\<lparr>h_relay := Address_short (Relay_address r)\<rparr>\<rparr>
            in snd (Relay_enqueue c p now prio_RELAY True r)) due (r\<lparr>rl_sched := sc\<rparr>))"

definition Relay_repair_failed :: "crypto \<Rightarrow> time \<Rightarrow> address \<Rightarrow> packet list \<Rightarrow> relay \<Rightarrow> relay option" where
  "Relay_repair_failed c now target queued r =
     ofold (\<lambda>q. Relay_send_route_error c (h_src (p_header q)) target now) queued r"

definition Relay_poll_repairs :: "crypto \<Rightarrow> time \<Rightarrow> relay \<Rightarrow> relay option" where
  "Relay_poll_repairs c now r =
     (case Ierp_tick now (smap ucast (rl_rng r)) (rl_ierp r) of (ie, _, retries, failures) \<Rightarrow> do {
        let r = r\<lparr>rl_ierp := ie, rl_rng := sdrop (length retries) (rl_rng r)\<rparr>;
        r \<leftarrow> ofold (\<lambda>(target, req_id, ttl). Relay_send_route_request c target req_id ttl now) retries r;
        ofold (\<lambda>(target, queued). Relay_repair_failed c now target queued) failures r })"

definition Relay_flush_repaired :: "crypto \<Rightarrow> time \<Rightarrow> address \<Rightarrow> relay \<Rightarrow> relay option" where
  "Relay_flush_repaired c now t r =
     (case Ierp_succeed t now (rl_ierp r) of (ie, queued) \<Rightarrow>
        ofold (\<lambda>q. Relay_route_unicast_ign c q now) queued (r\<lparr>rl_ierp := ie\<rparr>))"

definition Relay_poll_repaired :: "crypto \<Rightarrow> time \<Rightarrow> relay \<Rightarrow> relay option" where
  "Relay_poll_repaired c now r =
     (let repaired = filter (\<lambda>t. Relay_next_hop_for t now r \<noteq> None) (map fst (ie_pending (rl_ierp r)))
      in ofold (Relay_flush_repaired c now) repaired r)"

definition Relay_poll :: "crypto \<Rightarrow> time \<Rightarrow> relay \<Rightarrow> relay option" where
  "Relay_poll c t r = do {
     let r = r\<lparr>rl_now := max (rl_now r) t\<rparr>;
     let now = rl_now r;
     r \<leftarrow> (if now \<ge> rl_next_beacon r then Relay_send_beacon c now r else Some r);
     let r = Relay_poll_relays c now r;
     r \<leftarrow> Relay_hop_loop c now (rlc_hop_retries (rl_cfg r)) 0 r;
     r \<leftarrow> Relay_poll_repairs c now r;
     r \<leftarrow> Relay_poll_repaired c now r;
     Some (if sat_sub now (rl_last_housekeeping r) \<ge> 1000 then Relay_housekeeping now r else r) }"

end
