(* ===== verification/Ensures.thy ===== *)
theory Ensures
  imports Prelude "HOL-Library.Monad_Syntax"
begin

section \<open>Reasoning about methods\<close>

text \<open>
  \<open>ensures E I g x\<close>: the value \<open>x\<close> of a method, from which \<open>g\<close> takes the state, is one whose state
  satisfies \<open>I\<close>; in particular the method returned, unless \<open>E\<close>, which excuses a panic. The rules \<open>vc\<close> follow the structure of the body of
  a method; a \<open>let\<close> or a bind of a state hides it behind its invariant. The order of the rules
  matters: those that know of a state come first.
\<close>

definition ensures :: "bool \<Rightarrow> ('s \<Rightarrow> bool) \<Rightarrow> ('a \<Rightarrow> 's option) \<Rightarrow> 'a \<Rightarrow> bool" where
  "ensures E I g x \<longleftrightarrow> (case g x of Some s \<Rightarrow> I s | None \<Rightarrow> E)"

lemma ensures_simps [simp]:
  "ensures E I (\<lambda>r. r) (Some n) = I n" "ensures E I (map_option snd) (Some p) = I (snd p)"
  "ensures E I (\<lambda>p. Some (snd p)) p = I (snd p)" "ensures E I Some n = I n"
  by (simp_all add: ensures_def)

lemma ensuresD: "ensures E I (\<lambda>p. Some (snd p)) p \<Longrightarrow> I (snd p)" "ensures E I Some n \<Longrightarrow> I n"
  by simp_all

lemma vc_if: "(b \<Longrightarrow> ensures E I g x) \<Longrightarrow> (\<not> b \<Longrightarrow> ensures E I g y) \<Longrightarrow> ensures E I g (if b then x else y)"
  by simp

lemma vc_opt: "(x = None \<Longrightarrow> ensures E I g a) \<Longrightarrow> (\<And>y. x = Some y \<Longrightarrow> ensures E I g (f y)) \<Longrightarrow>
    ensures E I g (case x of None \<Rightarrow> a | Some y \<Rightarrow> f y)"
  by (cases x) simp_all

lemma vc_sum: "(\<And>e. x = Inl e \<Longrightarrow> ensures E I g (f e)) \<Longrightarrow> (\<And>y. x = Inr y \<Longrightarrow> ensures E I g (h y)) \<Longrightarrow>
    ensures E I g (case x of Inl e \<Rightarrow> f e | Inr y \<Rightarrow> h y)"
  by (cases x) simp_all

lemma vc_bool: "(b \<Longrightarrow> ensures E I g x) \<Longrightarrow> (\<not> b \<Longrightarrow> ensures E I g y) \<Longrightarrow> ensures E I g (case b of True \<Rightarrow> x | False \<Rightarrow> y)"
  by (cases b) simp_all

lemma vc_list: "(xs = [] \<Longrightarrow> ensures E I g a) \<Longrightarrow> (\<And>y ys. xs = y # ys \<Longrightarrow> ensures E I g (f y ys)) \<Longrightarrow>
    ensures E I g (case xs of [] \<Rightarrow> a | y # ys \<Rightarrow> f y ys)"
  by (cases xs) simp_all

lemma vc_let_state:
  "ensures E I Some x \<Longrightarrow> (\<And>n. I n \<Longrightarrow> ensures E I g (f n)) \<Longrightarrow> ensures E I g (Let x f)"
  by simp

lemma vc_prod_state:
  "ensures E I (\<lambda>p. Some (snd p)) x \<Longrightarrow> (\<And>a n. I n \<Longrightarrow> ensures E I g (f a n)) \<Longrightarrow>
   ensures E I g (case x of (a, n) \<Rightarrow> f a n)"
  by (cases x) simp

lemma vc_bind_state:
  "ensures E I (\<lambda>r. r) r \<Longrightarrow> (\<And>n. I n \<Longrightarrow> ensures E I (\<lambda>r. r) (f n)) \<Longrightarrow> ensures E I (\<lambda>r. r) (r \<bind> f)"
  "ensures E I (\<lambda>r. r) r \<Longrightarrow> (\<And>n. I n \<Longrightarrow> ensures E I (map_option snd) (h n)) \<Longrightarrow>
   ensures E I (map_option snd) (r \<bind> h)"
  by (cases r; simp add: ensures_def)+

lemma vc_bind_pair:
  "ensures E I (map_option snd) r \<Longrightarrow> (\<And>a n. I n \<Longrightarrow> ensures E I (\<lambda>r. r) (f a n)) \<Longrightarrow>
   ensures E I (\<lambda>r. r) (r \<bind> (\<lambda>(a, n). f a n))"
  "ensures E I (map_option snd) r \<Longrightarrow> (\<And>a n. I n \<Longrightarrow> ensures E I (map_option snd) (h a n)) \<Longrightarrow>
   ensures E I (map_option snd) (r \<bind> (\<lambda>(a, n). h a n))"
  by (cases r; auto simp: ensures_def)+

lemma vc_bind_eq:
  "ensures E I (\<lambda>r. r) r \<Longrightarrow> (\<And>n. r = Some n \<Longrightarrow> I n \<Longrightarrow> ensures E I (\<lambda>r. r) (f n)) \<Longrightarrow>
   ensures E I (\<lambda>r. r) (r \<bind> f)"
  by (cases r) (simp_all add: ensures_def)

lemma vc_bind_opt:
  "(x = None \<Longrightarrow> E) \<Longrightarrow> (\<And>y. x = Some y \<Longrightarrow> ensures E I (\<lambda>r. r) (f y)) \<Longrightarrow> ensures E I (\<lambda>r. r) (x \<bind> f)"
  "(x = None \<Longrightarrow> E) \<Longrightarrow> (\<And>y. x = Some y \<Longrightarrow> ensures E I (map_option snd) (h y)) \<Longrightarrow>
   ensures E I (map_option snd) (x \<bind> h)"
  by (cases x; simp add: ensures_def)+

lemma vc_let: "ensures E I g (f x) \<Longrightarrow> ensures E I g (Let x f)"
  by simp

lemma vc_prod: "ensures E I g (f (fst x) (snd x)) \<Longrightarrow> ensures E I g (case x of (a, b) \<Rightarrow> f a b)"
  by (cases x) simp

lemma vc_prod_app: "ensures E I g (f (fst x) (snd x) y) \<Longrightarrow> ensures E I g ((case x of (a, b) \<Rightarrow> f a b) y)"
  by (cases x) simp

lemma vc_leaf:
  "ensures E I Some n \<Longrightarrow> ensures E I (\<lambda>r. r) (Some n)" "ensures E I (\<lambda>p. Some (snd p)) p \<Longrightarrow> ensures E I (map_option snd) (Some p)"
  "ensures E I Some n \<Longrightarrow> ensures E I (\<lambda>p. Some (snd p)) (a, n)" "I n \<Longrightarrow> ensures E I Some n"
  "I (snd p) \<Longrightarrow> ensures E I (\<lambda>p. Some (snd p)) p"
  by simp_all

lemmas vc = vc_if vc_opt vc_sum vc_bool vc_list vc_let_state vc_prod_state vc_bind_state vc_bind_pair
  vc_let vc_prod vc_prod_app vc_leaf

lemma ensures_ofold:
  assumes "\<And>x n. x \<in> set xs \<Longrightarrow> I n \<Longrightarrow> ensures E I (\<lambda>r. r) (f x n)" "I n"
  shows "ensures E I (\<lambda>r. r) (ofold f xs n)"
  using assms
proof (induction xs arbitrary: n)
  case (Cons x xs)
  then have "ensures E I (\<lambda>r. r) (f x n)" by simp
  then show ?case using Cons by (auto intro: vc_bind_state)
qed simp

lemma fold_invariant_rule:
  "(\<And>x n. x \<in> set xs \<Longrightarrow> I n \<Longrightarrow> I (f x n)) \<Longrightarrow> I n \<Longrightarrow> I (fold f xs n)"
  by (induction xs arbitrary: n) simp_all

end
