(* ===== verification/Node_Inv.thy ===== *)
theory Node_Inv
  imports Node Ensures
begin

section \<open>The invariant of the node\<close>

text \<open>
  What holds between two calls of a node: the invariant of each component, under the limits of the
  configuration the node was created with; the bounds of the queues of the node itself; and the keys: every
  entry of the key directory and every session is filed under the address that its public key
  hashes to. Each method is shown to return and to keep it.
\<close>

subsection \<open>The components within the limits of the configuration\<close>

named_theorems fine

definition nt_fine :: "crypto \<Rightarrow> node_config \<Rightarrow> neighbor_table \<Rightarrow> bool" where
  "nt_fine c cfg t \<longleftrightarrow> nt_inv c t \<and> nt_cfg t = ncf_neighbor cfg"

definition zt_fine :: "node_config \<Rightarrow> zone_table \<Rightarrow> bool" where
  "zt_fine cfg z \<longleftrightarrow> zt_inv z \<and> zt_max_entries z = zc_max_zone_entries (ncf_zrp cfg)"

definition rt_fine :: "node_config \<Rightarrow> route_cache \<Rightarrow> bool" where
  "rt_fine cfg r \<longleftrightarrow> rt_inv r \<and> rt_cfg r = ncf_routing cfg \<and> RoutingConfig_ok (ncf_routing cfg)"

definition ie_fine :: "node_config \<Rightarrow> ierp \<Rightarrow> bool" where
  "ie_fine cfg s \<longleftrightarrow> ie_inv s \<and> ie_cfg s = ncf_zrp cfg"

definition tr_fine :: "node_config \<Rightarrow> transport \<Rightarrow> bool" where
  "tr_fine cfg t \<longleftrightarrow> tr_inv t \<and> t_cfg t = ncf_transport cfg"

definition mb_fine :: "node_config \<Rightarrow> mailbox option \<Rightarrow> bool" where
  "mb_fine cfg mo \<longleftrightarrow> pred_option mb_inv mo \<and> map_option mb_cfg mo = map_option mb_cfg (Node_mailbox cfg)"

definition ra_fine :: "node_config \<Rightarrow> reassembler \<Rightarrow> bool" where
  "ra_fine cfg r \<longleftrightarrow> ra_inv r \<and> ra_cfg r = ncf_reassembly cfg"

definition sc_fine :: "node_config \<Rightarrow> seen_cache \<Rightarrow> bool" where
  "sc_fine cfg s \<longleftrightarrow> sc_inv s \<and> sc_cap s = max (st_seen_cache_size (ncf_storm cfg)) 1"

definition rs_fine :: "node_config \<Rightarrow> rebroadcast_scheduler \<Rightarrow> bool" where
  "rs_fine cfg s \<longleftrightarrow> length (rs_pending s) \<le> st_max_pending (ncf_storm cfg)"

definition pr_fine :: "pending_replies \<Rightarrow> bool" where
  "pr_fine r \<longleftrightarrow> length (pr_items r) \<le> 16"

text \<open>Neighbours.\<close>

lemma nt_step_cfg [simp]: "nt_cfg (nt_step c op t) = nt_cfg t"
  by (cases op)
    (auto simp: NeighborTable_observe_beacon_as_def NeighborTable_observe_packet_def NeighborTable_update_def
      NeighborTable_record_failure_def NeighborTable_record_success_def NeighborTable_expire_def
      NeighborTable_remove_def Let_def split_beta split: option.split)

lemma nt_fine_step: "nt_fine c cfg t \<Longrightarrow> nt_fine c cfg (nt_step c op t)"
  by (simp add: nt_fine_def nt.step_inv)

lemma nt_fine_update:
  "nt_fine c cfg t \<Longrightarrow> (\<And>n. nb_ok c a n \<Longrightarrow> nb_ok c a (f n)) \<Longrightarrow> nt_fine c cfg (NeighborTable_update a f t)"
  by (simp add: nt_fine_def nt_inv_update) (simp add: NeighborTable_update_def)

lemmas nt_fine_rules [fine] =
  nt_fine_step [where op = "NtBeacon now src b meta me" for now src b meta me, simplified]
  nt_fine_step [where op = "NtPacket now src meta" for now src meta, simplified]
  nt_fine_step [where op = "NtFailure a" for a, simplified]
  nt_fine_step [where op = "NtSuccess a" for a, simplified]
  nt_fine_step [where op = "NtTxAttempt a" for a, simplified]
  nt_fine_step [where op = "NtTxConfirmed a" for a, simplified]
  nt_fine_step [where op = "NtExpire now" for now, simplified]

lemma nt_fine_awake [fine]:
  "nt_fine c cfg t \<Longrightarrow> nt_fine c cfg (NeighborTable_update a (\<lambda>nb. nb\<lparr>nb_awake_until := x\<rparr>) t)"
  by (rule nt_fine_update) (auto simp: nb_ok_def)

text \<open>Zone.\<close>

lemma zt_merge_max [simp]: "zt_max_entries (ZoneTable_merge now cand z) = zt_max_entries z"
  by (simp add: ZoneTable_merge_def Let_def split: option.split)

lemma zt_fold_merge [simp]:
  "zt_max_entries (fold (merge_attached now me src lq) as z) = zt_max_entries z"
  "zt_max_entries (fold (merge_entry now me src lq) es z) = zt_max_entries z"
  by (induction as arbitrary: z) (simp_all add: merge_attached_def Let_def,
    induction es arbitrary: z, simp_all add: merge_entry_def Let_def)

lemma zt_step_max [simp]: "zt_max_entries (zt_step op z) = zt_max_entries z"
  by (cases op) (auto simp: ZoneTable_update_from_beacon_def ZoneTable_remove_via_def ZoneTable_expire_def
      ZoneTable_enforce_bound_def Let_def split: option.split)

lemma zt_fine_step: "zt_fine cfg z \<Longrightarrow> zt_fine cfg (zt_step op z)"
  by (simp add: zt_fine_def zt.step_inv)

lemmas zt_fine_rules [fine] =
  zt_fine_step [where op = "ZtBeacon now me nbs src es as" for now me nbs src es as, simplified]
  zt_fine_step [where op = "ZtRemoveVia a" for a, simplified]
  zt_fine_step [where op = "ZtExpire now" for now, simplified]

text \<open>Routes.\<close>

lemma rt_fine_step: "rt_fine cfg r \<Longrightarrow> rt_fine cfg (rt_step op r)"
  using rt.step_inv [of r op] by (simp add: rt_fine_def)

lemmas rt_fine_rules [fine] =
  rt_fine_step [where op = "RtInsert e now" for e now, simplified]
  rt_fine_step [where op = "RtTouch d nh now" for d nh now, simplified]
  rt_fine_step [where op = "RtFailure d nh" for d nh, simplified]
  rt_fine_step [where op = "RtSuccess d nh now" for d nh now, simplified]
  rt_fine_step [where op = "RtInvalidate nh" for nh, simplified]
  rt_fine_step [where op = "RtExpire now" for now, simplified]

lemma rt_fine_errors [fine]: "rt_fine cfg r \<Longrightarrow> rt_fine cfg (r\<lparr>rt_route_errors_received := k\<rparr>)"
  by (auto simp: rt_fine_def rt_inv_def)

lemma rt_fine_fail_until [fine]: "rt_fine cfg r \<Longrightarrow> rt_fine cfg (fst (fail_until_removed k u via r))"
proof (induction k arbitrary: r)
  case (Suc k)
  then show ?case using rt_fine_rules(3) [OF Suc.prems, of u via]
    by (auto split: prod.split bool.split)
qed simp

lemma rt_fine_mark_loop [fine]: "rt_fine cfg r \<Longrightarrow> rt_fine cfg (mark_loop d nh r)"
  by (simp add: mark_loop_def Let_def fine)

text \<open>Discoveries.\<close>

lemma ie_step_cfg: "ie_inv s \<Longrightarrow> ie_cfg (ie_step op s) = ie_cfg s"
  by (cases op) (auto simp: Ierp_start_def Ierp_queue_def Ierp_succeed_state Ierp_tick_parts ie_inv_def
      Ierp_observe_request_def Ierp_mark_replied_def Ierp_expire_def Let_def split: option.split)

lemma ie_fine_step: "ie_fine cfg s \<Longrightarrow> ie_fine cfg (ie_step op s)"
  by (simp add: ie_fine_def ie.step_inv ie_step_cfg)

lemmas ie_fine_rules [fine] =
  ie_fine_step [where op = "IeStart t i now" for t i now, simplified]
  ie_fine_step [where op = "IeQueue t p" for t p, simplified]
  ie_fine_step [where op = "IeSucceed t now" for t now, simplified]
  ie_fine_step [where op = "IeTick now ids" for now ids, simplified]
  ie_fine_step [where op = "IeObserve o' i cost now" for o' i cost now, simplified]
  ie_fine_step [where op = "IeReplied o' i" for o' i, simplified]
  ie_fine_step [where op = "IeExpire now" for now, simplified]

lemma ie_fine_proxy [fine]: "ie_fine cfg s \<Longrightarrow> ie_fine cfg (s\<lparr>ie_proxy_replies_sent := k\<rparr>)"
  by (auto simp: ie_fine_def ie_inv_def)

lemma ie_fine_shift [fine]:
  assumes "ie_fine cfg s"
    "\<And>d. d_target (f d) = d_target d \<and> d_queued (f d) = d_queued d \<and> d_attempt (f d) = d_attempt d"
  shows "ie_fine cfg (s\<lparr>ie_pending := SmallMap_map_values f (ie_pending s)\<rparr>)"
  using assms by (auto simp: ie_fine_def ie_inv_def disc_ok_def SmallMap_map_values_def sm_all_def list_all_iff)

text \<open>Transport.\<close>

lemma tr_step_cfg [simp]: "t_cfg (tr_step op t) = t_cfg t"
  by (cases op) (auto simp: Transport_track_def Transport_on_ack_def Transport_on_envelope_delivered_def
      Transport_on_store_accepted_def Transport_fail_all_to_def Transport_tick_def Transport_shift_timers_def
      Transport_set_last_packet_def Transport_accept_incoming_def Transport_reset_peer_def Let_def split_beta
      split: option.split)

lemma tr_fine_step: "tr_fine cfg t \<Longrightarrow> tr_fine cfg (tr_step op t)"
  by (simp add: tr_fine_def tr.step_inv)

lemmas tr_fine_rules [fine] =
  tr_fine_step [where op = "TrTrack ob now" for ob now, simplified]
  tr_fine_step [where op = "TrAck src a" for src a, simplified]
  tr_fine_step [where op = "TrEnvelope i" for i, simplified]
  tr_fine_step [where op = "TrStored i" for i, simplified]
  tr_fine_step [where op = "TrFailAll d" for d, simplified]
  tr_fine_step [where op = "TrTick now r" for now r, simplified]
  tr_fine_step [where op = "TrShift d" for d, simplified]
  tr_fine_step [where op = "TrIncoming src s now" for src s now, simplified]
  tr_fine_step [where op = "TrReset src" for src, simplified]

lemma tr_fine_stats [fine]: "tr_fine cfg t \<Longrightarrow> tr_fine cfg (t\<lparr>t_stats := st\<rparr>)"
  by (auto simp: tr_fine_def tr_inv_def)

lemma tr_fine_next_seq [fine]: "tr_fine cfg t \<Longrightarrow> tr_fine cfg (fst (Transport_next_seq t))"
  by (auto simp: tr_fine_def tr_inv_def Transport_next_seq_def Let_def)

text \<open>Mailbox.\<close>

lemma mb_step_cfg [simp]: "mb_cfg (mb_step op m) = mb_cfg m"
  by (cases op) (auto simp: Mailbox_store_def Mailbox_take_deliverable_def Mailbox_delivered_def Mailbox_gc_def
      Mailbox_reject_def Let_def split_beta split: option.split)

lemma mb_fine_step: "mb_fine cfg (Some m) \<Longrightarrow> mb_fine cfg (Some (mb_step op m))"
  by (simp add: mb_fine_def mb.step_inv)

lemmas mb_fine_rules [fine] =
  mb_fine_step [where op = "MbStore now dep req" for now dep req, simplified]
  mb_fine_step [where op = "MbTake d now k" for d now k, simplified]
  mb_fine_step [where op = "MbDelivered d i" for d i, simplified]
  mb_fine_step [where op = "MbGc now" for now, simplified]

text \<open>Reassembly.\<close>

lemma ra_fine_push:
  assumes "ra_fine cfg r" "FragHeader_ok h"
  obtains r' res where "Reassembler_push r now src h chunk = Some (r', res)" "ra_fine cfg r'"
proof -
  obtain r' res where p: "Reassembler_push r now src h chunk = Some (r', res)"
    using assms Reassembler_push_no_panic [of r h now src chunk] by (auto simp: ra_fine_def)
  then have "r' = ra_step (RaPush now src h chunk) r" by simp
  then have "ra_fine cfg r'" using assms(1) ra.step_inv by (simp add: ra_fine_def del: ra_step.simps)
  with p show thesis by (rule that)
qed

lemma ra_fine_expire [fine]: "ra_fine cfg r \<Longrightarrow> ra_fine cfg (fst (Reassembler_expire r now))"
  using ra.step_inv [of r "RaExpire now"] ra_cfg_step [of "RaExpire now" r] by (simp add: ra_fine_def)

text \<open>The seen cache, the relay schedule and the replies.\<close>

lemma sc_fine_step: "sc_fine cfg s \<Longrightarrow> sc_fine cfg (sc_step op s)"
  by (simp add: sc_fine_def sc.step_inv del: sc_step.simps)

lemmas sc_fine_rules [fine] =
  sc_fine_step [where op = "ScObserve k now" for k now, simplified]
  sc_fine_step [where op = "ScMark k" for k, simplified]
  sc_fine_step [where op = "ScExpire now" for now, simplified]

lemma rs_fine_schedule [fine]:
  "rs_fine cfg s \<Longrightarrow> rs_fine cfg (fst (RebroadcastScheduler_schedule s k p due (st_max_pending (ncf_storm cfg))))"
  by (simp add: rs_fine_def RebroadcastScheduler_schedule_def)

lemma rs_fine_heard [fine]: "rs_fine cfg s \<Longrightarrow> rs_fine cfg (fst (RebroadcastScheduler_heard s k))"
  by (simp add: rs_fine_def RebroadcastScheduler_heard_def)

lemma rs_fine_cancel [fine]: "rs_fine cfg s \<Longrightarrow> rs_fine cfg (fst (RebroadcastScheduler_cancel s k))"
  unfolding rs_fine_def RebroadcastScheduler_cancel_def Let_def
  by (simp add: order_trans [OF length_filter_le])

lemma rs_due_loop_length:
  "length (rs_pending (fst (RebroadcastScheduler_due_loop now th i s out))) \<le> length (rs_pending s)"
proof (induction now th i s out rule: RebroadcastScheduler_due_loop.induct)
  case (1 now th i s out)
  then show ?case
    by (subst RebroadcastScheduler_due_loop.simps)
      (auto simp: Let_def remove_at_def intro: order_trans [OF _ diff_le_self [of _ "Suc 0"]])
qed

lemma rs_fine_due [fine]: "rs_fine cfg s \<Longrightarrow> rs_fine cfg (fst (RebroadcastScheduler_due s now th))"
  using rs_due_loop_length [of now th 0 s "[]"] by (simp add: rs_fine_def RebroadcastScheduler_due_def)

lemma pr_fine_schedule [fine]: "pr_fine r \<Longrightarrow> pr_fine (PendingReplies_schedule o' i cost due p r)"
  by (simp add: pr_fine_def PendingReplies_schedule_def)

lemma pr_fine_heard [fine]: "pr_fine r \<Longrightarrow> pr_fine (PendingReplies_heard o' i cost r)"
  unfolding pr_fine_def PendingReplies_heard_def Let_def by (simp add: order_trans [OF length_filter_le])

lemma due_loop_length: "length (fst (due_loop now i items out)) \<le> length items"
proof (induction now i items out rule: due_loop.induct)
  case (1 now i items out)
  then show ?case by (subst due_loop.simps) (auto simp: remove_at_def)
qed

lemma pr_fine_due [fine]: "pr_fine r \<Longrightarrow> pr_fine (fst (PendingReplies_due now r))"
  using due_loop_length [of now 0 "pr_items r" "[]"] by (simp add: pr_fine_def PendingReplies_due_def split_beta)

subsection \<open>The generator\<close>

text \<open>The generator returns words with a nonzero low half again and again; without this the loop
  of \<open>new_packet_id\<close> would not end.\<close>

definition rng_fair :: "rng \<Rightarrow> bool" where
  "rng_fair r \<longleftrightarrow> (\<forall>k. \<exists>j\<ge>k. (ucast (r !! j) :: u32) \<noteq> 0)"

lemma rng_fair_sdrop [fine]: "rng_fair r \<Longrightarrow> rng_fair (sdrop m r)"
  unfolding rng_fair_def sdrop_snth
proof
  fix k
  assume "\<forall>k. \<exists>j\<ge>k. (ucast (r !! j) :: u32) \<noteq> 0"
  then obtain j where "j \<ge> m + k" "(ucast (r !! j) :: u32) \<noteq> 0" by blast
  then show "\<exists>j\<ge>k. (ucast (r !! (m + j)) :: u32) \<noteq> 0" by (intro exI [of _ "j - m"]) simp
qed

lemma rng_fair_stl [fine]: "rng_fair r \<Longrightarrow> rng_fair (stl r)"
  using rng_fair_sdrop [of r 1] by simp

lemma rng_fair_tick [fine]: "rng_fair r \<Longrightarrow> rng_fair (tk_rng (tick_loop cfg now os r))"
  by (induction os arbitrary: r) (auto simp: Let_def rng_fair_stl)

lemma first_nonzero_at:
  "(ucast (r !! k) :: u32) \<noteq> 0 \<Longrightarrow> \<exists>i m. first_nonzero r = Some (i, sdrop m r) \<and> i \<noteq> 0"
proof (induction k arbitrary: r)
  case 0
  then show ?case by (intro exI [of _ "ucast (shd r)"] exI [of _ 1]) (subst first_nonzero.simps, simp)
next
  case (Suc k)
  then have "(ucast (stl r !! k) :: u32) \<noteq> 0" by simp
  then obtain i m where "first_nonzero (stl r) = Some (i, sdrop m (stl r))" "i \<noteq> 0" using Suc.IH by blast
  then show ?case
    by (cases "(ucast (shd r) :: u32) = 0")
      (subst first_nonzero.simps, force intro: exI [of _ "Suc m"],
       subst first_nonzero.simps, force intro: exI [of _ 1])
qed

lemma first_nonzero_returns:
  assumes "rng_fair r"
  obtains i r' where "first_nonzero r = Some (i, r')" "rng_fair r'" "i \<noteq> 0"
proof -
  obtain k where "(ucast (r !! k) :: u32) \<noteq> 0" using assms unfolding rng_fair_def by blast
  then show thesis using first_nonzero_at rng_fair_sdrop [OF assms] that by blast
qed

subsection \<open>The invariant\<close>

text \<open>A public identity is the one that its key determines, and its address is the given one.\<close>

definition pid_ok :: "crypto \<Rightarrow> address \<Rightarrow> public_identity \<Rightarrow> bool" where
  "pid_ok c a pid \<longleftrightarrow> pid_address pid = a \<and> PublicIdentity_from_bytes c (pid_verifying pid) = Inr pid"

definition keys_fine :: "crypto \<Rightarrow> (address, public_identity) small_map \<Rightarrow> bool" where
  "keys_fine c m \<longleftrightarrow> sm_wf m \<and> sm_all (pid_ok c) m"

definition sess_fine :: "crypto \<Rightarrow> (address, session) small_map \<Rightarrow> bool" where
  "sess_fine c m \<longleftrightarrow> sm_wf m \<and> sm_all (\<lambda>a s. pid_ok c a (se_peer s)) m"

definition hs_fine :: "crypto \<Rightarrow> (address, pending_handshake) small_map \<Rightarrow> bool" where
  "hs_fine c m \<longleftrightarrow> sm_wf m \<and> sm_all (\<lambda>a h. hx_inv c (ph_hs h)) m"

definition txq_fine :: "node_config \<Rightarrow> tx_item list \<Rightarrow> bool" where
  "txq_fine cfg q \<longleftrightarrow> length q \<le> ncf_max_tx_queue cfg \<and> (\<forall>i \<in> set q. length (ti_frame i) \<le> MAX_FRAME)"

definition node_ok :: "crypto \<Rightarrow> node_config \<Rightarrow> node \<Rightarrow> bool" where
  "node_ok c cfg n \<longleftrightarrow>
     nd_cfg n = cfg \<and> rng_fair (nd_rng n) \<and> nt_fine c cfg (nd_neighbors n) \<and> zt_fine cfg (nd_zone n) \<and>
     rt_fine cfg (nd_routes n) \<and> ie_fine cfg (nd_ierp n) \<and> pr_fine (nd_rrep_pending n) \<and>
     sc_fine cfg (nd_seen n) \<and> rs_fine cfg (nd_sched n) \<and> tr_fine cfg (nd_transport n) \<and>
     mb_fine cfg (nd_mailbox n) \<and> ra_fine cfg (nd_reassembler n) \<and>
     sess_fine c (nd_sessions n) \<and> hs_fine c (nd_handshakes n) \<and> keys_fine c (nd_key_dir n) \<and>
     txq_fine cfg (nd_tx_queue n) \<and> length (nd_events n) \<le> 256 \<and> length (nd_hop_pending n) \<le> 24 \<and>
     length (nd_held_for_sleeping n) \<le> 16 \<and> length (nd_pending_envelopes n) \<le> 16 \<and>
     length (nd_opened_envelopes n) \<le> 64 \<and> length (nd_pending_traces n) \<le> 4"

named_theorems nk

lemma node_okD:
  assumes "node_ok c cfg n"
  shows "nd_cfg n = cfg" "rng_fair (nd_rng n)" "nt_fine c cfg (nd_neighbors n)" "zt_fine cfg (nd_zone n)"
    "rt_fine cfg (nd_routes n)" "ie_fine cfg (nd_ierp n)" "pr_fine (nd_rrep_pending n)" "sc_fine cfg (nd_seen n)"
    "rs_fine cfg (nd_sched n)" "tr_fine cfg (nd_transport n)" "mb_fine cfg (nd_mailbox n)"
    "ra_fine cfg (nd_reassembler n)" "sess_fine c (nd_sessions n)" "hs_fine c (nd_handshakes n)"
    "keys_fine c (nd_key_dir n)" "txq_fine cfg (nd_tx_queue n)" "length (nd_events n) \<le> 256"
    "length (nd_hop_pending n) \<le> 24" "length (nd_held_for_sleeping n) \<le> 16" "length (nd_pending_envelopes n) \<le> 16"
    "length (nd_opened_envelopes n) \<le> 64" "length (nd_pending_traces n) \<le> 4"
  using assms by (simp_all only: node_ok_def)

lemma node_ok_free [simp]:
  "node_ok c cfg (n\<lparr>nd_keys := ks\<rparr>) = node_ok c cfg n" "node_ok c cfg (n\<lparr>nd_now := t\<rparr>) = node_ok c cfg n"
  "node_ok c cfg (n\<lparr>nd_power := pw\<rparr>) = node_ok c cfg n" "node_ok c cfg (n\<lparr>nd_beacon_seq := w\<rparr>) = node_ok c cfg n"
  "node_ok c cfg (n\<lparr>nd_next_beacon := t\<rparr>) = node_ok c cfg n" "node_ok c cfg (n\<lparr>nd_beacons_sent := k\<rparr>) = node_ok c cfg n"
  "node_ok c cfg (n\<lparr>nd_last_beacon_at := t\<rparr>) = node_ok c cfg n"
  "node_ok c cfg (n\<lparr>nd_last_neighbor_count := l\<rparr>) = node_ok c cfg n"
  "node_ok c cfg (n\<lparr>nd_next_handle := k\<rparr>) = node_ok c cfg n" "node_ok c cfg (n\<lparr>nd_frag_id := w\<rparr>) = node_ok c cfg n"
  "node_ok c cfg (n\<lparr>nd_counters := cs\<rparr>) = node_ok c cfg n" "node_ok c cfg (n\<lparr>nd_attached_anchor := a\<rparr>) = node_ok c cfg n"
  "node_ok c cfg (n\<lparr>nd_rx_airtime_ms := t\<rparr>) = node_ok c cfg n" "node_ok c cfg (n\<lparr>nd_last_housekeeping := t\<rparr>) = node_ok c cfg n"
  "node_ok c cfg (n\<lparr>nd_last_wake := t\<rparr>) = node_ok c cfg n" "node_ok c cfg (n\<lparr>nd_slept_at := t\<rparr>) = node_ok c cfg n"
  "node_ok c cfg (n\<lparr>nd_pending_fetch := f\<rparr>) = node_ok c cfg n"
  by (simp_all add: node_ok_def)

lemma node_ok_set [nk]:
  "node_ok c cfg n \<Longrightarrow> rng_fair r \<Longrightarrow> node_ok c cfg (n\<lparr>nd_rng := r\<rparr>)"
  "node_ok c cfg n \<Longrightarrow> nt_fine c cfg t \<Longrightarrow> node_ok c cfg (n\<lparr>nd_neighbors := t\<rparr>)"
  "node_ok c cfg n \<Longrightarrow> zt_fine cfg z \<Longrightarrow> node_ok c cfg (n\<lparr>nd_zone := z\<rparr>)"
  "node_ok c cfg n \<Longrightarrow> rt_fine cfg rt \<Longrightarrow> node_ok c cfg (n\<lparr>nd_routes := rt\<rparr>)"
  "node_ok c cfg n \<Longrightarrow> ie_fine cfg ie \<Longrightarrow> node_ok c cfg (n\<lparr>nd_ierp := ie\<rparr>)"
  "node_ok c cfg n \<Longrightarrow> pr_fine pr \<Longrightarrow> node_ok c cfg (n\<lparr>nd_rrep_pending := pr\<rparr>)"
  "node_ok c cfg n \<Longrightarrow> sc_fine cfg sc \<Longrightarrow> node_ok c cfg (n\<lparr>nd_seen := sc\<rparr>)"
  "node_ok c cfg n \<Longrightarrow> rs_fine cfg rs \<Longrightarrow> node_ok c cfg (n\<lparr>nd_sched := rs\<rparr>)"
  "node_ok c cfg n \<Longrightarrow> tr_fine cfg tr \<Longrightarrow> node_ok c cfg (n\<lparr>nd_transport := tr\<rparr>)"
  "node_ok c cfg n \<Longrightarrow> mb_fine cfg mb \<Longrightarrow> node_ok c cfg (n\<lparr>nd_mailbox := mb\<rparr>)"
  "node_ok c cfg n \<Longrightarrow> ra_fine cfg ra \<Longrightarrow> node_ok c cfg (n\<lparr>nd_reassembler := ra\<rparr>)"
  "node_ok c cfg n \<Longrightarrow> sess_fine c ss \<Longrightarrow> node_ok c cfg (n\<lparr>nd_sessions := ss\<rparr>)"
  "node_ok c cfg n \<Longrightarrow> hs_fine c hs \<Longrightarrow> node_ok c cfg (n\<lparr>nd_handshakes := hs\<rparr>)"
  "node_ok c cfg n \<Longrightarrow> keys_fine c kd \<Longrightarrow> node_ok c cfg (n\<lparr>nd_key_dir := kd\<rparr>)"
  "node_ok c cfg n \<Longrightarrow> txq_fine cfg q \<Longrightarrow> node_ok c cfg (n\<lparr>nd_tx_queue := q\<rparr>)"
  "node_ok c cfg n \<Longrightarrow> length ev \<le> 256 \<Longrightarrow> node_ok c cfg (n\<lparr>nd_events := ev\<rparr>)"
  "node_ok c cfg n \<Longrightarrow> length hp \<le> 24 \<Longrightarrow> node_ok c cfg (n\<lparr>nd_hop_pending := hp\<rparr>)"
  "node_ok c cfg n \<Longrightarrow> length he \<le> 16 \<Longrightarrow> node_ok c cfg (n\<lparr>nd_held_for_sleeping := he\<rparr>)"
  "node_ok c cfg n \<Longrightarrow> length pe \<le> 16 \<Longrightarrow> node_ok c cfg (n\<lparr>nd_pending_envelopes := pe\<rparr>)"
  "node_ok c cfg n \<Longrightarrow> length oe \<le> 64 \<Longrightarrow> node_ok c cfg (n\<lparr>nd_opened_envelopes := oe\<rparr>)"
  "node_ok c cfg n \<Longrightarrow> length pt \<le> 4 \<Longrightarrow> node_ok c cfg (n\<lparr>nd_pending_traces := pt\<rparr>)"
  by (simp_all add: node_ok_def)

text \<open>The rules of \<open>fine\<close> and \<open>node_okD\<close> at the fields of a node: what a call of a component leaves.\<close>

lemma keys_fine_put [fine]: "keys_fine c m \<Longrightarrow> pid_ok c a pid \<Longrightarrow> keys_fine c (sm_put m a pid)"
  by (simp add: keys_fine_def sm_all_put)

lemma sess_fine_put [fine]: "sess_fine c m \<Longrightarrow> pid_ok c a (se_peer s) \<Longrightarrow> sess_fine c (sm_put m a s)"
  by (simp add: sess_fine_def sm_all_put)

lemma sess_fine_del [fine]: "sess_fine c m \<Longrightarrow> sess_fine c (sm_del m a)"
  by (simp add: sess_fine_def sm_all_del)

lemma sess_fine_modify [fine]:
  "sess_fine c m \<Longrightarrow> (\<And>s. pid_ok c a (se_peer s) \<Longrightarrow> pid_ok c a (se_peer (f s))) \<Longrightarrow> sess_fine c (SmallMap_modify m a f)"
  by (auto simp: sess_fine_def intro!: sm_all_modify)

lemma sess_fine_get: "sess_fine c m \<Longrightarrow> SmallMap_get m a = Some s \<Longrightarrow> pid_ok c a (se_peer s)"
  by (auto simp: sess_fine_def dest: sm_all_get)

lemma keys_fine_get: "keys_fine c m \<Longrightarrow> SmallMap_get m a = Some pid \<Longrightarrow> pid_ok c a pid"
  by (auto simp: keys_fine_def dest: sm_all_get)

lemma hs_fine_get: "hs_fine c m \<Longrightarrow> SmallMap_get m a = Some h \<Longrightarrow> hx_inv c (ph_hs h)"
  by (auto simp: hs_fine_def dest: sm_all_get)

lemma hs_fine_put [fine]: "hs_fine c m \<Longrightarrow> hx_inv c (ph_hs h) \<Longrightarrow> hs_fine c (sm_put m a h)"
  by (simp add: hs_fine_def sm_all_put)

lemma hs_fine_del [fine]: "hs_fine c m \<Longrightarrow> hs_fine c (sm_del m a)"
  by (simp add: hs_fine_def sm_all_del)

lemma hs_fine_modify [fine]:
  "hs_fine c m \<Longrightarrow> (\<And>h. hx_inv c (ph_hs h) \<Longrightarrow> hx_inv c (ph_hs (f h))) \<Longrightarrow> hs_fine c (SmallMap_modify m a f)"
  by (auto simp: hs_fine_def intro!: sm_all_modify)

lemma hs_fine_shift [fine]:
  "hs_fine c m \<Longrightarrow> (\<And>h. ph_hs (f h) = ph_hs h) \<Longrightarrow> hs_fine c (SmallMap_map_values f m)"
  by (auto simp: hs_fine_def SmallMap_map_values_def sm_all_def list_all_iff)

lemma txq_fine_filter [fine]: "txq_fine cfg q \<Longrightarrow> txq_fine cfg (filter P q)"
  by (auto simp: txq_fine_def intro: order_trans [OF length_filter_le])

lemma sess_fine_set [fine]:
  "sess_fine c m \<Longrightarrow> pid_ok c a (se_peer s) \<Longrightarrow> sess_fine c (SmallMap_modify m a (\<lambda>_. s))"
  by (rule sess_fine_modify)

subsection \<open>Reasoning about methods\<close>

text \<open>
  The values a method may have, with the invariant of the node. The only panic that is excused is the
  division by zero of a configuration whose radio profile has no airtime.
\<close>

abbreviation kept :: "crypto \<Rightarrow> node_config \<Rightarrow> ('a \<Rightarrow> node option) \<Rightarrow> 'a \<Rightarrow> bool" where
  "kept c cfg \<equiv> ensures (\<not> LoRaProfile_ok (ncf_profile cfg)) (node_ok c cfg)"

abbreviation kept_opt :: "crypto \<Rightarrow> node_config \<Rightarrow> node option \<Rightarrow> bool" where
  "kept_opt c cfg \<equiv> kept c cfg (\<lambda>r. r)"

abbreviation kept_res :: "crypto \<Rightarrow> node_config \<Rightarrow> ('a \<times> node) option \<Rightarrow> bool" where
  "kept_res c cfg \<equiv> kept c cfg (map_option snd)"

lemma kept_returns:
  assumes "LoRaProfile_ok (ncf_profile cfg)" "kept_opt c cfg r"
  obtains n where "r = Some n" "node_ok c cfg n"
  using assms by (cases r) (simp_all add: ensures_def)

lemma hop_timeout_None: "hop_timeout cfg len = None \<longleftrightarrow> \<not> LoRaProfile_ok (ncf_profile cfg)"
  by (simp add: hop_timeout_def airtime_ms_None [of _ len, symmetric] split: bind_splits)

lemma vc_airtime [nk]:
  assumes "node_ok c cfg n"
  shows "(\<And>t. kept_opt c cfg (f t)) \<Longrightarrow> kept_opt c cfg (LoRaProfile_airtime_ms (ncf_profile (nd_cfg n)) len \<bind> f)"
    "(\<And>t. kept_res c cfg (h t)) \<Longrightarrow> kept_res c cfg (LoRaProfile_airtime_ms (ncf_profile (nd_cfg n)) len \<bind> h)"
    "(\<And>t. kept_opt c cfg (k t)) \<Longrightarrow> kept_opt c cfg (hop_timeout (nd_cfg n) len \<bind> k)"
  using assms by (auto intro!: vc_bind_opt simp: airtime_ms_None hop_timeout_None node_okD(1))

lemmas keptD = ensuresD [where I = "node_ok c cfg" for c cfg]
lemmas kept_ofold [nk] = ensures_ofold [where I = "node_ok c cfg" for c cfg]
lemmas node_ok_fold [nk] = fold_invariant_rule [where I = "node_ok c cfg" for c cfg]

lemmas node_ok_freeI [nk] = node_ok_free [THEN iffD2]
lemmas node_okI [nk] = node_okD(2-16)

end
