(* ===== verification/Node_Keeps.thy ===== *)
theory Node_Keeps
  imports Node_Inv
begin

section \<open>Every method of the node returns and keeps the invariant\<close>

text \<open>One lemma per method, in the order of the definitions.\<close>

subsection \<open>Helpers\<close>

lemma next_u64_ok [nk]: "node_ok c cfg n \<Longrightarrow> node_ok c cfg (snd (next_u64 n))"
  by (simp add: next_u64_def node_ok_set(1) rng_fair_stl node_okD)

lemma next_u32_ok [nk]: "node_ok c cfg n \<Longrightarrow> node_ok c cfg (snd (next_u32 n))"
  by (simp add: next_u32_def node_ok_set(1) rng_fair_stl node_okD)

lemma fill_bytes_ok [nk]: "node_ok c cfg n \<Longrightarrow> node_ok c cfg (snd (fill_bytes n))"
  by (simp add: fill_bytes_def)

lemma count_ok [nk]: "node_ok c cfg n \<Longrightarrow> node_ok c cfg (count f n)"
  by (simp add: count_def)

lemma emit_ok [nk]: "node_ok c cfg n \<Longrightarrow> node_ok c cfg (emit e n)"
  by (simp add: emit_def node_ok_set(16))

lemma new_packet_id_ok [nk]: "node_ok c cfg n \<Longrightarrow> kept_res c cfg (new_packet_id n)"
  by (rule first_nonzero_returns [OF node_okD(2)]) (auto simp: new_packet_id_def node_ok_set(1))

lemma new_handle_ok [nk]: "node_ok c cfg n \<Longrightarrow> node_ok c cfg (snd (new_handle n))"
  by (simp add: new_handle_def)

lemma congestion_ok [nk]: "node_ok c cfg n \<Longrightarrow> node_ok c cfg (snd (congestion n))"
  by (simp add: congestion_def split_beta Let_def)

lemma link_cost_to_ok [nk]: "node_ok c cfg n \<Longrightarrow> node_ok c cfg (snd (link_cost_to a n))"
  using congestion_ok [of c cfg n] by (simp add: link_cost_to_def split_beta Let_def)

lemma learn_route_ok [nk]: "node_ok c cfg n \<Longrightarrow> node_ok c cfg (learn_route dst nh hops cost src via now n)"
  by (simp add: learn_route_def Let_def node_ok_set(4) fine node_okD)

lemma base_header_ok [nk]: "node_ok c cfg n \<Longrightarrow> kept_res c cfg (base_header pt dst ttl n)"
  unfolding base_header_def by (assumption | rule vc nk)+

lemma base_header_state:
  assumes "node_ok c cfg n"
  obtains h r where "base_header pt dst ttl n = Some (h, n\<lparr>nd_rng := r\<rparr>)" "rng_fair r"
proof -
  obtain i r where "first_nonzero (nd_rng n) = Some (i, r)" "rng_fair r"
    using first_nonzero_returns [OF node_okD(2) [OF assms]] by metis
  then show thesis by (intro that) (simp_all add: base_header_def new_packet_id_def Let_def)
qed

lemma Packet_encode_length: "Packet_encode c p k = Inr frame \<Longrightarrow> length frame \<le> MAX_FRAME"
  by (auto simp: Packet_encode_def Let_def Header_write_def NetworkKey_tag_def max_payload_def packet_len_defs
      split: if_splits)

lemma tx_queue_room_cases:
  assumes "tx_queue_room cap q = Some q'"
  obtains (room) "length q < cap" "q' = q"
  | (evict) i where "i < length q" "ti_is_relay (q ! i)" "q' = remove_at i q"
      "\<And>x. x \<in> set q \<Longrightarrow> ti_is_relay x \<Longrightarrow> ti_priority x \<le> ti_priority (q ! i)"
proof (cases "length q < cap")
  case True
  then show ?thesis using assms by (intro room) (simp_all add: tx_queue_room_def)
next
  case False
  let ?rel = "filter (\<lambda>(_, i). ti_is_relay i) (enumerate 0 q)"
  obtain y where y: "max_by_key (\<lambda>(_, i). ti_priority i) ?rel = Some y"
    using assms False by (cases "max_by_key (\<lambda>(_, i). ti_priority i) ?rel") (simp_all add: tx_queue_room_def)
  obtain i x where yx: "y = (i, x)" by (cases y)
  have m: "max_by_key (\<lambda>(_, i). ti_priority i) ?rel = Some (i, x)" "q' = remove_at i q"
    using assms False y by (simp_all add: tx_queue_room_def yx)
  have "(i, x) \<in> set (enumerate 0 q)" "ti_is_relay x" using max_by_key_mem [OF m(1)] by simp_all
  then have ix: "i < length q" "x = q ! i" "ti_is_relay x" by (simp_all add: in_set_enumerate_eq)
  have "ti_priority y \<le> ti_priority x" if mem: "y \<in> set q" "ti_is_relay y" for y
  proof -
    obtain j where "j < length q" "q ! j = y" using mem(1) unfolding in_set_conv_nth by blast
    then have "(j, y) \<in> set ?rel" using mem(2) by (simp add: in_set_enumerate_eq)
    from max_by_key_ge [OF m(1) this] show ?thesis by simp
  qed
  then show ?thesis using ix m(2) by (intro evict [of i]) simp_all
qed

lemma tx_queue_room_ok:
  assumes "txq_fine cfg q" "tx_queue_room (ncf_max_tx_queue cfg) q = Some q'" "length (ti_frame i) \<le> MAX_FRAME"
  shows "txq_fine cfg (q' @ [i])"
  using assms(2)
proof (cases rule: tx_queue_room_cases)
  case room
  then show ?thesis using assms by (auto simp: txq_fine_def)
next
  case (evict j)
  then show ?thesis using assms
    by (auto simp: txq_fine_def remove_at_def dest: in_set_takeD in_set_dropD)
qed

lemma enqueue_packet_ok [nk]:
  assumes "node_ok c cfg n"
  shows "node_ok c cfg (snd (enqueue_packet c' p t pr rl n))"
  using assms tx_queue_room_ok [OF node_okD(16) [OF assms]] Packet_encode_length
  by (simp add: enqueue_packet_def Let_def node_okD(1) [OF assms] count_ok node_ok_set(15) split: sum.split option.split)

lemma track_hop_ok [nk]: "node_ok c cfg n \<Longrightarrow> kept_opt c cfg (track_hop p nh now rl n)"
  by (auto simp: track_hop_def Let_def next_u64_def node_okD fine Suc_le_eq hop_timeout_None
      intro!: vc_bind_opt(1) node_ok_set order.strict_trans1 [OF length_filter_le])

lemma hop_confirmed_ok [nk]: "node_ok c cfg n \<Longrightarrow> node_ok c cfg (hop_confirmed k a n)"
  by (auto simp: hop_confirmed_def Let_def node_okD fine intro!: node_ok_set order_trans [OF length_filter_le])

lemma ie_fine_case [fine]:
  "(x = None \<Longrightarrow> ie_fine cfg a) \<Longrightarrow> (\<And>y. x = Some y \<Longrightarrow> ie_fine cfg (f y)) \<Longrightarrow>
   ie_fine cfg (case x of None \<Rightarrow> a | Some y \<Rightarrow> f y)"
  by (cases x) simp_all

subsection \<open>Unicast and sessions\<close>

lemma send_link_ack_ok [nk]: "node_ok c cfg n \<Longrightarrow> kept_opt c cfg (send_link_ack c' a i now n)"
  unfolding send_link_ack_def by (assumption | rule vc nk fine)+

lemma send_route_request_ok [nk]:
  "node_ok c cfg n \<Longrightarrow> kept_opt c cfg (send_route_request c' target i ttl now n)"
  unfolding send_route_request_def by (assumption | rule vc nk fine)+

lemma start_discovery_ok [nk]: "node_ok c cfg n \<Longrightarrow> kept_opt c cfg (start_discovery c' dst p now n)"
  unfolding start_discovery_def by (assumption | rule vc nk fine)+

lemma route_unicast_ok [nk]: "node_ok c cfg n \<Longrightarrow> kept_res c cfg (route_unicast c p now n)"
  unfolding route_unicast_def by (assumption | rule vc nk fine)+

lemma route_unicast_ign_ok [nk]: "node_ok c cfg n \<Longrightarrow> kept_opt c cfg (route_unicast_ign c p now n)"
  unfolding route_unicast_ign_def by (assumption | rule vc nk fine)+

lemma fragment_header_ok [nk]: "node_ok c cfg n \<Longrightarrow> kept_res c cfg (fragment_header h i n)"
  unfolding fragment_header_def by (assumption | rule vc nk fine)+

lemma send_fragments_ok [nk]: "node_ok c cfg n \<Longrightarrow> kept_res c cfg (send_fragments c h now i parts n)"
proof (induction parts arbitrary: i n)
  case (Cons x parts)
  obtain fh d where x: "x = (fh, d)" by (cases x)
  show ?case unfolding x send_fragments.simps by (assumption | rule vc nk Cons)+
qed simp

lemma session_header_ok [nk]: "node_ok c cfg n \<Longrightarrow> kept_res c cfg (session_header pt dst sq ar n)"
  unfolding session_header_def by (assumption | rule vc nk fine)+

lemma Session_encrypt_peer [simp]: "se_peer (fst (Session_encrypt c now aad pt s)) = se_peer s"
  by (simp add: Session_encrypt_def Let_def)

lemma Session_decrypt_peer [simp]: "se_peer (fst (Session_decrypt c now aad ct s)) = se_peer s"
  by (simp add: Session_decrypt_def Let_def split: sum.split)

lemma sess_fine_encrypt [fine]:
  "sess_fine c m \<Longrightarrow> SmallMap_get m a = Some s \<Longrightarrow>
   sess_fine c (SmallMap_modify m a (\<lambda>_. fst (Session_encrypt c' now aad pt s)))"
  by (rule sess_fine_set) (simp_all add: sess_fine_get)

lemma send_session_packet_ok [nk]:
  "node_ok c cfg n \<Longrightarrow> kept_res c cfg (send_session_packet c dst pt body sq ar now n)"
  unfolding send_session_packet_def by (assumption | rule vc nk fine)+

lemma next_seq_ok [nk]: "node_ok c cfg n \<Longrightarrow> node_ok c cfg (snd (next_seq n))"
  by (simp add: next_seq_def split_beta node_ok_set(9) fine node_okD)

lemma send_in_session_ok [nk]: "node_ok c cfg n \<Longrightarrow> kept_opt c cfg (send_in_session c dst pt body now n)"
  unfolding send_in_session_def by (assumption | rule vc nk fine)+

lemma send_handshake_packet_ok [nk]:
  "node_ok c cfg n \<Longrightarrow> kept_opt c cfg (send_handshake_packet c peer no msg now n)"
  unfolding send_handshake_packet_def by (assumption | rule vc nk fine)+

lemma hx_fine_step: "hx_inv c h \<Longrightarrow> hx_inv c (fst (hx_call c op h))"
  by (rule hx.step_inv)

lemmas hx_fine_rules [fine] =
  hx_fine_step [where op = "Write1 x" for x, simplified]
  hx_fine_step [where op = "Read1 x" for x, simplified]
  hx_fine_step [where op = "Write2 x" for x, simplified]
  hx_fine_step [where op = "Read2 x" for x, simplified]
  hx_fine_step [where op = "Write3 x" for x, simplified]
  hx_fine_step [where op = "Read3 x" for x, simplified]
  hx_inv_new

lemma start_handshake_ok [nk]: "node_ok c cfg n \<Longrightarrow> kept_opt c cfg (start_handshake c peer now n)"
  unfolding start_handshake_def by (assumption | rule vc nk fine | (simp add: fine; fail))+

lemma queue_behind_handshake_ok [nk]: "node_ok c cfg n \<Longrightarrow> node_ok c cfg (queue_behind_handshake peer q n)"
  unfolding queue_behind_handshake_def by (assumption | rule vc nk fine | (simp; fail))+

lemma bump_acks_sent_ok [nk]: "node_ok c cfg n \<Longrightarrow> node_ok c cfg (bump_acks_sent n)"
  unfolding bump_acks_sent_def by (assumption | rule vc nk fine)+

lemma send_ack_ok [nk]: "node_ok c cfg n \<Longrightarrow> kept_opt c cfg (send_ack c dst sq st now n)"
  unfolding send_ack_def by (assumption | rule vc nk fine)+

lemma send_control_ok [nk]: "node_ok c cfg n \<Longrightarrow> kept_opt c cfg (send_control c dst sub body now n)"
  unfolding send_control_def by (assumption | rule vc nk fine)+

lemma send_fetch_ok [nk]: "node_ok c cfg n \<Longrightarrow> kept_opt c cfg (send_fetch c a now n)"
  unfolding send_fetch_def by (assumption | rule vc nk fine)+

subsection \<open>Store and forward, messages\<close>

lemma send_store_ok [nk]: "node_ok c cfg n \<Longrightarrow> kept_opt c cfg (send_store c a dst i env now n)"
  unfolding send_store_def by (assumption | rule vc nk fine)+

lemma envelope_fragments_ok [nk]: "node_ok c cfg n \<Longrightarrow> kept_opt c cfg (envelope_fragments c h now i parts n)"
proof (induction parts arbitrary: i n)
  case (Cons x parts)
  obtain fh d where x: "x = (fh, d)" by (cases x)
  show ?case unfolding x envelope_fragments.simps by (assumption | rule vc nk Cons)+
qed simp

lemma send_envelope_data_ok [nk]: "node_ok c cfg n \<Longrightarrow> kept_opt c cfg (send_envelope_data c dst i env now n)"
  unfolding send_envelope_data_def by (assumption | rule vc nk fine)+

lemma mb_fine_get: "node_ok c cfg n \<Longrightarrow> nd_mailbox n = Some m \<Longrightarrow> mb_fine cfg (Some m)"
  using node_okD(11) by fastforce

lemma flush_mailbox_to_ok [nk]: "node_ok c cfg n \<Longrightarrow> kept_opt c cfg (flush_mailbox_to c dst now n)"
  unfolding flush_mailbox_to_def by (assumption | rule vc nk fine mb_fine_get)+

lemma route_unicast_envelope_ok [nk]:
  "node_ok c cfg n \<Longrightarrow> kept_res c cfg (route_unicast_envelope c dst i env now n)"
  unfolding route_unicast_envelope_def by (assumption | rule vc nk fine)+

lemma store_hosted_ok [nk]: "node_ok c cfg n \<Longrightarrow> kept_res c cfg (store_hosted c dst i env now n)"
  unfolding store_hosted_def by (assumption | rule vc nk fine mb_fine_get)+

lemma deliver_envelope_ok [nk]: "node_ok c cfg n \<Longrightarrow> kept_opt c cfg (deliver_envelope c dst i env now n)"
  unfolding deliver_envelope_def by (assumption | rule vc nk fine)+

lemma seal_and_send_envelope_ok [nk]:
  "node_ok c cfg n \<Longrightarrow> kept_opt c cfg (seal_and_send_envelope c dst payload h now n)"
  unfolding seal_and_send_envelope_def by (assumption | rule vc nk fine)+

lemma length_filter_bound: "length xs \<le> k \<Longrightarrow> length (filter P xs) \<le> k"
  by (rule order_trans [OF length_filter_le])

lemma try_pending_envelopes_ok [nk]: "node_ok c cfg n \<Longrightarrow> kept_opt c cfg (try_pending_envelopes c dst now n)"
  unfolding try_pending_envelopes_def
  by (assumption | rule vc nk fine length_filter_bound node_okD)+

lemma queue_envelope_ok [nk]: "node_ok c cfg n \<Longrightarrow> kept_opt c cfg (queue_envelope c dst payload h now n)"
  unfolding queue_envelope_def by (assumption | rule vc nk fine | (simp; fail))+

lemma fail_send_ok [nk]: "node_ok c cfg n \<Longrightarrow> node_ok c cfg (fail_send q r n)"
  unfolding fail_send_def by (rule emit_ok)

lemma send_data_in_session_ok [nk]: "node_ok c cfg n \<Longrightarrow> kept_opt c cfg (send_data_in_session c q now n)"
  unfolding send_data_in_session_def by (assumption | rule vc nk fine)+

lemma send_or_queue_ok [nk]: "node_ok c cfg n \<Longrightarrow> kept_opt c cfg (send_or_queue c q now n)"
  unfolding send_or_queue_def by (assumption | rule vc nk fine)+

lemma send_broadcast_ok [nk]: "node_ok c cfg n \<Longrightarrow> kept_res c cfg (send_broadcast c payload n)"
  unfolding send_broadcast_def by (assumption | rule vc nk fine)+

lemma send_message_ok [nk]: "node_ok c cfg n \<Longrightarrow> kept_res c cfg (send_message c dst payload rl n)"
  unfolding send_message_def by (cases rl) (simp_all only: reliability.case, (assumption | rule vc nk fine)+)

lemma trace_ok [nk]:
  assumes ok: "node_ok c cfg n"
  shows "kept_res c cfg (trace c dst n)"
proof (cases "dst = Node_address n \<or> Address_is_broadcast dst \<or> length (nd_pending_traces n) \<ge> 4")
  case True
  then show ?thesis using ok by (auto simp: trace_def)
next
  case False
  obtain h r where h: "base_header Control dst (ttl_for dst n) n = Some (h, n\<lparr>nd_rng := r\<rparr>)" "rng_fair r"
    using base_header_state [OF ok] by blast
  have "length (filter (\<lambda>(d, _). d \<noteq> dst) (nd_pending_traces n)) < 4"
    using False by (intro order.strict_trans1 [OF length_filter_le]) simp
  then show ?thesis using False h ok by (auto simp: trace_def Let_def intro!: nk)
qed

end
