(* ===== verification/Node_Keeps_Rx.thy ===== *)
theory Node_Keeps_Rx
  imports Node_Keeps
begin

section \<open>Every handler and timer of the node returns and keeps the invariant\<close>

text \<open>The same for the receive path, the timers and \<open>poll\<close>.\<close>

subsection \<open>Route replies and sessions\<close>

lemma send_route_reply_ok [nk]: "node_ok c cfg n \<Longrightarrow> kept_opt c cfg (send_route_reply c a r now n)"
  unfolding send_route_reply_def by (assumption | rule vc nk fine)+

lemma send_route_error_ok [nk]: "node_ok c cfg n \<Longrightarrow> kept_opt c cfg (send_route_error c a u now n)"
  unfolding send_route_error_def by (assumption | rule vc nk fine)+

lemma install_session_ok [nk]:
  "node_ok c cfg n \<Longrightarrow> pid_ok c peer remote \<Longrightarrow> kept_opt c cfg (install_session c peer e keys remote now n)"
  unfolding install_session_def
  by (assumption | rule vc nk fine | (simp add: Session_new_def; fail))+

lemma drain_one_ok [nk]: "node_ok c cfg n \<Longrightarrow> kept_opt c cfg (drain_one c peer now q n)"
  unfolding drain_one_def by (assumption | rule vc nk fine)+

lemma drain_queued_ok [nk]: "node_ok c cfg n \<Longrightarrow> kept_opt c cfg (drain_queued c peer qs now n)"
  unfolding drain_queued_def by (assumption | rule vc nk fine)+

lemma responder_start_ok [nk]: "node_ok c cfg n \<Longrightarrow> node_ok c cfg (snd (responder_start c peer msg now n))"
  unfolding responder_start_def by (rule keptD(1), (assumption | rule vc nk fine | (simp add: fine; fail))+)

lemma set_hs_ok [nk]: "node_ok c cfg n \<Longrightarrow> hx_inv c hs \<Longrightarrow> node_ok c cfg (set_hs peer hs n)"
  unfolding set_hs_def by (assumption | rule nk fine | (simp; fail))+

lemma drop_hs_ok [nk]: "node_ok c cfg n \<Longrightarrow> node_ok c cfg (drop_hs peer n)"
  unfolding drop_hs_def by (assumption | rule nk fine)+

lemma hs_get_ok [fine]:
  "node_ok c cfg n \<Longrightarrow> SmallMap_get (nd_handshakes n) peer = Some h \<Longrightarrow> hx_inv c (ph_hs h)"
  by (rule hs_fine_get [OF node_okD(14)])

text \<open>The identity that a finished handshake reports.\<close>

lemma HandshakeXX_finish_remote:
  "HandshakeXX_finish c h = Inr (keys, remote) \<Longrightarrow> hx_remote h = Some remote"
  by (auto simp: HandshakeXX_finish_def ok_or_def res_bind_def split: if_splits option.splits prod.splits sum.splits)

lemma write_3_remote: "hx_remote (fst (HandshakeXX_write_message_3 c x h)) = hx_remote h"
proof -
  have "wp (HandshakeXX_write_message_3 c x) (\<lambda>_ h'. hx_remote h' = hx_remote h) (\<lambda>h'. hx_remote h' = hx_remote h) h"
    by (auto simp: HandshakeXX_write_message_3_def wp_simps wp_hx split: sum.split)
  then show ?thesis using wp_state [of "HandshakeXX_write_message_3 c x" "\<lambda>h'. hx_remote h' = hx_remote h" h] by simp
qed

lemma finish_pid_ok:
  assumes "HandshakeXX_finish c h = Inr (keys, remote)" "hx_inv c h" "map_option pid_address (hx_remote h) = Some peer"
  shows "pid_ok c peer remote"
  using HandshakeXX_finish_remote [OF assms(1)] assms(2,3) by (auto simp: pid_ok_def hx_inv_def hx_bound_def)

lemma finish_ok [fine]:
  "HandshakeXX_finish c h = Inr y \<Longrightarrow> hx_inv c h \<Longrightarrow> \<not> map_option pid_address (hx_remote h) \<noteq> Some peer \<Longrightarrow>
     pid_ok c peer (snd y)"
  "HandshakeXX_finish c (fst (HandshakeXX_write_message_3 c x h)) = Inr y \<Longrightarrow> hx_inv c h \<Longrightarrow>
     \<not> map_option pid_address (hx_remote h) \<noteq> Some peer \<Longrightarrow> pid_ok c peer (snd y)"
  by (cases y; auto intro: finish_pid_ok)
    (cases y; auto intro!: finish_pid_ok [OF _ hx_fine_rules(5)] simp: write_3_remote)

lemma initiator_continue_ok [nk]: "node_ok c cfg n \<Longrightarrow> kept_res c cfg (initiator_continue c peer msg now n)"
  unfolding initiator_continue_def by (assumption | rule vc nk fine | (simp; fail))+

lemma handle_message_3_ok [nk]: "node_ok c cfg n \<Longrightarrow> kept_opt c cfg (handle_message_3 c peer msg now n)"
  unfolding handle_message_3_def by (assumption | rule vc nk fine | (simp; fail))+

lemma vc_hm: "(x = One \<Longrightarrow> kept c cfg g a) \<Longrightarrow> (x = Two \<Longrightarrow> kept c cfg g b) \<Longrightarrow> (x = Three \<Longrightarrow> kept c cfg g d) \<Longrightarrow>
    kept c cfg g (case x of One \<Rightarrow> a | Two \<Rightarrow> b | Three \<Rightarrow> d)"
  by (cases x) simp_all

lemma handle_handshake_ok [nk]: "node_ok c cfg n \<Longrightarrow> kept_opt c cfg (handle_handshake c p now n)"
  unfolding handle_handshake_def by (assumption | rule vc vc_hm nk fine)+

lemma remove_session_ok [nk]: "node_ok c cfg n \<Longrightarrow> node_ok c cfg (remove_session peer n)"
  unfolding remove_session_def by (assumption | rule nk fine)+

lemma on_no_session_notice_ok [nk]: "node_ok c cfg n \<Longrightarrow> kept_opt c cfg (on_no_session_notice c peer now n)"
  unfolding on_no_session_notice_def by (assumption | rule vc nk fine | (simp; fail))+

lemma close_session_ok [nk]: "node_ok c cfg n \<Longrightarrow> kept_opt c cfg (close_session c peer n)"
  unfolding close_session_def by (assumption | rule vc nk fine)+

subsection \<open>Timeouts\<close>

lemma unack_envelope_ok [nk]: "node_ok c cfg n \<Longrightarrow> node_ok c cfg (snd (unack_envelope i n))"
  unfolding unack_envelope_def by (rule keptD(1), (assumption | rule vc nk fine)+)

lemma discovery_failed_packet_ok [nk]:
  "node_ok c cfg n \<Longrightarrow> kept_opt c cfg (discovery_failed_packet c t a now p n)"
  unfolding discovery_failed_packet_def by (assumption | rule vc nk fine)+

lemma on_discovery_failed_ok [nk]: "node_ok c cfg n \<Longrightarrow> kept_opt c cfg (on_discovery_failed c t qs now n)"
  unfolding on_discovery_failed_def by (assumption | rule vc nk fine length_filter_bound node_okD)+

lemma distrust_route_ok [nk]: "node_ok c cfg n \<Longrightarrow> node_ok c cfg (distrust_route ob now n)"
  unfolding distrust_route_def by (rule keptD(2), (assumption | rule vc nk fine | (simp; fail))+)

lemma retry_outstanding_ok [nk]: "node_ok c cfg n \<Longrightarrow> kept_opt c cfg (retry_outstanding c ob now n)"
  unfolding retry_outstanding_def by (assumption | rule vc nk fine)+

subsection \<open>Forwarding\<close>

lemma roll_ok [nk]: "node_ok c cfg n \<Longrightarrow> node_ok c cfg (snd (roll pct n))"
  unfolding roll_def by (rule keptD(1), (assumption | rule vc nk fine)+)

lemma rs_fine_schedule_at [fine]:
  "node_ok c cfg n \<Longrightarrow> rs_fine cfg s \<Longrightarrow>
   rs_fine cfg (fst (RebroadcastScheduler_schedule s k p due (st_max_pending (ncf_storm (nd_cfg n)))))"
  using node_okD(1) rs_fine_schedule by metis

lemma schedule_relay_ok [nk]: "node_ok c cfg n \<Longrightarrow> node_ok c cfg (schedule_relay k p meta now n)"
  unfolding schedule_relay_def by (rule keptD(2), (assumption | rule vc nk fine)+)

lemma maybe_relay_flood_ok [nk]: "node_ok c cfg n \<Longrightarrow> node_ok c cfg (maybe_relay_flood p prev meta now n)"
  unfolding maybe_relay_flood_def by (rule keptD(2), (assumption | rule vc nk fine)+)

lemma hold_envelope_ok [nk]: "node_ok c cfg n \<Longrightarrow> node_ok c cfg (snd (hold_envelope d p now n))"
  unfolding hold_envelope_def by (rule keptD(1), (assumption | rule vc nk fine mb_fine_get)+)

lemma hold_for_leaf_ok [nk]: "node_ok c cfg n \<Longrightarrow> node_ok c cfg (hold_for_leaf d nb p now n)"
  unfolding hold_for_leaf_def by (rule keptD(2), (assumption | rule vc nk fine | (simp; fail))+)

lemma relay_no_route_ok [nk]: "node_ok c cfg n \<Longrightarrow> kept_opt c cfg (relay_no_route c p now n)"
  unfolding relay_no_route_def by (assumption | rule vc nk fine)+

lemma forward_unicast_ok [nk]: "node_ok c cfg n \<Longrightarrow> kept_opt c cfg (forward_unicast c p prev meta now n)"
  unfolding forward_unicast_def by (assumption | rule vc nk fine)+

subsection \<open>Route discovery messages\<close>

lemma reply_as_target_ok [nk]: "node_ok c cfg n \<Longrightarrow> kept_opt c cfg (reply_as_target c p q now n)"
  unfolding reply_as_target_def by (assumption | rule vc nk fine)+

lemma rs_fine_if [fine]: "(b \<Longrightarrow> rs_fine cfg x) \<Longrightarrow> (\<not> b \<Longrightarrow> rs_fine cfg y) \<Longrightarrow> rs_fine cfg (if b then x else y)"
  by simp

lemma relay_request_ok [nk]: "node_ok c cfg n \<Longrightarrow> node_ok c cfg (relay_request p q cost prev meta now n)"
  unfolding relay_request_def by (rule keptD(2), (assumption | rule vc nk fine)+)

lemma heard_again_ok [nk]: "node_ok c cfg n \<Longrightarrow> node_ok c cfg (heard_again k n)"
  unfolding heard_again_def by (assumption | rule nk fine)+

lemma handle_route_request_ok [nk]:
  "node_ok c cfg n \<Longrightarrow> kept_opt c cfg (handle_route_request c p prev meta now n)"
  unfolding handle_route_request_def by (assumption | rule vc nk fine)+

lemma absorb_key_ok [nk]: "node_ok c cfg n \<Longrightarrow> kept_opt c cfg (absorb_key c r now n)"
  unfolding absorb_key_def
  by (assumption | rule vc nk fine | (simp add: pid_ok_def PublicIdentity_from_bytes_Inr; fail))+

lemma absorb_route_reply_ok [nk]: "node_ok c cfg n \<Longrightarrow> kept_res c cfg (absorb_route_reply c p r prev now n)"
  unfolding absorb_route_reply_def by (assumption | rule vc nk fine)+

lemma handle_route_reply_ok [nk]: "node_ok c cfg n \<Longrightarrow> kept_opt c cfg (handle_route_reply c p prev now n)"
  unfolding handle_route_reply_def by (assumption | rule vc nk fine)+

lemma forward_route_reply_ok [nk]: "node_ok c cfg n \<Longrightarrow> kept_opt c cfg (forward_route_reply c p prev meta now n)"
  unfolding forward_route_reply_def by (assumption | rule vc nk fine)+

lemma unreachable_via_ok [nk]: "node_ok c cfg n \<Longrightarrow> node_ok c cfg (unreachable_via via u n)"
  unfolding unreachable_via_def by (rule keptD(2), (assumption | rule vc nk fine)+)

lemma handle_route_error_ok [nk]: "node_ok c cfg n \<Longrightarrow> node_ok c cfg (handle_route_error p prev n)"
  unfolding handle_route_error_def by (rule keptD(2), (assumption | rule vc nk fine)+)

subsection \<open>Data\<close>

lemma received_ok [nk]: "node_ok c cfg n \<Longrightarrow> node_ok c cfg (received a b pr p meta n)"
  unfolding received_def by (rule keptD(2), (assumption | rule vc nk fine)+)

lemma handle_broadcast_data_ok [nk]: "node_ok c cfg n \<Longrightarrow> node_ok c cfg (handle_broadcast_data c p meta n)"
  unfolding handle_broadcast_data_def by (rule keptD(2), (assumption | rule vc nk fine)+)

lemma reassemble_ok [nk]:
  assumes ok: "node_ok c cfg n"
  shows "kept_res c cfg (reassemble p now n)"
proof (cases "Packet_frag_header p")
  case None
  then show ?thesis using ok by (simp add: reassemble_def)
next
  case (Some fh)
  then have "FragHeader_ok fh"
    by (auto simp: Packet_frag_header_def dest: FragHeader_parse_Inr split: if_splits sum.splits)
  moreover have "ra_fine cfg (nd_reassembler (count cn_fragments_received_update n))"
    using ok by (intro nk)
  ultimately obtain ra r where "Reassembler_push (nd_reassembler (count cn_fragments_received_update n)) now
      (h_src (p_header p)) fh (Packet_body p) = Some (ra, r)" "ra_fine cfg ra"
    using ra_fine_push by metis
  then show ?thesis using ok Some by (simp add: reassemble_def Let_def nk)
qed

lemma notice_no_session_ok [nk]: "node_ok c cfg n \<Longrightarrow> kept_opt c cfg (notice_no_session c src now n)"
  unfolding notice_no_session_def by (assumption | rule vc nk hs_fine_modify | (simp; fail))+

lemma sess_fine_decrypt [fine]:
  "sess_fine c m \<Longrightarrow> SmallMap_get m a = Some s \<Longrightarrow>
   sess_fine c (SmallMap_modify m a (\<lambda>_. fst (Session_decrypt c' now aad ct s)))"
  by (rule sess_fine_set) (simp_all add: sess_fine_get)

lemma open_session_payload_ok [nk]: "node_ok c cfg n \<Longrightarrow> kept_res c cfg (open_session_payload c p now n)"
  unfolding open_session_payload_def by (assumption | rule vc nk fine)+

lemma mailbox_ack_ok [nk]: "node_ok c cfg n \<Longrightarrow> kept_opt c cfg (mailbox_ack c src i now n)"
  unfolding mailbox_ack_def by (assumption | rule vc nk fine)+

lemma envelope_ack_ok [nk]: "node_ok c cfg n \<Longrightarrow> kept_opt c cfg (envelope_ack c pid i sq now n)"
  unfolding envelope_ack_def by (assumption | rule vc nk fine)+

lemma remember_envelope_ok [nk]: "node_ok c cfg n \<Longrightarrow> node_ok c cfg (remember_envelope k n)"
  using node_okD(21) [of c cfg n] by (simp add: remember_envelope_def Let_def node_ok_set(20))

lemma bump_duplicates_ok [nk]: "node_ok c cfg n \<Longrightarrow> node_ok c cfg (bump_duplicates n)"
  unfolding bump_duplicates_def by (assumption | rule nk fine)+

lemma pid_valid: "PublicIdentity_from_bytes c pk = Inr s \<Longrightarrow> PublicIdentity_from_bytes c (pid_verifying s) = Inr s"
  using PublicIdentity_from_bytes_Inr by metis

lemma open_envelope_pid [fine]:
  "open_envelope c ident i env = Inr y \<Longrightarrow> pid_ok c (pid_address (fst y)) (fst y)"
  by (auto simp: open_envelope_def x_open_def pid_ok_def Let_def res_bind_def split_beta
      intro: pid_valid split: if_splits sum.splits)

lemma handle_envelope_ok [nk]: "node_ok c cfg n \<Longrightarrow> kept_opt c cfg (handle_envelope c p meta now n)"
  unfolding handle_envelope_def by (assumption | rule vc nk fine)+

lemma handle_unicast_data_ok [nk]: "node_ok c cfg n \<Longrightarrow> kept_opt c cfg (handle_unicast_data c p meta now n)"
  unfolding handle_unicast_data_def by (assumption | rule vc nk fine)+

subsection \<open>Acknowledgements, mailbox traffic, traces and control\<close>

lemma handle_envelope_ack_ok [nk]: "node_ok c cfg n \<Longrightarrow> kept_opt c cfg (handle_envelope_ack c p now n)"
  unfolding handle_envelope_ack_def by (assumption | rule vc nk fine)+

lemma credit_route_ok [nk]: "node_ok c cfg n \<Longrightarrow> node_ok c cfg (credit_route src now n)"
  unfolding credit_route_def by (rule keptD(2), (assumption | rule vc nk fine)+)

lemma handle_session_ack_ok [nk]: "node_ok c cfg n \<Longrightarrow> node_ok c cfg (handle_session_ack src b now n)"
  unfolding handle_session_ack_def by (rule keptD(2), (assumption | rule vc nk fine)+)

lemma handle_ack_ok [nk]: "node_ok c cfg n \<Longrightarrow> kept_opt c cfg (handle_ack c p now n)"
  unfolding handle_ack_def by (assumption | rule vc nk fine)+

lemma store_for_ok [nk]: "node_ok c cfg n \<Longrightarrow> node_ok c cfg (snd (store_for src req now n))"
  unfolding store_for_def by (rule keptD(1), (assumption | rule vc nk fine mb_fine_get)+)

lemma handle_store_ok [nk]: "node_ok c cfg n \<Longrightarrow> kept_opt c cfg (handle_store c p now n)"
  unfolding handle_store_def by (assumption | rule vc nk fine)+

lemma handle_fetch_ok [nk]: "node_ok c cfg n \<Longrightarrow> kept_opt c cfg (handle_fetch c p now n)"
  unfolding handle_fetch_def by (assumption | rule vc nk fine)+

lemma remove_trace_length: "remove_trace src ts = Some (s, ts') \<Longrightarrow> length ts' \<le> length ts"
  by (induction ts arbitrary: s ts') (auto split: if_splits)

lemma remove_trace_ok [fine]:
  "node_ok c cfg n \<Longrightarrow> remove_trace src (nd_pending_traces n) = Some y \<Longrightarrow> length (snd y) \<le> 4"
  using remove_trace_length [of src "nd_pending_traces n" "fst y" "snd y"] node_okD(22) [of c cfg n] by simp

lemma handle_trace_ok [nk]: "node_ok c cfg n \<Longrightarrow> kept_opt c cfg (handle_trace c p now n)"
  unfolding handle_trace_def by (assumption | rule vc nk fine)+

lemma on_store_accepted_ok [nk]: "node_ok c cfg n \<Longrightarrow> node_ok c cfg (on_store_accepted src i n)"
  unfolding on_store_accepted_def by (rule keptD(2), (assumption | rule vc nk fine mb_fine_get)+)

lemma on_store_rejected_ok [nk]: "node_ok c cfg n \<Longrightarrow> node_ok c cfg (on_store_rejected i n)"
  unfolding on_store_rejected_def by (rule keptD(2), (assumption | rule vc nk fine)+)

lemma on_mailbox_ack_ok [nk]: "node_ok c cfg n \<Longrightarrow> node_ok c cfg (on_mailbox_ack src r n)"
  unfolding on_mailbox_ack_def by (rule keptD(2), (assumption | rule vc nk fine mb_fine_get)+)

lemma control_body_ok [nk]: "node_ok c cfg n \<Longrightarrow> kept_opt c cfg (control_body c src b now n)"
  unfolding control_body_def by (assumption | rule vc nk fine)+

lemma handle_control_ok [nk]: "node_ok c cfg n \<Longrightarrow> kept_opt c cfg (handle_control c p now n)"
  unfolding handle_control_def by (assumption | rule vc nk fine)+

subsection \<open>Beacons and received frames\<close>

lemma release_held_ok [nk]: "node_ok c cfg n \<Longrightarrow> node_ok c cfg (release_held c' src now n)"
  unfolding release_held_def
  by (rule keptD(2), (assumption | rule vc nk fine length_filter_bound node_okD | (simp add: split_beta enqueue_packet_ok; fail))+)

lemma choose_host_ok [nk]: "node_ok c cfg n \<Longrightarrow> kept_opt c cfg (choose_host c now n)"
  unfolding choose_host_def by (assumption | rule vc nk fine)+

lemma neighbor_pid_ok [fine]:
  assumes "node_ok c cfg n" "Option.bind (NeighborTable_get (nd_neighbors n) src) nb_identity = Some pid"
  shows "pid_ok c src pid"
proof -
  have inv: "nt_inv c (nd_neighbors n)" using node_okD(3) [OF assms(1)] by (simp add: nt_fine_def)
  obtain nb where "map_of (nt_map (nd_neighbors n)) src = Some nb" "nb_identity nb = Some pid"
    using assms(2) nt_invD(1) [OF inv]
    by (auto simp: bind_eq_Some_conv NeighborTable_get_def SmallMap_get_map_of)
  then show ?thesis using nt_invD(4) [OF inv] by (force simp: nb_ok_def pid_ok_def)
qed

lemma learn_beacon_key_ok [nk]: "node_ok c cfg n \<Longrightarrow> kept_opt c cfg (learn_beacon_key c src now n)"
  unfolding learn_beacon_key_def by (assumption | rule vc nk fine)+

lemma answer_leaf_ok [nk]: "node_ok c cfg n \<Longrightarrow> node_ok c cfg (answer_leaf b now n)"
  unfolding answer_leaf_def by (rule keptD(2), (assumption | rule vc nk fine)+)

lemma handle_beacon_ok [nk]: "node_ok c cfg n \<Longrightarrow> kept_opt c cfg (handle_beacon c p meta now n)"
  unfolding handle_beacon_def by (assumption | rule vc nk fine)+

lemma confirm_link_ack_ok [nk]: "node_ok c cfg n \<Longrightarrow> node_ok c cfg (confirm_link_ack pv b n)"
  unfolding confirm_link_ack_def by (rule keptD(2), (assumption | rule vc nk fine)+)

lemma on_duplicate_ok [nk]: "node_ok c cfg n \<Longrightarrow> kept_opt c cfg (on_duplicate c p prev now n)"
  unfolding on_duplicate_def by (assumption | rule vc nk fine)+

lemma learn_reverse_ok [nk]: "node_ok c cfg n \<Longrightarrow> node_ok c cfg (learn_reverse p prev now n)"
  unfolding learn_reverse_def by (rule keptD(2), (assumption | rule vc nk fine)+)

lemma on_activity_ok [nk]: "node_ok c cfg n \<Longrightarrow> node_ok c cfg (on_activity now n)"
  by (simp add: on_activity_def)

lemma handle_for_me_ok [nk]: "node_ok c cfg n \<Longrightarrow> kept_opt c cfg (handle_for_me c p now n)"
  unfolding handle_for_me_def
  by (cases "h_ptype (p_header p)") (simp_all only: packet_type.case, (assumption | rule vc nk)+)

lemma heard_reply_ok [nk]: "node_ok c cfg n \<Longrightarrow> node_ok c cfg (heard_reply p n)"
  unfolding heard_reply_def by (rule keptD(2), (assumption | rule vc nk fine)+)

lemma dispatch_ok [nk]: "node_ok c cfg n \<Longrightarrow> kept_opt c cfg (dispatch c p prev meta now n)"
  unfolding dispatch_def
  by (cases "h_ptype (p_header p)") (simp_all only: packet_type.case, (assumption | rule vc nk)+)

lemma sc_fine_observed [fine]:
  "sc_fine cfg s \<Longrightarrow> sc_fine cfg (fst (if b then SeenCache_observe s k now else (s, x)))"
  by (simp add: fine)

lemma rx_packet_ok [nk]: "node_ok c cfg n \<Longrightarrow> kept_opt c cfg (rx_packet c p prev meta now n)"
  unfolding rx_packet_def by (assumption | rule vc nk fine)+

lemma count_rx_ok [nk]: "node_ok c cfg n \<Longrightarrow> kept_opt c cfg (count_rx f n)"
  unfolding count_rx_def by (assumption | rule vc nk fine)+

lemma on_radio_rx_ok [nk]: "node_ok c cfg n \<Longrightarrow> kept_opt c cfg (on_radio_rx c frame meta n)"
  unfolding on_radio_rx_def by (assumption | rule vc nk fine)+

end
