(* ===== verification/Node_Safe.thy ===== *)
theory Node_Safe
  imports Node_Keeps_Rx
begin

section \<open>The node as a whole\<close>

text \<open>
  The timers and \<open>poll\<close> keep the invariant as well, and so does every sequence of calls of the public
  methods.
\<close>

subsection \<open>Beacons, sleep and hop retransmissions\<close>

lemma schedule_beacon_ok [nk]: "node_ok c cfg n \<Longrightarrow> node_ok c cfg (schedule_beacon now n)"
  unfolding schedule_beacon_def by (rule keptD(2), (assumption | rule vc nk fine)+)

lemma send_beacon_ok [nk]: "node_ok c cfg n \<Longrightarrow> kept_opt c cfg (send_beacon c now n)"
  unfolding send_beacon_def by (assumption | rule vc nk fine)+

lemma shift_timers_ok [nk]: "node_ok c cfg n \<Longrightarrow> node_ok c cfg (shift_timers slept n)"
  unfolding shift_timers_def
  by (rule keptD(2), (assumption | rule vc nk fine | (simp add: node_okD; fail))+)

lemma on_wake_ok [nk]: "node_ok c cfg n \<Longrightarrow> kept_opt c cfg (on_wake now n)"
  unfolding on_wake_def by (assumption | rule vc nk fine)+

lemma vc_mode:
  "kept c cfg g a \<Longrightarrow> (\<And>l s. kept c cfg g (f l s)) \<Longrightarrow> (\<And>w s. kept c cfg g (h w s)) \<Longrightarrow>
   kept c cfg g (case x of AlwaysOn \<Rightarrow> a | DutyCycle l s \<Rightarrow> f l s | LeafMode w s \<Rightarrow> h w s)"
  by (cases x) simp_all

lemma fall_asleep_ok [nk]: "node_ok c cfg n \<Longrightarrow> node_ok c cfg (fall_asleep now n)"
  unfolding fall_asleep_def by (rule keptD(2), (assumption | rule vc vc_mode nk fine)+)

lemma power_step_ok [nk]: "node_ok c cfg n \<Longrightarrow> kept_opt c cfg (power_step now n)"
  unfolding power_step_def by (assumption | rule vc nk fine)+

lemma lose_routes_via_ok [nk]: "node_ok c cfg n \<Longrightarrow> node_ok c cfg (lose_routes_via nh n)"
  unfolding lose_routes_via_def by (rule keptD(2), (assumption | rule vc nk fine)+)

lemma hop_failed_ok [nk]: "node_ok c cfg n \<Longrightarrow> node_ok c cfg (hop_failed h n)"
  unfolding hop_failed_def by (rule keptD(2), (assumption | rule vc nk fine)+)

lemma hop_reroute_ok [nk]: "node_ok c cfg n \<Longrightarrow> kept_opt c cfg (hop_reroute c' now h n)"
  unfolding hop_reroute_def by (assumption | rule vc nk fine | (simp add: node_okD; fail))+

lemma hop_give_up_ok [nk]:
  assumes "node_ok c cfg n"
  shows "kept_opt c cfg (hop_give_up c' now i n)"
proof -
  have "length (remove_at i (nd_hop_pending n)) \<le> 24"
    using node_okD(18) [OF assms] by (simp add: remove_at_def)
  then show ?thesis using assms by (simp add: hop_give_up_def Let_def nk)
qed

lemma hop_resend_ok [nk]: "node_ok c cfg n \<Longrightarrow> kept_opt c cfg (hop_resend c' now i n)"
  unfolding hop_resend_def by (assumption | rule vc nk fine | (simp add: node_okD; fail))+

lemma hop_loop_ok [nk]: "node_ok c cfg n \<Longrightarrow> kept_opt c cfg (hop_loop c' now k i n)"
proof (induction c' now k i n rule: hop_loop.induct)
  case (1 c' now k i n)
  note steps = hop_give_up_ok [OF 1(4), of c' now i] hop_resend_ok [OF 1(4), of c' now i]
  show ?case by (subst hop_loop.simps) (auto intro!: vc_bind_eq steps intro: 1)
qed

subsection \<open>Housekeeping and \<open>poll\<close>\<close>

lemma on_neighbor_lost_ok [nk]: "node_ok c cfg n \<Longrightarrow> node_ok c cfg (on_neighbor_lost a n)"
  unfolding on_neighbor_lost_def by (rule keptD(2), (assumption | rule vc nk fine)+)

lemma expire_tables_ok [nk]: "node_ok c cfg n \<Longrightarrow> node_ok c cfg (expire_tables now n)"
  unfolding expire_tables_def by (assumption | rule nk fine)+

lemma expire_neighbors_ok [nk]: "node_ok c cfg n \<Longrightarrow> node_ok c cfg (expire_neighbors now n)"
  unfolding expire_neighbors_def by (rule keptD(2), (assumption | rule vc nk fine)+)

lemma expire_sessions_ok [nk]: "node_ok c cfg n \<Longrightarrow> node_ok c cfg (expire_sessions now n)"
  unfolding expire_sessions_def by (rule keptD(2), (assumption | rule vc nk fine)+)

lemma start_rekey_ok [nk]: "node_ok c cfg n \<Longrightarrow> kept_opt c cfg (start_rekey c now a n)"
  unfolding start_rekey_def by (assumption | rule vc nk sess_fine_modify | (simp; fail))+

lemma rekey_sessions_ok [nk]: "node_ok c cfg n \<Longrightarrow> kept_opt c cfg (rekey_sessions c now n)"
  unfolding rekey_sessions_def by (assumption | rule vc nk fine)+

lemma rearm_keys_ok [nk]: "node_ok c cfg n \<Longrightarrow> kept_opt c cfg (rearm_keys c now n)"
  unfolding rearm_keys_def by (assumption | rule vc nk fine)+

lemma expire_envelopes_ok [nk]: "node_ok c cfg n \<Longrightarrow> node_ok c cfg (expire_envelopes now n)"
  unfolding expire_envelopes_def
  by (rule keptD(2), (assumption | rule vc nk fine length_filter_bound node_okD)+)

lemma tend_mail_ok [nk]: "node_ok c cfg n \<Longrightarrow> kept_opt c cfg (tend_mail c now d n)"
  unfolding tend_mail_def by (assumption | rule vc nk fine mb_fine_get)+

lemma tend_mailbox_ok [nk]: "node_ok c cfg n \<Longrightarrow> kept_opt c cfg (tend_mailbox c now n)"
  unfolding tend_mailbox_def by (assumption | rule vc nk fine mb_fine_get)+

lemma decay_ok [nk]: "node_ok c cfg n \<Longrightarrow> node_ok c cfg (decay now n)"
  unfolding decay_def by (assumption | rule nk fine length_filter_bound node_okD)+

lemma housekeeping_ok [nk]: "node_ok c cfg n \<Longrightarrow> kept_opt c cfg (housekeeping c now n)"
  unfolding housekeeping_def by (assumption | rule vc nk fine)+

lemma poll_fetch_ok [nk]: "node_ok c cfg n \<Longrightarrow> kept_opt c cfg (poll_fetch c now n)"
  unfolding poll_fetch_def by (assumption | rule vc nk fine)+

lemma poll_relays_ok [nk]: "node_ok c cfg n \<Longrightarrow> node_ok c cfg (poll_relays c' now n)"
  by (auto simp: poll_relays_def split_beta Let_def fine node_okD intro!: nk)

lemma poll_replies_ok [nk]: "node_ok c cfg n \<Longrightarrow> kept_opt c cfg (poll_replies c now n)"
  unfolding poll_replies_def by (assumption | rule vc nk fine)+

lemma poll_discoveries_ok [nk]: "node_ok c cfg n \<Longrightarrow> kept_opt c cfg (poll_discoveries c now n)"
  unfolding poll_discoveries_def by (assumption | rule vc nk fine)+

lemma no_ack_ok [nk]: "node_ok c cfg n \<Longrightarrow> node_ok c cfg (no_ack ob n)"
  unfolding no_ack_def by (rule keptD(2), (assumption | rule vc nk fine)+)

lemma rng_fair_transport [fine]: "rng_fair r \<Longrightarrow> rng_fair (fst (snd (Transport_tick now r t)))"
  by (simp add: Transport_tick_def Let_def fine)

lemma poll_transport_ok [nk]: "node_ok c cfg n \<Longrightarrow> kept_opt c cfg (poll_transport c now n)"
  unfolding poll_transport_def by (assumption | rule vc nk fine)+

lemma resend_m1_ok [nk]: "node_ok c cfg n \<Longrightarrow> kept_opt c cfg (resend_m1 c now am n)"
  unfolding resend_m1_def by (assumption | rule vc nk hs_fine_modify | (simp; fail))+

lemma expire_handshake_ok [nk]: "node_ok c cfg n \<Longrightarrow> node_ok c cfg (expire_handshake a n)"
  unfolding expire_handshake_def by (rule keptD(2), (assumption | rule vc nk fine)+)

lemma poll_handshakes_ok [nk]: "node_ok c cfg n \<Longrightarrow> kept_opt c cfg (poll_handshakes c now n)"
  unfolding poll_handshakes_def by (assumption | rule vc nk fine)+

lemma poll_traces_ok [nk]: "node_ok c cfg n \<Longrightarrow> node_ok c cfg (poll_traces now n)"
  unfolding poll_traces_def by (assumption | rule nk fine length_filter_bound node_okD)+

lemma poll_ok [nk]: "node_ok c cfg n \<Longrightarrow> kept_opt c cfg (poll c t n)"
  unfolding poll_def by (assumption | rule vc nk fine)+

subsection \<open>The public interface\<close>

lemma best_tx_index: "best_tx now i q b = Some (j, x) \<Longrightarrow> b = Some (j, x) \<or> (i \<le> j \<and> j < i + length q \<and> q ! (j - i) = x \<and> ti_not_before x \<le> now)"
proof (induction now i q b rule: best_tx.induct)
  case (2 now i item q b)
  then show ?case
    by (force simp: not_less Suc_le_eq nth_Cons' split: if_splits option.splits prod.splits)
qed simp

lemma txq_fine_remove_at [fine]: "txq_fine cfg q \<Longrightarrow> txq_fine cfg (remove_at i q)"
  by (auto simp: txq_fine_def remove_at_def dest: in_set_takeD in_set_dropD)

lemma next_tx_ok [nk]: "node_ok c cfg n \<Longrightarrow> kept_res c cfg (next_tx now n)"
  unfolding next_tx_def by (assumption | rule vc nk fine)+

lemma next_event_ok [nk]: "node_ok c cfg n \<Longrightarrow> node_ok c cfg (snd (next_event n))"
  using node_okD(17) [of c cfg n] by (auto simp: next_event_def intro!: nk split: list.split)

lemma add_known_identity_ok [nk]:
  "node_ok c cfg n \<Longrightarrow> PublicIdentity_from_bytes c pk = Inr pid \<Longrightarrow> node_ok c cfg (add_known_identity pid n)"
  unfolding add_known_identity_def
  by (assumption | rule nk keys_fine_put | (simp add: pid_ok_def pid_valid; fail))+

text \<open>A value of type \<open>PublicIdentity\<close> exists only as the result of \<open>from_bytes\<close>; the operation that
  registers one therefore takes the bytes.\<close>

datatype node_op =
    OpRx bytes rx_meta
  | OpPoll time
  | OpSend address bytes reliability
  | OpTrace address
  | OpClose address
  | OpNextTx time
  | OpNextEvent
  | OpAddIdentity bytes

fun node_step :: "crypto \<Rightarrow> node_op \<Rightarrow> node \<Rightarrow> node option" where
  "node_step c (OpRx frame meta) n = on_radio_rx c frame meta n"
| "node_step c (OpPoll t) n = poll c t n"
| "node_step c (OpSend dst payload rl) n = map_option snd (send_message c dst payload rl n)"
| "node_step c (OpTrace dst) n = map_option snd (trace c dst n)"
| "node_step c (OpClose peer) n = close_session c peer n"
| "node_step c (OpNextTx t) n = map_option snd (next_tx t n)"
| "node_step c OpNextEvent n = Some (snd (next_event n))"
| "node_step c (OpAddIdentity pk) n =
     (case PublicIdentity_from_bytes c pk of Inr pid \<Rightarrow> Some (add_known_identity pid n) | Inl _ \<Rightarrow> Some n)"

lemma kept_map_snd: "kept_res c cfg r \<Longrightarrow> kept_opt c cfg (map_option snd r)"
  by (simp add: ensures_def)

interpretation nd: invariant_machine "\<lambda>op s. Option.bind s (node_step c op)" "kept_opt c cfg" for c cfg
proof
  fix s op
  assume s: "kept_opt c cfg s"
  have "kept_opt c cfg (node_step c op n)" if "node_ok c cfg n" for n
    using that by (cases op) (auto simp: on_radio_rx_ok poll_ok close_session_ok next_event_ok
        intro: kept_map_snd next_tx_ok send_message_ok trace_ok add_known_identity_ok split: sum.split)
  with s show "kept_opt c cfg (Option.bind s (node_step c op))" by (rule vc_bind_state)
qed

lemma ofold_fold_bind: "ofold f xs n = fold (\<lambda>x s. Option.bind s (f x)) xs (Some n)"
proof (induction xs arbitrary: n)
  case (Cons x xs)
  have "fold (\<lambda>x s. Option.bind s (f x)) xs None = None" by (induction xs) simp_all
  with Cons show ?case by (cases "f x n") simp_all
qed simp

lemma node_run_kept: "node_ok c cfg n \<Longrightarrow> kept_opt c cfg (ofold (node_step c) ops n)"
  using nd.run_inv [where c = c and cfg = cfg and s = "Some n" and ops = ops] by (simp add: ofold_fold_bind)

lemma Node_mailbox_ok: "pred_option mb_inv (Node_mailbox cfg)"
  by (cases "ncf_role cfg") (simp_all add: Node_mailbox_def mb_inv_new)

lemma Node_mailbox_cfg:
  "ncf_role cfg' = ncf_role cfg \<Longrightarrow> ncf_mailbox cfg' = ncf_mailbox cfg \<Longrightarrow> Node_mailbox cfg' = Node_mailbox cfg"
  by (cases "ncf_role cfg") (simp_all add: Node_mailbox_def)

lemma Node_new_fields:
  fixes cfg ident r keys now
  defines "n \<equiv> Node_new cfg ident r keys now"
  shows "nd_rng n = sdrop 4 r" "nd_neighbors n = NeighborTable_new (ncf_neighbor (nd_cfg n))"
    "nd_routes n = RouteCache_new (ncf_routing (nd_cfg n))" "ncf_routing (nd_cfg n) = ncf_routing cfg"
    "\<exists>ttl. nd_zone n = ZoneTable_new (zc_zone_radius (ncf_zrp (nd_cfg n))) (zc_max_zone_entries (ncf_zrp (nd_cfg n))) ttl"
    "nd_ierp n = Ierp_new (ncf_zrp (nd_cfg n))" "nd_rrep_pending n = PendingReplies_default"
    "nd_seen n = SeenCache_new (st_seen_cache_size (ncf_storm (nd_cfg n))) (st_seen_ttl_ms (ncf_storm (nd_cfg n)))"
    "nd_sched n = RebroadcastScheduler_new" "\<exists>s. nd_transport n = Transport_new (ncf_transport (nd_cfg n)) s"
    "nd_mailbox n = Node_mailbox (nd_cfg n)" "nd_reassembler n = Reassembler_new (ncf_reassembly (nd_cfg n))"
    "nd_sessions n = []" "nd_handshakes n = []" "nd_key_dir n = []" "nd_pending_envelopes n = []"
    "nd_tx_queue n = []" "nd_events n = []" "nd_hop_pending n = []" "nd_held_for_sleeping n = []"
    "nd_opened_envelopes n = []" "nd_pending_traces n = []"
  by (auto simp: n_def Node_new_def Let_def SmallMap_new_def intro: Node_mailbox_cfg)

lemma Node_new_ok:
  assumes "RoutingConfig_ok (ncf_routing cfg)" "rng_fair r"
  shows "node_ok c (nd_cfg (Node_new cfg ident r keys now)) (Node_new cfg ident r keys now)"
proof -
  define n where "n = Node_new cfg ident r keys now"
  define k where "k = nd_cfg n"
  note f = Node_new_fields [where cfg = cfg and ident = ident and r = r and keys = keys and now = now, folded n_def]
  have "zt_fine k (nd_zone n)" using f(5) by (auto simp: zt_fine_def zt_inv_new k_def) (simp add: ZoneTable_new_def)
  moreover have "tr_fine k (nd_transport n)"
    using f(10) by (auto simp: tr_fine_def k_def Transport_new_def tr_inv_def SmallMap_new_def)
  moreover have "nt_fine c k (nd_neighbors n)" by (simp add: f(2) nt_fine_def nt_inv_new k_def) (simp add: NeighborTable_new_def)
  moreover have "rt_fine k (nd_routes n)" using assms(1) by (simp add: f(3,4) rt_fine_def rt_inv_new k_def) (simp add: RouteCache_new_def)
  moreover have "ie_fine k (nd_ierp n)" by (simp add: f(6) ie_fine_def ie_inv_new k_def) (simp add: Ierp_new_def)
  moreover have "sc_fine k (nd_seen n)" by (simp add: f(8) sc_fine_def sc_inv_new k_def) (simp add: SeenCache_new_def)
  moreover have "mb_fine k (nd_mailbox n)" by (simp add: f(11) mb_fine_def Node_mailbox_ok k_def)
  moreover have "ra_fine k (nd_reassembler n)" by (simp add: f(12) ra_fine_def ra_inv_new k_def) (simp add: Reassembler_new_def)
  ultimately have "node_ok c k n"
    by (simp add: node_ok_def f(1,7,9,13-22) k_def [symmetric] rng_fair_sdrop [OF assms(2)] pr_fine_def rs_fine_def
        sess_fine_def hs_fine_def keys_fine_def txq_fine_def PendingReplies_default_def RebroadcastScheduler_new_def sm_all_def)
  then show ?thesis by (simp add: n_def k_def)
qed

lemma Node_new_profile: "ncf_profile (nd_cfg (Node_new cfg ident r keys now)) = ncf_profile cfg"
  by (simp add: Node_new_def Let_def)

lemma node_run_new:
  assumes "RoutingConfig_ok (ncf_routing cfg)" "rng_fair r"
  shows "kept_opt c (nd_cfg (Node_new cfg ident r keys now)) (ofold (node_step c) ops (Node_new cfg ident r keys now))"
  by (rule node_run_kept [OF Node_new_ok [OF assms]])

text \<open>The condition on the radio profile is needed: without an airtime a frame stops an awake node.\<close>

lemma no_airtime_panics:
  "\<not> LoRaProfile_ok (ncf_profile (nd_cfg n)) \<Longrightarrow> pm_awake (nd_power n) \<Longrightarrow> on_radio_rx c frame meta n = None"
  using airtime_ms_None [of "ncf_profile (nd_cfg n)" "length frame"]
  by (simp add: on_radio_rx_def count_rx_def count_def Let_def)

subsection \<open>Properties\<close>

text \<open>C1. A node made by \<open>new\<close> from a configuration whose route cache has room for a route and whose radio
  profile has an airtime, with a fair generator, returns from every sequence of calls of its public methods, whatever the frames, the
  times and the arguments: no call panics or loops for ever. The state afterwards is within all bounds: the
  transmit queue (and every frame of it at most 255 bytes), 256 events, 24 hop entries, 16
  held packets, 16 waiting envelopes, 64 remembered envelopes, 4 traces, 16 route replies, and
  the limits of every component.\<close>

theorem node_total:
  assumes "RoutingConfig_ok (ncf_routing cfg)" "LoRaProfile_ok (ncf_profile cfg)" "rng_fair r"
  shows "\<exists>n. ofold (node_step c) ops (Node_new cfg ident r keys now) = Some n
           \<and> node_ok c (nd_cfg (Node_new cfg ident r keys now)) n"
  using node_run_new [OF assms(1,3), where c = c and ident = ident and keys = keys and now = now and ops = ops] assms(2)
  by (cases "ofold (node_step c) ops (Node_new cfg ident r keys now)") (auto simp: ensures_def Node_new_profile)

lemma rng_fair_sconst: "rng_fair (sconst 1)"
  by (auto simp: rng_fair_def)

lemma default_routing_ok: "RoutingConfig_ok (ncf_routing NodeConfig_default)"
  by (simp add: RoutingConfig_ok_def NodeConfig_default_def RoutingConfig_default_def)

lemma default_radio_ok: "LoRaProfile_ok (ncf_profile NodeConfig_default)"
  by (simp add: NodeConfig_default_def default_profile_ok)

theorem node_total_witness:
  "\<exists>n. ofold (node_step demo_crypto) [OpPoll 600, OpRx [1, 2, 3] (RxMeta_new (- 90) 7 650), OpNextTx 700]
         (Node_new NodeConfig_default demo_alice (sconst 1) (sconst [3]) 0) = Some n
     \<and> node_ok demo_crypto (nd_cfg (Node_new NodeConfig_default demo_alice (sconst 1) (sconst [3]) 0)) n"
  by (rule node_total [OF default_routing_ok default_radio_ok rng_fair_sconst])

text \<open>C5. In every state a node can reach, a key of the key directory hashes to the address it is filed
  under, and so does the key of the peer of every session: nobody can have a node use their key
  for the address of somebody else, whatever beacons, replies, envelopes and handshakes they send.\<close>

theorem node_keys_authentic:
  assumes "RoutingConfig_ok (ncf_routing cfg)" "rng_fair r"
    and "ofold (node_step c) ops (Node_new cfg ident r keys now) = Some n"
  shows "(\<forall>a pid. SmallMap_get (nd_key_dir n) a = Some pid \<longrightarrow> Address_from_public_key c (pid_verifying pid) = a) \<and>
    (\<forall>a s. SmallMap_get (nd_sessions n) a = Some s \<longrightarrow> Address_from_public_key c (pid_verifying (se_peer s)) = a)"
proof -
  have ok: "node_ok c (nd_cfg (Node_new cfg ident r keys now)) n"
    using node_run_new [OF assms(1,2), where c = c and ident = ident and keys = keys and now = now and ops = ops] assms(3) by simp
  have "Address_from_public_key c (pid_verifying pid) = a" if "pid_ok c a pid" for a pid
    using that PublicIdentity_from_bytes_Inr [of c "pid_verifying pid" pid] by (auto simp: pid_ok_def)
  then show ?thesis
    using keys_fine_get [OF node_okD(15) [OF ok]] sess_fine_get [OF node_okD(13) [OF ok]] by blast
qed

lemma added_identity:
  "ofold (node_step demo_crypto) [OpAddIdentity (pid_verifying (id_public demo_bob))] n
   = Some (add_known_identity (id_public demo_bob) n)"
  using identity_facts(2) [OF demo_crypto_laws(4) demo_identities(2)] by simp

theorem node_keys_authentic_witness:
  "Address_from_public_key demo_crypto (pid_verifying (id_public demo_bob)) = pid_address (id_public demo_bob)"
proof -
  let ?n = "add_known_identity (id_public demo_bob) (Node_new NodeConfig_default demo_alice (sconst 1) (sconst [3]) 0)"
  have "SmallMap_get (nd_key_dir ?n) (pid_address (id_public demo_bob)) = Some (id_public demo_bob)"
    by (simp add: add_known_identity_def Node_new_fields SmallMap_get_map_of)
  then show ?thesis
    using node_keys_authentic [OF default_routing_ok rng_fair_sconst added_identity] by blast
qed

end
