(* ===== verification/Relay_Safe.thy ===== *)
theory Relay_Safe
  imports Relay Node_Safe
begin

section \<open>The relay as a whole\<close>

text \<open>
  The invariant of a relay: its components within the limits of its configuration, its three queues
  within theirs, and the packets in its custody. What a relay may hold and send is a parameter, a
  predicate with the laws of the locale \<open>relay_custody\<close>; every method is shown, once, to return and to
  keep the invariant for all such predicates. The instance says that a relay sends its own packets and
  what it heard, changed in the hop fields only.
\<close>

subsection \<open>The invariant\<close>

named_theorems rk

text \<open>The components are those of a node, within the limits that the relay gives them.\<close>

definition relay_limits :: "relay_config \<Rightarrow> node_config" where
  "relay_limits cfg =
     NodeConfig_default\<lparr>ncf_neighbor := rlc_neighbor cfg, ncf_routing := rlc_routing cfg, ncf_zrp := rlc_zrp cfg,
       ncf_storm := rlc_storm cfg, ncf_max_tx_queue := rlc_max_tx_queue cfg\<rparr>"

lemma relay_limits_simps [simp]:
  "ncf_neighbor (relay_limits cfg) = rlc_neighbor cfg" "ncf_routing (relay_limits cfg) = rlc_routing cfg"
  "ncf_zrp (relay_limits cfg) = rlc_zrp cfg" "ncf_storm (relay_limits cfg) = rlc_storm cfg"
  "ncf_max_tx_queue (relay_limits cfg) = rlc_max_tx_queue cfg"
  by (simp_all add: relay_limits_def)

definition ie_keeps :: "relay_config \<Rightarrow> (packet \<Rightarrow> bool) \<Rightarrow> ierp \<Rightarrow> bool" where
  "ie_keeps cfg A s \<longleftrightarrow> ie_fine (relay_limits cfg) s \<and> sm_all (\<lambda>t d. \<forall>p \<in> set (d_queued d). A p) (ie_pending s)"

definition rs_keeps :: "relay_config \<Rightarrow> (packet \<Rightarrow> bool) \<Rightarrow> rebroadcast_scheduler \<Rightarrow> bool" where
  "rs_keeps cfg A s \<longleftrightarrow> rs_fine (relay_limits cfg) s \<and> (\<forall>e \<in> set (rs_pending s). A (pd_packet e))"

definition hops_keep :: "relay_config \<Rightarrow> (packet \<Rightarrow> bool) \<Rightarrow> relay_hop list \<Rightarrow> bool" where
  "hops_keep cfg A hs \<longleftrightarrow> length hs \<le> rlc_max_hop_pending cfg \<and> (\<forall>h \<in> set hs. A (rh_packet h))"

definition held_keep :: "relay_config \<Rightarrow> (packet \<Rightarrow> bool) \<Rightarrow> (address \<times> packet \<times> time) list \<Rightarrow> bool" where
  "held_keep cfg A hs \<longleftrightarrow> length hs \<le> rlc_max_held cfg \<and> (\<forall>(a, p, t) \<in> set hs. A p)"

definition txq_keeps :: "crypto \<Rightarrow> relay_config \<Rightarrow> (packet \<Rightarrow> bool) \<Rightarrow> tx_item list \<Rightarrow> bool" where
  "txq_keeps c cfg A q \<longleftrightarrow> txq_fine (relay_limits cfg) q \<and>
     (\<forall>i \<in> set q. \<exists>p. A p \<and> Packet_encode c p (rlc_network_key cfg) = Inr (ti_frame i))"

definition relay_ok :: "crypto \<Rightarrow> relay_config \<Rightarrow> address \<Rightarrow> (packet \<Rightarrow> bool) \<Rightarrow> relay \<Rightarrow> bool" where
  "relay_ok c cfg me A r \<longleftrightarrow>
     rl_cfg r = cfg \<and> Relay_address r = me \<and> 1 \<le> rlc_max_ttl cfg \<and>
     nt_fine c (relay_limits cfg) (rl_neighbors r) \<and> zt_fine (relay_limits cfg) (rl_zone r) \<and>
     rt_fine (relay_limits cfg) (rl_routes r) \<and> sc_fine (relay_limits cfg) (rl_seen r) \<and>
     ie_keeps cfg A (rl_ierp r) \<and> rs_keeps cfg A (rl_sched r) \<and> hops_keep cfg A (rl_hop_pending r) \<and>
     held_keep cfg A (rl_held r) \<and> txq_keeps c cfg A (rl_tx_queue r)"

lemma relay_okD:
  assumes "relay_ok c cfg me A r"
  shows "rl_cfg r = cfg" "Relay_address r = me" "1 \<le> rlc_max_ttl cfg"
    "nt_fine c (relay_limits cfg) (rl_neighbors r)" "zt_fine (relay_limits cfg) (rl_zone r)"
    "rt_fine (relay_limits cfg) (rl_routes r)" "sc_fine (relay_limits cfg) (rl_seen r)"
    "ie_keeps cfg A (rl_ierp r)" "rs_keeps cfg A (rl_sched r)" "hops_keep cfg A (rl_hop_pending r)"
    "held_keep cfg A (rl_held r)" "txq_keeps c cfg A (rl_tx_queue r)"
  using assms by (simp_all only: relay_ok_def)

lemma relay_ok_free [rk]:
  assumes "relay_ok c cfg me A r"
  shows "relay_ok c cfg me A (r\<lparr>rl_rng := v0\<rparr>)" "relay_ok c cfg me A (r\<lparr>rl_now := v1\<rparr>)"
    "relay_ok c cfg me A (r\<lparr>rl_next_beacon := v1\<rparr>)" "relay_ok c cfg me A (r\<lparr>rl_last_beacon_at := v1\<rparr>)"
    "relay_ok c cfg me A (r\<lparr>rl_beacon_seq := v2\<rparr>)" "relay_ok c cfg me A (r\<lparr>rl_beacons_sent := v3\<rparr>)"
    "relay_ok c cfg me A (r\<lparr>rl_last_neighbor_count := v4\<rparr>)" "relay_ok c cfg me A (r\<lparr>rl_packet_ids := v3\<rparr>)"
    "relay_ok c cfg me A (r\<lparr>rl_last_housekeeping := v1\<rparr>)" "relay_ok c cfg me A (r\<lparr>rl_airtime_ms := v1\<rparr>)"
    "relay_ok c cfg me A (r\<lparr>rl_stats := v5\<rparr>)"
  using assms by (simp_all add: relay_ok_def Relay_address_def)

lemma relay_ok_set [rk]:
  assumes "relay_ok c cfg me A r"
  shows "nt_fine c (relay_limits cfg) t \<Longrightarrow> relay_ok c cfg me A (r\<lparr>rl_neighbors := t\<rparr>)"
    "zt_fine (relay_limits cfg) z \<Longrightarrow> relay_ok c cfg me A (r\<lparr>rl_zone := z\<rparr>)"
    "rt_fine (relay_limits cfg) rt \<Longrightarrow> relay_ok c cfg me A (r\<lparr>rl_routes := rt\<rparr>)"
    "sc_fine (relay_limits cfg) sc \<Longrightarrow> relay_ok c cfg me A (r\<lparr>rl_seen := sc\<rparr>)"
    "ie_keeps cfg A ie \<Longrightarrow> relay_ok c cfg me A (r\<lparr>rl_ierp := ie\<rparr>)"
    "rs_keeps cfg A rs \<Longrightarrow> relay_ok c cfg me A (r\<lparr>rl_sched := rs\<rparr>)"
    "hops_keep cfg A hs \<Longrightarrow> relay_ok c cfg me A (r\<lparr>rl_hop_pending := hs\<rparr>)"
    "held_keep cfg A he \<Longrightarrow> relay_ok c cfg me A (r\<lparr>rl_held := he\<rparr>)"
    "txq_keeps c cfg A q \<Longrightarrow> relay_ok c cfg me A (r\<lparr>rl_tx_queue := q\<rparr>)"
  using assms by (simp_all add: relay_ok_def Relay_address_def)

lemmas relay_okI [rk] = relay_okD(4-12)
lemmas rk_ofold [rk] = ensures_ofold [where I = "relay_ok c cfg me A" for c cfg me A]
lemmas rk_fold [rk] = fold_invariant_rule [where I = "relay_ok c cfg me A" for c cfg me A]

abbreviation rkept :: "crypto \<Rightarrow> relay_config \<Rightarrow> address \<Rightarrow> (packet \<Rightarrow> bool) \<Rightarrow> relay option \<Rightarrow> bool" where
  "rkept c cfg me A \<equiv> ensures (\<not> LoRaProfile_ok (rlc_profile cfg)) (relay_ok c cfg me A) (\<lambda>r. r)"

abbreviation rkept_res :: "crypto \<Rightarrow> relay_config \<Rightarrow> address \<Rightarrow> (packet \<Rightarrow> bool) \<Rightarrow> ('a \<times> relay) option \<Rightarrow> bool" where
  "rkept_res c cfg me A \<equiv> ensures (\<not> LoRaProfile_ok (rlc_profile cfg)) (relay_ok c cfg me A) (map_option snd)"

lemma relay_timeout_None: "Relay_hop_timeout cfg len = None \<longleftrightarrow> \<not> LoRaProfile_ok (rlc_profile cfg)"
  by (simp add: Relay_hop_timeout_def airtime_ms_None [of _ len, symmetric] split: bind_splits)

lemma rvc_airtime [rk]:
  assumes "relay_ok c cfg me A r"
  shows "(\<And>t. rkept c cfg me A (f t)) \<Longrightarrow> rkept c cfg me A (LoRaProfile_airtime_ms (rlc_profile (rl_cfg r)) len \<bind> f)"
    "(\<And>t. rkept_res c cfg me A (h t)) \<Longrightarrow> rkept_res c cfg me A (LoRaProfile_airtime_ms (rlc_profile (rl_cfg r)) len \<bind> h)"
  using assms by (auto intro!: vc_bind_opt simp: airtime_ms_None relay_okD(1))

subsection \<open>The packets in the custody of the components\<close>

lemma ie_keeps_same:
  "ie_keeps cfg A s \<Longrightarrow> ie_fine (relay_limits cfg) s' \<Longrightarrow> ie_pending s' = ie_pending s \<Longrightarrow> ie_keeps cfg A s'"
  by (simp add: ie_keeps_def)

lemma ie_keeps_fine: "ie_keeps cfg A s \<Longrightarrow> ie_fine (relay_limits cfg) s"
  by (simp add: ie_keeps_def)

lemma ie_keeps_wf: "ie_keeps cfg A s \<Longrightarrow> sm_wf (ie_pending s)"
  by (simp add: ie_keeps_def ie_fine_def ie_inv_def)

lemma ie_keeps_observe [rk]:
  assumes "ie_keeps cfg A s" shows "ie_keeps cfg A (fst (Ierp_observe_request o' i cost now s))"
proof (rule ie_keeps_same [OF assms])
  show "ie_fine (relay_limits cfg) (fst (Ierp_observe_request o' i cost now s))"
    by (rule fine ie_keeps_fine [OF assms])+
qed (simp add: Ierp_observe_request_def Let_def split: option.split)

lemma ie_keeps_expire [rk]:
  assumes "ie_keeps cfg A s" shows "ie_keeps cfg A (Ierp_expire now s)"
proof (rule ie_keeps_same [OF assms])
  show "ie_fine (relay_limits cfg) (Ierp_expire now s)" by (rule fine ie_keeps_fine [OF assms])+
qed (simp add: Ierp_expire_def)

lemma ie_keeps_start [rk]: "ie_keeps cfg A s \<Longrightarrow> ie_keeps cfg A (fst (Ierp_start t i now s))"
  using ie_keeps_wf [of cfg A s] ie_fine_rules(1) [of "relay_limits cfg" s t i now]
  by (auto simp: ie_keeps_def Ierp_start_def Let_def sm_all_put)

lemma ie_keeps_queue [rk]:
  assumes "ie_keeps cfg A s" "A p" shows "ie_keeps cfg A (fst (Ierp_queue t p s))"
  unfolding ie_keeps_def
proof
  show "ie_fine (relay_limits cfg) (fst (Ierp_queue t p s))" by (rule fine ie_keeps_fine [OF assms(1)])+
  show "sm_all (\<lambda>t d. \<forall>p \<in> set (d_queued d). A p) (ie_pending (fst (Ierp_queue t p s)))"
    using assms ie_keeps_wf [OF assms(1)]
    by (auto simp: ie_keeps_def Ierp_queue_def sm_all_modify split: option.split)
qed

lemma ie_keeps_succeed:
  assumes "ie_keeps cfg A s"
  shows "ie_keeps cfg A (fst (Ierp_succeed t now s))" "p \<in> set (snd (Ierp_succeed t now s)) \<Longrightarrow> A p"
proof -
  note wf = ie_keeps_wf [OF assms]
  show "ie_keeps cfg A (fst (Ierp_succeed t now s))"
    using assms wf ie_fine_rules(3) [OF ie_keeps_fine [OF assms], of t now]
    by (simp add: ie_keeps_def Ierp_succeed_state sm_all_del)
  show "A p" if "p \<in> set (snd (Ierp_succeed t now s))"
  proof (cases "map_of (ie_pending s) t")
    case None
    then have "snd (SmallMap_remove (ie_pending s) t) = None" using SmallMap_remove_old [OF wf] by simp
    then show ?thesis using that by (cases "SmallMap_remove (ie_pending s) t") (simp add: Ierp_succeed_def)
  next
    case (Some d)
    then have "snd (SmallMap_remove (ie_pending s) t) = Some d" using SmallMap_remove_old [OF wf] by simp
    then have "p \<in> set (d_queued d)"
      using that by (cases "SmallMap_remove (ie_pending s) t") (simp add: Ierp_succeed_def)
    then show ?thesis using assms map_of_SomeD [OF Some] by (auto simp: ie_keeps_def sm_all_def list_all_iff)
  qed
qed

lemma ie_keeps_iff:
  "ie_keeps cfg A s \<longleftrightarrow> ie_fine (relay_limits cfg) s \<and> (\<forall>x \<in> queued_set s. \<forall>p \<in> set (snd x). A p)"
  by (auto simp: ie_keeps_def queued_set_def sm_all_def list_all_iff)

lemma ie_keeps_tick [rk]:
  assumes "ie_keeps cfg A s" shows "ie_keeps cfg A (fst (Ierp_tick now ids s))"
proof -
  have "queued_set (fst (Ierp_tick now ids s)) \<subseteq> queued_set s"
    using Ierp_tick_accounts(2) [OF ie_keeps_wf [OF assms], of now ids] by simp
  moreover have "ie_fine (relay_limits cfg) (fst (Ierp_tick now ids s))"
    by (rule fine ie_keeps_fine [OF assms])+
  ultimately show ?thesis using assms unfolding ie_keeps_iff by blast
qed

lemma rs_keeps_rules:
  assumes "rs_keeps cfg A s"
  shows "rs_keeps cfg A (fst (RebroadcastScheduler_heard s k))" "rs_keeps cfg A (fst (RebroadcastScheduler_cancel s k))"
    "rs_keeps cfg A (fst (RebroadcastScheduler_due s now th))"
    "A p \<Longrightarrow> rs_keeps cfg A (fst (RebroadcastScheduler_schedule s k p due (st_max_pending (rlc_storm cfg))))"
    "x \<in> set (snd (RebroadcastScheduler_due s now th)) \<Longrightarrow> A (snd x)"
proof -
  have f: "rs_fine (relay_limits cfg) s" and a: "\<And>e. e \<in> set (rs_pending s) \<Longrightarrow> A (pd_packet e)"
    using assms by (simp_all add: rs_keeps_def)
  note due = RebroadcastScheduler_due_def due_loop_spec [of 0 s now th "[]", simplified]
  have "A (pd_packet e)" if "e \<in> set (update_first P (\<lambda>p. p\<lparr>pd_heard := sat_add (pd_heard p) 1\<rparr>) xs)"
    "\<And>e. e \<in> set xs \<Longrightarrow> A (pd_packet e)" for e P xs
    using that by (induction xs) (auto split: if_splits)
  then show "rs_keeps cfg A (fst (RebroadcastScheduler_heard s k))"
    using rs_fine_heard [OF f, of k] a by (auto simp: rs_keeps_def RebroadcastScheduler_heard_def)
  show "rs_keeps cfg A (fst (RebroadcastScheduler_cancel s k))"
    using rs_fine_cancel [OF f, of k] a by (simp add: rs_keeps_def RebroadcastScheduler_cancel_def Let_def)
  show "rs_keeps cfg A (fst (RebroadcastScheduler_due s now th))"
    using rs_fine_due [OF f, of now th] a by (simp add: rs_keeps_def due)
  show "rs_keeps cfg A (fst (RebroadcastScheduler_schedule s k p due (st_max_pending (rlc_storm cfg))))" if "A p"
    using rs_fine_schedule [OF f, of k p due] a that by (auto simp: rs_keeps_def RebroadcastScheduler_schedule_def)
  show "A (snd x)" if "x \<in> set (snd (RebroadcastScheduler_due s now th))"
    using that a by (auto simp: due)
qed

lemmas custody_rules [rk] = ie_keeps_succeed(1) rs_keeps_rules(1-4)

lemma hops_keep_rules [rk]:
  assumes "hops_keep cfg A hs"
  shows "hops_keep cfg A (filter P hs)" "hops_keep cfg A (remove_at i hs)"
    "hops_keep cfg A (Relay_mark_rerouted k hs)"
proof -
  show "hops_keep cfg A (filter P hs)"
    using assms by (auto simp: hops_keep_def intro: order_trans [OF length_filter_le])
  show "hops_keep cfg A (remove_at i hs)"
    using assms by (auto simp: hops_keep_def remove_at_def dest: in_set_takeD in_set_dropD)
  have "length (Relay_mark_rerouted k hs) = length hs \<and> rh_packet ` set (Relay_mark_rerouted k hs) = rh_packet ` set hs"
    by (induction hs) auto
  then have "length (Relay_mark_rerouted k hs) = length hs" "rh_packet ` set (Relay_mark_rerouted k hs) = rh_packet ` set hs"
    by simp_all
  then show "hops_keep cfg A (Relay_mark_rerouted k hs)"
    using assms unfolding hops_keep_def by (metis image_iff)
qed

lemma held_keep_filter [rk]: "held_keep cfg A hs \<Longrightarrow> held_keep cfg A (filter P hs)"
  by (auto simp: held_keep_def intro: order_trans [OF length_filter_le])

lemma txq_keeps_rules [rk]:
  assumes "txq_keeps c cfg A q"
  shows "txq_keeps c cfg A (filter P q)" "txq_keeps c cfg A (remove_at i q)"
  using assms txq_fine_filter [of "relay_limits cfg" q P] txq_fine_remove_at [of "relay_limits cfg" q i]
  by (auto simp: txq_keeps_def remove_at_def dest: in_set_takeD in_set_dropD)

subsection \<open>The methods\<close>

locale relay_custody =
  fixes me :: address and A :: "packet \<Rightarrow> bool"
  assumes own: "h_src (p_header p) = me \<Longrightarrow> A p"
    and readdressed: "A p \<Longrightarrow> A (p\<lparr>p_header := (p_header p)\<lparr>h_next_hop := nh\<rparr>\<rparr>)"
      "A p \<Longrightarrow> A (p\<lparr>p_header := (p_header p)\<lparr>h_relay := w\<rparr>\<rparr>)"
    and hop: "A p \<Longrightarrow> 1 < h_ttl (p_header p) \<Longrightarrow> A (p\<lparr>p_header := hop_header (p_header p) nh\<rparr>)"
    and traced: "A p \<Longrightarrow> A (trace_stamp me p)"
    and routing: "A p \<Longrightarrow> h_ptype (p_header p) = RouteRequest \<or> h_ptype (p_header p) = RouteReply \<Longrightarrow> A (p\<lparr>p_payload := b\<rparr>)"
begin

abbreviation ok :: "crypto \<Rightarrow> relay_config \<Rightarrow> relay \<Rightarrow> bool" where
  "ok c cfg \<equiv> relay_ok c cfg me A"

abbreviation kept_pair :: "crypto \<Rightarrow> relay_config \<Rightarrow> ('a \<times> relay) option \<Rightarrow> bool" where
  "kept_pair c cfg \<equiv> rkept_res c cfg me A"

abbreviation kept_relay :: "crypto \<Rightarrow> relay_config \<Rightarrow> relay option \<Rightarrow> bool" where
  "kept_relay c cfg \<equiv> rkept c cfg me A"

lemma own_rules [rk]:
  "h_src h = me \<Longrightarrow> A (Packet_new h b)" "h_src h = me \<Longrightarrow> A (Packet_new (h\<lparr>h_packet_id := i\<rparr>) b)"
  "h_src h = me \<Longrightarrow> A (Packet_new (h\<lparr>h_next_hop := w\<rparr>) b)"
  by (rule own, simp add: Packet_new_def)+

lemma hop_rules [rk]:
  assumes "A p"
  shows "A (p\<lparr>p_header := (p_header p)\<lparr>h_next_hop := nh, h_relay := w\<rparr>\<rparr>)"
    "\<not> h_ttl (p_header p) \<le> 1 \<Longrightarrow> A (p\<lparr>p_header := hop_header (p_header p) nh\<rparr>)"
    "\<not> h_ttl (p_header p) \<le> 1 \<Longrightarrow> h_ptype (p_header p) = RouteRequest \<Longrightarrow>
       A (p\<lparr>p_header := hop_header (p_header p) nh, p_payload := b\<rparr>)"
    "\<not> h_ttl (p_header p) \<le> 1 \<Longrightarrow> ok c cfg r \<Longrightarrow>
       A (trace_stamp (Relay_address r) (p\<lparr>p_header := (hop_header (p_header p) nh)\<lparr>h_relay := w\<rparr>\<rparr>))"
proof -
  show "A (p\<lparr>p_header := (p_header p)\<lparr>h_next_hop := nh, h_relay := w\<rparr>\<rparr>)"
    using readdressed(2) [OF readdressed(1) [OF assms, of nh], of w] by simp
  assume ttl: "\<not> h_ttl (p_header p) \<le> 1"
  then have h: "A (p\<lparr>p_header := hop_header (p_header p) nh\<rparr>)" using hop [OF assms] by simp
  then show "A (p\<lparr>p_header := hop_header (p_header p) nh\<rparr>)" .
  show "A (p\<lparr>p_header := hop_header (p_header p) nh, p_payload := b\<rparr>)" if "h_ptype (p_header p) = RouteRequest"
    using routing [OF h, of b] that by (simp add: hop_header_def)
  show "A (trace_stamp (Relay_address r) (p\<lparr>p_header := (hop_header (p_header p) nh)\<lparr>h_relay := w\<rparr>\<rparr>))" if "ok c cfg r"
    using traced [OF readdressed(2) [OF h, of w]] relay_okD(2) [OF that] by simp
qed

lemmas readdressed_rules [rk] = readdressed

lemma vc_base_header:
  assumes "ok c cfg r" "\<And>h r. ok c cfg r \<Longrightarrow> h_src h = me \<Longrightarrow> ensures E (ok c cfg) g (f h r)"
  shows "ensures E (ok c cfg) g (Relay_base_header pt dst ttl r \<bind> (\<lambda>(h, r). f h r))"
proof -
  have "\<not> rlc_max_ttl (rl_cfg r) < 1" using relay_okD(1,3) [OF assms(1)] by (simp only: not_less)
  then obtain h v where b: "Relay_base_header pt dst ttl r = Some (h, r\<lparr>rl_packet_ids := v\<rparr>)"
    by (simp add: Relay_base_header_def Relay_new_packet_id_def Let_def)
  show ?thesis
    using base_header_frame(3) [OF b] relay_okD(2) [OF assms(1)] assms(2) [OF relay_ok_free(8) [OF assms(1)]] by (simp add: b)
qed

lemmas rvc = vc_if vc_opt vc_sum vc_bool vc_list vc_base_header vc_let_state vc_prod_state vc_bind_state vc_bind_pair
  vc_let vc_prod vc_prod_app vc_leaf

lemma tally_kept [rk]: "ok c cfg r \<Longrightarrow> ok c cfg (tally f r)"
  unfolding tally_def by (rule rk)

lemma next_kept [rk]:
  assumes "ok c cfg r"
  shows "ok c cfg (snd (Relay_next_u64 r))" "ok c cfg (snd (Relay_next_u32 r))" "ok c cfg (snd (Relay_new_packet_id r))"
  using assms by (simp_all add: Relay_next_u64_def Relay_next_u32_def Relay_new_packet_id_def Let_def rk)

lemma enqueue_kept [rk]:
  assumes r: "ok c cfg r" and p: "A p"
  shows "ok c cfg (snd (Relay_enqueue c p t pr b r))"
proof (cases "Packet_encode c p (rlc_network_key cfg)")
  case (Inl e)
  then show ?thesis using r by (simp add: Relay_enqueue_def relay_okD)
next
  case (Inr frame)
  have q: "txq_fine (relay_limits cfg) (rl_tx_queue r)" using relay_okD(12) [OF r] by (simp add: txq_keeps_def)
  have "txq_keeps c cfg A (q' @ [i])"
    if room: "tx_queue_room (rlc_max_tx_queue cfg) (rl_tx_queue r) = Some q'" and i: "ti_frame i = frame" for q' i
    using tx_queue_room_ok [OF q, of q' i] room i Packet_encode_length [OF Inr] p Inr relay_okD(12) [OF r]
    by (cases rule: tx_queue_room_cases [OF room])
      (auto simp: txq_keeps_def remove_at_def dest: in_set_takeD in_set_dropD)
  then show ?thesis using r tally_kept [OF r, of rst_tx_dropped_update]
    by (auto simp: Relay_enqueue_def Inr relay_okD Let_def intro!: relay_ok_set(9) split: option.split)
qed

lemma learn_route_kept [rk]: "ok c cfg r \<Longrightarrow> ok c cfg (Relay_learn_route d nh h k s v now r)"
  unfolding Relay_learn_route_def by (rule ensuresD(2), (assumption | rule rvc rk fine)+)

lemma track_hop_kept [rk]:
  assumes "ok c cfg r" "A p" shows "kept_relay c cfg (Relay_track_hop p nh now r)"
proof (cases "rlc_hop_retries cfg = 0 \<or> length (rl_hop_pending r) \<ge> rlc_max_hop_pending cfg")
  case True
  then show ?thesis using assms(1) by (auto simp: Relay_track_hop_def relay_okD)
next
  case False
  have "hops_keep cfg A (filter P (rl_hop_pending r) @ [h])" if "rh_packet h = p" for P h
    using False assms(2) that relay_okD(10) [OF assms(1)] order.strict_trans1 [OF length_filter_le [of P "rl_hop_pending r"]]
    by (auto simp: hops_keep_def Suc_le_eq)
  then show ?thesis using assms(1)
    by (auto simp: Relay_track_hop_def Relay_next_u64_def Let_def relay_okD fine relay_timeout_None
        intro!: vc_bind_opt(1) relay_ok_set relay_ok_free)
qed

lemma hop_confirmed_kept [rk]: "ok c cfg r \<Longrightarrow> ok c cfg (Relay_hop_confirmed k a r)"
  unfolding Relay_hop_confirmed_def by (rule ensuresD(2), (assumption | rule rvc rk fine)+)

lemma route_unicast_kept [rk]: "ok c cfg r \<Longrightarrow> A p \<Longrightarrow> kept_pair c cfg (Relay_route_unicast c p now r)"
  unfolding Relay_route_unicast_def by (assumption | rule rvc rk fine)+

lemma route_unicast_ign_kept [rk]: "ok c cfg r \<Longrightarrow> A p \<Longrightarrow> kept_relay c cfg (Relay_route_unicast_ign c p now r)"
  unfolding Relay_route_unicast_ign_def by (assumption | rule rvc rk fine)+

lemma send_route_request_kept [rk]: "ok c cfg r \<Longrightarrow> kept_relay c cfg (Relay_send_route_request c t i ttl now r)"
  unfolding Relay_send_route_request_def by (assumption | rule rvc rk fine)+

lemma send_route_error_kept [rk]: "ok c cfg r \<Longrightarrow> kept_relay c cfg (Relay_send_route_error c to u now r)"
  unfolding Relay_send_route_error_def by (assumption | rule rvc rk fine)+

lemma send_link_ack_kept [rk]: "ok c cfg r \<Longrightarrow> kept_relay c cfg (Relay_send_link_ack c to i now r)"
  unfolding Relay_send_link_ack_def by (assumption | rule rvc rk fine)+

lemma roll_kept [rk]: "ok c cfg r \<Longrightarrow> ok c cfg (snd (Relay_roll pct r))"
  unfolding Relay_roll_def by (rule ensuresD(1), (assumption | rule rvc rk fine)+)

lemma schedule_at [rk]:
  "ok c cfg r \<Longrightarrow> rs_keeps cfg A s \<Longrightarrow> A p \<Longrightarrow>
   rs_keeps cfg A (fst (RebroadcastScheduler_schedule s k p due (st_max_pending (rlc_storm (rl_cfg r)))))"
  using relay_okD(1) rs_keeps_rules(4) by metis

lemma schedule_kept [rk]: "ok c cfg r \<Longrightarrow> A p \<Longrightarrow> ok c cfg (Relay_schedule k p d now r)"
  unfolding Relay_schedule_def by (rule ensuresD(2), (assumption | rule rvc rk fine)+)

lemma maybe_relay_flood_kept [rk]: "ok c cfg r \<Longrightarrow> A p \<Longrightarrow> ok c cfg (Relay_maybe_relay_flood p prev meta now r)"
  unfolding Relay_maybe_relay_flood_def by (rule ensuresD(2), (assumption | rule rvc rk fine)+)

lemma repair_kept [rk]: "ok c cfg r \<Longrightarrow> A p \<Longrightarrow> kept_relay c cfg (Relay_repair c p now r)"
  unfolding Relay_repair_def by (assumption | rule rvc rk fine)+

lemma hold_kept:
  "ok c cfg r \<Longrightarrow> A p \<Longrightarrow> length (rl_held r) < rlc_max_held (rl_cfg r) \<Longrightarrow> held_keep cfg A (rl_held r @ [(d, p, t)])"
  using relay_okD(1,11) [of c cfg me A r] by (auto simp: held_keep_def)

lemma forward_unicast_kept [rk]: "ok c cfg r \<Longrightarrow> A p \<Longrightarrow> kept_relay c cfg (Relay_forward_unicast c p prev now r)"
  unfolding Relay_forward_unicast_def by (assumption | rule rvc rk fine hold_kept)+

lemma release_held_kept [rk]:
  assumes "ok c cfg r" shows "kept_relay c cfg (Relay_release_held c src now r)"
proof -
  have "A p" if "(a, p, t) \<in> set (rl_held r)" for a p t
    using relay_okD(11) [OF assms] that by (auto simp: held_keep_def)
  then show ?thesis using assms
    unfolding Relay_release_held_def Let_def
    by (intro rk_ofold)
      (auto intro!: vc_bind_state(1) enqueue_kept track_hop_kept hop_rules(1) relay_ok_set(8) held_keep_filter relay_okD(11))
qed

lemma handle_beacon_kept [rk]: "ok c cfg r \<Longrightarrow> kept_relay c cfg (Relay_handle_beacon c p meta now r)"
  unfolding Relay_handle_beacon_def by (assumption | rule rvc rk fine)+

lemma relay_request_kept [rk]:
  "ok c cfg r \<Longrightarrow> A p \<Longrightarrow> h_ptype (p_header p) = RouteRequest \<Longrightarrow> ok c cfg (Relay_relay_request p q k prev meta now r)"
  unfolding Relay_relay_request_def by (rule ensuresD(2), (assumption | rule rvc rk fine)+)

lemma handle_route_request_kept [rk]:
  "ok c cfg r \<Longrightarrow> A p \<Longrightarrow> h_ptype (p_header p) = RouteRequest \<Longrightarrow> ok c cfg (Relay_handle_route_request p prev meta now r)"
  unfolding Relay_handle_route_request_def by (rule ensuresD(2), (assumption | rule rvc rk fine)+)

lemma forward_route_reply_kept [rk]:
  "ok c cfg r \<Longrightarrow> A p \<Longrightarrow> h_ptype (p_header p) = RouteReply \<Longrightarrow> kept_relay c cfg (Relay_forward_route_reply c p prev now r)"
  unfolding Relay_forward_route_reply_def by (assumption | rule rvc rk fine routing disjI2)+

lemma fail_routes_fine [fine]:
  "rt_fine l rt \<Longrightarrow> rt_fine l (fold (\<lambda>u rt. fst (fail_until_removed k u via rt)) us rt)"
  by (rule fold_invariant_rule) (rule fine)

lemma handle_route_error_kept [rk]: "ok c cfg r \<Longrightarrow> ok c cfg (Relay_handle_route_error p prev r)"
  unfolding Relay_handle_route_error_def by (rule ensuresD(2), (assumption | rule rvc rk fine)+)

lemma confirm_link_ack_kept [rk]: "ok c cfg r \<Longrightarrow> ok c cfg (Relay_confirm_link_ack pv b r)"
  unfolding Relay_confirm_link_ack_def by (rule ensuresD(2), (assumption | rule rvc rk fine)+)

lemma on_duplicate_kept [rk]: "ok c cfg r \<Longrightarrow> kept_relay c cfg (Relay_on_duplicate c p prev now r)"
  unfolding Relay_on_duplicate_def by (assumption | rule rvc rk fine)+

lemma learn_reverse_kept [rk]: "ok c cfg r \<Longrightarrow> ok c cfg (Relay_learn_reverse p prev now r)"
  unfolding Relay_learn_reverse_def by (rule ensuresD(2), (assumption | rule rvc rk fine)+)

lemma answer_trace_kept [rk]: "ok c cfg r \<Longrightarrow> kept_relay c cfg (Relay_answer_trace c p now r)"
  unfolding Relay_answer_trace_def by (assumption | rule rvc rk fine)+

lemma dispatch_kept [rk]: "ok c cfg r \<Longrightarrow> A p \<Longrightarrow> kept_relay c cfg (Relay_dispatch c p prev meta now r)"
  unfolding Relay_dispatch_def
  by (cases "h_ptype (p_header p)") (simp_all add: rk Let_def)

lemma observe_fine [fine]:
  "sc_fine l s \<Longrightarrow> sc_fine l (fst (if b then SeenCache_observe s k now else (s, True)))"
  by (simp add: fine)

lemma rx_packet_kept [rk]: "ok c cfg r \<Longrightarrow> A p \<Longrightarrow> kept_relay c cfg (Relay_rx_packet c p prev meta now r)"
  unfolding Relay_rx_packet_def by (assumption | rule rvc rk fine)+

lemma on_radio_rx_kept [rk]:
  assumes "ok c cfg r" "\<And>p. Packet_decode c frame (rlc_network_key cfg) (rlc_max_ttl cfg) = Inr p \<Longrightarrow> A p"
  shows "kept_relay c cfg (Relay_on_radio_rx c frame meta r)"
proof -
  have dec: "A p" if "ok c cfg r'" "Packet_decode c frame (rlc_network_key (rl_cfg r')) (rlc_max_ttl (rl_cfg r')) = Inr p" for p r'
    using assms(2) that relay_okD(1) [OF that(1)] by simp
  show ?thesis unfolding Relay_on_radio_rx_def by (insert assms(1)) (assumption | rule rvc rk fine dec)+
qed

lemma schedule_beacon_kept [rk]: "ok c cfg r \<Longrightarrow> ok c cfg (Relay_schedule_beacon now r)"
  unfolding Relay_schedule_beacon_def by (rule ensuresD(2), (assumption | rule rvc rk fine)+)

lemma send_beacon_kept [rk]: "ok c cfg r \<Longrightarrow> kept_relay c cfg (Relay_send_beacon c now r)"
  unfolding Relay_send_beacon_def by (assumption | rule rvc rk fine)+

lemma lost_neighbor_kept [rk]: "ok c cfg r \<Longrightarrow> ok c cfg (Relay_lost_neighbor a r)"
  unfolding Relay_lost_neighbor_def by (assumption | rule rk fine)+

lemma housekeeping_kept [rk]: "ok c cfg r \<Longrightarrow> ok c cfg (Relay_housekeeping now r)"
  unfolding Relay_housekeeping_def by (rule ensuresD(2), (assumption | rule rvc rk fine)+)

lemma hop_failed_kept [rk]: "ok c cfg r \<Longrightarrow> ok c cfg (Relay_hop_failed h r)"
  unfolding Relay_hop_failed_def by (rule ensuresD(2), (assumption | rule rvc rk fine)+)

lemma hop_reroute_kept [rk]: "ok c cfg r \<Longrightarrow> A (rh_packet h) \<Longrightarrow> kept_relay c cfg (Relay_hop_reroute c now h alt r)"
  unfolding Relay_hop_reroute_def by (assumption | rule rvc rk fine)+

lemma pending_hop: "ok c cfg r \<Longrightarrow> i < length (rl_hop_pending r) \<Longrightarrow> A (rh_packet (rl_hop_pending r ! i))"
  using relay_okD(10) [of c cfg me A r] by (simp add: hops_keep_def)

lemma hop_give_up_kept [rk]:
  "ok c cfg r \<Longrightarrow> i < length (rl_hop_pending r) \<Longrightarrow> kept_relay c cfg (Relay_hop_give_up c now i r)"
  unfolding Relay_hop_give_up_def by (rule vc_let) (assumption | rule rvc rk fine pending_hop)+

lemma hop_resend_kept [rk]:
  assumes "ok c cfg r" "i < length (rl_hop_pending r)"
  shows "kept_relay c cfg (Relay_hop_resend c now i r)"
proof -
  have "hops_keep cfg A ((rl_hop_pending r)[i := h])" if "A (rh_packet h)" for h
    using relay_okD(10) [OF assms(1)] that by (auto simp: hops_keep_def dest: subsetD [OF set_update_subset_insert])
  then show ?thesis using assms pending_hop [OF assms]
    by (auto simp: Relay_hop_resend_def Relay_next_u64_def tally_def Let_def fine relay_okD relay_timeout_None
        intro!: vc_bind_opt(1) enqueue_kept relay_ok_set relay_ok_free)
qed

lemma hop_loop_kept [rk]: "ok c cfg r \<Longrightarrow> kept_relay c cfg (Relay_hop_loop c now k i r)"
proof (induction c now k i r rule: Relay_hop_loop.induct)
  case (1 c now k i r)
  show ?case
  proof (cases "i < length (rl_hop_pending r)")
    case False
    then show ?thesis using "1.prems" by (subst Relay_hop_loop.simps) simp
  next
    case True
    note steps = hop_give_up_kept [OF "1.prems" True] hop_resend_kept [OF "1.prems" True]
    show ?thesis by (subst Relay_hop_loop.simps) (auto intro!: vc_bind_eq steps intro: 1)
  qed
qed

lemma poll_relays_kept [rk]:
  assumes "ok c cfg r" shows "ok c cfg (Relay_poll_relays c now r)"
  using rs_keeps_rules(3,5) [OF relay_okD(9) [OF assms]] assms unfolding Relay_poll_relays_def split_beta Let_def
  by (intro rk_fold) (auto intro!: enqueue_kept readdressed rk simp: fine relay_okD)

lemma repair_failed_kept [rk]: "ok c cfg r \<Longrightarrow> kept_relay c cfg (Relay_repair_failed c now t qs r)"
  unfolding Relay_repair_failed_def by (assumption | rule rvc rk fine)+

lemma poll_repairs_kept [rk]: "ok c cfg r \<Longrightarrow> kept_relay c cfg (Relay_poll_repairs c now r)"
  unfolding Relay_poll_repairs_def by (assumption | rule rvc rk fine)+

lemma flush_repaired_kept [rk]:
  assumes "ok c cfg r" shows "kept_relay c cfg (Relay_flush_repaired c now t r)"
  using ie_keeps_succeed [OF relay_okD(8) [OF assms]] assms unfolding Relay_flush_repaired_def split_beta
  by (intro rk_ofold) (auto intro!: route_unicast_ign_kept relay_ok_set(5))

lemma poll_repaired_kept [rk]: "ok c cfg r \<Longrightarrow> kept_relay c cfg (Relay_poll_repaired c now r)"
  unfolding Relay_poll_repaired_def by (assumption | rule rvc rk fine)+

lemma poll_kept [rk]: "ok c cfg r \<Longrightarrow> kept_relay c cfg (Relay_poll c t r)"
  unfolding Relay_poll_def by (assumption | rule rvc rk fine)+

lemma next_tx_kept [rk]: "ok c cfg r \<Longrightarrow> kept_pair c cfg (Relay_next_tx now r)"
  unfolding Relay_next_tx_def by (assumption | rule rvc rk fine)+

lemma next_tx_state_kept: "ok c cfg r \<Longrightarrow> kept_relay c cfg (map_option snd (Relay_next_tx now r))"
  using next_tx_kept [of c cfg r now] by (simp add: ensures_def)

end

text \<open>
  What a relay may send: its own packets, and the packets of \<open>S\<close> with other hop fields and a TTL that is
  not larger; only in route requests, route replies and traces does it change the payload.
\<close>

definition passes :: "address \<Rightarrow> packet set \<Rightarrow> packet \<Rightarrow> bool" where
  "passes me S p \<longleftrightarrow> h_src (p_header p) = me \<or>
     (\<exists>q \<in> S. (\<exists>hops nh w. p_header p = (p_header q)\<lparr>h_ttl := h_ttl (p_header p), h_hops := hops, h_next_hop := nh, h_relay := w\<rparr>) \<and>
        h_ttl (p_header p) \<le> h_ttl (p_header q) \<and>
        (p_payload p = p_payload q \<or> h_ptype (p_header p) = RouteRequest \<or> h_ptype (p_header p) = RouteReply \<or>
         h_ptype (p_header p) = Control))"

lemma passes_header:
  assumes "passes me S p" "h' = (p_header p)\<lparr>h_ttl := ttl, h_hops := hops, h_next_hop := nh, h_relay := w\<rparr>"
    "ttl \<le> h_ttl (p_header p)"
  shows "passes me S (p\<lparr>p_header := h'\<rparr>)"
proof (cases "h_src (p_header p) = me")
  case True
  then show ?thesis using assms(2) by (simp add: passes_def)
next
  case False
  then obtain q hops' nh' w' where q: "q \<in> S" "h_ttl (p_header p) \<le> h_ttl (p_header q)"
      "p_header p = (p_header q)\<lparr>h_ttl := h_ttl (p_header p), h_hops := hops', h_next_hop := nh', h_relay := w'\<rparr>"
    and pl: "p_payload p = p_payload q \<or> h_ptype (p_header p) = RouteRequest \<or> h_ptype (p_header p) = RouteReply \<or>
         h_ptype (p_header p) = Control"
    using assms(1) unfolding passes_def by blast
  have h: "h' = (p_header q)\<lparr>h_ttl := h_ttl h', h_hops := hops, h_next_hop := nh, h_relay := w\<rparr>"
    unfolding assms(2) by (subst q(3)) simp
  have "h_ptype (p_header p) = h_ptype (p_header q)" by (subst q(3)) simp
  moreover have "h_ttl h' \<le> h_ttl (p_header q)" using assms(2,3) q(2) by simp
  ultimately show ?thesis unfolding passes_def using q(1) h pl assms(2) by (intro disjI2 bexI [of _ q]) auto
qed

interpretation rcu: relay_custody me "passes me S" for me S
proof
  fix p nh w b
  show "h_src (p_header p) = me \<Longrightarrow> passes me S p" by (simp add: passes_def)
  assume p: "passes me S p"
  show "passes me S (p\<lparr>p_header := (p_header p)\<lparr>h_next_hop := nh\<rparr>\<rparr>)"
    by (rule passes_header [OF p, where ttl = "h_ttl (p_header p)" and hops = "h_hops (p_header p)" and w = "h_relay (p_header p)"]) simp_all
  show "passes me S (p\<lparr>p_header := (p_header p)\<lparr>h_relay := w\<rparr>\<rparr>)"
    by (rule passes_header [OF p, where ttl = "h_ttl (p_header p)" and hops = "h_hops (p_header p)" and nh = "h_next_hop (p_header p)"]) simp_all
  show "passes me S (p\<lparr>p_header := hop_header (p_header p) nh\<rparr>)" if "1 < h_ttl (p_header p)"
  proof (rule passes_header [OF p, where ttl = "h_ttl (p_header p) - 1" and w = "h_relay (p_header p)"])
    show "h_ttl (p_header p) - 1 \<le> h_ttl (p_header p)" using that by (simp add: word_le_nat_alt word_less_nat_alt unat_sub_if')
  qed (simp add: hop_header_def)
  show "passes me S (trace_stamp me p)" using p by (auto simp: trace_stamp_def passes_def)
  show "passes me S (p\<lparr>p_payload := b\<rparr>)" if "h_ptype (p_header p) = RouteRequest \<or> h_ptype (p_header p) = RouteReply"
    using p that by (auto simp: passes_def)
qed

subsection \<open>The public interface\<close>

datatype relay_op = RlRx bytes rx_meta | RlPoll time | RlNextTx time

fun relay_step :: "crypto \<Rightarrow> relay_op \<Rightarrow> relay \<Rightarrow> relay option" where
  "relay_step c (RlRx frame meta) r = Relay_on_radio_rx c frame meta r"
| "relay_step c (RlPoll t) r = Relay_poll c t r"
| "relay_step c (RlNextTx t) r = map_option snd (Relay_next_tx t r)"

text \<open>The packets that a relay hears in a run: those its frames decode to.\<close>

definition relay_heard :: "crypto \<Rightarrow> relay_config \<Rightarrow> relay_op list \<Rightarrow> packet set" where
  "relay_heard c cfg ops =
     {p. \<exists>frame meta. RlRx frame meta \<in> set ops \<and> Packet_decode c frame (rlc_network_key cfg) (rlc_max_ttl cfg) = Inr p}"

lemma relay_step_ok:
  assumes "relay_ok c cfg me (passes me (relay_heard c cfg ops)) r" "op \<in> set ops"
  shows "rkept c cfg me (passes me (relay_heard c cfg ops)) (relay_step c op r)"
proof (cases op)
  case (RlRx frame meta)
  have "passes me (relay_heard c cfg ops) p" if "p \<in> relay_heard c cfg ops" for p
  proof -
    have "p_header p = (p_header p)\<lparr>h_ttl := h_ttl (p_header p), h_hops := h_hops (p_header p),
        h_next_hop := h_next_hop (p_header p), h_relay := h_relay (p_header p)\<rparr>" by simp
    then show ?thesis unfolding passes_def using that by blast
  qed
  then show ?thesis
    using assms RlRx rcu.on_radio_rx_kept [OF assms(1), where frame = frame and meta = meta] by (auto simp: relay_heard_def)
qed (use assms in \<open>simp_all add: rcu.poll_kept rcu.next_tx_state_kept\<close>)

lemma Relay_new_ok:
  assumes "1 \<le> rlc_max_ttl cfg" "RoutingConfig_ok (rlc_routing cfg)"
  shows "relay_ok c cfg (RelayIdentity_address i) A (Relay_with_identity cfg i rng now)"
proof -
  let ?r = "Relay_with_identity cfg i rng now"
  have "nt_fine c (relay_limits cfg) (NeighborTable_new (rlc_neighbor cfg))"
    by (simp add: nt_fine_def nt_inv_new) (simp add: NeighborTable_new_def)
  moreover have "zt_fine (relay_limits cfg) (ZoneTable_new k (zc_max_zone_entries (rlc_zrp cfg)) t)" for k t
    by (simp add: zt_fine_def zt_inv_new) (simp add: ZoneTable_new_def)
  moreover have "rt_fine (relay_limits cfg) (RouteCache_new (rlc_routing cfg))"
    using assms(2) by (simp add: rt_fine_def rt_inv_new) (simp add: RouteCache_new_def)
  moreover have "ie_keeps cfg A (Ierp_new (rlc_zrp cfg))"
    by (simp add: ie_keeps_def ie_fine_def ie_inv_new) (simp add: Ierp_new_def SmallMap_new_def sm_all_def)
  moreover have "sc_fine (relay_limits cfg) (SeenCache_new (st_seen_cache_size (rlc_storm cfg)) t)" for t
    by (simp add: sc_fine_def sc_inv_new) (simp add: SeenCache_new_def)
  moreover have "rs_keeps cfg A RebroadcastScheduler_new"
    by (simp add: rs_keeps_def rs_fine_def RebroadcastScheduler_new_def)
  ultimately show ?thesis using assms(1)
    by (simp add: relay_ok_def Relay_with_identity_def Let_def Relay_address_def hops_keep_def held_keep_def
        txq_keeps_def txq_fine_def)
qed

lemma relay_run_ok:
  assumes "1 \<le> rlc_max_ttl cfg" "RoutingConfig_ok (rlc_routing cfg)"
  shows "rkept c cfg (RelayIdentity_address i) (passes (RelayIdentity_address i) (relay_heard c cfg ops))
    (ofold (relay_step c) ops (Relay_with_identity cfg i rng now))"
  using relay_step_ok Relay_new_ok [OF assms] by (rule ensures_ofold)

subsection \<open>Properties\<close>

text \<open>C6. A relay whose configuration allows a TTL of at least 1, has room for a route and has a radio
  profile with an airtime returns from every sequence of received frames, polls and requests for a frame to send, and stays within all its
  limits: neighbours, zone, routes, repairs and the packets waiting for them, seen packets, planned
  rebroadcasts, hops, held packets, and the transmit queue with frames of at most 255 bytes.\<close>

theorem relay_total:
  assumes "1 \<le> rlc_max_ttl cfg" "RoutingConfig_ok (rlc_routing cfg)" "LoRaProfile_ok (rlc_profile cfg)"
  shows "\<exists>r. ofold (relay_step c) ops (Relay_with_identity cfg i rng now) = Some r \<and>
    relay_ok c cfg (RelayIdentity_address i) (passes (RelayIdentity_address i) (relay_heard c cfg ops)) r"
  using relay_run_ok [OF assms(1,2), where c = c and i = i and ops = ops and rng = rng and now = now] assms(3)
  by (cases "ofold (relay_step c) ops (Relay_with_identity cfg i rng now)") (simp_all add: ensures_def)

lemma default_relay_ok: "1 \<le> rlc_max_ttl RelayConfig_default" "RoutingConfig_ok (rlc_routing RelayConfig_default)"
  "LoRaProfile_ok (rlc_profile RelayConfig_default)"
  by (simp_all add: RelayConfig_default_def RoutingConfig_ok_def RoutingConfig_default_def default_profile_ok)

theorem relay_total_witness:
  "\<exists>r. ofold (relay_step demo_crypto) [RlPoll 6000, RlRx [1, 2, 3] (RxMeta_new (- 90) 7 6500), RlNextTx 7000]
         (Relay_with_identity RelayConfig_default (SignedIdentity demo_alice) (sconst 1) 0) = Some r \<and>
     relay_ok demo_crypto RelayConfig_default (Identity_address demo_alice)
       (passes (Identity_address demo_alice) (relay_heard demo_crypto RelayConfig_default
          [RlPoll 6000, RlRx [1, 2, 3] (RxMeta_new (- 90) 7 6500), RlNextTx 7000])) r"
  using relay_total [OF default_relay_ok, of demo_crypto
    "[RlPoll 6000, RlRx [1, 2, 3] (RxMeta_new (- 90) 7 6500), RlNextTx 7000]" "SignedIdentity demo_alice" "sconst 1" 0] by simp

text \<open>C7. A relay forges nothing and extends no lifetime: every frame it hands to the radio is the encoding of
  a packet with its own source address, or of one it heard, with the same source, destination, type,
  flags, sequence and packet id, a TTL that is not larger, and the same payload unless it is a route request,
  a route reply or a control packet.\<close>

theorem relay_transparent:
  assumes "1 \<le> rlc_max_ttl cfg" "RoutingConfig_ok (rlc_routing cfg)"
    and run: "ofold (relay_step c) ops (Relay_with_identity cfg i rng now) = Some r"
    and tx: "Relay_next_tx t r = Some (Some item, r')"
  shows "\<exists>p. Packet_encode c p (rlc_network_key cfg) = Inr (ti_frame item) \<and>
    passes (RelayIdentity_address i) (relay_heard c cfg ops) p"
proof -
  have "relay_ok c cfg (RelayIdentity_address i) (passes (RelayIdentity_address i) (relay_heard c cfg ops)) r"
    using relay_run_ok [OF assms(1,2), where c = c and i = i and ops = ops and rng = rng and now = now] run by simp
  note q = relay_okD(12) [OF this]
  have "item \<in> set (rl_tx_queue r)"
    using tx best_tx_index [of t 0 "rl_tx_queue r" None]
    by (auto simp: Relay_next_tx_def Let_def split: option.splits prod.splits bind_splits)
  then show ?thesis using q by (auto simp: txq_keeps_def)
qed

text \<open>The condition on the TTL is needed: \<open>RelayConfig\<close> is taken as it is given, and with a maximum of 0
  the first beacon panics in \<open>clamp\<close>.\<close>

lemma relay_zero_ttl_panics:
  "rlc_max_ttl (rl_cfg r) = 0 \<Longrightarrow> rl_next_beacon r \<le> max (rl_now r) t \<Longrightarrow> Relay_poll c t r = None"
proof -
  assume ttl: "rlc_max_ttl (rl_cfg r) = 0" and due: "rl_next_beacon r \<le> max (rl_now r) t"
  have "Relay_base_header Beacon BROADCAST 1 r' = None" if "rl_cfg r' = rl_cfg r" for r'
    using ttl that by (simp add: Relay_base_header_def Relay_new_packet_id_def Let_def)
  then have "Relay_send_beacon c now (r\<lparr>rl_now := u\<rparr>) = None" for now u
    unfolding Relay_send_beacon_def Let_def by (simp add: tally_def Relay_schedule_beacon_def Relay_next_u64_def Let_def)
  then show ?thesis using due by (simp add: Relay_poll_def Let_def)
qed

text \<open>The first beacon of a relay.\<close>

definition demo_relay :: relay where
  "demo_relay = Relay_with_identity RelayConfig_default (UnsignedIdentity (Address 1 2 3 4 5 6 7 8)) (sconst 1) 0"

lemma idle_poll:
  assumes "rs_pending (rl_sched r) = []" "rl_hop_pending r = []" "ie_pending (rl_ierp r) = []"
  shows "Relay_poll_relays c now r = r" "Relay_hop_loop c now k 0 r = Some r"
    "Relay_poll_repairs c now r = Some r" "Relay_poll_repaired c now r = Some r"
proof -
  show "Relay_poll_relays c now r = r"
    using assms(1) by (simp add: Relay_poll_relays_def RebroadcastScheduler_due_def RebroadcastScheduler_due_loop.simps)
  show "Relay_hop_loop c now k 0 r = Some r" using assms(2) by (subst Relay_hop_loop.simps) simp
  have "(rl_ierp r)\<lparr>ie_pending := []\<rparr> = rl_ierp r" using assms(3) by (metis ierp.surjective ierp.update_convs(2))
  then show "Relay_poll_repairs c now r = Some r"
    using assms(3) by (simp add: Relay_poll_repairs_def Ierp_tick_def Let_def)
  show "Relay_poll_repaired c now r = Some r" using assms(3) by (simp add: Relay_poll_repaired_def)
qed

lemma schedule_beacon_fields [simp]:
  "rl_cfg (Relay_schedule_beacon now r) = rl_cfg r" "rl_id (Relay_schedule_beacon now r) = rl_id r"
  "rl_neighbors (Relay_schedule_beacon now r) = rl_neighbors r" "rl_zone (Relay_schedule_beacon now r) = rl_zone r"
  "rl_tx_queue (Relay_schedule_beacon now r) = rl_tx_queue r" "rl_sched (Relay_schedule_beacon now r) = rl_sched r"
  "rl_hop_pending (Relay_schedule_beacon now r) = rl_hop_pending r" "rl_ierp (Relay_schedule_beacon now r) = rl_ierp r"
  "rl_now (Relay_schedule_beacon now r) = rl_now r" "rl_last_housekeeping (Relay_schedule_beacon now r) = rl_last_housekeeping r"
  by (simp_all add: Relay_schedule_beacon_def Relay_next_u64_def Let_def)

lemma short_beacon_fits:
  assumes "bc_full b = None" "bc_attached b = []" "bc_zone b = []"
  shows "length (Beacon_encode b) = 11" "trim_attached budget (trim_zone budget b) = b"
  using assms by (simp_all add: Beacon_encode_def write_full_def trim_zone.simps trim_attached.simps)

lemma lone_beacon:
  assumes "rl_id r = UnsignedIdentity a" "nt_map (rl_neighbors r) = []" "zt_nodes (rl_zone r) = []"
    and "rlc_network_key (rl_cfg r) = None" "rlc_max_ttl (rl_cfg r) \<noteq> 0"
    and "rl_tx_queue r = []" "0 < rlc_max_tx_queue (rl_cfg r)"
  shows "\<exists>r' item. Relay_send_beacon c now r = Some r' \<and> rl_tx_queue r' = [item] \<and> ti_not_before item = now \<and>
     rl_now r' = rl_now r \<and> rl_last_housekeeping r' = rl_last_housekeeping r \<and>
     rl_sched r' = rl_sched r \<and> rl_hop_pending r' = rl_hop_pending r \<and> rl_ierp r' = rl_ierp r \<and> rl_cfg r' = rl_cfg r"
proof -
  define r1 where "r1 = tally rst_beacons_sent_update
    ((Relay_schedule_beacon now r)\<lparr>rl_beacons_sent := rl_beacons_sent (Relay_schedule_beacon now r) + 1\<rparr>)"
  define b where "b = (Relay_beacon c now (rl_beacons_sent (Relay_schedule_beacon now r)) r1)\<lparr>bc_zone :=
    ZoneTable_advertisement (zc_max_advertised_entries (rlc_zrp (rl_cfg r1))) (rl_beacons_sent r1) (rl_zone r1)\<rparr>"
  have r1: "rl_cfg r1 = rl_cfg r" "rl_id r1 = rl_id r" "rl_neighbors r1 = rl_neighbors r" "rl_zone r1 = rl_zone r"
      "rl_tx_queue r1 = []" "rl_sched r1 = rl_sched r" "rl_hop_pending r1 = rl_hop_pending r" "rl_ierp r1 = rl_ierp r"
      "rl_now r1 = rl_now r" "rl_last_housekeeping r1 = rl_last_housekeeping r"
    using assms(6) by (simp_all add: r1_def tally_def)
  have b: "bc_full b = None" "bc_attached b = []" "bc_zone b = []"
    using assms(1-3) r1 by (simp_all add: b_def Relay_beacon_def Beacon_short_def Let_def NeighborTable_hosted_leaves_def
        NeighborTable_iter_def SmallMap_values_def ZoneTable_advertisement_def ZoneTable_advertised_def ZoneTable_iter_def)
  note fit = short_beacon_fits [OF b]
  have "\<exists>h v. Relay_base_header Beacon BROADCAST 1 r1 = Some (h, r1\<lparr>rl_packet_ids := v\<rparr>) \<and> \<not> Header_has h NET_AUTH"
    using assms(4,5) r1(1)
    by (simp add: Relay_base_header_def Relay_new_packet_id_def Let_def Header_has_def Header_new_def) (rule exI, rule refl)
  then obtain h v where h: "Relay_base_header Beacon BROADCAST 1 r1 = Some (h, r1\<lparr>rl_packet_ids := v\<rparr>)" "\<not> Header_has h NET_AUTH"
    by blast
  have send: "Relay_send_beacon c now r = Some (snd (Relay_enqueue c (Packet_new h (Beacon_encode b)) now prio_BEACON False
      (r1\<lparr>rl_packet_ids := v\<rparr>)))"
    unfolding Relay_send_beacon_def Let_def r1_def [symmetric] b_def [symmetric] fit(2) by (simp add: h(1))
  obtain f where "Packet_encode c (Packet_new h (Beacon_encode b)) None = Inr f"
    using h(2) fit(1) by (simp add: Packet_encode_def Packet_new_def packet_len_defs)
  then show ?thesis unfolding send using r1 assms(4,7) by (simp add: Relay_enqueue_def tx_queue_room_def Let_def)
qed

lemma demo_relay_fields:
  "rl_id demo_relay = UnsignedIdentity (Address 1 2 3 4 5 6 7 8)" "nt_map (rl_neighbors demo_relay) = []"
  "zt_nodes (rl_zone demo_relay) = []" "rlc_network_key (rl_cfg demo_relay) = None" "rlc_max_ttl (rl_cfg demo_relay) \<noteq> 0"
  "rl_tx_queue demo_relay = []" "0 < rlc_max_tx_queue (rl_cfg demo_relay)" "rs_pending (rl_sched demo_relay) = []"
  "rl_hop_pending demo_relay = []" "ie_pending (rl_ierp demo_relay) = []" "rl_now demo_relay = 0"
  "rl_next_beacon demo_relay = 501" "rl_last_housekeeping demo_relay = 0"
  by (simp_all add: demo_relay_def Relay_with_identity_def Let_def RelayConfig_default_def NeighborTable_new_def
      ZoneTable_new_def SmallMap_new_def RebroadcastScheduler_new_def Ierp_new_def)

lemma demo_beacon:
  "\<exists>r r' item. Relay_poll demo_crypto 600 demo_relay = Some r \<and> Relay_next_tx 600 r = Some (Some item, r')"
proof -
  obtain r item where r: "Relay_send_beacon demo_crypto 600 (demo_relay\<lparr>rl_now := 600\<rparr>) = Some r" "rl_tx_queue r = [item]"
     "ti_not_before item = 600" "rl_now r = 600" "rl_last_housekeeping r = 0"
     "rs_pending (rl_sched r) = []" "rl_hop_pending r = []" "ie_pending (rl_ierp r) = []" "rl_cfg r = rl_cfg demo_relay"
    using lone_beacon [of "demo_relay\<lparr>rl_now := 600\<rparr>" "Address 1 2 3 4 5 6 7 8" demo_crypto 600]
    by (auto simp: demo_relay_fields)
  have "Relay_poll demo_crypto 600 demo_relay = Some r"
    using r idle_poll [OF r(6-8)] by (simp add: Relay_poll_def demo_relay_fields Let_def sat_sub_def max_def)
  moreover have "rl_cfg demo_relay = RelayConfig_default" by (simp add: demo_relay_def Relay_with_identity_def Let_def)
  then obtain t where "LoRaProfile_airtime_ms (rlc_profile (rl_cfg r)) (length (ti_frame item)) = Some t"
    using airtime_ms_Some [OF default_relay_ok(3)] r(9) by metis
  ultimately show ?thesis using r by (simp add: Relay_next_tx_def Let_def)
qed

theorem relay_transparent_witness:
  "\<exists>r r' item p. ofold (relay_step demo_crypto) [RlPoll 600] demo_relay = Some r \<and>
     Relay_next_tx 600 r = Some (Some item, r') \<and>
     Packet_encode demo_crypto p None = Inr (ti_frame item) \<and>
     passes (Address 1 2 3 4 5 6 7 8) (relay_heard demo_crypto RelayConfig_default [RlPoll 600]) p"
proof -
  obtain r r' item where r: "ofold (relay_step demo_crypto) [RlPoll 600] demo_relay = Some r" "Relay_next_tx 600 r = Some (Some item, r')"
    using demo_beacon by auto
  show ?thesis
    using relay_transparent [OF default_relay_ok(1,2) r(1) [unfolded demo_relay_def] r(2)] r by (auto simp: RelayConfig_default_def)
qed

end
