(* ===== verification/Node_Watch.thy ===== *)
theory Node_Watch
  imports Node
begin

section \<open>What a call leaves in the event queue\<close>

text \<open>
  A calculus for properties of the events of a node. A predicate that depends only on the event queue,
  the configuration and the identity, and that survives every event but a received message, is kept
  by every method but the three handlers that deliver messages. The lemmas are proved once, in the
  locale, for all such predicates.
\<close>

named_theorems watch \<open>methods that keep a watched predicate\<close>

fun is_message :: "node_event \<Rightarrow> bool" where
  "is_message (MessageReceived a s b pr h rs sn r) = True"
| "is_message _ = False"

locale frame_watch =
  fixes P :: "node \<Rightarrow> bool"
  assumes frame: "P n \<Longrightarrow> nd_events n' = nd_events n \<Longrightarrow> nd_cfg n' = nd_cfg n \<Longrightarrow> nd_id n' = nd_id n \<Longrightarrow> P n'"
begin

definition holds :: "('a \<Rightarrow> node option) \<Rightarrow> 'a \<Rightarrow> bool" where
  "holds g x \<longleftrightarrow> (case g x of Some n \<Rightarrow> P n | None \<Rightarrow> True)"

abbreviation holds_opt :: "node option \<Rightarrow> bool" where
  "holds_opt \<equiv> holds (\<lambda>r. r)"

abbreviation holds_res :: "('a \<times> node) option \<Rightarrow> bool" where
  "holds_res \<equiv> holds (map_option snd)"

abbreviation holds_pair :: "'a \<times> node \<Rightarrow> bool" where
  "holds_pair \<equiv> holds (\<lambda>p. Some (snd p))"

abbreviation holds_node :: "node \<Rightarrow> bool" where
  "holds_node \<equiv> holds Some"

lemma holds_simps [simp]:
  "holds_opt (Some n) = P n" "holds_res (Some p) = P (snd p)" "holds_pair p = P (snd p)" "holds_node n = P n"
  by (simp_all add: holds_def)

lemma holds_None: "holds_opt None" "holds_res None"
  by (simp_all add: holds_def)

lemma holdsD: "holds_pair p \<Longrightarrow> P (snd p)" "holds_node n \<Longrightarrow> P n"
  by simp_all

lemma hv_if: "(b \<Longrightarrow> holds g x) \<Longrightarrow> (\<not> b \<Longrightarrow> holds g y) \<Longrightarrow> holds g (if b then x else y)"
  by simp

lemma hv_opt: "(x = None \<Longrightarrow> holds g a) \<Longrightarrow> (\<And>y. x = Some y \<Longrightarrow> holds g (f y)) \<Longrightarrow>
    holds g (case x of None \<Rightarrow> a | Some y \<Rightarrow> f y)"
  by (cases x) simp_all

lemma hv_sum: "(\<And>e. x = Inl e \<Longrightarrow> holds g (f e)) \<Longrightarrow> (\<And>y. x = Inr y \<Longrightarrow> holds g (h y)) \<Longrightarrow>
    holds g (case x of Inl e \<Rightarrow> f e | Inr y \<Rightarrow> h y)"
  by (cases x) simp_all

lemma hv_bool: "holds g x \<Longrightarrow> holds g y \<Longrightarrow> holds g (case b of True \<Rightarrow> x | False \<Rightarrow> y)"
  by (cases b) simp_all

lemma hv_list: "(xs = [] \<Longrightarrow> holds g a) \<Longrightarrow> (\<And>y ys. xs = y # ys \<Longrightarrow> holds g (f y ys)) \<Longrightarrow>
    holds g (case xs of [] \<Rightarrow> a | y # ys \<Rightarrow> f y ys)"
  by (cases xs) simp_all

lemma hv_message: "holds g a \<Longrightarrow> holds g b \<Longrightarrow> holds g d \<Longrightarrow> holds g (case x of One \<Rightarrow> a | Two \<Rightarrow> b | Three \<Rightarrow> d)"
  by (cases x) simp_all

lemma hv_reliability:
  "holds g a \<Longrightarrow> holds g b \<Longrightarrow> holds g d \<Longrightarrow> holds g (case x of Unreliable \<Rightarrow> a | Acknowledged \<Rightarrow> b | StoreAndForward \<Rightarrow> d)"
  by (cases x) simp_all

lemma hv_mode:
  "holds g a \<Longrightarrow> (\<And>l s. holds g (f l s)) \<Longrightarrow> (\<And>w s. holds g (h w s)) \<Longrightarrow>
   holds g (case x of AlwaysOn \<Rightarrow> a | DutyCycle l s \<Rightarrow> f l s | LeafMode w s \<Rightarrow> h w s)"
  by (cases x) simp_all

lemma hv_let_node: "holds_node x \<Longrightarrow> (\<And>n. P n \<Longrightarrow> holds g (f n)) \<Longrightarrow> holds g (Let x f)"
  by simp

lemma hv_prod_node: "holds_pair x \<Longrightarrow> (\<And>a n. P n \<Longrightarrow> holds g (f a n)) \<Longrightarrow> holds g (case x of (a, n) \<Rightarrow> f a n)"
  by (cases x) simp

lemma hv_bind_node: "holds_opt r \<Longrightarrow> (\<And>n. P n \<Longrightarrow> holds_opt (f n)) \<Longrightarrow> holds_opt (r \<bind> f)"
    "holds_opt r \<Longrightarrow> (\<And>n. P n \<Longrightarrow> holds_res (h n)) \<Longrightarrow> holds_res (r \<bind> h)"
  by (cases r; simp add: holds_None)+

lemma hv_bind_pair:
  "holds_res r \<Longrightarrow> (\<And>a n. P n \<Longrightarrow> holds_opt (f a n)) \<Longrightarrow> holds_opt (r \<bind> (\<lambda>(a, n). f a n))"
  "holds_res r \<Longrightarrow> (\<And>a n. P n \<Longrightarrow> holds_res (h a n)) \<Longrightarrow> holds_res (r \<bind> (\<lambda>(a, n). h a n))"
  by (cases r; auto simp: holds_None)+

lemma hv_bind:
  "(\<And>x. r = Some x \<Longrightarrow> holds_opt (f x)) \<Longrightarrow> holds_opt (r \<bind> f)"
  "(\<And>x. r = Some x \<Longrightarrow> holds_res (h x)) \<Longrightarrow> holds_res (r \<bind> h)"
  by (cases r; simp add: holds_None)+

lemma hv_let: "holds g (f x) \<Longrightarrow> holds g (Let x f)"
  by simp

lemma hv_prod: "holds g (f (fst x) (snd x)) \<Longrightarrow> holds g (case x of (a, b) \<Rightarrow> f a b)"
  by (cases x) simp

lemma hv_prod_app: "holds g (f (fst x) (snd x) y) \<Longrightarrow> holds g ((case x of (a, b) \<Rightarrow> f a b) y)"
  by (cases x) simp

lemma hv_leaf:
  "holds_node n \<Longrightarrow> holds_opt (Some n)" "holds_pair p \<Longrightarrow> holds_res (Some p)"
  "holds_node n \<Longrightarrow> holds_pair (a, n)" "P n \<Longrightarrow> holds_node n" "P (snd p) \<Longrightarrow> holds_pair p"
  by simp_all

lemmas hv = hv_if hv_opt hv_sum hv_bool hv_list hv_message hv_reliability hv_mode hv_let_node hv_prod_node
  hv_bind_node hv_bind_pair hv_bind hv_let hv_prod hv_prod_app hv_leaf holds_None

lemma watch_set [watch]:
  "P n \<Longrightarrow> P (n\<lparr>nd_rng := v0\<rparr>)" "P n \<Longrightarrow> P (n\<lparr>nd_keys := v1\<rparr>)"
  "P n \<Longrightarrow> P (n\<lparr>nd_now := v2\<rparr>)" "P n \<Longrightarrow> P (n\<lparr>nd_neighbors := v3\<rparr>)"
  "P n \<Longrightarrow> P (n\<lparr>nd_zone := v4\<rparr>)" "P n \<Longrightarrow> P (n\<lparr>nd_routes := v5\<rparr>)"
  "P n \<Longrightarrow> P (n\<lparr>nd_ierp := v6\<rparr>)" "P n \<Longrightarrow> P (n\<lparr>nd_rrep_pending := v7\<rparr>)"
  "P n \<Longrightarrow> P (n\<lparr>nd_seen := v8\<rparr>)" "P n \<Longrightarrow> P (n\<lparr>nd_sched := v9\<rparr>)"
  "P n \<Longrightarrow> P (n\<lparr>nd_transport := v10\<rparr>)" "P n \<Longrightarrow> P (n\<lparr>nd_mailbox := v11\<rparr>)"
  "P n \<Longrightarrow> P (n\<lparr>nd_power := v12\<rparr>)" "P n \<Longrightarrow> P (n\<lparr>nd_reassembler := v13\<rparr>)"
  "P n \<Longrightarrow> P (n\<lparr>nd_sessions := v14\<rparr>)" "P n \<Longrightarrow> P (n\<lparr>nd_handshakes := v15\<rparr>)"
  "P n \<Longrightarrow> P (n\<lparr>nd_key_dir := v16\<rparr>)" "P n \<Longrightarrow> P (n\<lparr>nd_pending_envelopes := v17\<rparr>)"
  "P n \<Longrightarrow> P (n\<lparr>nd_tx_queue := v18\<rparr>)" "P n \<Longrightarrow> P (n\<lparr>nd_beacon_seq := v19\<rparr>)"
  "P n \<Longrightarrow> P (n\<lparr>nd_next_beacon := v20\<rparr>)" "P n \<Longrightarrow> P (n\<lparr>nd_beacons_sent := v21\<rparr>)"
  "P n \<Longrightarrow> P (n\<lparr>nd_last_beacon_at := v22\<rparr>)" "P n \<Longrightarrow> P (n\<lparr>nd_last_neighbor_count := v23\<rparr>)"
  "P n \<Longrightarrow> P (n\<lparr>nd_next_handle := v24\<rparr>)" "P n \<Longrightarrow> P (n\<lparr>nd_frag_id := v25\<rparr>)"
  "P n \<Longrightarrow> P (n\<lparr>nd_counters := v26\<rparr>)" "P n \<Longrightarrow> P (n\<lparr>nd_opened_envelopes := v27\<rparr>)"
  "P n \<Longrightarrow> P (n\<lparr>nd_attached_anchor := v28\<rparr>)" "P n \<Longrightarrow> P (n\<lparr>nd_rx_airtime_ms := v29\<rparr>)"
  "P n \<Longrightarrow> P (n\<lparr>nd_last_housekeeping := v30\<rparr>)" "P n \<Longrightarrow> P (n\<lparr>nd_last_wake := v31\<rparr>)"
  "P n \<Longrightarrow> P (n\<lparr>nd_slept_at := v32\<rparr>)" "P n \<Longrightarrow> P (n\<lparr>nd_pending_fetch := v33\<rparr>)"
  "P n \<Longrightarrow> P (n\<lparr>nd_pending_traces := v34\<rparr>)" "P n \<Longrightarrow> P (n\<lparr>nd_held_for_sleeping := v35\<rparr>)"
  "P n \<Longrightarrow> P (n\<lparr>nd_hop_pending := v36\<rparr>)"
  by (erule frame, simp, simp, simp)+

lemma watch_ofold [watch]:
  assumes "\<And>x n. x \<in> set xs \<Longrightarrow> P n \<Longrightarrow> holds_opt (f x n)" "P n"
  shows "holds_opt (ofold f xs n)"
  using assms
proof (induction xs arbitrary: n)
  case (Cons x xs)
  then have "holds_opt (f x n)" by simp
  then show ?case using Cons by (auto intro: hv_bind_node)
qed simp

lemma watch_fold [watch]: "(\<And>x n. x \<in> set xs \<Longrightarrow> P n \<Longrightarrow> P (f x n)) \<Longrightarrow> P n \<Longrightarrow> P (fold f xs n)"
  by (induction xs arbitrary: n) simp_all

lemma watch_shapes [watch]:
  "P (f (fst x) (snd x) n) \<Longrightarrow> P ((case x of (a, b) \<Rightarrow> f a b) n)" "P (g y) \<Longrightarrow> P (Let y g)"
  by (cases x) simp_all

subsection \<open>Helpers\<close>

lemma next_u64_quiet [watch]: "P n \<Longrightarrow> P (snd (next_u64 n))"
  by (simp add: next_u64_def watch_set)

lemma next_u32_quiet [watch]: "P n \<Longrightarrow> P (snd (next_u32 n))"
  by (simp add: next_u32_def watch_set)

lemma fill_bytes_quiet [watch]: "P n \<Longrightarrow> P (snd (fill_bytes n))"
  by (simp add: fill_bytes_def watch_set)

lemma count_quiet [watch]: "P n \<Longrightarrow> P (count f n)"
  by (simp add: count_def watch_set)

lemma new_packet_id_quiet [watch]: "P n \<Longrightarrow> holds_res (new_packet_id n)"
  unfolding new_packet_id_def by (assumption | rule hv watch)+

lemma new_handle_quiet [watch]: "P n \<Longrightarrow> P (snd (new_handle n))"
  unfolding new_handle_def by (rule holdsD(1), (assumption | rule hv watch)+)

lemma congestion_quiet [watch]: "P n \<Longrightarrow> P (snd (congestion n))"
  unfolding congestion_def by (rule holdsD(1), (assumption | rule hv watch)+)

lemma link_cost_to_quiet [watch]: "P n \<Longrightarrow> P (snd (link_cost_to a n))"
  unfolding link_cost_to_def by (rule holdsD(1), (assumption | rule hv watch)+)

lemma learn_route_quiet [watch]: "P n \<Longrightarrow> P (learn_route dst nh hops cost src via now n)"
  unfolding learn_route_def by (rule holdsD(2), (assumption | rule hv watch)+)

lemma base_header_quiet [watch]: "P n \<Longrightarrow> holds_res (base_header pt dst ttl n)"
  unfolding base_header_def by (assumption | rule hv watch)+

lemma enqueue_packet_quiet [watch]: "P n \<Longrightarrow> P (snd (enqueue_packet c' p t pr rl n))"
  unfolding enqueue_packet_def by (rule holdsD(1), (assumption | rule hv watch)+)

lemma track_hop_quiet [watch]: "P n \<Longrightarrow> holds_opt (track_hop p nh now rl n)"
  unfolding track_hop_def by (assumption | rule hv watch)+

lemma hop_confirmed_quiet [watch]: "P n \<Longrightarrow> P (hop_confirmed k a n)"
  unfolding hop_confirmed_def by (rule holdsD(2), (assumption | rule hv watch)+)

lemma send_link_ack_quiet [watch]: "P n \<Longrightarrow> holds_opt (send_link_ack c' a i now n)"
  unfolding send_link_ack_def by (assumption | rule hv watch)+

lemma send_route_request_quiet [watch]: "P n \<Longrightarrow> holds_opt (send_route_request c' target i ttl now n)"
  unfolding send_route_request_def by (assumption | rule hv watch)+

lemma start_discovery_quiet [watch]: "P n \<Longrightarrow> holds_opt (start_discovery c' dst p now n)"
  unfolding start_discovery_def by (assumption | rule hv watch)+

lemma route_unicast_quiet [watch]: "P n \<Longrightarrow> holds_res (route_unicast c p now n)"
  unfolding route_unicast_def by (assumption | rule hv watch)+

lemma route_unicast_ign_quiet [watch]: "P n \<Longrightarrow> holds_opt (route_unicast_ign c p now n)"
  unfolding route_unicast_ign_def by (assumption | rule hv watch)+

lemma fragment_header_quiet [watch]: "P n \<Longrightarrow> holds_res (fragment_header h i n)"
  unfolding fragment_header_def by (assumption | rule hv watch)+

lemma send_fragments_quiet [watch]: "P n \<Longrightarrow> holds_res (send_fragments c h now i parts n)"
proof (induction parts arbitrary: i n)
  case (Cons x parts)
  obtain fh d where x: "x = (fh, d)" by (cases x)
  show ?case unfolding x send_fragments.simps by (assumption | rule hv watch Cons)+
qed simp

lemma session_header_quiet [watch]: "P n \<Longrightarrow> holds_res (session_header pt dst sq ar n)"
  unfolding session_header_def by (assumption | rule hv watch)+

lemma send_session_packet_quiet [watch]: "P n \<Longrightarrow> holds_res (send_session_packet c dst pt body sq ar now n)"
  unfolding send_session_packet_def by (assumption | rule hv watch)+

lemma next_seq_quiet [watch]: "P n \<Longrightarrow> P (snd (next_seq n))"
  unfolding next_seq_def by (rule holdsD(1), (assumption | rule hv watch)+)

lemma send_in_session_quiet [watch]: "P n \<Longrightarrow> holds_opt (send_in_session c dst pt body now n)"
  unfolding send_in_session_def by (assumption | rule hv watch)+

lemma send_handshake_packet_quiet [watch]: "P n \<Longrightarrow> holds_opt (send_handshake_packet c peer no msg now n)"
  unfolding send_handshake_packet_def by (assumption | rule hv watch)+

lemma start_handshake_quiet [watch]: "P n \<Longrightarrow> holds_opt (start_handshake c peer now n)"
  unfolding start_handshake_def by (assumption | rule hv watch)+

lemma queue_behind_handshake_quiet [watch]: "P n \<Longrightarrow> P (queue_behind_handshake peer q n)"
  unfolding queue_behind_handshake_def by (rule holdsD(2), (assumption | rule hv watch)+)

lemma bump_acks_sent_quiet [watch]: "P n \<Longrightarrow> P (bump_acks_sent n)"
  unfolding bump_acks_sent_def by (rule holdsD(2), (assumption | rule hv watch)+)

lemma send_ack_quiet [watch]: "P n \<Longrightarrow> holds_opt (send_ack c dst sq st now n)"
  unfolding send_ack_def by (assumption | rule hv watch)+

lemma send_control_quiet [watch]: "P n \<Longrightarrow> holds_opt (send_control c dst sub body now n)"
  unfolding send_control_def by (assumption | rule hv watch)+

lemma send_fetch_quiet [watch]: "P n \<Longrightarrow> holds_opt (send_fetch c a now n)"
  unfolding send_fetch_def by (assumption | rule hv watch)+

lemma send_store_quiet [watch]: "P n \<Longrightarrow> holds_opt (send_store c a dst i env now n)"
  unfolding send_store_def by (assumption | rule hv watch)+

lemma envelope_fragments_quiet [watch]: "P n \<Longrightarrow> holds_opt (envelope_fragments c h now i parts n)"
proof (induction parts arbitrary: i n)
  case (Cons x parts)
  obtain fh d where x: "x = (fh, d)" by (cases x)
  show ?case unfolding x envelope_fragments.simps by (assumption | rule hv watch Cons)+
qed simp

lemma send_envelope_data_quiet [watch]: "P n \<Longrightarrow> holds_opt (send_envelope_data c dst i env now n)"
  unfolding send_envelope_data_def by (assumption | rule hv watch)+

lemma flush_mailbox_to_quiet [watch]: "P n \<Longrightarrow> holds_opt (flush_mailbox_to c dst now n)"
  unfolding flush_mailbox_to_def by (assumption | rule hv watch)+

lemma route_unicast_envelope_quiet [watch]: "P n \<Longrightarrow> holds_res (route_unicast_envelope c dst i env now n)"
  unfolding route_unicast_envelope_def by (assumption | rule hv watch)+

lemma store_hosted_quiet [watch]: "P n \<Longrightarrow> holds_res (store_hosted c dst i env now n)"
  unfolding store_hosted_def by (assumption | rule hv watch)+

lemma deliver_envelope_quiet [watch]: "P n \<Longrightarrow> holds_opt (deliver_envelope c dst i env now n)"
  unfolding deliver_envelope_def by (assumption | rule hv watch)+

lemma send_broadcast_quiet [watch]: "P n \<Longrightarrow> holds_res (send_broadcast c payload n)"
  unfolding send_broadcast_def by (assumption | rule hv watch)+

lemma trace_quiet [watch]: "P n \<Longrightarrow> holds_res (trace c dst n)"
  unfolding trace_def by (assumption | rule hv watch)+

lemma send_route_reply_quiet [watch]: "P n \<Longrightarrow> holds_opt (send_route_reply c a r now n)"
  unfolding send_route_reply_def by (assumption | rule hv watch)+

lemma send_route_error_quiet [watch]: "P n \<Longrightarrow> holds_opt (send_route_error c a u now n)"
  unfolding send_route_error_def by (assumption | rule hv watch)+

lemma responder_start_quiet [watch]: "P n \<Longrightarrow> P (snd (responder_start c peer msg now n))"
  unfolding responder_start_def by (rule holdsD(1), (assumption | rule hv watch)+)

lemma set_hs_quiet [watch]: "P n \<Longrightarrow> P (set_hs peer hs n)"
  unfolding set_hs_def by (rule holdsD(2), (assumption | rule hv watch)+)

lemma drop_hs_quiet [watch]: "P n \<Longrightarrow> P (drop_hs peer n)"
  unfolding drop_hs_def by (rule holdsD(2), (assumption | rule hv watch)+)

lemma remove_session_quiet [watch]: "P n \<Longrightarrow> P (remove_session peer n)"
  unfolding remove_session_def by (rule holdsD(2), (assumption | rule hv watch)+)

lemma unack_envelope_quiet [watch]: "P n \<Longrightarrow> P (snd (unack_envelope i n))"
  unfolding unack_envelope_def by (rule holdsD(1), (assumption | rule hv watch)+)

lemma roll_quiet [watch]: "P n \<Longrightarrow> P (snd (roll pct n))"
  unfolding roll_def by (rule holdsD(1), (assumption | rule hv watch)+)

lemma schedule_relay_quiet [watch]: "P n \<Longrightarrow> P (schedule_relay k p meta now n)"
  unfolding schedule_relay_def by (rule holdsD(2), (assumption | rule hv watch)+)

lemma maybe_relay_flood_quiet [watch]: "P n \<Longrightarrow> P (maybe_relay_flood p prev meta now n)"
  unfolding maybe_relay_flood_def by (rule holdsD(2), (assumption | rule hv watch)+)

lemma hold_envelope_quiet [watch]: "P n \<Longrightarrow> P (snd (hold_envelope d p now n))"
  unfolding hold_envelope_def by (rule holdsD(1), (assumption | rule hv watch)+)

lemma hold_for_leaf_quiet [watch]: "P n \<Longrightarrow> P (hold_for_leaf d nb p now n)"
  unfolding hold_for_leaf_def by (rule holdsD(2), (assumption | rule hv watch)+)

lemma relay_no_route_quiet [watch]: "P n \<Longrightarrow> holds_opt (relay_no_route c p now n)"
  unfolding relay_no_route_def by (assumption | rule hv watch)+

lemma forward_unicast_quiet [watch]: "P n \<Longrightarrow> holds_opt (forward_unicast c p prev meta now n)"
  unfolding forward_unicast_def by (assumption | rule hv watch)+

lemma reply_as_target_quiet [watch]: "P n \<Longrightarrow> holds_opt (reply_as_target c p q now n)"
  unfolding reply_as_target_def by (assumption | rule hv watch)+

lemma relay_request_quiet [watch]: "P n \<Longrightarrow> P (relay_request p q cost prev meta now n)"
  unfolding relay_request_def by (rule holdsD(2), (assumption | rule hv watch)+)

lemma heard_again_quiet [watch]: "P n \<Longrightarrow> P (heard_again k n)"
  unfolding heard_again_def by (rule holdsD(2), (assumption | rule hv watch)+)

lemma handle_route_request_quiet [watch]: "P n \<Longrightarrow> holds_opt (handle_route_request c p prev meta now n)"
  unfolding handle_route_request_def by (assumption | rule hv watch)+

lemma reassemble_quiet [watch]: "P n \<Longrightarrow> holds_res (reassemble p now n)"
  unfolding reassemble_def by (assumption | rule hv watch)+

lemma notice_no_session_quiet [watch]: "P n \<Longrightarrow> holds_opt (notice_no_session c src now n)"
  unfolding notice_no_session_def by (assumption | rule hv watch)+

lemma open_session_payload_quiet [watch]: "P n \<Longrightarrow> holds_res (open_session_payload c p now n)"
  unfolding open_session_payload_def by (assumption | rule hv watch)+

lemma mailbox_ack_quiet [watch]: "P n \<Longrightarrow> holds_opt (mailbox_ack c src i now n)"
  unfolding mailbox_ack_def by (assumption | rule hv watch)+

lemma envelope_ack_quiet [watch]: "P n \<Longrightarrow> holds_opt (envelope_ack c pid i sq now n)"
  unfolding envelope_ack_def by (assumption | rule hv watch)+

lemma remember_envelope_quiet [watch]: "P n \<Longrightarrow> P (remember_envelope k n)"
  unfolding remember_envelope_def by (rule holdsD(2), (assumption | rule hv watch)+)

lemma bump_duplicates_quiet [watch]: "P n \<Longrightarrow> P (bump_duplicates n)"
  unfolding bump_duplicates_def by (rule holdsD(2), (assumption | rule hv watch)+)

lemma credit_route_quiet [watch]: "P n \<Longrightarrow> P (credit_route src now n)"
  unfolding credit_route_def by (rule holdsD(2), (assumption | rule hv watch)+)

lemma store_for_quiet [watch]: "P n \<Longrightarrow> P (snd (store_for src req now n))"
  unfolding store_for_def by (rule holdsD(1), (assumption | rule hv watch)+)

lemma handle_store_quiet [watch]: "P n \<Longrightarrow> holds_opt (handle_store c p now n)"
  unfolding handle_store_def by (assumption | rule hv watch)+

lemma handle_fetch_quiet [watch]: "P n \<Longrightarrow> holds_opt (handle_fetch c p now n)"
  unfolding handle_fetch_def by (assumption | rule hv watch)+

lemma release_held_quiet [watch]: "P n \<Longrightarrow> P (release_held c' src now n)"
  unfolding release_held_def by (rule holdsD(2), (assumption | rule hv watch)+)

lemma choose_host_quiet [watch]: "P n \<Longrightarrow> holds_opt (choose_host c now n)"
  unfolding choose_host_def by (assumption | rule hv watch)+

lemma answer_leaf_quiet [watch]: "P n \<Longrightarrow> P (answer_leaf b now n)"
  unfolding answer_leaf_def by (rule holdsD(2), (assumption | rule hv watch)+)

lemma confirm_link_ack_quiet [watch]: "P n \<Longrightarrow> P (confirm_link_ack pv b n)"
  unfolding confirm_link_ack_def by (rule holdsD(2), (assumption | rule hv watch)+)

lemma on_duplicate_quiet [watch]: "P n \<Longrightarrow> holds_opt (on_duplicate c p prev now n)"
  unfolding on_duplicate_def by (assumption | rule hv watch)+

lemma learn_reverse_quiet [watch]: "P n \<Longrightarrow> P (learn_reverse p prev now n)"
  unfolding learn_reverse_def by (rule holdsD(2), (assumption | rule hv watch)+)

lemma on_activity_quiet [watch]: "P n \<Longrightarrow> P (on_activity now n)"
  unfolding on_activity_def by (rule holdsD(2), (assumption | rule hv watch)+)

lemma heard_reply_quiet [watch]: "P n \<Longrightarrow> P (heard_reply p n)"
  unfolding heard_reply_def by (rule holdsD(2), (assumption | rule hv watch)+)

lemma count_rx_quiet [watch]: "P n \<Longrightarrow> holds_opt (count_rx f n)"
  unfolding count_rx_def by (assumption | rule hv watch)+

lemma schedule_beacon_quiet [watch]: "P n \<Longrightarrow> P (schedule_beacon now n)"
  unfolding schedule_beacon_def by (rule holdsD(2), (assumption | rule hv watch)+)

lemma send_beacon_quiet [watch]: "P n \<Longrightarrow> holds_opt (send_beacon c now n)"
  unfolding send_beacon_def by (assumption | rule hv watch)+

lemma shift_timers_quiet [watch]: "P n \<Longrightarrow> P (shift_timers slept n)"
  unfolding shift_timers_def by (rule holdsD(2), (assumption | rule hv watch)+)

lemma on_wake_quiet [watch]: "P n \<Longrightarrow> holds_opt (on_wake now n)"
  unfolding on_wake_def by (assumption | rule hv watch)+

lemma hop_reroute_quiet [watch]: "P n \<Longrightarrow> holds_opt (hop_reroute c' now h n)"
  unfolding hop_reroute_def by (assumption | rule hv watch)+

lemma hop_resend_quiet [watch]: "P n \<Longrightarrow> holds_opt (hop_resend c' now i n)"
  unfolding hop_resend_def by (assumption | rule hv watch)+

lemma expire_tables_quiet [watch]: "P n \<Longrightarrow> P (expire_tables now n)"
  unfolding expire_tables_def by (rule holdsD(2), (assumption | rule hv watch)+)

lemma start_rekey_quiet [watch]: "P n \<Longrightarrow> holds_opt (start_rekey c now a n)"
  unfolding start_rekey_def by (assumption | rule hv watch)+

lemma rekey_sessions_quiet [watch]: "P n \<Longrightarrow> holds_opt (rekey_sessions c now n)"
  unfolding rekey_sessions_def by (assumption | rule hv watch)+

lemma rearm_keys_quiet [watch]: "P n \<Longrightarrow> holds_opt (rearm_keys c now n)"
  unfolding rearm_keys_def by (assumption | rule hv watch)+

lemma tend_mail_quiet [watch]: "P n \<Longrightarrow> holds_opt (tend_mail c now d n)"
  unfolding tend_mail_def by (assumption | rule hv watch)+

lemma tend_mailbox_quiet [watch]: "P n \<Longrightarrow> holds_opt (tend_mailbox c now n)"
  unfolding tend_mailbox_def by (assumption | rule hv watch)+

lemma decay_quiet [watch]: "P n \<Longrightarrow> P (decay now n)"
  unfolding decay_def by (rule holdsD(2), (assumption | rule hv watch)+)

lemma poll_fetch_quiet [watch]: "P n \<Longrightarrow> holds_opt (poll_fetch c now n)"
  unfolding poll_fetch_def by (assumption | rule hv watch)+

lemma poll_relays_quiet [watch]: "P n \<Longrightarrow> P (poll_relays c' now n)"
  unfolding poll_relays_def by (rule holdsD(2), (assumption | rule hv watch)+)

lemma poll_replies_quiet [watch]: "P n \<Longrightarrow> holds_opt (poll_replies c now n)"
  unfolding poll_replies_def by (assumption | rule hv watch)+

lemma resend_m1_quiet [watch]: "P n \<Longrightarrow> holds_opt (resend_m1 c now am n)"
  unfolding resend_m1_def by (assumption | rule hv watch)+

lemma next_tx_quiet [watch]: "P n \<Longrightarrow> holds_res (next_tx now n)"
  unfolding next_tx_def by (assumption | rule hv watch)+

lemma add_known_identity_quiet [watch]: "P n \<Longrightarrow> P (add_known_identity pid n)"
  unfolding add_known_identity_def by (rule holdsD(2), (assumption | rule hv watch)+)

end

text \<open>The methods that may emit an event. The handlers of data packets are the only ones left out.\<close>

locale event_watch = frame_watch +
  assumes emit_other: "P n \<Longrightarrow> \<not> is_message e \<Longrightarrow> P (emit e n)"
begin

lemma watch_emit_if [watch]:
  "(b \<Longrightarrow> P (emit e n)) \<Longrightarrow> (\<not> b \<Longrightarrow> P (emit e' n)) \<Longrightarrow> P (emit (if b then e else e') n)"
  by simp

lemma emit_quiet [watch]:
  "P n \<Longrightarrow> P (emit (Delivered h a t) n)" "P n \<Longrightarrow> P (emit (Stored h a) n)" "P n \<Longrightarrow> P (emit (Failed h a r) n)"
  "P n \<Longrightarrow> P (emit (NeighborUp a) n)" "P n \<Longrightarrow> P (emit (NeighborDown a) n)"
  "P n \<Longrightarrow> P (emit (SessionEstablished a) n)" "P n \<Longrightarrow> P (emit (SessionClosed a) n)"
  "P n \<Longrightarrow> P (emit (RouteFound a w k) n)" "P n \<Longrightarrow> P (emit (RouteLost a) n)" "P n \<Longrightarrow> P (emit (PowerState b) n)"
  "P n \<Longrightarrow> P (emit (MailboxDelivered a h) n)" "P n \<Longrightarrow> P (emit (TraceResult a b hs t) n)"
  by (erule emit_other, simp)+

lemma delivered_quiet [watch]: "P n \<Longrightarrow> P (emit (delivered_event ob now) n)"
  by (simp add: delivered_event_def emit_quiet)

lemma seal_and_send_envelope_quiet [watch]: "P n \<Longrightarrow> holds_opt (seal_and_send_envelope c dst payload h now n)"
  unfolding seal_and_send_envelope_def by (assumption | rule hv watch)+

lemma try_pending_envelopes_quiet [watch]: "P n \<Longrightarrow> holds_opt (try_pending_envelopes c dst now n)"
  unfolding try_pending_envelopes_def by (assumption | rule hv watch)+

lemma queue_envelope_quiet [watch]: "P n \<Longrightarrow> holds_opt (queue_envelope c dst payload h now n)"
  unfolding queue_envelope_def by (assumption | rule hv watch)+

lemma fail_send_quiet [watch]: "P n \<Longrightarrow> P (fail_send q r n)"
  unfolding fail_send_def by (rule holdsD(2), (assumption | rule hv watch)+)

lemma send_data_in_session_quiet [watch]: "P n \<Longrightarrow> holds_opt (send_data_in_session c q now n)"
  unfolding send_data_in_session_def by (assumption | rule hv watch)+

lemma send_or_queue_quiet [watch]: "P n \<Longrightarrow> holds_opt (send_or_queue c q now n)"
  unfolding send_or_queue_def by (assumption | rule hv watch)+

lemma send_message_quiet [watch]: "P n \<Longrightarrow> holds_res (send_message c dst payload rl n)"
  unfolding send_message_def by (assumption | rule hv watch)+

lemma install_session_quiet [watch]: "P n \<Longrightarrow> holds_opt (install_session c peer e keys remote now n)"
  unfolding install_session_def by (assumption | rule hv watch)+

lemma drain_one_quiet [watch]: "P n \<Longrightarrow> holds_opt (drain_one c peer now q n)"
  unfolding drain_one_def by (assumption | rule hv watch)+

lemma drain_queued_quiet [watch]: "P n \<Longrightarrow> holds_opt (drain_queued c peer qs now n)"
  unfolding drain_queued_def by (assumption | rule hv watch)+

lemma initiator_continue_quiet [watch]: "P n \<Longrightarrow> holds_res (initiator_continue c peer msg now n)"
  unfolding initiator_continue_def by (assumption | rule hv watch)+

lemma handle_message_3_quiet [watch]: "P n \<Longrightarrow> holds_opt (handle_message_3 c peer msg now n)"
  unfolding handle_message_3_def by (assumption | rule hv watch)+

lemma handle_handshake_quiet [watch]: "P n \<Longrightarrow> holds_opt (handle_handshake c p now n)"
  unfolding handle_handshake_def by (assumption | rule hv watch)+

lemma on_no_session_notice_quiet [watch]: "P n \<Longrightarrow> holds_opt (on_no_session_notice c peer now n)"
  unfolding on_no_session_notice_def by (assumption | rule hv watch)+

lemma close_session_quiet [watch]: "P n \<Longrightarrow> holds_opt (close_session c peer n)"
  unfolding close_session_def by (assumption | rule hv watch)+

lemma discovery_failed_packet_quiet [watch]: "P n \<Longrightarrow> holds_opt (discovery_failed_packet c t a now p n)"
  unfolding discovery_failed_packet_def by (assumption | rule hv watch)+

lemma on_discovery_failed_quiet [watch]: "P n \<Longrightarrow> holds_opt (on_discovery_failed c t qs now n)"
  unfolding on_discovery_failed_def by (assumption | rule hv watch)+

lemma distrust_route_quiet [watch]: "P n \<Longrightarrow> P (distrust_route ob now n)"
  unfolding distrust_route_def by (rule holdsD(2), (assumption | rule hv watch)+)

lemma retry_outstanding_quiet [watch]: "P n \<Longrightarrow> holds_opt (retry_outstanding c ob now n)"
  unfolding retry_outstanding_def by (assumption | rule hv watch)+

lemma absorb_key_quiet [watch]: "P n \<Longrightarrow> holds_opt (absorb_key c r now n)"
  unfolding absorb_key_def by (assumption | rule hv watch)+

lemma absorb_route_reply_quiet [watch]: "P n \<Longrightarrow> holds_res (absorb_route_reply c p r prev now n)"
  unfolding absorb_route_reply_def by (assumption | rule hv watch)+

lemma handle_route_reply_quiet [watch]: "P n \<Longrightarrow> holds_opt (handle_route_reply c p prev now n)"
  unfolding handle_route_reply_def by (assumption | rule hv watch)+

lemma forward_route_reply_quiet [watch]: "P n \<Longrightarrow> holds_opt (forward_route_reply c p prev meta now n)"
  unfolding forward_route_reply_def by (assumption | rule hv watch)+

lemma unreachable_via_quiet [watch]: "P n \<Longrightarrow> P (unreachable_via via u n)"
  unfolding unreachable_via_def by (rule holdsD(2), (assumption | rule hv watch)+)

lemma handle_route_error_quiet [watch]: "P n \<Longrightarrow> P (handle_route_error p prev n)"
  unfolding handle_route_error_def by (rule holdsD(2), (assumption | rule hv watch)+)

lemma handle_envelope_ack_quiet [watch]: "P n \<Longrightarrow> holds_opt (handle_envelope_ack c p now n)"
  unfolding handle_envelope_ack_def by (assumption | rule hv watch)+

lemma handle_session_ack_quiet [watch]: "P n \<Longrightarrow> P (handle_session_ack src b now n)"
  unfolding handle_session_ack_def by (rule holdsD(2), (assumption | rule hv watch)+)

lemma handle_ack_quiet [watch]: "P n \<Longrightarrow> holds_opt (handle_ack c p now n)"
  unfolding handle_ack_def by (assumption | rule hv watch)+

lemma handle_trace_quiet [watch]: "P n \<Longrightarrow> holds_opt (handle_trace c p now n)"
  unfolding handle_trace_def by (assumption | rule hv watch)+

lemma on_store_accepted_quiet [watch]: "P n \<Longrightarrow> P (on_store_accepted src i n)"
  unfolding on_store_accepted_def by (rule holdsD(2), (assumption | rule hv watch)+)

lemma on_store_rejected_quiet [watch]: "P n \<Longrightarrow> P (on_store_rejected i n)"
  unfolding on_store_rejected_def by (rule holdsD(2), (assumption | rule hv watch)+)

lemma on_mailbox_ack_quiet [watch]: "P n \<Longrightarrow> P (on_mailbox_ack src r n)"
  unfolding on_mailbox_ack_def by (rule holdsD(2), (assumption | rule hv watch)+)

lemma control_body_quiet [watch]: "P n \<Longrightarrow> holds_opt (control_body c src b now n)"
  unfolding control_body_def by (assumption | rule hv watch)+

lemma handle_control_quiet [watch]: "P n \<Longrightarrow> holds_opt (handle_control c p now n)"
  unfolding handle_control_def by (assumption | rule hv watch)+

lemma learn_beacon_key_quiet [watch]: "P n \<Longrightarrow> holds_opt (learn_beacon_key c src now n)"
  unfolding learn_beacon_key_def by (assumption | rule hv watch)+

lemma handle_beacon_quiet [watch]: "P n \<Longrightarrow> holds_opt (handle_beacon c p meta now n)"
  unfolding handle_beacon_def by (assumption | rule hv watch)+

lemma handle_for_me_quiet [watch]: "P n \<Longrightarrow> holds_opt (handle_for_me c p now n)"
  unfolding handle_for_me_def
  by (cases "h_ptype (p_header p)") (simp_all only: packet_type.case, (assumption | rule hv watch)+)

lemma fall_asleep_quiet [watch]: "P n \<Longrightarrow> P (fall_asleep now n)"
  unfolding fall_asleep_def by (rule holdsD(2), (assumption | rule hv watch)+)

lemma power_step_quiet [watch]: "P n \<Longrightarrow> holds_opt (power_step now n)"
  unfolding power_step_def by (assumption | rule hv watch)+

lemma lose_routes_via_quiet [watch]: "P n \<Longrightarrow> P (lose_routes_via nh n)"
  unfolding lose_routes_via_def by (rule holdsD(2), (assumption | rule hv watch)+)

lemma hop_failed_quiet [watch]: "P n \<Longrightarrow> P (hop_failed h n)"
  unfolding hop_failed_def by (rule holdsD(2), (assumption | rule hv watch)+)

lemma hop_give_up_quiet [watch]: "P n \<Longrightarrow> holds_opt (hop_give_up c' now i n)"
  unfolding hop_give_up_def by (assumption | rule hv watch)+

lemma hop_loop_quiet [watch]: "P n \<Longrightarrow> holds_opt (hop_loop c' now k i n)"
proof (induction c' now k i n rule: hop_loop.induct)
  case (1 c' now k i n)
  note steps = hop_give_up_quiet [OF 1(4), of c' now i] hop_resend_quiet [OF 1(4), of c' now i]
  show ?case by (subst hop_loop.simps) (use steps in \<open>auto intro!: hv_bind(1) intro: 1\<close>)
qed

lemma on_neighbor_lost_quiet [watch]: "P n \<Longrightarrow> P (on_neighbor_lost a n)"
  unfolding on_neighbor_lost_def by (rule holdsD(2), (assumption | rule hv watch)+)

lemma expire_neighbors_quiet [watch]: "P n \<Longrightarrow> P (expire_neighbors now n)"
  unfolding expire_neighbors_def by (rule holdsD(2), (assumption | rule hv watch)+)

lemma expire_sessions_quiet [watch]: "P n \<Longrightarrow> P (expire_sessions now n)"
  unfolding expire_sessions_def by (rule holdsD(2), (assumption | rule hv watch)+)

lemma expire_envelopes_quiet [watch]: "P n \<Longrightarrow> P (expire_envelopes now n)"
  unfolding expire_envelopes_def by (rule holdsD(2), (assumption | rule hv watch)+)

lemma housekeeping_quiet [watch]: "P n \<Longrightarrow> holds_opt (housekeeping c now n)"
  unfolding housekeeping_def by (assumption | rule hv watch)+

lemma poll_discoveries_quiet [watch]: "P n \<Longrightarrow> holds_opt (poll_discoveries c now n)"
  unfolding poll_discoveries_def by (assumption | rule hv watch)+

lemma no_ack_quiet [watch]: "P n \<Longrightarrow> P (no_ack ob n)"
  unfolding no_ack_def by (rule holdsD(2), (assumption | rule hv watch)+)

lemma poll_transport_quiet [watch]: "P n \<Longrightarrow> holds_opt (poll_transport c now n)"
  unfolding poll_transport_def by (assumption | rule hv watch)+

lemma expire_handshake_quiet [watch]: "P n \<Longrightarrow> P (expire_handshake a n)"
  unfolding expire_handshake_def by (rule holdsD(2), (assumption | rule hv watch)+)

lemma poll_handshakes_quiet [watch]: "P n \<Longrightarrow> holds_opt (poll_handshakes c now n)"
  unfolding poll_handshakes_def by (assumption | rule hv watch)+

lemma poll_traces_quiet [watch]: "P n \<Longrightarrow> P (poll_traces now n)"
  unfolding poll_traces_def by (rule holdsD(2), (assumption | rule hv watch)+)

lemma poll_quiet [watch]: "P n \<Longrightarrow> holds_opt (poll c t n)"
  unfolding poll_def by (assumption | rule hv watch)+

end

end
