(* ===== verification/Node_Auth.thy ===== *)
theory Node_Auth
  imports Node_Watch Node_Safe
begin

section \<open>Messages reach the application only when they are authentic\<close>

text \<open>
  The handlers that deliver messages, in the calculus of the watched predicates: every message that
  a call adds to the event queue was opened under a key that belongs to the sender it names.
\<close>

subsection \<open>What a call may add\<close>

definition adds_only :: "node \<Rightarrow> node_event set \<Rightarrow> node \<Rightarrow> bool" where
  "adds_only n0 M n \<longleftrightarrow> nd_cfg n = nd_cfg n0 \<and> nd_id n = nd_id n0 \<and>
     (\<exists>es. nd_events n = nd_events n0 @ es \<and> (\<forall>e\<in>set es. is_message e \<longrightarrow> e \<in> M))"

lemma adds_only_refl: "adds_only n M n"
  by (simp add: adds_only_def)

lemma adds_only_emit: "adds_only n0 M n \<Longrightarrow> (is_message e \<Longrightarrow> e \<in> M) \<Longrightarrow> adds_only n0 M (emit e n)"
  by (fastforce simp: adds_only_def emit_def)

lemma adds_only_frame:
  "adds_only n0 M n \<Longrightarrow> nd_events n' = nd_events n \<Longrightarrow> nd_cfg n' = nd_cfg n \<Longrightarrow> nd_id n' = nd_id n \<Longrightarrow> adds_only n0 M n'"
  by (simp add: adds_only_def)

interpretation ew: event_watch "adds_only n0 M" for n0 M
  by unfold_locales (rule adds_only_frame, assumption+, blast intro: adds_only_emit)

subsection \<open>Authentic messages\<close>

text \<open>What a message delivered from the packet \<open>p\<close> owes to the application: a broadcast names the
  source of the header, under the network key when it says so; a session message was decrypted by
  the session with that source, whose key hashes to it; an envelope was opened with the identity of
  the node and names the address that the key of its sealer hashes to.\<close>

definition authentic :: "crypto \<Rightarrow> node \<Rightarrow> packet \<Rightarrow> time \<Rightarrow> node_event \<Rightarrow> bool" where
  "authentic c n p now e \<longleftrightarrow> (case e of
     MessageReceived from sq payload prot _ _ _ _ \<Rightarrow>
       sq = h_seq (p_header p) \<and>
       (case prot of
          Prot_Plaintext \<Rightarrow> Address_is_broadcast (h_dst (p_header p)) \<and> from = h_src (p_header p) \<and> payload = p_payload p
        | Prot_Group \<Rightarrow> Address_is_broadcast (h_dst (p_header p)) \<and> from = h_src (p_header p) \<and>
            (\<exists>k. ncf_network_key (nd_cfg n) = Some k \<and>
               group_decrypt c (NetworkKey_group_key c k) from (h_packet_id (p_header p))
                 (Header_aad (p_header p) 0) (p_payload p) = Inr payload)
        | Prot_Session \<Rightarrow> h_dst (p_header p) = Node_address n \<and> from = h_src (p_header p) \<and>
            (\<exists>s frag ct. SmallMap_get (nd_sessions n) from = Some s \<and>
               Address_from_public_key c (pid_verifying (se_peer s)) = from \<and>
               snd (Session_decrypt c now (transport_aad (p_header p) frag) ct s) = Inr payload)
        | Prot_Envelope \<Rightarrow> h_dst (p_header p) = Node_address n \<and>
            (\<exists>i env sender. open_envelope c (nd_id n) i env = Inr (sender, payload) \<and>
               Address_from_public_key c (pid_verifying sender) = from))
   | _ \<Rightarrow> True)"

definition authentic_in :: "crypto \<Rightarrow> node \<Rightarrow> packet \<Rightarrow> time \<Rightarrow> node_event set" where
  "authentic_in c n p now = {e. authentic c n p now e}"

lemma received_authentic:
  assumes "adds_only n0 (authentic_in c n0 p now) n"
    and "\<And>hops rssi snr relay.
      authentic c n0 p now (MessageReceived from (h_seq (p_header p)) payload prot hops rssi snr relay)"
  shows "adds_only n0 (authentic_in c n0 p now) (received from payload prot p meta n)"
  using assms ew.count_quiet [OF assms(1)]
  by (auto simp: received_def Let_def authentic_in_def intro!: adds_only_emit)

lemma handle_broadcast_data_authentic:
  assumes "adds_only n0 (authentic_in c n0 p now) n" "Address_is_broadcast (h_dst (p_header p))"
  shows "adds_only n0 (authentic_in c n0 p now) (handle_broadcast_data c p meta n)"
  using assms assms(1) [unfolded adds_only_def]
  by (auto simp: handle_broadcast_data_def Let_def authentic_def ew.count_quiet
      intro!: received_authentic split: option.split sum.split)

lemma Node_address_id: "nd_id n = nd_id n0 \<Longrightarrow> Node_address n = Node_address n0"
  by (simp add: Node_address_def)

lemma pid_ok_address: "pid_ok c a pid \<Longrightarrow> Address_from_public_key c (pid_verifying pid) = a"
  using PublicIdentity_from_bytes_Inr [of c "pid_verifying pid" pid] by (auto simp: pid_ok_def)

lemma envelope_message_authentic:
  "adds_only n0 M m \<Longrightarrow> open_envelope c (nd_id m) i env = Inr y \<Longrightarrow> h_dst (p_header p) = Node_address n0 \<Longrightarrow>
   authentic c n0 p now (MessageReceived (pid_address (fst y)) (h_seq (p_header p)) (snd y) Prot_Envelope hops rssi snr relay)"
  using open_envelope_pid [of c "nd_id m" i env y] by (cases y) (fastforce simp: authentic_def adds_only_def dest: pid_ok_address)

lemma handle_envelope_authentic:
  "adds_only n0 (authentic_in c n0 p now) n \<Longrightarrow> h_dst (p_header p) = Node_address n0 \<Longrightarrow>
   ew.holds n0 (authentic_in c n0 p now) (\<lambda>r. r) (handle_envelope c p meta now n)"
  unfolding handle_envelope_def
  by (assumption | rule ew.hv received_authentic envelope_message_authentic watch)+

lemma reassemble_sessions:
  "reassemble p now n = Some (r, n') \<Longrightarrow> nd_sessions n' = nd_sessions n"
  by (auto simp: reassemble_def count_def bind_eq_Some_conv split: option.splits)

lemma open_session_payload_opens:
  assumes "open_session_payload c p now n = Some (Some body, n')"
  shows "\<exists>s frag ct. SmallMap_get (nd_sessions n) (h_src (p_header p)) = Some s \<and>
     snd (Session_decrypt c now (transport_aad (p_header p) frag) ct s) = Inr body"
proof -
  obtain full m where r: "reassemble p now n = Some (full, m)"
    using assms by (cases "reassemble p now n") (auto simp: open_session_payload_def)
  then obtain ct frag where f: "full = Some (ct, frag)"
    using assms by (cases full) (auto simp: open_session_payload_def)
  note open_eq = assms [unfolded open_session_payload_def r f Let_def, simplified, unfolded Let_def]
  obtain s where s: "SmallMap_get (nd_sessions m) (h_src (p_header p)) = Some s"
    using open_eq by (cases "SmallMap_get (nd_sessions m) (h_src (p_header p))") (auto simp: bind_eq_Some_conv)
  obtain s' res where d: "Session_decrypt c now (transport_aad (p_header p) frag) ct s = (s', res)"
    by (cases "Session_decrypt c now (transport_aad (p_header p) frag) ct s")
  have "res = Inr body" using open_eq s d by (cases res) auto
  then show ?thesis using s d reassemble_sessions [OF r] by (metis snd_conv)
qed

lemma session_message_authentic:
  assumes "open_session_payload c p now n = Some (Some body, n')" "nd_sessions n = nd_sessions n0"
    and "h_dst (p_header p) = Node_address n0" "sess_fine c (nd_sessions n0)"
  shows "authentic c n0 p now
    (MessageReceived (h_src (p_header p)) (h_seq (p_header p)) body Prot_Session hops rssi snr relay)"
  using open_session_payload_opens [OF assms(1)] assms(2,3) pid_ok_address [OF sess_fine_get [OF assms(4)]]
  by (fastforce simp: authentic_def)

lemma handle_unicast_data_authentic:
  assumes ok: "adds_only n0 (authentic_in c n0 p now) n" and me: "h_dst (p_header p) = Node_address n0"
    and ss: "nd_sessions n = nd_sessions n0" and fine: "sess_fine c (nd_sessions n0)"
  shows "ew.holds n0 (authentic_in c n0 p now) (\<lambda>r. r) (handle_unicast_data c p meta now n)"
proof (cases "open_session_payload c p now n")
  case None
  then show ?thesis
    unfolding handle_unicast_data_def None Let_def using ok me
    by (auto intro!: handle_envelope_authentic ew.hv watch)
next
  case (Some bn)
  obtain body m where b: "bn = (body, m)" by (cases bn)
  have m: "adds_only n0 (authentic_in c n0 p now) m"
    using ew.open_session_payload_quiet [OF ok, of c p now] by (simp add: Some b)
  show ?thesis
  proof (cases body)
    case None
    then show ?thesis
      unfolding handle_unicast_data_def Some b Let_def using ok me m
      by (auto intro!: handle_envelope_authentic watch)
  next
    case (Some pl)
    note msg = session_message_authentic [OF \<open>open_session_payload c p now n = _\<close> [unfolded b Some] ss me fine]
    have "ew.holds n0 (authentic_in c n0 p now) (\<lambda>r. r) (do {
        let (t, fresh) = Transport_accept_incoming (h_src (p_header p)) (h_seq (p_header p)) now (nd_transport m);
        let n = m\<lparr>nd_transport := t\<rparr>;
        n \<leftarrow> (if Header_has (p_header p) ACK_REQUEST then send_ack c (h_src (p_header p)) (h_seq (p_header p)) ack_DELIVERED now n else Some n);
        Some (if fresh then received (h_src (p_header p)) pl Prot_Session p meta n else n) })"
      using m msg by - (assumption | rule ew.hv received_authentic watch)+
    then show ?thesis
      unfolding handle_unicast_data_def using Some b \<open>open_session_payload c p now n = _\<close> ok me
      by (simp add: Let_def handle_envelope_authentic ew.count_quiet)
  qed
qed

subsection \<open>The receive path\<close>

text \<open>What happens to a packet before it reaches its handler does not touch the sessions.\<close>

lemma base_header_sessions: "base_header pt dst ttl n = Some (h, n') \<Longrightarrow> nd_sessions n' = nd_sessions n"
  by (auto simp: base_header_def new_packet_id_def Let_def bind_eq_Some_conv)

lemma enqueue_packet_sessions [simp]: "nd_sessions (snd (enqueue_packet c p t pr rl n)) = nd_sessions n"
  by (simp add: enqueue_packet_def count_def Let_def split: sum.split option.split)

lemma send_link_ack_sessions: "send_link_ack c a i now n = Some n' \<Longrightarrow> nd_sessions n' = nd_sessions n"
  by (auto simp: send_link_ack_def Let_def bind_eq_Some_conv count_def dest: base_header_sessions)

lemma learn_reverse_sessions [simp]: "nd_sessions (learn_reverse p prev now n) = nd_sessions n"
  by (auto simp: learn_reverse_def learn_route_def link_cost_to_def congestion_def Let_def split: option.split prod.split)

lemma sessions_kept [simp]:
  "nd_sessions (hop_confirmed k a n) = nd_sessions n" "nd_sessions (on_activity now n) = nd_sessions n"
  "nd_sessions (count f n) = nd_sessions n"
  by (simp_all add: hop_confirmed_def on_activity_def count_def Let_def)

abbreviation admits :: "crypto \<Rightarrow> node \<Rightarrow> packet \<Rightarrow> time \<Rightarrow> node option \<Rightarrow> bool" where
  "admits c n0 p now \<equiv> ew.holds n0 (authentic_in c n0 p now) (\<lambda>r. r)"

lemma dispatch_authentic:
  assumes ok: "adds_only n0 (authentic_in c n0 p now) n" and ss: "nd_sessions n = nd_sessions n0"
    and fine: "sess_fine c (nd_sessions n0)"
  shows "admits c n0 p now (dispatch c p prev meta now n)"
proof -
  have me: "Node_address n = Node_address n0" using ok by (auto simp: adds_only_def intro: Node_address_id)
  have uni: "admits c n0 p now (handle_unicast_data c p meta now (on_activity now n))"
    if "h_dst (p_header p) = Node_address n"
    by (rule handle_unicast_data_authentic [OF ew.on_activity_quiet [OF ok]]) (simp_all only: that ss me fine sessions_kept)
  have bc: "adds_only n0 (authentic_in c n0 p now) (handle_broadcast_data c p meta n)"
    if "Address_is_broadcast (h_dst (p_header p))"
    using handle_broadcast_data_authentic [OF ok that] .
  show ?thesis
    unfolding dispatch_def Let_def
    by (cases "h_ptype (p_header p)") (simp_all only: packet_type.case, (assumption | rule ok uni bc ew.hv watch)+)
qed

text \<open>The state before a handler: nothing delivered yet that is not authentic, sessions as at the start.\<close>

definition before_handler :: "crypto \<Rightarrow> node \<Rightarrow> packet \<Rightarrow> time \<Rightarrow> node \<Rightarrow> bool" where
  "before_handler c n0 p now n \<longleftrightarrow> adds_only n0 (authentic_in c n0 p now) n \<and> nd_sessions n = nd_sessions n0"

lemma before_start:
  "nd_events n = nd_events n0 \<Longrightarrow> nd_cfg n = nd_cfg n0 \<Longrightarrow> nd_id n = nd_id n0 \<Longrightarrow> nd_sessions n = nd_sessions n0 \<Longrightarrow>
   before_handler c n0 p now n"
  using adds_only_frame [OF adds_only_refl] by (simp add: before_handler_def)

lemma before_steps:
  assumes "before_handler c n0 p now n"
  shows "before_handler c n0 p now (hop_confirmed k a n)" "before_handler c n0 p now (n\<lparr>nd_seen := s\<rparr>)"
    "before_handler c n0 p now (learn_reverse p' prev t n)" "before_handler c n0 p now (count f n)"
    "send_link_ack c' a i t n = Some n' \<Longrightarrow> before_handler c n0 p now n'"
proof -
  have ok: "adds_only n0 (authentic_in c n0 p now) n" using assms by (simp add: before_handler_def)
  show "before_handler c n0 p now (hop_confirmed k a n)" "before_handler c n0 p now (n\<lparr>nd_seen := s\<rparr>)"
    "before_handler c n0 p now (learn_reverse p' prev t n)" "before_handler c n0 p now (count f n)"
    using assms by (simp_all add: before_handler_def ew.hop_confirmed_quiet [OF ok] ew.watch_set [OF ok]
        ew.learn_reverse_quiet [OF ok] ew.count_quiet [OF ok])
  assume r: "send_link_ack c' a i t n = Some n'"
  have "adds_only n0 (authentic_in c n0 p now) n'" using ew.send_link_ack_quiet [OF ok, of c' a i t] by (simp add: r)
  then show "before_handler c n0 p now n'" using send_link_ack_sessions [OF r] assms by (simp add: before_handler_def)
qed

lemma rx_packet_authentic:
  assumes "before_handler c n0 p now n" and fine: "sess_fine c (nd_sessions n0)"
  shows "admits c n0 p now (rx_packet c p prev meta now n)"
proof -
  define n1 where "n1 = (case prev of Some pv \<Rightarrow> if h_hops (p_header p) > 0 then hop_confirmed (Header_key (p_header p)) pv n else n | None \<Rightarrow> n)"
  obtain seen fresh where sf: "(if h_ptype (p_header p) \<noteq> RouteRequest then SeenCache_observe (nd_seen n1) (Header_key (p_header p)) now
                           else (nd_seen n1, True)) = (seen, fresh)" by (meson surj_pair)
  define n2 where "n2 = n1\<lparr>nd_seen := seen\<rparr>"
  have n2: "before_handler c n0 p now n2"
    using assms by (auto simp: n2_def n1_def intro: before_steps split: option.split)
  have dup: "admits c n0 p now (on_duplicate c p prev now n2)"
    using n2 by (intro ew.on_duplicate_quiet) (simp add: before_handler_def)
  have disp: "admits c n0 p now (dispatch c p prev meta now m)" if "before_handler c n0 p now m" for m
    using that fine by (intro dispatch_authentic) (simp_all add: before_handler_def)
  have go: "admits c n0 p now (do { m \<leftarrow> r; let m = learn_reverse p prev now m;
      let m = (if b then count cn_rx_for_us_update m else m); dispatch c p prev meta now m })"
    if "\<And>m. r = Some m \<Longrightarrow> before_handler c n0 p now m" for r b
    using that by (cases r) (auto simp: Let_def intro!: disp before_steps ew.holds_None)
  define r where "r = (if h_dst (p_header p) = Node_address n \<and> \<not> PacketType_is_link_local (h_ptype (p_header p))
      then (case prev of Some pv \<Rightarrow> send_link_ack c pv (h_packet_id (p_header p)) now n2 | None \<Rightarrow> Some n2)
      else Some n2)"
  have r: "before_handler c n0 p now m" if "r = Some m" for m
    using that n2 by (auto simp: r_def intro: before_steps split: option.splits if_splits)
  have "rx_packet c p prev meta now n = (if \<not> fresh then on_duplicate c p prev now n2 else
      do { m \<leftarrow> r; let m = learn_reverse p prev now m;
        let m = (if h_dst (p_header p) = Node_address n then count cn_rx_for_us_update m else m);
        dispatch c p prev meta now m })"
    unfolding rx_packet_def Let_def n1_def [symmetric] sf r_def n2_def by simp
  then show ?thesis using dup go [OF r] by (simp del: bind.simps)
qed

lemma count_rx_fields:
  assumes "count_rx frame n = Some n'"
  shows "nd_events n' = nd_events n" "nd_cfg n' = nd_cfg n" "nd_id n' = nd_id n" "nd_sessions n' = nd_sessions n"
    "nd_now n' = nd_now n"
  using assms by (auto simp: count_rx_def count_def Let_def split: bind_splits)

lemma on_radio_rx_authentic:
  assumes dec: "Packet_decode c frame (ncf_network_key (nd_cfg n)) (ncf_max_ttl (nd_cfg n)) = Inr p"
    and now_def: "now = max (nd_now n) (rm_timestamp_ms meta)" and fine: "sess_fine c (nd_sessions n)"
  shows "admits c n p now (on_radio_rx c frame meta n)"
proof (cases "count_rx frame (n\<lparr>nd_now := now\<rparr>)")
  case None
  have "adds_only n (authentic_in c n p now) (n\<lparr>nd_now := now\<rparr>)"
    by (rule adds_only_frame [OF adds_only_refl]) simp_all
  then show ?thesis using None by (simp add: on_radio_rx_def Let_def ew.holds_None now_def)
next
  case (Some n1)
  note f = count_rx_fields [OF Some, simplified]
  define prev where "prev = (if h_hops (p_header p) = 0 then Some (h_src (p_header p))
      else map_option nb_addr (NeighborTable_resolve_short (nd_neighbors n1) (h_relay (p_header p))))"
  define n2 where "n2 = (case prev of
      Some pv \<Rightarrow> n1\<lparr>nd_neighbors := NeighborTable_observe_packet now pv meta (nd_neighbors n1)\<rparr> | None \<Rightarrow> n1)"
  have n1: "adds_only n (authentic_in c n p now) n1"
    by (rule adds_only_frame [OF adds_only_refl]) (simp_all add: f)
  define n3 where "n3 = (if h_dst (p_header p) = Node_address n then on_activity now n2 else n2)"
  have n2: "before_handler c n p now n2" and n3: "before_handler c n p now n3"
    by (rule before_start; simp add: n3_def n2_def f on_activity_def split: option.split)+
  then have quiet: "adds_only n (authentic_in c n p now) n2" "adds_only n (authentic_in c n p now) n3"
    by (simp_all add: before_handler_def)
  have off: "adds_only n (authentic_in c n p now) (n\<lparr>nd_now := now\<rparr>)"
    by (rule adds_only_frame [OF adds_only_refl]) simp_all
  have "on_radio_rx c frame meta n =
    (if \<not> pm_awake (nd_power n) then Some (n\<lparr>nd_now := now\<rparr>) else
     if h_src (p_header p) = Node_address n then Some n1 else
     if h_ptype (p_header p) = Beacon then handle_beacon c p meta now n2 else
     if h_dst (p_header p) = Node_address n \<and> is_link_ack p
     then Some (case prev of Some pv \<Rightarrow> confirm_link_ack pv (p_payload p) n3 | None \<Rightarrow> n3)
     else if h_dst (p_header p) = Node_address n \<and> is_no_session p then on_no_session_notice c (h_src (p_header p)) now n3
     else rx_packet c p prev meta now n3)"
    using Some unfolding on_radio_rx_def Let_def n3_def n2_def prev_def now_def
    by (simp add: dec Node_address_def f cong: option.case_cong if_cong split del: if_split)
  moreover have "admits c n p now \<dots>"
    by (assumption | rule n1 n3 off quiet rx_packet_authentic fine ew.hv watch)+
  ultimately show ?thesis by simp
qed

subsection \<open>The other calls\<close>

lemma on_radio_rx_bad:
  assumes "Packet_decode c frame (ncf_network_key (nd_cfg n)) (ncf_max_ttl (nd_cfg n)) = Inl er"
    and "on_radio_rx c frame meta n = Some n'"
  shows "nd_events n' = nd_events n"
  using assms
  by (auto simp: on_radio_rx_def Let_def count_def count_rx_fields split: if_splits bind_splits)

lemma other_calls_quiet:
  assumes "node_step c op n = Some n'" "op \<noteq> OpNextEvent" "\<And>frame meta. op \<noteq> OpRx frame meta"
  shows "adds_only n {} n'"
proof -
  note ok = adds_only_refl [of n "{}"]
  show ?thesis
  proof (cases op)
    case (OpPoll t)
    then show ?thesis using assms(1) ew.poll_quiet [OF ok, of c t] by simp
  next
    case (OpSend dst payload rl)
    then show ?thesis using assms(1) ew.send_message_quiet [OF ok, of c dst payload rl] by (auto simp: ew.holds_def)
  next
    case (OpTrace dst)
    then show ?thesis using assms(1) ew.trace_quiet [OF ok, of c dst] by (auto simp: ew.holds_def)
  next
    case (OpClose peer)
    then show ?thesis using assms(1) ew.close_session_quiet [OF ok, of c peer] by simp
  next
    case (OpNextTx t)
    then show ?thesis using assms(1) ew.next_tx_quiet [OF ok, of t] by (auto simp: ew.holds_def)
  next
    case (OpAddIdentity pk)
    then show ?thesis using assms(1) ok ew.add_known_identity_quiet [OF ok] by (auto split: sum.splits)
  qed (use assms in simp_all)
qed

text \<open>C4. In every state a node can reach, a call adds events at the end of the queue, and a message among
  them comes from a received frame and is authentic: a broadcast names the source of the header and,
  if marked so, opened under the network key; a unicast message was decrypted by the session with
  its source, or opened from an envelope, and the key of the peer hashes to the address that the
  application is told. No frame makes the node report a unicast message in the name of another.\<close>

theorem messages_authentic:
  assumes "RoutingConfig_ok (ncf_routing cfg)" "rng_fair r"
    and "ofold (node_step c) ops (Node_new cfg ident r keys now) = Some n"
    and "node_step c op n = Some n'" "op \<noteq> OpNextEvent"
  shows "\<exists>es. nd_events n' = nd_events n @ es \<and>
    (\<forall>e\<in>set es. is_message e \<longrightarrow> (\<exists>frame meta p. op = OpRx frame meta \<and>
       Packet_decode c frame (ncf_network_key (nd_cfg n)) (ncf_max_ttl (nd_cfg n)) = Inr p \<and>
       authentic c n p (max (nd_now n) (rm_timestamp_ms meta)) e))"
proof (cases "\<exists>frame meta. op = OpRx frame meta")
  case False
  then show ?thesis using other_calls_quiet [OF assms(4,5)] by (auto simp: adds_only_def)
next
  case True
  then obtain frame meta where op: "op = OpRx frame meta" by blast
  then have rx: "on_radio_rx c frame meta n = Some n'" using assms(4) by simp
  have "node_ok c (nd_cfg (Node_new cfg ident r keys now)) n"
    using node_run_new [OF assms(1,2), where c = c and ident = ident and keys = keys and now = now and ops = ops] assms(3) by simp
  note fine = node_okD(13) [OF this]
  show ?thesis
  proof (cases "Packet_decode c frame (ncf_network_key (nd_cfg n)) (ncf_max_ttl (nd_cfg n))")
    case (Inl er)
    then show ?thesis using on_radio_rx_bad [OF Inl rx] by simp
  next
    case (Inr p)
    then show ?thesis using on_radio_rx_authentic [OF Inr refl fine, of meta] rx op
      by (auto simp: adds_only_def authentic_in_def)
  qed
qed

end
