(* ===== verification/Node_Delivery.thy ===== *)
theory Node_Delivery
  imports Node_Auth
begin

section \<open>A message sent in a session is delivered\<close>

text \<open>
  The transmit path of one node composed with the receive path of another: the frame that
  \<open>send_session_packet\<close> queues makes the peer report the message to its application.
\<close>

subsection \<open>The receiver\<close>

text \<open>The parts of the state that the steps before a handler leave alone.\<close>

definition same_core :: "node \<Rightarrow> node \<Rightarrow> bool" where
  "same_core m n \<longleftrightarrow> nd_sessions m = nd_sessions n \<and> nd_transport m = nd_transport n \<and> nd_events m = nd_events n \<and>
     nd_cfg m = nd_cfg n \<and> nd_id m = nd_id n"

interpretation fw: frame_watch "\<lambda>n. nd_events n = E \<and> nd_cfg n = g \<and> nd_id n = i" for E g i
  by unfold_locales simp

lemma base_header_transport: "base_header pt dst ttl n = Some (h, n') \<Longrightarrow> nd_transport n' = nd_transport n"
  by (auto simp: base_header_def new_packet_id_def Let_def bind_eq_Some_conv)

lemma enqueue_packet_transport: "nd_transport (snd (enqueue_packet c p t pr rl n)) = nd_transport n"
  by (simp add: enqueue_packet_def count_def Let_def split: sum.split option.split)

lemma send_link_ack_core: "send_link_ack c a i now n = Some n' \<Longrightarrow> same_core n' n"
  using fw.send_link_ack_quiet [of n "nd_events n" "nd_cfg n" "nd_id n" c a i now]
  by (auto simp: same_core_def send_link_ack_sessions send_link_ack_def Let_def bind_eq_Some_conv count_def
      enqueue_packet_transport dest: base_header_transport base_header_sessions)

lemma same_core_steps:
  "same_core (hop_confirmed k a n) n" "same_core (n\<lparr>nd_seen := s\<rparr>) n" "same_core (learn_reverse p prev t n) n"
  "same_core (count f n) n" "same_core (on_activity now n) n" "same_core (n\<lparr>nd_neighbors := nt\<rparr>) n"
  "same_core (n\<lparr>nd_now := now\<rparr>) n"
  by (auto simp: same_core_def hop_confirmed_def learn_reverse_def learn_route_def link_cost_to_def congestion_def
      count_def on_activity_def Let_def split: option.split prod.split)

lemma count_rx_core:
  "count_rx frame (n\<lparr>nd_now := now\<rparr>) = Some n' \<Longrightarrow> same_core n' n \<and> nd_seen n' = nd_seen n \<and> nd_now n' = now"
  by (auto simp: same_core_def count_rx_def count_def Let_def split: bind_splits)

lemma same_core_trans: "same_core m n \<Longrightarrow> same_core l m \<Longrightarrow> same_core l n"
  by (simp add: same_core_def)

lemma received_event:
  assumes "length (nd_events n) < 256"
  shows "\<exists>relay. nd_events (received from payload prot p meta n) = nd_events n @
    [MessageReceived from (h_seq (p_header p)) payload prot (h_hops (p_header p)) (rm_rssi_dbm meta) (rm_snr_db meta) relay]"
  using assms by (simp add: received_def emit_def count_def Let_def)

lemma open_session_payload_single:
  assumes "\<not> Header_has (p_header p) FRAGMENTED" "SmallMap_get (nd_sessions n) (h_src (p_header p)) = Some s"
    and "Session_decrypt c now (transport_aad (p_header p) None) (p_payload p) s = (s', Inr body)"
  shows "open_session_payload c p now n =
    Some (Some body, n\<lparr>nd_sessions := SmallMap_modify (nd_sessions n) (h_src (p_header p)) (\<lambda>_. s')\<rparr>)"
  using assms by (simp add: open_session_payload_def reassemble_def Packet_frag_header_def)

lemma ack_returns:
  assumes prof: "LoRaProfile_ok (ncf_profile cfg)" and "node_ok c cfg n"
  obtains n' where "(if b then send_ack c dst sq st now n else Some n) = Some n'" "nd_events n' = nd_events n"
proof (cases b)
  case True
  obtain n' where n': "send_ack c dst sq st now n = Some n'"
    using kept_returns [OF prof send_ack_ok [OF assms(2)]] by blast
  moreover have "nd_events n' = nd_events n"
    using fw.send_ack_quiet [of n "nd_events n" "nd_cfg n" "nd_id n" c dst sq st now] n' by simp
  ultimately show thesis using that [of n'] True by simp
qed (use that in simp)

lemma handle_unicast_session:
  assumes prof: "LoRaProfile_ok (ncf_profile cfg)" and ok: "node_ok c cfg n" and fl: "Header_has (p_header p) ENCRYPTED" "\<not> Header_has (p_header p) ENVELOPE"
      "\<not> Header_has (p_header p) FRAGMENTED"
    and s: "SmallMap_get (nd_sessions n) (h_src (p_header p)) = Some s"
    and d: "snd (Session_decrypt c now (transport_aad (p_header p) None) (p_payload p) s) = Inr body"
    and t: "snd (Transport_accept_incoming (h_src (p_header p)) (h_seq (p_header p)) now (nd_transport n))"
    and room: "length (nd_events n) < 256"
  shows "\<exists>n' relay. handle_unicast_data c p meta now n = Some n' \<and> nd_events n' = nd_events n @
    [MessageReceived (h_src (p_header p)) (h_seq (p_header p)) body Prot_Session (h_hops (p_header p))
       (rm_rssi_dbm meta) (rm_snr_db meta) relay]"
proof -
  obtain s' where s': "Session_decrypt c now (transport_aad (p_header p) None) (p_payload p) s = (s', Inr body)"
    using d by (cases "Session_decrypt c now (transport_aad (p_header p) None) (p_payload p) s") simp
  obtain tr where tr: "Transport_accept_incoming (h_src (p_header p)) (h_seq (p_header p)) now (nd_transport n) = (tr, True)"
    using t by (cases "Transport_accept_incoming (h_src (p_header p)) (h_seq (p_header p)) now (nd_transport n)") simp
  define n1 where "n1 = n\<lparr>nd_sessions := SmallMap_modify (nd_sessions n) (h_src (p_header p)) (\<lambda>_. s')\<rparr>"
  have n1_transport: "nd_transport n1 = nd_transport n" by (simp add: n1_def)
  note op = open_session_payload_single [OF fl(3) s s', folded n1_def]
  have "node_ok c cfg n1" using open_session_payload_ok [OF ok, where p = p and now = now] by (simp add: op)
  moreover have "tr_fine cfg tr"
    using tr_fine_step [OF node_okD(10) [OF ok], of "TrIncoming (h_src (p_header p)) (h_seq (p_header p)) now"] tr by simp
  ultimately have "node_ok c cfg (n1\<lparr>nd_transport := tr\<rparr>)" by (rule node_ok_set)
  from ack_returns [OF prof this] obtain n3 where ack: "(if Header_has (p_header p) ACK_REQUEST
        then send_ack c (h_src (p_header p)) (h_seq (p_header p)) ack_DELIVERED now (n1\<lparr>nd_transport := tr\<rparr>)
        else Some (n1\<lparr>nd_transport := tr\<rparr>)) = Some n3" and ev: "nd_events n3 = nd_events (n1\<lparr>nd_transport := tr\<rparr>)"
    by blast
  have "handle_unicast_data c p meta now n = Some (received (h_src (p_header p)) body Prot_Session p meta n3)"
    using fl op tr ack by (simp add: handle_unicast_data_def Let_def n1_transport split del: if_split)
  then show ?thesis
    using received_event [of n3 "h_src (p_header p)" body Prot_Session p meta] room ev by (auto simp: n1_def)
qed

text \<open>The steps before the handler of a unicast data packet that was not seen before.\<close>

lemma dispatch_for_me:
  assumes "h_dst (p_header p) = Node_address n" "\<not> Address_is_broadcast (Node_address n)" "h_ptype (p_header p) = Data"
  shows "dispatch c p prev meta now n = handle_unicast_data c p meta now (on_activity now n)"
  using assms by (simp add: dispatch_def)

lemma link_ack_returns:
  assumes prof: "LoRaProfile_ok (ncf_profile cfg)" and "node_ok c cfg n"
  obtains n' where "(case prev of Some pv \<Rightarrow> send_link_ack c pv i now n | None \<Rightarrow> Some n) = Some n'"
    "same_core n' n" "node_ok c cfg n'"
proof (cases prev)
  case None
  then show thesis using that [of n] assms(2) by (simp add: same_core_def)
next
  case (Some pv)
  obtain n' where "send_link_ack c pv i now n = Some n'" "node_ok c cfg n'"
    using kept_returns [OF prof send_link_ack_ok [OF assms(2)]] by blast
  then show thesis using that [of n'] send_link_ack_core Some by simp
qed

lemma same_core_address: "same_core m n \<Longrightarrow> Node_address m = Node_address n"
  by (simp add: same_core_def Node_address_def)

lemma rx_packet_for_me:
  assumes prof: "LoRaProfile_ok (ncf_profile cfg)" and ok: "node_ok c cfg n" and me: "h_dst (p_header p) = Node_address n" "\<not> Address_is_broadcast (Node_address n)"
    and ty: "h_ptype (p_header p) = Data"
    and fresh: "snd (SeenCache_observe (nd_seen n) (Header_key (p_header p)) now)"
  shows "\<exists>m. same_core m n \<and> node_ok c cfg m \<and> rx_packet c p prev meta now n = handle_unicast_data c p meta now m"
proof -
  define n1 where "n1 = (case prev of Some pv \<Rightarrow>
      if h_hops (p_header p) > 0 then hop_confirmed (Header_key (p_header p)) pv n else n | None \<Rightarrow> n)"
  have n1: "node_ok c cfg n1" "same_core n1 n" "nd_seen n1 = nd_seen n"
    using ok by (auto simp: n1_def hop_confirmed_ok same_core_steps split: option.split)
      (simp_all add: same_core_def hop_confirmed_def Let_def)
  obtain seen where seen: "SeenCache_observe (nd_seen n) (Header_key (p_header p)) now = (seen, True)"
    using fresh by (cases "SeenCache_observe (nd_seen n) (Header_key (p_header p)) now") simp
  define n2 where "n2 = n1\<lparr>nd_seen := seen\<rparr>"
  have "sc_fine cfg seen" using seen n1(1,3) sc_fine_observed [of cfg "nd_seen n" True] node_okD(8) [OF ok] by (metis fst_conv)
  then have n2: "node_ok c cfg n2" "same_core n2 n"
    using n1 by (simp_all add: n2_def node_ok_set(7) same_core_def)
  obtain n3 where n3: "(case prev of Some pv \<Rightarrow> send_link_ack c pv (h_packet_id (p_header p)) now n2 | None \<Rightarrow> Some n2) = Some n3"
      "same_core n3 n2" "node_ok c cfg n3"
    using link_ack_returns [OF prof n2(1)] by blast
  define n4 where "n4 = count cn_rx_for_us_update (learn_reverse p prev now n3)"
  have n4: "node_ok c cfg n4" "same_core n4 n"
    using n3(3) same_core_trans [OF same_core_trans [OF same_core_trans [OF n2(2) n3(2)] same_core_steps(3)] same_core_steps(4)]
    by (simp_all add: n4_def count_ok learn_reverse_ok)
  have "rx_packet c p prev meta now n = dispatch c p prev meta now n4"
    unfolding rx_packet_def Let_def n1_def [symmetric]
    using me ty seen n1(3) n3(1) [unfolded n2_def] by (simp add: n4_def PacketType_is_link_local_def)
  also have "\<dots> = handle_unicast_data c p meta now (on_activity now n4)"
    using dispatch_for_me me ty same_core_address [OF n4(2)] by simp
  finally show ?thesis
    using on_activity_ok [OF n4(1)] same_core_trans [OF n4(2) same_core_steps(5)] by (intro exI conjI)
qed

lemma on_radio_rx_for_me:
  assumes prof: "LoRaProfile_ok (ncf_profile cfg)" and ok: "node_ok c cfg n"
    and dec: "Packet_decode c frame (ncf_network_key (nd_cfg n)) (ncf_max_ttl (nd_cfg n)) = Inr p"
    and now: "now = max (nd_now n) (rm_timestamp_ms meta)" and awake: "pm_awake (nd_power n)"
    and me: "h_dst (p_header p) = Node_address n" "\<not> Address_is_broadcast (Node_address n)" "h_src (p_header p) \<noteq> Node_address n"
    and ty: "h_ptype (p_header p) = Data"
    and fresh: "snd (SeenCache_observe (nd_seen n) (Header_key (p_header p)) now)"
  shows "\<exists>m. same_core m n \<and> node_ok c cfg m \<and> on_radio_rx c frame meta n = handle_unicast_data c p meta now m"
proof -
  have "node_ok c cfg (n\<lparr>nd_now := now\<rparr>)" using ok by simp
  then obtain n1 where rx: "count_rx frame (n\<lparr>nd_now := now\<rparr>) = Some n1" and ok1: "node_ok c cfg n1"
    using kept_returns [OF prof count_rx_ok] by blast
  note n1 = ok1 count_rx_core [OF rx]
  define prev where "prev = (if h_hops (p_header p) = 0 then Some (h_src (p_header p))
      else map_option nb_addr (NeighborTable_resolve_short (nd_neighbors n1) (h_relay (p_header p))))"
  define n2 where "n2 = (case prev of
      Some pv \<Rightarrow> n1\<lparr>nd_neighbors := NeighborTable_observe_packet now pv meta (nd_neighbors n1)\<rparr> | None \<Rightarrow> n1)"
  define n3 where "n3 = on_activity now n2"
  have n2: "node_ok c cfg n2" "same_core n2 n" "nd_seen n2 = nd_seen n"
    using n1 nt_fine_rules node_okD(3) [OF n1(1)] by (auto simp: n2_def same_core_def intro!: node_ok_set fine split: option.split)
  have n3: "node_ok c cfg n3" "same_core n3 n" "nd_seen n3 = nd_seen n"
    using n2 by (simp_all add: n3_def on_activity_ok same_core_def on_activity_def)
  have "on_radio_rx c frame meta n = rx_packet c p prev meta now n3"
    unfolding on_radio_rx_def Let_def n3_def n2_def prev_def now
    using dec awake me ty rx [unfolded now] n1(2)
    by (simp add: same_core_def Node_address_def is_link_ack_def is_no_session_def cong: option.case_cong if_cong split del: if_split)
  moreover have "\<exists>m. same_core m n3 \<and> node_ok c cfg m \<and>
      rx_packet c p prev meta now n3 = handle_unicast_data c p meta now m"
    using rx_packet_for_me [OF prof n3(1)] me ty fresh n3(3) same_core_address [OF n3(2)] by simp
  ultimately show ?thesis using same_core_trans [OF n3(2)] by auto
qed

subsection \<open>The sender\<close>

text \<open>The identifier of the next packet the node makes, and the header of a session packet.\<close>

definition next_packet_id :: "node \<Rightarrow> u32 option" where
  "next_packet_id n = map_option fst (new_packet_id n)"

definition session_header_of :: "packet_type \<Rightarrow> address \<Rightarrow> u16 \<Rightarrow> node \<Rightarrow> header \<Rightarrow> bool" where
  "session_header_of ptype dst seq n h \<longleftrightarrow>
     h_ptype h = ptype \<and> h_src h = Node_address n \<and> h_dst h = dst \<and> h_seq h = seq \<and> h_hops h = 0 \<and>
     next_packet_id n = Some (h_packet_id h) \<and>
     h_ttl h = clamp (ttl_for dst n) 1 (ncf_max_ttl (nd_cfg n)) \<and>
     Header_has h ENCRYPTED \<and> \<not> Header_has h ENVELOPE \<and> \<not> Header_has h FRAGMENTED \<and>
     (Header_has h NET_AUTH \<longleftrightarrow> ncf_network_key (nd_cfg n) \<noteq> None)"

lemma session_header_returns:
  assumes "node_ok c cfg n"
  obtains h r where "session_header pt dst seq ar n = Some (h, n\<lparr>nd_rng := r\<rparr>)" "session_header_of pt dst seq n h"
proof -
  obtain i r where "first_nonzero (nd_rng n) = Some (i, r)"
    using first_nonzero_returns [OF node_okD(2) [OF assms]] by metis
  then have "\<exists>h. session_header pt dst seq ar n = Some (h, n\<lparr>nd_rng := r\<rparr>) \<and> session_header_of pt dst seq n h"
    by (auto simp: session_header_def base_header_def new_packet_id_def next_packet_id_def Let_def session_header_of_def Node_address_def
        Header_new_def Header_set_def Header_has_def flag_defs)
  then show thesis using that by blast
qed

lemma session_header_next_hop: "session_header_of pt dst seq n h \<Longrightarrow> session_header_of pt dst seq n (h\<lparr>h_next_hop := x\<rparr>)"
  by (simp add: session_header_of_def Header_has_def)

lemma transport_aad_next_hop [simp]: "transport_aad (h\<lparr>h_next_hop := x\<rparr>) frag = transport_aad h frag"
  by (simp add: transport_aad_def Let_def Header_aad_def Header_write_def split: option.split)

text \<open>The hop a packet is addressed to.\<close>

definition sent_towards :: "address \<Rightarrow> time \<Rightarrow> node \<Rightarrow> u16 \<Rightarrow> bool" where
  "sent_towards dst now n x \<longleftrightarrow>
     (if ncf_routing_mode (nd_cfg n) = Flood then x = NEXT_HOP_ANY
      else \<exists>nh. next_hop_for dst now n = Some nh \<and> x = Address_short nh)"

text \<open>A packet is queued when its frame can be encoded and there is room.\<close>

lemma enqueue_queues:
  assumes "Packet_encode c p (ncf_network_key (nd_cfg n)) = Inr frame"
    and "length (nd_tx_queue n) < ncf_max_tx_queue (nd_cfg n)"
  shows "\<exists>item \<in> set (nd_tx_queue (snd (enqueue_packet c p t pr rl n))). ti_frame item = frame"
  using assms by (simp add: enqueue_packet_def tx_queue_room_def Let_def)

lemma track_hop_keep: "track_hop q nh now rl n = Some m \<Longrightarrow> nd_cfg m = nd_cfg n \<and> nd_tx_queue m = nd_tx_queue n"
  by (auto simp: track_hop_def next_u64_def Let_def split: if_splits bind_splits)

lemma track_hop_returns:
  "LoRaProfile_ok (ncf_profile (nd_cfg n)) \<Longrightarrow> \<exists>m. track_hop q nh now rl n = Some m"
  using hop_timeout_None [of "nd_cfg n" "Packet_wire_len q"] by (auto simp: track_hop_def next_u64_def Let_def)

lemma route_unicast_queues:
  assumes prof: "LoRaProfile_ok (ncf_profile (nd_cfg n))"
    and enc: "\<And>x. Packet_encode c (p\<lparr>p_header := (p_header p)\<lparr>h_next_hop := x\<rparr>\<rparr>) (ncf_network_key (nd_cfg n)) = Inr (f x)"
    and room: "length (nd_tx_queue n) < ncf_max_tx_queue (nd_cfg n)"
    and hop: "ncf_routing_mode (nd_cfg n) = Flood \<or> next_hop_for (h_dst (p_header p)) now n \<noteq> None"
  shows "\<exists>n' item x. route_unicast c p now n = Some (Inr (), n') \<and> item \<in> set (nd_tx_queue n') \<and> ti_frame item = f x \<and>
    sent_towards (h_dst (p_header p)) now n x"
proof (cases "ncf_routing_mode (nd_cfg n) = Flood")
  case True
  then show ?thesis using enqueue_queues [OF enc room] by (fastforce simp: route_unicast_def sent_towards_def Let_def)
next
  case False
  then obtain nh where nh: "next_hop_for (h_dst (p_header p)) now n = Some nh" using hop by auto
  let ?p = "p\<lparr>p_header := (p_header p)\<lparr>h_next_hop := Address_short nh\<rparr>\<rparr>"
  let ?n = "n\<lparr>nd_routes := RouteCache_touch (nd_routes n) (h_dst (p_header p)) nh now\<rparr>"
  obtain m where m: "track_hop ?p nh now False ?n = Some m"
    using track_hop_returns [of ?n ?p nh now False] prof by auto
  then have "nd_cfg m = nd_cfg n" "nd_tx_queue m = nd_tx_queue n" using track_hop_keep [OF m] by simp_all
  then show ?thesis
    using False nh m enqueue_queues [of c ?p m "f (Address_short nh)" now] enc room
    by (fastforce simp: route_unicast_def sent_towards_def Let_def)
qed

lemma next_hop_for_frame [simp]:
  "next_hop_for dst now (n\<lparr>nd_rng := r\<rparr>) = next_hop_for dst now n"
  "next_hop_for dst now (n\<lparr>nd_sessions := ss\<rparr>) = next_hop_for dst now n"
  by (simp_all add: next_hop_for_def consider_neighbor_def consider_zone_def consider_route_def
      cong: option.case_cong if_cong split del: if_split)

lemma send_session_packet_single:
  assumes prof: "LoRaProfile_ok (ncf_profile cfg)" and ok: "node_ok c cfg n" and law: "aead_law c"
    and s: "SmallMap_get (nd_sessions n) dst = Some s" and ctr: "se_send_ctr s < COUNTER_REKEY_THRESHOLD"
    and small: "length body + TRANSPORT_OVERHEAD \<le> max_payload (ncf_network_key cfg \<noteq> None)"
    and room: "length (nd_tx_queue n) < ncf_max_tx_queue cfg"
    and hop: "ncf_routing_mode cfg = Flood \<or> next_hop_for dst now n \<noteq> None"
  shows "\<exists>n' item p s'. send_session_packet c dst pt body seq ar now n = Some (Inr (), n') \<and>
    item \<in> set (nd_tx_queue n') \<and> Packet_encode c p (ncf_network_key cfg) = Inr (ti_frame item) \<and>
    session_header_of pt dst seq n (p_header p) \<and> sent_towards dst now n (h_next_hop (p_header p)) \<and>
    Session_encrypt c now (transport_aad (p_header p) None) body s = (s', Inr (p_payload p))"
proof -
  have cfg: "nd_cfg n = cfg" by (rule node_okD(1) [OF ok])
  obtain h r where h: "session_header pt dst seq ar n = Some (h, n\<lparr>nd_rng := r\<rparr>)" "session_header_of pt dst seq n h"
    by (rule session_header_returns [OF ok])
  have "\<exists>s' ct. Session_encrypt c now (transport_aad h None) body s = (s', Inr ct)"
    using ctr by (simp add: Session_encrypt_def Let_def)
  then obtain s' ct where e: "Session_encrypt c now (transport_aad h None) body s = (s', Inr ct)" by blast
  have len: "length ct = length body + TRANSPORT_OVERHEAD"
    using e law by (auto simp: Session_encrypt_def Let_def CipherState_encrypt_n_def aead_length TRANSPORT_OVERHEAD_def
        TAG_LEN_def ctr_bytes_def split: if_splits)
  define n2 where "n2 = n\<lparr>nd_rng := r, nd_sessions := SmallMap_modify (nd_sessions n) dst (\<lambda>_. s')\<rparr>"
  have towards: "sent_towards dst now n2 x = sent_towards dst now n x" for x
    by (simp add: sent_towards_def n2_def cong: if_cong)
  let ?p = "\<lambda>x. \<lparr>p_header = h\<lparr>h_next_hop := x\<rparr>, p_payload = ct\<rparr>"
  have hx: "session_header_of pt dst seq n (h\<lparr>h_next_hop := x\<rparr>)" for x by (rule session_header_next_hop [OF h(2)])
  have "\<exists>f. Packet_encode c (?p x) (ncf_network_key cfg) = Inr f" for x
    using hx [of x] small len cfg by (auto simp: Packet_encode_def Let_def session_header_of_def)
  then obtain f where f: "\<And>x. Packet_encode c (?p x) (ncf_network_key cfg) = Inr (f x)" by metis
  have "\<exists>n' item x. route_unicast c (Packet_new h ct) now n2 = Some (Inr (), n') \<and>
      item \<in> set (nd_tx_queue n') \<and> ti_frame item = f x \<and> sent_towards (h_dst h) now n2 x"
    using route_unicast_queues [of n2 c "Packet_new h ct" f now] f room hop h(2) cfg prof
    by (simp add: n2_def Packet_new_def session_header_of_def)
  moreover have "send_session_packet c dst pt body seq ar now n = route_unicast c (Packet_new h ct) now n2"
    using h s e small cfg by (simp add: send_session_packet_def n2_def session_header_of_def Let_def)
  ultimately obtain n' item x where "send_session_packet c dst pt body seq ar now n = Some (Inr (), n')"
      "item \<in> set (nd_tx_queue n')" "ti_frame item = f x" "sent_towards dst now n x"
    using towards h(2) by (auto simp: session_header_of_def)
  then show ?thesis using f [of x] hx [of x] e by (intro exI [of _ n'] exI [of _ item] exI [of _ "?p x"] exI [of _ s']) simp
qed

subsection \<open>Delivery\<close>

lemma session_ttl:
  "1 \<le> m \<Longrightarrow> clamp ttl 1 m \<noteq> 0 \<and> clamp ttl 1 m \<le> m \<and> unat (clamp ttl 1 m) \<le> 255" for m :: u8
  using unat_u8_lt [of ttl] unat_u8_lt [of m] by (auto simp: clamp_def simp del: u8_nat_less)

text \<open>Two packets that agree in everything that relays leave alone.\<close>

definition same_end_to_end :: "packet \<Rightarrow> packet \<Rightarrow> bool" where
  "same_end_to_end p q \<longleftrightarrow> p_payload p = p_payload q \<and>
     (\<exists>ttl hops nh relay. p_header p = (p_header q)\<lparr>h_ttl := ttl, h_hops := hops, h_next_hop := nh, h_relay := relay\<rparr>)"

lemma transport_aad_hop_fields:
  "transport_aad (h\<lparr>h_ttl := ttl, h_hops := hops, h_next_hop := nh, h_relay := relay\<rparr>) frag = transport_aad h frag"
  by (simp add: transport_aad_def Let_def Header_aad_def Header_write_def split: option.split)

text \<open>The two ends of a session.\<close>

definition session_pair :: "node \<Rightarrow> node \<Rightarrow> session \<Rightarrow> session \<Rightarrow> bool" where
  "session_pair a b sa sb \<longleftrightarrow>
     SmallMap_get (nd_sessions a) (Node_address b) = Some sa \<and> SmallMap_get (nd_sessions b) (Node_address a) = Some sb \<and>
     se_epoch sb = se_epoch sa \<and> se_recv_key sb = se_send_key sa \<and>
     se_send_ctr sa < COUNTER_REKEY_THRESHOLD \<and> ReplayWindow_check (se_replay sb) (se_send_ctr sa)"

text \<open>
  A node that can take the packet \<open>i\<close> with the message \<open>seq\<close> from the address \<open>src\<close>: it is awake, is not
  the source, has room for an event and has seen neither this packet nor this message before.
\<close>

definition ready_for :: "address \<Rightarrow> u32 \<Rightarrow> u16 \<Rightarrow> time \<Rightarrow> node \<Rightarrow> bool" where
  "ready_for src i seq now b \<longleftrightarrow> pm_awake (nd_power b) \<and> src \<noteq> Node_address b \<and> \<not> Address_is_broadcast (Node_address b) \<and>
     length (nd_events b) < 256 \<and> snd (Transport_accept_incoming src seq now (nd_transport b)) \<and>
     snd (SeenCache_observe (nd_seen b) \<lparr>pk_src = src, pk_id = i\<rparr> now)"

lemma session_frame_delivered:
  assumes prof: "LoRaProfile_ok (ncf_profile cfg)" and ok: "node_ok c cfg b" and law: "aead_law c" and pair: "session_pair a b sa sb"
    and hd: "session_header_of Data (Node_address b) seq a (p_header p)"
    and enc: "Session_encrypt c t (transport_aad (p_header p) None) body sa = (sa', Inr (p_payload p))"
    and ready: "next_packet_id a = Some i" "ready_for (Node_address a) i seq (max (nd_now b) (rm_timestamp_ms meta)) b"
    and dec: "Packet_decode c frame (ncf_network_key cfg) (ncf_max_ttl cfg) = Inr q" and same: "same_end_to_end q p"
  shows "\<exists>b' hops relay. on_radio_rx c frame meta b = Some b' \<and> nd_events b' = nd_events b @
    [MessageReceived (Node_address a) seq body Prot_Session hops (rm_rssi_dbm meta) (rm_snr_db meta) relay]"
proof -
  define now where "now = max (nd_now b) (rm_timestamp_ms meta)"
  have q: "p_payload q = p_payload p" "transport_aad (p_header q) None = transport_aad (p_header p) None"
    using same by (auto simp: same_end_to_end_def transport_aad_hop_fields)
  have h: "h_ptype (p_header q) = Data" "h_packet_id (p_header q) = i" "h_src (p_header q) = Node_address a" "h_dst (p_header q) = Node_address b"
      "h_seq (p_header q) = seq" "Header_has (p_header q) ENCRYPTED" "\<not> Header_has (p_header q) ENVELOPE"
      "\<not> Header_has (p_header q) FRAGMENTED"
    using same hd ready(1) by (auto simp: same_end_to_end_def session_header_of_def Header_has_def)
  have "snd (SeenCache_observe (nd_seen b) (Header_key (p_header q)) now)"
    using ready by (simp add: ready_for_def Header_key_def h now_def)
  then obtain m where m: "same_core m b" "node_ok c cfg m" "on_radio_rx c frame meta b = handle_unicast_data c q meta now m"
    using on_radio_rx_for_me [OF prof ok _ now_def, of frame q] dec h ready node_okD(1) [OF ok] by (auto simp: ready_for_def)
  have "snd (Session_decrypt c now (transport_aad (p_header q) None) (p_payload q) sb) = Inr body"
    using Session_decrypt_encrypt(1) [OF law _ _ enc] pair by (simp add: session_pair_def q)
  from handle_unicast_session [OF prof m(2) h(6-8) _ this, of meta] m ready pair h show ?thesis
    by (fastforce simp: same_core_def session_pair_def ready_for_def now_def)
qed

text \<open>C2. A message that fits one frame, sent in a session to a node that is awake, has room and has not
  seen the packet and the message before, is delivered: the sender queues a frame, the receiver
  decodes it, and every frame that decodes to the same packet up to the fields that relays rewrite
  makes the receiver report exactly this message, from this sender, to its application. Both radio
  profiles have an airtime. Only the identifier of this packet must be new to the receiver.\<close>

theorem message_delivered:
  assumes "node_ok c cfga a" "node_ok c cfgb b" "aead_law c" "session_pair a b sa sb"
    and "ncf_network_key cfga = ncf_network_key cfgb" "1 \<le> ncf_max_ttl cfga" "ncf_max_ttl cfga \<le> ncf_max_ttl cfgb"
    and "length body + TRANSPORT_OVERHEAD \<le> max_payload (ncf_network_key cfga \<noteq> None)"
    and "length (nd_tx_queue a) < ncf_max_tx_queue cfga"
    and "ncf_routing_mode cfga = Flood \<or> next_hop_for (Node_address b) t a \<noteq> None"
    and "Node_address a \<noteq> NULL" "Node_address a \<noteq> BROADCAST" "Node_address b \<noteq> NULL"
    and "next_packet_id a = Some i" "ready_for (Node_address a) i seq (max (nd_now b) (rm_timestamp_ms meta)) b"
    and "LoRaProfile_ok (ncf_profile cfga)" "LoRaProfile_ok (ncf_profile cfgb)"
  shows "\<exists>a' item p. send_session_packet c (Node_address b) Data body seq ar t a = Some (Inr (), a') \<and>
    item \<in> set (nd_tx_queue a') \<and>
    Packet_decode c (ti_frame item) (ncf_network_key cfgb) (ncf_max_ttl cfgb) = Inr p \<and>
    (\<forall>frame q. Packet_decode c frame (ncf_network_key cfgb) (ncf_max_ttl cfgb) = Inr q \<and> same_end_to_end q p \<longrightarrow>
       (\<exists>b' hops relay. on_radio_rx c frame meta b = Some b' \<and> nd_events b' = nd_events b @
          [MessageReceived (Node_address a) seq body Prot_Session hops (rm_rssi_dbm meta) (rm_snr_db meta) relay]))"
proof -
  have s: "SmallMap_get (nd_sessions a) (Node_address b) = Some sa" "se_send_ctr sa < COUNTER_REKEY_THRESHOLD"
    using assms(4) by (simp_all add: session_pair_def)
  obtain a' item p sa' where send: "send_session_packet c (Node_address b) Data body seq ar t a = Some (Inr (), a')"
      "item \<in> set (nd_tx_queue a')" and enc: "Packet_encode c p (ncf_network_key cfga) = Inr (ti_frame item)"
      "session_header_of Data (Node_address b) seq a (p_header p)"
      "Session_encrypt c t (transport_aad (p_header p) None) body sa = (sa', Inr (p_payload p))"
    using send_session_packet_single [OF assms(16,1,3) s assms(8-10)] by blast
  have cfg: "nd_cfg a = cfga" by (rule node_okD(1) [OF assms(1)])
  have len: "length (p_payload p) \<le> max_payload (Header_has (p_header p) NET_AUTH)"
    using enc(1) by (auto simp: Packet_encode_def Let_def split: if_splits)
  obtain ttl where "h_ttl (p_header p) = clamp ttl 1 (ncf_max_ttl cfga)"
    using enc(2) cfg by (auto simp: session_header_of_def)
  then have "h_ttl (p_header p) \<noteq> 0 \<and> h_ttl (p_header p) \<le> ncf_max_ttl cfga \<and> unat (h_ttl (p_header p)) \<le> 255"
    using session_ttl [OF assms(6)] by simp
  then have "Packet_ok (ncf_max_ttl cfgb) p"
    using enc(2) len assms(7,11-13) by (auto simp: Packet_ok_def Header_ok_def session_header_of_def)
  then have dec: "Packet_decode c (ti_frame item) (ncf_network_key cfgb) (ncf_max_ttl cfgb) = Inr p"
    using enc assms(5) cfg by (intro Packet_decode_encode) (simp_all add: session_header_of_def)
  show ?thesis
    using session_frame_delivered [OF assms(17,2,3,4) enc(2,3) assms(14,15)] send dec by blast
qed

subsection \<open>Two nodes with a session\<close>

lemma demo_addresses:
  "Identity_address demo_alice = addr_of (replicate 8 (checksum (ADDR_DOMAIN @ pad_to 32 [1])))"
  "Identity_address demo_bob = addr_of (replicate 8 (checksum (ADDR_DOMAIN @ pad_to 32 [2])))"
  by (simp_all add: Identity_address_def demo_alice_def demo_bob_def Identity_from_seed_def PublicIdentity_from_bytes_def
      demo_crypto_def Address_from_public_key_def demo_tag_def ADDRESS_LEN_def Let_def)

lemma replicate_numeral: "replicate (numeral k) x = x # replicate (pred_numeral k) x"
  by (simp add: numeral_eq_Suc)

lemma demo_checksums:
  "checksum (ADDR_DOMAIN @ pad_to 32 [1]) = 47" "checksum (ADDR_DOMAIN @ pad_to 32 [2]) = 14"
  by (simp_all add: checksum_def ADDR_DOMAIN_def str_bytes_def pad_to_def replicate_numeral)

lemma demo_address_facts:
  "Identity_address demo_alice \<noteq> Identity_address demo_bob" "Identity_address demo_alice \<noteq> NULL"
  "Identity_address demo_alice \<noteq> BROADCAST" "Identity_address demo_bob \<noteq> NULL" "Identity_address demo_bob \<noteq> BROADCAST"
  by (simp_all add: demo_addresses demo_checksums addr_of_def NULL_def BROADCAST_def replicate_numeral)

definition demo_config :: node_config where
  "demo_config = NodeConfig_default\<lparr>ncf_routing_mode := Flood\<rparr>"

definition demo_endpoint :: "identity \<Rightarrow> identity \<Rightarrow> bytes \<Rightarrow> bytes \<Rightarrow> node" where
  "demo_endpoint me peer send recv = (Node_new demo_config me (sconst 1) (sconst [3]) 0)
     \<lparr>nd_sessions := [(Identity_address peer,
        Session_new (id_public peer) 1 \<lparr>tk_send = send, tk_recv = recv, tk_handshake_hash = []\<rparr> 0)]\<rparr>"

lemma first_nonzero_sconst: "first_nonzero (sconst 1) = Some (1, sconst 1)"
  by (subst first_nonzero.simps) simp

lemma demo_endpoint_fields:
  "Node_address (demo_endpoint me peer k l) = Identity_address me" "nd_events (demo_endpoint me peer k l) = []"
  "nd_tx_queue (demo_endpoint me peer k l) = []" "pm_awake (nd_power (demo_endpoint me peer k l))"
  "nd_now (demo_endpoint me peer k l) = 0" "next_packet_id (demo_endpoint me peer k l) = Some 1"
  "\<exists>cap ttl. nd_seen (demo_endpoint me peer k l) = SeenCache_new cap ttl"
  "\<exists>cfg s. nd_transport (demo_endpoint me peer k l) = Transport_new cfg s"
  by (simp_all add: demo_endpoint_def Node_address_def Node_new_def Let_def PowerManager_new_def next_packet_id_def
      new_packet_id_def first_nonzero_sconst)
    blast+

lemma demo_endpoint_cfg:
  "ncf_network_key (nd_cfg (demo_endpoint me peer k l)) = None" "ncf_max_ttl (nd_cfg (demo_endpoint me peer k l)) = 64"
  "ncf_routing_mode (nd_cfg (demo_endpoint me peer k l)) = Flood" "ncf_max_tx_queue (nd_cfg (demo_endpoint me peer k l)) = 32"
  "LoRaProfile_ok (ncf_profile (nd_cfg (demo_endpoint me peer k l)))"
  by (simp_all add: demo_endpoint_def demo_config_def NodeConfig_default_def Node_new_def Let_def max_def word_le_nat_alt
      default_profile_ok)

lemma demo_endpoint_ok:
  assumes "Identity_from_seed demo_crypto seed = Some peer"
  shows "node_ok demo_crypto (nd_cfg (demo_endpoint me peer k l)) (demo_endpoint me peer k l)"
proof -
  have "RoutingConfig_ok (ncf_routing demo_config)" using default_routing_ok by (simp add: demo_config_def)
  from Node_new_ok [OF this rng_fair_sconst, of demo_crypto me "sconst [3]" 0] show ?thesis
    using identity_facts [OF demo_crypto_laws(4) assms]
    by (auto simp: demo_endpoint_def sess_fine_def sm_all_def sm_wf_def pid_ok_def Identity_address_def Session_new_def intro!: node_ok_set)
qed

lemma SmallMap_find_Nil: "SmallMap_find [] k = Inl 0"
  by (simp add: SmallMap_find_def binary_search_by_def)

lemma first_message_fresh: "snd (Transport_accept_incoming src seq now (Transport_new cfg s))"
proof -
  have "evict_min rank cap k [] = []" for rank :: "address \<times> seq_window \<times> time \<Rightarrow> time" and cap and k :: address
    unfolding evict_min_def by (simp only: min_by_key.simps option.case if_cancel)
  then show ?thesis
    by (simp add: SmallMap_find_Nil Transport_accept_incoming_def Transport_new_def SmallMap_new_def SmallMap_get_or_default_def Let_def
        insert_at_def SeqWindow_accept_def SeqWindow_default_def)
qed

lemma demo_ready:
  assumes "src \<noteq> Identity_address me" "Identity_address me \<noteq> BROADCAST"
  shows "ready_for src i seq now (demo_endpoint me peer k l)"
proof -
  obtain cap ttl cfg s where "nd_seen (demo_endpoint me peer k l) = SeenCache_new cap ttl"
      "nd_transport (demo_endpoint me peer k l) = Transport_new cfg s"
    using demo_endpoint_fields(7,8) by blast
  then show ?thesis
    using assms by (simp add: ready_for_def demo_endpoint_fields Address_is_broadcast_def SeenCache_observe_def SeenCache_new_def
        SmallMap_contains_key_def SmallMap_new_def SmallMap_find_Nil first_message_fresh split_beta)
qed

lemma demo_pair:
  "session_pair (demo_endpoint demo_alice demo_bob [1] [2]) (demo_endpoint demo_bob demo_alice [2] [1])
     (Session_new (id_public demo_bob) 1 \<lparr>tk_send = [1], tk_recv = [2], tk_handshake_hash = []\<rparr> 0)
     (Session_new (id_public demo_alice) 1 \<lparr>tk_send = [2], tk_recv = [1], tk_handshake_hash = []\<rparr> 0)"
  by (simp add: session_pair_def demo_endpoint_fields)
    (simp add: demo_endpoint_def SmallMap_get_map_of sm_wf_def Session_new_def COUNTER_REKEY_THRESHOLD_def
      ReplayWindow_new_def ReplayWindow_check_def)

theorem message_delivered_witness:
  "\<exists>a' item p. send_session_packet demo_crypto (Identity_address demo_bob) Data [104, 105] 7 True 5
       (demo_endpoint demo_alice demo_bob [1] [2]) = Some (Inr (), a') \<and>
     item \<in> set (nd_tx_queue a') \<and> Packet_decode demo_crypto (ti_frame item) None 64 = Inr p \<and>
     (\<exists>b' hops relay. on_radio_rx demo_crypto (ti_frame item) (RxMeta_new (- 90) 7 9)
        (demo_endpoint demo_bob demo_alice [2] [1]) = Some b' \<and>
        nd_events b' = [MessageReceived (Identity_address demo_alice) 7 [104, 105] Prot_Session hops (- 90) 7 relay])"
proof -
  let ?a = "demo_endpoint demo_alice demo_bob [1] [2]" and ?b = "demo_endpoint demo_bob demo_alice [2] [1]"
  have "\<exists>a' item p. send_session_packet demo_crypto (Node_address ?b) Data [104, 105] 7 True 5 ?a = Some (Inr (), a') \<and>
    item \<in> set (nd_tx_queue a') \<and>
    Packet_decode demo_crypto (ti_frame item) (ncf_network_key (nd_cfg ?b)) (ncf_max_ttl (nd_cfg ?b)) = Inr p \<and>
    (\<forall>frame q. Packet_decode demo_crypto frame (ncf_network_key (nd_cfg ?b)) (ncf_max_ttl (nd_cfg ?b)) = Inr q \<and>
       same_end_to_end q p \<longrightarrow> (\<exists>b' hops relay. on_radio_rx demo_crypto frame (RxMeta_new (- 90) 7 9) ?b = Some b' \<and>
         nd_events b' = nd_events ?b @ [MessageReceived (Node_address ?a) 7 [104, 105] Prot_Session hops
           (rm_rssi_dbm (RxMeta_new (- 90) 7 9)) (rm_snr_db (RxMeta_new (- 90) 7 9)) relay]))"
    by (rule message_delivered [OF demo_endpoint_ok demo_endpoint_ok demo_crypto_laws(1) demo_pair])
      (use demo_identities demo_address_facts in \<open>simp_all add: demo_endpoint_cfg demo_endpoint_fields demo_ready
        word_le_nat_alt TRANSPORT_OVERHEAD_def TAG_LEN_def packet_len_defs\<close>)
  moreover have "same_end_to_end p p" for p
    unfolding same_end_to_end_def
    by (rule conjI, rule refl, rule exI [of _ "h_ttl (p_header p)"], rule exI [of _ "h_hops (p_header p)"],
        rule exI [of _ "h_next_hop (p_header p)"], rule exI [of _ "h_relay (p_header p)"], simp)
  ultimately show ?thesis
    by (fastforce simp: demo_endpoint_cfg demo_endpoint_fields RxMeta_new_def)
qed

subsection \<open>A broadcast\<close>

lemma rx_broadcast:
  assumes dec: "Packet_decode c frame (ncf_network_key (nd_cfg n)) (ncf_max_ttl (nd_cfg n)) = Inr p"
    and now: "now = max (nd_now n) (rm_timestamp_ms meta)" and awake: "pm_awake (nd_power n)"
    and h: "Address_is_broadcast (h_dst (p_header p))" "\<not> Address_is_broadcast (Node_address n)"
      "h_src (p_header p) \<noteq> Node_address n" "h_ptype (p_header p) = Data" "h_hops (p_header p) = 0"
      "\<not> Header_has (p_header p) GROUP_ENCRYPTED"
    and fresh: "snd (SeenCache_observe (nd_seen n) (Header_key (p_header p)) now)" and room: "length (nd_events n) < 256"
    and prof: "LoRaProfile_ok (ncf_profile (nd_cfg n))"
  shows "\<exists>n' relay. on_radio_rx c frame meta n = Some n' \<and> nd_events n' = nd_events n @
    [MessageReceived (h_src (p_header p)) (h_seq (p_header p)) (p_payload p) Prot_Plaintext 0 (rm_rssi_dbm meta) (rm_snr_db meta) relay]"
proof -
  obtain air where "LoRaProfile_airtime_ms (ncf_profile (nd_cfg n)) (length frame) = Some air"
    by (rule airtime_ms_Some [OF prof])
  then obtain n1 where n1: "count_rx frame (n\<lparr>nd_now := now\<rparr>) = Some n1"
    by (simp add: count_rx_def count_def Let_def)
  note core = count_rx_core [OF n1]
  define src where "src = h_src (p_header p)"
  define n2 where "n2 = n1\<lparr>nd_neighbors := NeighborTable_observe_packet now src meta (nd_neighbors n1)\<rparr>"
  obtain seen where seen: "SeenCache_observe (nd_seen n) (Header_key (p_header p)) now = (seen, True)"
    using fresh by (cases "SeenCache_observe (nd_seen n) (Header_key (p_header p)) now") simp
  define n3 where "n3 = learn_reverse p (Some src) now (n2\<lparr>nd_seen := seen\<rparr>)"
  have ev: "nd_events n3 = nd_events n"
    using same_core_steps(3) [of p "Some src" now "n2\<lparr>nd_seen := seen\<rparr>"] core
    by (simp add: n3_def n2_def same_core_def)
  have dst: "h_dst (p_header p) \<noteq> Node_address n" using h(1,2) by auto
  have seen2: "nd_seen n2 = nd_seen n" using core by (simp add: n2_def)
  have adr: "Node_address n2 = Node_address n" using core by (simp add: n2_def same_core_def Node_address_def)
  have "on_radio_rx c frame meta n = rx_packet c p (Some src) meta now n2"
    unfolding on_radio_rx_def Let_def n2_def now src_def
    using dec awake h dst n1 [unfolded now] core [unfolded now] by (simp add: same_core_def Node_address_def cong: option.case_cong if_cong split del: if_split)
  also have "\<dots> = dispatch c p (Some src) meta now n3"
    unfolding rx_packet_def Let_def using h dst seen seen2 adr by (simp add: n3_def)
  also have "\<dots> = Some (maybe_relay_flood p (Some src) meta now (received src (p_payload p) Prot_Plaintext p meta n3))"
    using h by (simp add: dispatch_def handle_broadcast_data_def Let_def src_def)
  finally have rx: "on_radio_rx c frame meta n = \<dots>" .
  have "nd_events (maybe_relay_flood p (Some src) meta now m) = nd_events m" for m
    using fw.maybe_relay_flood_quiet [of m "nd_events m" "nd_cfg m" "nd_id m"] by simp
  then show ?thesis using rx received_event [of n3 src "p_payload p" Prot_Plaintext p meta] room h(5) by (auto simp: ev src_def)
qed

definition demo_broadcast :: packet where
  "demo_broadcast = \<lparr>p_header = Header_new Data (Identity_address demo_bob) BROADCAST 77 5 3, p_payload = [104, 105]\<rparr>"

definition demo_frame :: bytes where
  "demo_frame = Header_write (p_header demo_broadcast) 2 @ [104, 105]"

lemma demo_frame_decodes: "Packet_decode c demo_frame None 64 = Inr demo_broadcast"
proof (rule Packet_decode_encode)
  show "Packet_ok 64 demo_broadcast"
    using demo_address_facts by (simp add: Packet_ok_def Header_ok_def demo_broadcast_def Header_new_def Header_has_def
        packet_len_defs word_le_nat_alt NULL_def BROADCAST_def)
  show "Packet_encode c demo_broadcast None = Inr demo_frame"
    by (simp add: Packet_encode_def demo_frame_def demo_broadcast_def Header_new_def Header_has_def packet_len_defs)
qed simp

theorem messages_authentic_witness:
  "\<exists>n' relay. node_step demo_crypto (OpRx demo_frame (RxMeta_new (- 90) 7 9))
       (Node_new NodeConfig_default demo_alice (sconst 1) (sconst [3]) 0) = Some n' \<and>
     nd_events n' = [MessageReceived (Identity_address demo_bob) 5 [104, 105] Prot_Plaintext 0 (- 90) 7 relay] \<and>
     authentic demo_crypto (Node_new NodeConfig_default demo_alice (sconst 1) (sconst [3]) 0) demo_broadcast 9
       (MessageReceived (Identity_address demo_bob) 5 [104, 105] Prot_Plaintext 0 (- 90) 7 relay)"
proof -
  let ?n = "Node_new NodeConfig_default demo_alice (sconst 1) (sconst [3]) 0" and ?m = "RxMeta_new (- 90) 7 9"
  have f: "ncf_network_key (nd_cfg ?n) = None" "ncf_max_ttl (nd_cfg ?n) = 64" "nd_now ?n = 0" "nd_events ?n = []"
      "pm_awake (nd_power ?n)" "Node_address ?n = Identity_address demo_alice" "LoRaProfile_ok (ncf_profile (nd_cfg ?n))" "\<exists>cap ttl. nd_seen ?n = SeenCache_new cap ttl"
    by (simp_all add: default_profile_ok Node_new_def NodeConfig_default_def Let_def max_def word_le_nat_alt PowerManager_new_def Node_address_def)
      blast
  have dec: "Packet_decode demo_crypto demo_frame (ncf_network_key (nd_cfg ?n)) (ncf_max_ttl (nd_cfg ?n)) = Inr demo_broadcast"
    by (simp add: f demo_frame_decodes)
  have "\<exists>n' relay. on_radio_rx demo_crypto demo_frame ?m ?n = Some n' \<and> nd_events n' = nd_events ?n @
    [MessageReceived (h_src (p_header demo_broadcast)) (h_seq (p_header demo_broadcast)) (p_payload demo_broadcast)
      Prot_Plaintext 0 (rm_rssi_dbm ?m) (rm_snr_db ?m) relay]"
    by (rule rx_broadcast [OF dec refl])
      (use f demo_address_facts in \<open>auto simp: demo_broadcast_def Header_new_def Header_has_def Address_is_broadcast_def
        SeenCache_observe_def SeenCache_new_def SmallMap_contains_key_def SmallMap_new_def SmallMap_find_Nil split_beta\<close>)
  then obtain n' relay where r: "node_step demo_crypto (OpRx demo_frame ?m) ?n = Some n'"
      "nd_events n' = [MessageReceived (Identity_address demo_bob) 5 [104, 105] Prot_Plaintext 0 (- 90) 7 relay]"
    by (auto simp: f demo_broadcast_def Header_new_def RxMeta_new_def)
  have run: "ofold (node_step demo_crypto) [] ?n = Some ?n" by simp
  from messages_authentic [OF default_routing_ok rng_fair_sconst run r(1)] r dec
  have "authentic demo_crypto ?n demo_broadcast 9
      (MessageReceived (Identity_address demo_bob) 5 [104, 105] Prot_Plaintext 0 (- 90) 7 relay)"
    by (fastforce simp: f RxMeta_new_def)
  then show ?thesis using r by blast
qed

end
