(* ===== verification/Relay_Delivery.thy ===== *)
theory Relay_Delivery
  imports Relay_Safe Node_Delivery
begin

section \<open>Delivery through a relay\<close>

text \<open>
  A node, a relay and a second node: the relay forwards what the first node sends in a session, and
  the second node delivers it.
\<close>

subsection \<open>A relay forwards\<close>

text \<open>
  A relay that has not seen the packet \<open>i\<close> of its neighbour \<open>src\<close>, has a way to \<open>dst\<close> that does not lead
  back, room to queue a frame and a radio profile with an airtime.
\<close>

definition relays_between :: "address \<Rightarrow> address \<Rightarrow> u32 \<Rightarrow> rx_meta \<Rightarrow> relay \<Rightarrow> bool" where
  "relays_between src dst i meta r \<longleftrightarrow>
     (let now = max (rl_now r) (rm_timestamp_ms meta);
          r1 = r\<lparr>rl_neighbors := NeighborTable_observe_packet now src meta (rl_neighbors r)\<rparr>
      in src \<noteq> Relay_address r \<and> dst \<noteq> Relay_address r \<and> \<not> Address_is_broadcast dst \<and>
         NeighborTable_contains (rl_neighbors r1) src \<and> Relay_hosted_asleep dst now r1 = None \<and>
         (\<exists>nh. Relay_next_hop_for dst now r1 = Some nh \<and> nh \<noteq> src) \<and>
         snd (SeenCache_observe (rl_seen r) \<lparr>pk_src = src, pk_id = i\<rparr> now) \<and>
         length (rl_tx_queue r) < rlc_max_tx_queue (rl_cfg r) \<and> LoRaProfile_ok (rlc_profile (rl_cfg r)))"

text \<open>The packet that goes out.\<close>

definition forwarded :: "address \<Rightarrow> u16 \<Rightarrow> packet \<Rightarrow> packet" where
  "forwarded me nh p = p\<lparr>p_header := (hop_header (p_header p) nh)\<lparr>h_relay := Address_short me\<rparr>\<rparr>"

lemma forwarded_same: "same_end_to_end (forwarded me nh p) p"
  by (auto simp: forwarded_def hop_header_def same_end_to_end_def)

lemma forwarded_ok:
  assumes "Packet_ok m p" "1 < h_ttl (p_header p)" "h_hops (p_header p) = 0"
  shows "Packet_ok m (forwarded me nh p)"
proof -
  let ?t = "h_ttl (p_header p)"
  have t: "unat (?t - 1) = unat ?t - 1" "1 < unat ?t" "?t - 1 \<noteq> 0"
    using assms(2) by (auto simp: word_less_nat_alt unat_sub_if')
  have "?t - 1 \<le> ?t" using t(1) by (simp add: word_le_nat_alt)
  moreover have "sat_add 0 1 = (1 :: u8)" by (simp add: sat_add_def)
  ultimately show ?thesis
    using assms t by (auto simp: Packet_ok_def Header_ok_def forwarded_def hop_header_def Header_has_def)
qed

lemma relay_enqueue_queues:
  assumes "Packet_encode c p (rlc_network_key (rl_cfg r)) = Inr frame" "length (rl_tx_queue r) < rlc_max_tx_queue (rl_cfg r)"
  shows "\<exists>item \<in> set (rl_tx_queue (snd (Relay_enqueue c p t pr b r))). ti_frame item = frame"
  using assms by (simp add: Relay_enqueue_def tx_queue_room_def Let_def)

lemma relay_hop_frame:
  "Relay_next_hop_for dst now (r\<lparr>rl_now := a, rl_stats := s, rl_airtime_ms := t, rl_neighbors := nt, rl_seen := sc\<rparr>)
     = Relay_next_hop_for dst now (r\<lparr>rl_neighbors := nt\<rparr>)"
  "Relay_hosted_asleep dst now (r\<lparr>rl_now := a, rl_stats := s, rl_airtime_ms := t, rl_neighbors := nt, rl_seen := sc\<rparr>)
     = Relay_hosted_asleep dst now (r\<lparr>rl_neighbors := nt\<rparr>)"
  by (simp_all add: Relay_next_hop_for_def Relay_hosted_asleep_def Let_def cong: option.case_cong if_cong split del: if_split)

lemma relay_track_hop_returns:
  assumes "LoRaProfile_ok (rlc_profile (rl_cfg r))"
  shows "\<exists>m. Relay_track_hop p nh now r = Some m \<and> rl_cfg m = rl_cfg r \<and> rl_tx_queue m = rl_tx_queue r"
  using assms relay_timeout_None [of "rl_cfg r" "Packet_wire_len p"]
  by (auto simp: Relay_track_hop_def Relay_next_u64_def Let_def)

lemma forward_unicast_queues:
  assumes nh: "Relay_next_hop_for (h_dst (p_header p)) now r = Some nh" "Some nh \<noteq> prev"
    and awake: "Relay_hosted_asleep (h_dst (p_header p)) now r = None"
    and h: "h_ptype (p_header p) = Data" "1 < h_ttl (p_header p)"
      "h_next_hop (p_header p) = NEXT_HOP_ANY \<or> h_next_hop (p_header p) = Address_short (Relay_address r)"
    and room: "length (rl_tx_queue r) < rlc_max_tx_queue (rl_cfg r)" and prof: "LoRaProfile_ok (rlc_profile (rl_cfg r))"
    and enc: "Packet_encode c (forwarded (Relay_address r) (Address_short nh) p) (rlc_network_key (rl_cfg r)) = Inr frame"
  shows "\<exists>r' item. Relay_forward_unicast c p prev now r = Some r' \<and> item \<in> set (rl_tx_queue r') \<and> ti_frame item = frame"
proof -
  let ?q = "forwarded (Relay_address r) (Address_short nh) p"
  have stamp: "trace_stamp me ?q = ?q" for me using h(1) by (simp add: trace_stamp_def forwarded_def hop_header_def)
  define r1 where "r1 = snd (Relay_next_u32 (r\<lparr>rl_routes := RouteCache_touch (rl_routes r) (h_dst (p_header p)) nh now\<rparr>))"
  have r1: "rl_cfg r1 = rl_cfg r" "rl_tx_queue r1 = rl_tx_queue r" by (simp_all add: r1_def Relay_next_u32_def)
  have "\<exists>t. Relay_forward_unicast c p prev now r =
      Relay_track_hop ?q nh t r1 \<bind> (\<lambda>r. Some (snd (Relay_enqueue c ?q t prio_DATA True r)))"
    using nh awake h stamp
    by (auto simp: Relay_forward_unicast_def Let_def split_beta r1_def forwarded_def [symmetric] not_le)
  then obtain t where t: "Relay_forward_unicast c p prev now r =
      Relay_track_hop ?q nh t r1 \<bind> (\<lambda>r. Some (snd (Relay_enqueue c ?q t prio_DATA True r)))" by blast
  obtain m where "Relay_track_hop ?q nh t r1 = Some m" "rl_cfg m = rl_cfg r" "rl_tx_queue m = rl_tx_queue r"
    using relay_track_hop_returns [of r1 ?q nh t] prof r1 by auto
  then show ?thesis using t relay_enqueue_queues [of c ?q m frame t] enc room by auto
qed

lemma relay_forwards:
  assumes dec: "Packet_decode c frame (rlc_network_key (rl_cfg r)) (rlc_max_ttl (rl_cfg r)) = Inr p"
    and rel: "relays_between (h_src (p_header p)) (h_dst (p_header p)) (h_packet_id (p_header p)) meta r"
    and h: "h_ptype (p_header p) = Data" "h_hops (p_header p) = 0" "1 < h_ttl (p_header p)"
      "h_next_hop (p_header p) = NEXT_HOP_ANY \<or> h_next_hop (p_header p) = Address_short (Relay_address r)"
    and auth: "Header_has (p_header p) NET_AUTH \<longrightarrow> rlc_network_key (rl_cfg r) \<noteq> None"
  shows "\<exists>r' item nh. Relay_on_radio_rx c frame meta r = Some r' \<and> item \<in> set (rl_tx_queue r') \<and>
    Packet_encode c (forwarded (Relay_address r) nh p) (rlc_network_key (rl_cfg r)) = Inr (ti_frame item)"
proof -
  define now where "now = max (rl_now r) (rm_timestamp_ms meta)"
  define src where "src = h_src (p_header p)"
  define nt where "nt = NeighborTable_observe_packet now src meta (rl_neighbors r)"
  obtain nh where nh: "Relay_next_hop_for (h_dst (p_header p)) now (r\<lparr>rl_neighbors := nt\<rparr>) = Some nh" "nh \<noteq> src"
    and awake: "Relay_hosted_asleep (h_dst (p_header p)) now (r\<lparr>rl_neighbors := nt\<rparr>) = None"
    and con: "NeighborTable_contains nt src" and room: "length (rl_tx_queue r) < rlc_max_tx_queue (rl_cfg r)"
    and adr: "src \<noteq> Relay_address r" "h_dst (p_header p) \<noteq> Relay_address r" "\<not> Address_is_broadcast (h_dst (p_header p))"
    and prof: "LoRaProfile_ok (rlc_profile (rl_cfg r))"
    and fresh: "snd (SeenCache_observe (rl_seen r) \<lparr>pk_src = src, pk_id = h_packet_id (p_header p)\<rparr> now)"
    using rel by (auto simp: relays_between_def Let_def now_def src_def nt_def)
  obtain sc where sc: "SeenCache_observe (rl_seen r) (Header_key (p_header p)) now = (sc, True)"
    using fresh by (cases "SeenCache_observe (rl_seen r) (Header_key (p_header p)) now") (simp add: Header_key_def src_def)
  define st where "st = rst_rx_packets_update (\<lambda>x. x + 1) (rl_stats r)"
  obtain t where t: "LoRaProfile_airtime_ms (rlc_profile (rl_cfg r)) (length frame) = Some t"
    by (rule airtime_ms_Some [OF prof])
  define air where "air = rl_airtime_ms r + ucast t"
  let ?r2 = "r\<lparr>rl_now := now, rl_stats := st, rl_airtime_ms := air, rl_neighbors := nt, rl_seen := sc\<rparr>"
  let ?q = "forwarded (Relay_address r) (Address_short nh) p"
  have "Relay_on_radio_rx c frame meta r = Relay_rx_packet c p (Some src) meta now
      (r\<lparr>rl_now := now, rl_stats := st, rl_airtime_ms := air, rl_neighbors := nt\<rparr>)"
    unfolding Relay_on_radio_rx_def Let_def now_def src_def nt_def st_def air_def
    using dec adr h t
    by (simp add: tally_def Relay_address_def src_def cong: option.case_cong if_cong split del: if_split)
  also have "\<dots> = Relay_dispatch c p (Some src) meta now (Relay_learn_reverse p (Some src) now ?r2)"
    using h sc by (simp add: Relay_rx_packet_def Let_def)
  also have "Relay_learn_reverse p (Some src) now ?r2 = ?r2"
    using con by (simp add: Relay_learn_reverse_def src_def Let_def)
  also have "Relay_dispatch c p (Some src) meta now ?r2 = Relay_forward_unicast c p (Some src) now ?r2"
    using h adr by (simp add: Relay_dispatch_def Relay_address_def Let_def)
  finally have rx: "Relay_on_radio_rx c frame meta r = Relay_forward_unicast c p (Some src) now ?r2" .
  have "Packet_ok (rlc_max_ttl (rl_cfg r)) ?q" using forwarded_ok Packet_decode_Inr(1) [OF dec] h by blast
  then obtain f where f: "Packet_encode c ?q (rlc_network_key (rl_cfg r)) = Inr f"
    using auth by (auto simp: Packet_encode_def Packet_ok_def Let_def forwarded_def hop_header_def Header_has_def)
  have "\<exists>r' item. Relay_forward_unicast c p (Some src) now ?r2 = Some r' \<and> item \<in> set (rl_tx_queue r') \<and> ti_frame item = f"
    using nh awake h room f prof
    by (intro forward_unicast_queues) (simp_all add: relay_hop_frame Relay_address_def)
  then show ?thesis using f unfolding rx by auto
qed

subsection \<open>From node to node\<close>


subsection \<open>Two nodes and a relay between them\<close>

definition demo_hub :: relay where
  "demo_hub = (Relay_with_identity (RelayConfig_default\<lparr>rlc_max_ttl := 64\<rparr>) (UnsignedIdentity (Address 1 2 3 4 5 6 7 8)) (sconst 1) 0)
     \<lparr>rl_neighbors := \<lparr>nt_cfg = NeighborConfig_default, nt_map =
        sm_put (sm_put [] (Identity_address demo_alice) (Neighbor_new (Identity_address demo_alice) Normal 0 (RxMeta_new (- 90) 7 0)))
          (Identity_address demo_bob) (Neighbor_new (Identity_address demo_bob) Normal 0 (RxMeta_new (- 90) 7 0)),
        nt_rejected_beacons = 0\<rparr>\<rparr>"

lemma demo_hub_fields:
  "rl_cfg demo_hub = RelayConfig_default\<lparr>rlc_max_ttl := 64\<rparr>" "Relay_address demo_hub = Address 1 2 3 4 5 6 7 8"
  "rl_now demo_hub = 0" "rl_tx_queue demo_hub = []" "zt_nodes (rl_zone demo_hub) = []" "rt_routes (rl_routes demo_hub) = []"
  "\<exists>cap ttl. rl_seen demo_hub = SeenCache_new cap ttl"
  "nt_map (rl_neighbors demo_hub) =
     sm_put (sm_put [] (Identity_address demo_alice) (Neighbor_new (Identity_address demo_alice) Normal 0 (RxMeta_new (- 90) 7 0)))
       (Identity_address demo_bob) (Neighbor_new (Identity_address demo_bob) Normal 0 (RxMeta_new (- 90) 7 0))"
  by (simp_all add: demo_hub_def Relay_with_identity_def Relay_address_def Let_def ZoneTable_new_def RouteCache_new_def SmallMap_new_def)
    blast

lemma demo_hub_relays: "relays_between (Identity_address demo_alice) (Identity_address demo_bob) i meta demo_hub"
proof -
  let ?a = "Identity_address demo_alice" and ?b = "Identity_address demo_bob"
  define now where "now = max (rl_now demo_hub) (rm_timestamp_ms meta)"
  define nt where "nt = NeighborTable_observe_packet now ?a meta (rl_neighbors demo_hub)"
  define nb where "nb = Neighbor_new ?b Normal 0 (RxMeta_new (- 90) 7 0)"
  have m: "sm_wf (nt_map nt)" "map_of (nt_map nt) ?b = Some nb" "map_of (nt_map nt) ?a \<noteq> None"
    using demo_address_facts(1)
    by (simp_all add: nt_def NeighborTable_observe_packet_def NeighborTable_update_def demo_hub_fields SmallMap_modify_map_of nb_def)
  then have get: "NeighborTable_get nt ?b = Some nb" "NeighborTable_contains nt ?a"
    by (simp_all add: NeighborTable_get_def NeighborTable_contains_def SmallMap_get_map_of SmallMap_contains_map_of)
  have awake: "\<not> Neighbor_is_sleeping now nb" by (simp add: nb_def Neighbor_new_def Neighbor_is_sleeping_def Neighbor_is_leaf_def)
  have hop: "Relay_next_hop_for ?b now (demo_hub\<lparr>rl_neighbors := nt\<rparr>) = Some ?b"
    using get awake by (simp add: Relay_next_hop_for_def ZoneTable_get_def RouteCache_lookup_def demo_hub_fields SmallMap_get_def
        SmallMap_find_Nil consider_hop_def Let_def)
  have asleep: "Relay_hosted_asleep ?b now (demo_hub\<lparr>rl_neighbors := nt\<rparr>) = None"
    using get awake by (simp add: Relay_hosted_asleep_def)
  have adr: "?a \<noteq> Address 1 2 3 4 5 6 7 8" "?b \<noteq> Address 1 2 3 4 5 6 7 8"
    by (simp_all add: demo_addresses demo_checksums addr_of_def replicate_numeral)
  obtain cap ttl where seen: "rl_seen demo_hub = SeenCache_new cap ttl" using demo_hub_fields(7) by blast
  have "snd (SeenCache_observe (SeenCache_new cap ttl) k now)" for k
    by (simp add: SeenCache_observe_def SeenCache_new_def SmallMap_contains_key_def SmallMap_new_def SmallMap_find_Nil split_beta)
  then show ?thesis
    unfolding relays_between_def Let_def now_def [symmetric] nt_def [symmetric]
    using adr hop asleep get demo_address_facts seen
    by (simp add: demo_hub_fields RelayConfig_default_def Address_is_broadcast_def default_profile_ok)
qed


end
